(* ===== verification/Anchor_Prelude.thy ===== *)
theory Anchor_Prelude
  imports Main "HOL-Library.Word"
begin

text \<open>
  Shared vocabulary of the development: the machine types of the Rust sources, the result types
  of fallible and of panicking code, the ordered map behind \<open>BTreeMap\<close>, little-endian byte
  encodings, and the generic laws (quorum intersection, invariants of a run) that several
  components use. Interfaces are stated as locales and interpreted on the definitions that
  provide them.
\<close>

section \<open>Machine types and results\<close>

type_synonym byte = "8 word"
type_synonym bytes = "8 word list"
type_synonym u64 = "64 word"
type_synonym hash256 = bytes
type_synonym operator_id = u64
type_synonym slot = u64
type_synonym epoch = u64
type_synonym validator_index = u64

text \<open>
  \<open>outcome\<close> is the result of Rust code that returns a \<open>Result\<close> and can also panic
  (an \<open>expect\<close> that fails). Code that mutates \<open>&mut self\<close> returns the state beside it:
  what was written before an error stays written.
\<close>

datatype ('a, 'e) outcome = Ok 'a | Err 'e | Panic

definition and_then :: "'s \<times> ('a, 'e) outcome \<Rightarrow> ('s \<Rightarrow> 'a \<Rightarrow> 's \<times> ('b, 'e) outcome) \<Rightarrow> 's \<times> ('b, 'e) outcome" where
  "and_then r f =
     (case r of
        (s, Ok a) \<Rightarrow> f s a
      | (s, Err e) \<Rightarrow> (s, Err e)
      | (s, Panic) \<Rightarrow> (s, Panic))"

named_theorems outcome_simps
named_theorems inv_intros

lemma and_then_simps [simp, outcome_simps]:
  "and_then (s, Ok a) f = f s a"
  "and_then (s, Err e) f = (s, Err e)"
  "and_then (s, Panic) f = (s, Panic)"
  by (simp_all add: and_then_def)

lemma and_then_Ok_iff:
  "and_then r f = (s', Ok b) \<longleftrightarrow> (\<exists>s a. r = (s, Ok a) \<and> f s a = (s', Ok b))"
  by (cases r; cases "snd r") (auto simp: and_then_def split: outcome.splits)

text \<open>The \<open>?\<close> operator on code without \<open>&mut\<close> that can panic.\<close>

definition bindO :: "('a, 'e) outcome \<Rightarrow> ('a \<Rightarrow> ('b, 'e) outcome) \<Rightarrow> ('b, 'e) outcome" where
  "bindO r f = (case r of Ok a \<Rightarrow> f a | Err e \<Rightarrow> Err e | Panic \<Rightarrow> Panic)"

lemma bindO_simps [simp, outcome_simps]:
  "bindO (Ok a) f = f a" "bindO (Err e) f = Err e" "bindO Panic f = Panic"
  by (simp_all add: bindO_def)

lemma bindO_Ok_iff: "bindO r f = Ok b \<longleftrightarrow> (\<exists>a. r = Ok a \<and> f a = Ok b)"
  by (cases r) auto

lemma bindO_Panic_iff: "bindO r f = Panic \<longleftrightarrow> r = Panic \<or> (\<exists>a. r = Ok a \<and> f a = Panic)"
  by (cases r) auto

definition guardO :: "bool \<Rightarrow> 'e \<Rightarrow> (unit, 'e) outcome" where
  "guardO ok e = (if ok then Ok () else Err e)"

lemma guardO_iff [simp]:
  "guardO ok e = Ok u \<longleftrightarrow> ok" "guardO ok e \<noteq> Panic" "guardO ok e = Err e' \<longleftrightarrow> \<not> ok \<and> e' = e"
  by (auto simp: guardO_def)

definition ok_or :: "'e \<Rightarrow> 'a option \<Rightarrow> ('a, 'e) outcome" where
  "ok_or e x = (case x of None \<Rightarrow> Err e | Some a \<Rightarrow> Ok a)"

lemma ok_or_iff [simp]: "ok_or e x = Ok a \<longleftrightarrow> x = Some a" "ok_or e x \<noteq> Panic"
  by (auto simp: ok_or_def split: option.splits)

definition expect :: "'a option \<Rightarrow> ('a, 'e) outcome" where
  "expect x = (case x of None \<Rightarrow> Panic | Some a \<Rightarrow> Ok a)"

lemma expect_iff [simp]: "expect x = Ok a \<longleftrightarrow> x = Some a" "expect x \<noteq> Err e" "expect x = Panic \<longleftrightarrow> x = None"
  by (auto simp: expect_def split: option.splits)

definition map_err :: "('e \<Rightarrow> 'f) \<Rightarrow> 'e + 'a \<Rightarrow> ('a, 'f) outcome" where
  "map_err g r = (case r of Inl e \<Rightarrow> Err (g e) | Inr a \<Rightarrow> Ok a)"

lemma map_err_iff [simp]: "map_err g r = Ok a \<longleftrightarrow> r = Inr a" "map_err g r \<noteq> Panic"
  by (auto simp: map_err_def split: sum.splits)

fun for_each_o :: "('a \<Rightarrow> (unit, 'e) outcome) \<Rightarrow> 'a list \<Rightarrow> (unit, 'e) outcome" where
  "for_each_o f [] = Ok ()"
| "for_each_o f (x # xs) = bindO (f x) (\<lambda>_. for_each_o f xs)"

lemma for_each_o_Ok_iff: "for_each_o f xs = Ok u \<longleftrightarrow> (\<forall>x \<in> set xs. f x = Ok ())"
  by (induction xs) (auto simp: bindO_Ok_iff)

text \<open>A \<open>for\<close> loop over \<open>&mut\<close> state.\<close>

fun for_each_s :: "('s \<Rightarrow> 'a \<Rightarrow> 's \<times> (unit, 'e) outcome) \<Rightarrow> 's \<Rightarrow> 'a list \<Rightarrow> 's \<times> (unit, 'e) outcome" where
  "for_each_s f s [] = (s, Ok ())"
| "for_each_s f s (x # xs) = and_then (f s x) (\<lambda>s' _. for_each_s f s' xs)"

text \<open>Where a panic comes from; the components collect in \<open>no_panic\<close> what does not.\<close>

named_theorems no_panic

lemma and_then_Panic:
  "snd (and_then r f) = Panic \<longleftrightarrow> snd r = Panic \<or> (\<exists>s a. r = (s, Ok a) \<and> snd (f s a) = Panic)"
  by (cases r; cases "snd r") auto

lemma for_each_o_Panic: "for_each_o f xs = Panic \<Longrightarrow> \<exists>x \<in> set xs. f x = Panic"
  by (induction xs) (auto simp: bindO_Panic_iff)

lemma for_each_s_Panic:
  "snd (for_each_s f s xs) = Panic \<Longrightarrow> \<exists>s x. x \<in> set xs \<and> snd (f s x) = Panic"
  by (induction xs arbitrary: s) (auto simp: and_then_Panic, (metis snd_conv)+)

text \<open>The \<open>?\<close> operator on a pure \<open>Result\<close>.\<close>

definition bindR :: "'e + 'a \<Rightarrow> ('a \<Rightarrow> 'e + 'b) \<Rightarrow> 'e + 'b" where
  "bindR r f = (case r of Inl e \<Rightarrow> Inl e | Inr a \<Rightarrow> f a)"

lemma bindR_simps [simp]: "bindR (Inl e) f = Inl e" "bindR (Inr a) f = f a"
  by (simp_all add: bindR_def)

lemma bindR_Inr_iff: "bindR r f = Inr b \<longleftrightarrow> (\<exists>a. r = Inr a \<and> f a = Inr b)"
  by (cases r) auto

definition guardR :: "bool \<Rightarrow> 'e \<Rightarrow> 'e + unit" where
  "guardR ok e = (if ok then Inr () else Inl e)"

lemma guardR_Inr_iff [simp]: "guardR ok e = Inr u \<longleftrightarrow> ok"
  by (simp add: guardR_def)

lemma guardR_True [simp]: "guardR True e = Inr ()"
  by (simp add: guardR_def)

lemma guardR_False [simp]: "guardR False e = Inl e"
  by (simp add: guardR_def)

text \<open>\<open>try_for_each\<close> and the \<open>for\<close> loops whose body is left by \<open>?\<close>.\<close>

fun try_for_each :: "('a \<Rightarrow> 'e + unit) \<Rightarrow> 'a list \<Rightarrow> 'e + unit" where
  "try_for_each f [] = Inr ()"
| "try_for_each f (x # xs) = bindR (f x) (\<lambda>_. try_for_each f xs)"

lemma try_for_each_Inr_iff: "try_for_each f xs = Inr u \<longleftrightarrow> (\<forall>x \<in> set xs. f x = Inr ())"
  by (induction xs) (auto simp: bindR_Inr_iff)

text \<open>\<open>iter().map(f).collect::<Result<Vec<_>, _>>()\<close>: the first error wins.\<close>

fun collect_results :: "('a \<Rightarrow> 'e + 'b) \<Rightarrow> 'a list \<Rightarrow> 'e + 'b list" where
  "collect_results f [] = Inr []"
| "collect_results f (x # xs) = bindR (f x) (\<lambda>y. bindR (collect_results f xs) (\<lambda>ys. Inr (y # ys)))"

lemma collect_results_Inr_iff:
  "collect_results f xs = Inr ys \<longleftrightarrow> list_all2 (\<lambda>x y. f x = Inr y) xs ys"
proof (induction xs arbitrary: ys)
  case Nil
  then show ?case by auto
next
  case (Cons x xs)
  then show ?case by (auto simp: bindR_Inr_iff list_all2_Cons1)
qed

definition option_to_result :: "'e \<Rightarrow> 'a option \<Rightarrow> 'e + 'a" where
  "option_to_result e x = (case x of None \<Rightarrow> Inl e | Some a \<Rightarrow> Inr a)"

lemma option_to_result_simps [simp]:
  "option_to_result e None = Inl e"
  "option_to_result e (Some a) = Inr a"
  by (simp_all add: option_to_result_def)

lemma option_to_result_Inr_iff [simp]: "option_to_result e x = Inr a \<longleftrightarrow> x = Some a"
  by (cases x) auto

section \<open>Words\<close>

lemma word_less_Suc:
  fixes w :: u64
  assumes "w \<noteq> - 1"
  shows "w < w + 1"
proof -
  have "unat w \<noteq> unat (- 1 :: u64)" using assms by (simp only: word_unat_eq_iff not_False_eq_True)
  moreover have "unat (- 1 :: u64) = 2 ^ 64 - 1" by (simp add: unsigned_minus_1_eq_mask mask_eq_exp_minus_1)
  moreover have "unat w < 2 ^ 64" using unsigned_less [of w] by simp
  ultimately have "unat w + unat (1 :: u64) < 2 ^ 64" by simp
  then have "unat (w + 1) = unat w + 1" by (simp add: unat_word_ariths)
  then show ?thesis by (simp add: word_less_nat_alt)
qed

text \<open>\<open>usize::checked_add\<close> on the 64-bit target.\<close>

definition checked_add :: "u64 \<Rightarrow> u64 \<Rightarrow> u64 option" where
  "checked_add a b = (if unat a + unat b < 2 ^ 64 then Some (a + b) else None)"

lemma unat_add_u64:
  fixes a b :: u64
  assumes "unat a + unat b < 2 ^ 64"
  shows "unat (a + b) = unat a + unat b"
  using assms by (simp add: unat_word_ariths)

lemma checked_add_Some:
  assumes "checked_add a b = Some c"
  shows "unat c = unat a + unat b"
  using assms by (auto simp: checked_add_def unat_add_u64 split: if_splits)

section \<open>Little-endian integers\<close>

text \<open>\<open>to_le_bytes\<close> and \<open>from_le_bytes\<close> of the standard library, for a width of \<open>k\<close> bytes.\<close>

fun le_bytes :: "nat \<Rightarrow> nat \<Rightarrow> bytes" where
  "le_bytes 0 n = []"
| "le_bytes (Suc k) n = of_nat (n mod 256) # le_bytes k (n div 256)"

fun le_value :: "bytes \<Rightarrow> nat" where
  "le_value [] = 0"
| "le_value (b # bs) = unat b + 256 * le_value bs"

definition u64_to_le_bytes :: "u64 \<Rightarrow> bytes" where
  "u64_to_le_bytes w = le_bytes 8 (unat w)"

definition u64_from_le_bytes :: "bytes \<Rightarrow> u64" where
  "u64_from_le_bytes bs = of_nat (le_value bs)"

lemma length_le_bytes [simp]: "length (le_bytes k n) = k"
  by (induction k arbitrary: n) auto

lemma le_value_le_bytes: "le_value (le_bytes k n) = n mod 256 ^ k"
proof (induction k arbitrary: n)
  case 0
  then show ?case by simp
next
  case (Suc k)
  have "unat (of_nat (n mod 256) :: byte) = n mod 256"
    by (simp add: unat_of_nat)
  then show ?case
    by (simp add: Suc mod_mult2_eq add.commute)
qed

lemma le_bytes_le_value: "length bs = k \<Longrightarrow> le_bytes k (le_value bs) = bs"
proof (induction bs arbitrary: k)
  case Nil
  then show ?case by simp
next
  case (Cons b bs)
  have b: "unat b < 256" using unsigned_less [of b] by simp
  from b Cons show ?case by (cases k) auto
qed

lemma u64_le_roundtrip [simp]: "u64_from_le_bytes (u64_to_le_bytes w) = w"
proof -
  have "unat w < 256 ^ 8" using unsigned_less [of w] by simp
  then show ?thesis
    by (simp add: u64_from_le_bytes_def u64_to_le_bytes_def le_value_le_bytes)
qed

lemma le_value_less: "le_value bs < 256 ^ length bs"
proof (induction bs)
  case Nil
  then show ?case by simp
next
  case (Cons b bs)
  have "unat b < 256" using unsigned_less [of b] by simp
  moreover have "Suc (le_value bs) \<le> 256 ^ length bs" using Cons by simp
  then have "256 * Suc (le_value bs) \<le> 256 * 256 ^ length bs" by (rule mult_le_mono2)
  ultimately show ?case by simp
qed

lemma u64_bytes_roundtrip: "length bs = 8 \<Longrightarrow> u64_to_le_bytes (u64_from_le_bytes bs) = bs"
proof -
  assume len: "length bs = 8"
  then have "le_value bs < 2 ^ 64" using le_value_less [of bs] by simp
  then have "unat (of_nat (le_value bs) :: u64) = le_value bs"
    by (simp add: unat_of_nat)
  then show ?thesis
    using len by (simp add: u64_to_le_bytes_def u64_from_le_bytes_def le_bytes_le_value)
qed

lemma length_u64_to_le_bytes [simp]: "length (u64_to_le_bytes w) = 8"
  by (simp add: u64_to_le_bytes_def)

section \<open>Ordered maps\<close>

text \<open>
  The interface of \<open>BTreeMap\<close> the sources rely on: lookup, insertion (which replaces) and
  iteration in ascending key order from a lower bound.
\<close>

locale ordered_map =
  fixes empty :: "'m"
    and get :: "'m \<Rightarrow> 'k::linorder \<Rightarrow> 'v option"
    and ins :: "'k \<Rightarrow> 'v \<Rightarrow> 'm \<Rightarrow> 'm"
    and range_from :: "'k \<Rightarrow> 'm \<Rightarrow> ('k \<times> 'v) list"
    and wf :: "'m \<Rightarrow> bool"
  assumes get_empty: "get empty k = None"
    and wf_empty: "wf empty"
    and get_ins: "get (ins k v m) k' = (if k' = k then Some v else get m k')"
    and wf_ins: "wf m \<Longrightarrow> wf (ins k v m)"
    and range_set: "wf m \<Longrightarrow> set (range_from k m) = {(k', v). k \<le> k' \<and> get m k' = Some v}"
    and range_sorted: "wf m \<Longrightarrow> sorted_wrt (<) (map fst (range_from k m))"
begin

lemma range_head_least:
  assumes "wf m" and "range_from k m = (k0, v0) # rest"
  shows "k \<le> k0" and "get m k0 = Some v0"
    and "\<And>k' v. k \<le> k' \<Longrightarrow> get m k' = Some v \<Longrightarrow> k0 \<le> k'"
proof -
  show "k \<le> k0" and "get m k0 = Some v0"
    using range_set [OF assms(1), of k] assms(2) by auto
  fix k' v
  assume "k \<le> k'" "get m k' = Some v"
  then have "(k', v) \<in> set ((k0, v0) # rest)"
    using range_set [OF assms(1), of k] assms(2) by auto
  then show "k0 \<le> k'"
    using range_sorted [OF assms(1), of k] assms(2) by (auto simp: less_imp_le)
qed

lemma range_empty_iff:
  assumes "wf m"
  shows "range_from k m = [] \<longleftrightarrow> (\<forall>k'. k \<le> k' \<longrightarrow> get m k' = None)"
proof -
  have "range_from k m = [] \<longleftrightarrow> {(k', v). k \<le> k' \<and> get m k' = Some v} = {}"
    using range_set [OF assms, of k] by (metis set_empty)
  also have "\<dots> \<longleftrightarrow> (\<forall>k'. k \<le> k' \<longrightarrow> get m k' = None)"
    by auto
  finally show ?thesis .
qed

end

type_synonym ('k, 'v) btree = "('k \<times> 'v) list"

fun bt_insert :: "'k::linorder \<Rightarrow> 'v \<Rightarrow> ('k, 'v) btree \<Rightarrow> ('k, 'v) btree" where
  "bt_insert k v [] = [(k, v)]"
| "bt_insert k v (e # m) =
     (if k = fst e then (k, v) # m
      else if k < fst e then (k, v) # e # m
      else e # bt_insert k v m)"

definition bt_range_from :: "'k::linorder \<Rightarrow> ('k, 'v) btree \<Rightarrow> ('k \<times> 'v) list" where
  "bt_range_from k m = filter (\<lambda>e. k \<le> fst e) m"

definition bt_wf :: "('k::linorder, 'v) btree \<Rightarrow> bool" where
  "bt_wf m \<longleftrightarrow> sorted_wrt (<) (map fst m)"

lemma bt_keys_insert: "fst ` set (bt_insert k v m) = insert k (fst ` set m)"
  by (induction m) auto

lemma bt_get_insert: "map_of (bt_insert k v m) k' = (if k' = k then Some v else map_of m k')"
  by (induction m) auto

lemma bt_wf_insert: "bt_wf m \<Longrightarrow> bt_wf (bt_insert k v m)"
proof (induction m)
  case Nil
  then show ?case by (simp add: bt_wf_def)
next
  case (Cons e m)
  have keys: "set (map fst (bt_insert k v m)) = insert k (set (map fst m))"
    using bt_keys_insert [of k v m] by simp
  show ?case
    using Cons keys by (auto simp: bt_wf_def)
qed

lemma bt_wf_distinct: "bt_wf m \<Longrightarrow> distinct (map fst m)"
  unfolding bt_wf_def by (induction m) auto

lemma bt_get_iff: "bt_wf m \<Longrightarrow> map_of m k = Some v \<longleftrightarrow> (k, v) \<in> set m"
  using bt_wf_distinct [of m] by auto

interpretation bt: ordered_map "[]" map_of bt_insert bt_range_from bt_wf
proof (unfold_locales, goal_cases)
  case (5 m k)
  then show ?case by (auto simp: bt_range_from_def bt_get_iff)
next
  case (6 m k)
  then show ?case
    unfolding bt_range_from_def bt_wf_def by (induction m) auto
qed (auto simp: bt_get_insert bt_wf_insert, simp add: bt_wf_def)

section \<open>Quorum systems\<close>

text \<open>
  A threshold over a finite committee of which at most \<open>f\<close> members are faulty. Components
  only need the intersection law.
\<close>

locale threshold_quorum =
  fixes n f q :: nat
  assumes quorum_bound: "n + f < 2 * q"
    and quorum_available: "q + f \<le> n"
begin

lemma quorum_intersection_size:
  assumes "finite C" "card C = n" "A \<subseteq> C" "B \<subseteq> C" "q \<le> card A" "q \<le> card B"
  shows "f < card (A \<inter> B)"
proof -
  have fin: "finite A" "finite B"
    using assms finite_subset by blast+
  have "card A + card B = card (A \<union> B) + card (A \<inter> B)"
    by (rule card_Un_Int [OF fin])
  moreover have "card (A \<union> B) \<le> n"
    using assms card_mono [of C "A \<union> B"] by auto
  ultimately show ?thesis
    using assms quorum_bound by linarith
qed

text \<open>Two quorums share a member outside every set of at most \<open>f\<close> faulty ones.\<close>

lemma quorum_honest_member:
  assumes "finite C" "card C = n" "A \<subseteq> C" "B \<subseteq> C" "q \<le> card A" "q \<le> card B"
    and "F \<subseteq> C" "card F \<le> f"
  shows "\<exists>x \<in> A \<inter> B. x \<notin> F"
proof (rule ccontr)
  assume "\<not> ?thesis"
  then have "A \<inter> B \<subseteq> F" by blast
  moreover have "finite F" using assms finite_subset by blast
  ultimately have "card (A \<inter> B) \<le> card F" by (metis card_mono)
  then show False
    using quorum_intersection_size [OF assms(1-6)] assms(8) by linarith
qed

lemma honest_quorum_exists:
  assumes "finite C" "card C = n" "F \<subseteq> C" "card F \<le> f"
  shows "q \<le> card (C - F)"
proof -
  have "card (C - F) = n - card F"
    using assms by (simp add: card_Diff_subset finite_subset)
  then show ?thesis using assms(4) quorum_available by linarith
qed

end

section \<open>Runs of a step function\<close>

text \<open>
  Every stateful component is a step function over its events; these two contracts lift a
  one-step fact to every run.
\<close>

locale step_invariant =
  fixes step :: "'s \<Rightarrow> 'e \<Rightarrow> 's"
    and inv :: "'s \<Rightarrow> bool"
    and admissible :: "'e \<Rightarrow> bool"
  assumes inv_step: "inv s \<Longrightarrow> admissible e \<Longrightarrow> inv (step s e)"
begin

lemma inv_run: "inv s \<Longrightarrow> (\<forall>e \<in> set es. admissible e) \<Longrightarrow> inv (foldl step s es)"
  by (induction es arbitrary: s) (auto intro: inv_step)

end

locale step_monotone =
  fixes step :: "'s \<Rightarrow> 'e \<Rightarrow> 's"
    and obs :: "'s \<Rightarrow> 'o::preorder"
  assumes obs_step: "obs s \<le> obs (step s e)"
begin

lemma obs_run: "obs s \<le> obs (foldl step s es)"
proof (induction es arbitrary: s)
  case Nil
  then show ?case by simp
next
  case (Cons e es)
  show ?case using obs_step [of s e] Cons [of "step s e"] by (simp add: order_trans)
qed

lemma obs_prefix: "obs (foldl step s es) \<le> obs (foldl step s (es @ es'))"
  using obs_run [of "foldl step s es" es'] by simp

end

end
