(* ===== verification/Ssv_Types.thy ===== *)
theory Ssv_Types
  imports Anchor_Prelude "HOL-Library.Multiset"
begin

text \<open>
  The \<open>ssv_types\<close> crate: committee arithmetic (\<open>lib.rs\<close>), rounds (\<open>round.rs\<close>), committee and
  message identifiers (\<open>committee.rs\<close>, \<open>msgid.rs\<close>), QBFT message types (\<open>consensus.rs\<close>),
  partial signature packets (\<open>partial_sig.rs\<close>) and signed messages (\<open>message.rs\<close>).

  SSZ encoders and decoders that the \<open>ssz_derive\<close> macros generate, SHA-256 and the BLS key
  parser live outside the repository; they are arguments (fields of \<open>codec\<close>, or a function
  argument) of the definitions that call them.
\<close>

section \<open>Committee arithmetic (lib.rs)\<close>

definition RSA_SIGNATURE_SIZE :: nat where "RSA_SIGNATURE_SIZE = 256"
definition MAX_SIGNATURES :: nat where "MAX_SIGNATURES = 13"

text \<open>\<open>saturating_sub\<close> on \<open>usize\<close> is truncating subtraction on \<open>nat\<close>.\<close>

definition get_f :: "nat \<Rightarrow> nat" where
  "get_f members = (members - 1) div 3"

definition quorum_size :: "nat \<Rightarrow> nat" where
  "quorum_size committee_size = get_f committee_size * 2 + 1"

definition is_valid_committee_size :: "nat \<Rightarrow> bool" where
  "is_valid_committee_size committee_size =
     (let f = get_f committee_size
      in (committee_size - 1) mod 3 = 0 \<and> 1 \<le> f \<and> f \<le> get_f MAX_SIGNATURES)"

text \<open>A \<open>VariableList<T, N>\<close> is a list of at most \<open>N\<close> elements.\<close>

definition try_to_variable_list :: "nat \<Rightarrow> (nat \<Rightarrow> nat \<Rightarrow> 'e) \<Rightarrow> 'a list \<Rightarrow> 'e + 'a list" where
  "try_to_variable_list max_len error_fn vec =
     (if length vec \<le> max_len then Inr vec else Inl (error_fn (length vec) max_len))"

section \<open>Rounds (round.rs)\<close>

text \<open>A \<open>Round\<close> is a non-zero \<open>usize\<close>; \<open>From<u64>\<close> panics on zero.\<close>

type_synonym round = u64

definition round_from_u64 :: "u64 \<Rightarrow> round option" where
  "round_from_u64 r = (if r = 0 then None else Some r)"

definition round_default :: round where
  "round_default = 1"

definition round_add :: "round \<Rightarrow> u64 \<Rightarrow> round option" where
  "round_add r rhs =
     (case checked_add r rhs of
        None \<Rightarrow> None
      | Some s \<Rightarrow> if s = 0 then None else Some s)"

definition round_next :: "round \<Rightarrow> round option" where
  "round_next r = checked_add r 1"

section \<open>Roles and message identifiers (msgid.rs, committee.rs)\<close>

type_synonym committee_id = bytes
type_synonym domain_type = bytes
type_synonym message_id = bytes

definition COMMITTEE_ID_LEN :: nat where "COMMITTEE_ID_LEN = 32"
definition MESSAGE_ID_LEN :: nat where "MESSAGE_ID_LEN = 56"

datatype role =
    Committee | Aggregator | Proposer | SyncCommittee | ValidatorRegistration
  | VoluntaryExit | AggregatorCommittee | PTCAttester | ProposerPreferences

fun role_to_bytes :: "role \<Rightarrow> bytes" where
  "role_to_bytes Committee = [0, 0, 0, 0]"
| "role_to_bytes Aggregator = [1, 0, 0, 0]"
| "role_to_bytes Proposer = [2, 0, 0, 0]"
| "role_to_bytes SyncCommittee = [3, 0, 0, 0]"
| "role_to_bytes ValidatorRegistration = [4, 0, 0, 0]"
| "role_to_bytes VoluntaryExit = [5, 0, 0, 0]"
| "role_to_bytes AggregatorCommittee = [6, 0, 0, 0]"
| "role_to_bytes PTCAttester = [7, 0, 0, 0]"
| "role_to_bytes ProposerPreferences = [8, 0, 0, 0]"

definition role_try_from :: "bytes \<Rightarrow> role option" where
  "role_try_from value =
     (if value = [0, 0, 0, 0] then Some Committee
      else if value = [1, 0, 0, 0] then Some Aggregator
      else if value = [2, 0, 0, 0] then Some Proposer
      else if value = [3, 0, 0, 0] then Some SyncCommittee
      else if value = [4, 0, 0, 0] then Some ValidatorRegistration
      else if value = [5, 0, 0, 0] then Some VoluntaryExit
      else if value = [6, 0, 0, 0] then Some AggregatorCommittee
      else if value = [7, 0, 0, 0] then Some PTCAttester
      else if value = [8, 0, 0, 0] then Some ProposerPreferences
      else None)"

fun is_committee_role :: "role \<Rightarrow> bool" where
  "is_committee_role Committee = True"
| "is_committee_role AggregatorCommittee = True"
| "is_committee_role _ = False"

fun max_round :: "role \<Rightarrow> u64 option" where
  "max_round Committee = Some 12"
| "max_round Aggregator = Some 12"
| "max_round AggregatorCommittee = Some 12"
| "max_round Proposer = Some 2"
| "max_round SyncCommittee = Some 6"
| "max_round ValidatorRegistration = None"
| "max_round VoluntaryExit = None"
| "max_round PTCAttester = None"
| "max_round ProposerPreferences = None"

definition is_qbft_role :: "role \<Rightarrow> bool" where
  "is_qbft_role r = (max_round r \<noteq> None)"

definition monotonic_slot_role :: "role \<Rightarrow> bool" where
  "monotonic_slot_role r = (\<not> is_committee_role r \<and> r \<noteq> ProposerPreferences)"

datatype 'pk duty_executor = CommitteeExecutor committee_id | ValidatorExecutor 'pk

definition message_id_new :: "('pk \<Rightarrow> bytes) \<Rightarrow> domain_type \<Rightarrow> role \<Rightarrow> 'pk duty_executor \<Rightarrow> message_id" where
  "message_id_new as_serialized domain r executor =
     domain @ role_to_bytes r @
     (case executor of
        CommitteeExecutor committee_id \<Rightarrow> replicate 16 0 @ committee_id
      | ValidatorExecutor public_key \<Rightarrow> as_serialized public_key)"

definition msgid_domain :: "message_id \<Rightarrow> domain_type" where
  "msgid_domain mid = take 4 mid"

definition msgid_role :: "message_id \<Rightarrow> role option" where
  "msgid_role mid = role_try_from (take 4 (drop 4 mid))"

definition committee_id_try_from :: "bytes \<Rightarrow> committee_id option" where
  "committee_id_try_from value = (if length value = COMMITTEE_ID_LEN then Some value else None)"

definition msgid_duty_executor :: "(bytes \<Rightarrow> 'pk option) \<Rightarrow> message_id \<Rightarrow> 'pk duty_executor option" where
  "msgid_duty_executor pk_deserialize mid =
     (case msgid_role mid of
        None \<Rightarrow> None
      | Some r \<Rightarrow>
          if is_committee_role r
          then map_option CommitteeExecutor (committee_id_try_from (drop 24 mid))
          else map_option ValidatorExecutor (pk_deserialize (drop 8 mid)))"

text \<open>
  \<open>CommitteeId::from(&[OperatorId])\<close> hashes the identifiers in the given order, each cut to
  its low 32 bits; \<open>CommitteeId::from(Vec<OperatorId>)\<close> sorts them first.
\<close>

definition committee_id_of_slice :: "(bytes \<Rightarrow> bytes) \<Rightarrow> operator_id list \<Rightarrow> committee_id" where
  "committee_id_of_slice sha256 ids =
     sha256 (concat (map (\<lambda>op. le_bytes 4 (unat op mod 2 ^ 32)) ids))"

definition committee_id_of_vec :: "(bytes \<Rightarrow> bytes) \<Rightarrow> operator_id list \<Rightarrow> committee_id" where
  "committee_id_of_vec sha256 ids = committee_id_of_slice sha256 (sort ids)"

section \<open>QBFT messages (consensus.rs)\<close>

datatype qbft_message_type = Proposal | Prepare | Commit | RoundChange

datatype decode_error = InvalidByteLength nat nat | NoMatchingVariant | BytesInvalid string

fun qbft_message_type_to_u64 :: "qbft_message_type \<Rightarrow> u64" where
  "qbft_message_type_to_u64 Proposal = 0"
| "qbft_message_type_to_u64 Prepare = 1"
| "qbft_message_type_to_u64 Commit = 2"
| "qbft_message_type_to_u64 RoundChange = 3"

definition qbft_message_type_ssz_append :: "qbft_message_type \<Rightarrow> bytes \<Rightarrow> bytes" where
  "qbft_message_type_ssz_append t buf = buf @ u64_to_le_bytes (qbft_message_type_to_u64 t)"

definition qbft_message_type_from_ssz_bytes :: "bytes \<Rightarrow> decode_error + qbft_message_type" where
  "qbft_message_type_from_ssz_bytes bs =
     (if length bs \<noteq> 8 then Inl (InvalidByteLength (length bs) 8)
      else let v = u64_from_le_bytes bs in
        if v = 0 then Inr Proposal
        else if v = 1 then Inr Prepare
        else if v = 2 then Inr Commit
        else if v = 3 then Inr RoundChange
        else Inl NoMatchingVariant)"

text \<open>Capacities of the justification lists (\<open>RoundChangeJustificationLength\<close>,
  \<open>PrepareJustificationLength\<close>, \<open>U13\<close>).\<close>

definition ROUND_CHANGE_JUSTIFICATION_LENGTH :: nat where
  "ROUND_CHANGE_JUSTIFICATION_LENGTH = 5 * 10000 + (1000 + 852)"
definition PREPARE_JUSTIFICATION_LENGTH :: nat where
  "PREPARE_JUSTIFICATION_LENGTH = 3 * 1000 + 700"

record qbft_message =
  qm_type :: qbft_message_type
  qm_height :: u64
  qm_round :: u64
  qm_identifier :: bytes
  qm_root :: hash256
  qm_data_round :: u64
  qm_round_change_justification :: "bytes list"
  qm_prepare_justification :: "bytes list"

section \<open>Partial signature packets (partial_sig.rs)\<close>

datatype partial_signature_kind =
    PostConsensus | RandaoPartialSig | SelectionProofPartialSig | ContributionProofs
  | KindValidatorRegistration | KindVoluntaryExit | AggregatorCommitteePartialSig
  | KindPTCAttester | KindProposerPreferences | RequestAuth

fun partial_signature_kind_to_u64 :: "partial_signature_kind \<Rightarrow> u64" where
  "partial_signature_kind_to_u64 PostConsensus = 0"
| "partial_signature_kind_to_u64 RandaoPartialSig = 1"
| "partial_signature_kind_to_u64 SelectionProofPartialSig = 2"
| "partial_signature_kind_to_u64 ContributionProofs = 3"
| "partial_signature_kind_to_u64 KindValidatorRegistration = 4"
| "partial_signature_kind_to_u64 KindVoluntaryExit = 5"
| "partial_signature_kind_to_u64 AggregatorCommitteePartialSig = 6"
| "partial_signature_kind_to_u64 KindPTCAttester = 7"
| "partial_signature_kind_to_u64 KindProposerPreferences = 8"
| "partial_signature_kind_to_u64 RequestAuth = 9"

definition partial_signature_kind_try_from :: "u64 \<Rightarrow> partial_signature_kind option" where
  "partial_signature_kind_try_from v =
     (if v = 0 then Some PostConsensus
      else if v = 1 then Some RandaoPartialSig
      else if v = 2 then Some SelectionProofPartialSig
      else if v = 3 then Some ContributionProofs
      else if v = 4 then Some KindValidatorRegistration
      else if v = 5 then Some KindVoluntaryExit
      else if v = 6 then Some AggregatorCommitteePartialSig
      else if v = 7 then Some KindPTCAttester
      else if v = 8 then Some KindProposerPreferences
      else if v = 9 then Some RequestAuth
      else None)"

definition partial_signature_kind_ssz_append :: "partial_signature_kind \<Rightarrow> bytes \<Rightarrow> bytes" where
  "partial_signature_kind_ssz_append k buf =
     buf @ u64_to_le_bytes (partial_signature_kind_to_u64 k)"

definition partial_signature_kind_from_ssz_bytes :: "bytes \<Rightarrow> decode_error + partial_signature_kind" where
  "partial_signature_kind_from_ssz_bytes bs =
     (if length bs \<noteq> 8 then Inl (InvalidByteLength (length bs) 8)
      else option_to_result NoMatchingVariant
             (partial_signature_kind_try_from (u64_from_le_bytes bs)))"

record partial_signature_message =
  psm_partial_signature :: bytes
  psm_signing_root :: hash256
  psm_signer :: operator_id
  psm_validator_index :: validator_index

record partial_signature_messages =
  ps_kind :: partial_signature_kind
  ps_slot :: slot
  ps_messages :: "partial_signature_message list"

datatype partial_signature_messages_error = PsEmpty | PsInconsistentSigners | PsZeroSigner

definition partial_signature_messages_validate ::
    "partial_signature_messages \<Rightarrow> partial_signature_messages_error + operator_id" where
  "partial_signature_messages_validate p =
     (case ps_messages p of
        [] \<Rightarrow> Inl PsEmpty
      | first # rest \<Rightarrow>
          if psm_signer first = 0 then Inl PsZeroSigner
          else if \<exists>m \<in> set rest. psm_signer m \<noteq> psm_signer first then Inl PsInconsistentSigners
          else Inr (psm_signer first))"

section \<open>SSV messages (message.rs)\<close>

datatype msg_type = SSVConsensusMsgType | SSVPartialSignatureMsgType

fun msg_type_to_u64 :: "msg_type \<Rightarrow> u64" where
  "msg_type_to_u64 SSVConsensusMsgType = 0"
| "msg_type_to_u64 SSVPartialSignatureMsgType = 1"

definition msg_type_try_from :: "u64 \<Rightarrow> decode_error + msg_type" where
  "msg_type_try_from v =
     (if v = 0 then Inr SSVConsensusMsgType
      else if v = 1 then Inr SSVPartialSignatureMsgType
      else Inl NoMatchingVariant)"

datatype ssv_message_error =
    EmptyData
  | SSVDataTooBig nat nat
  | WrongDomain string string
  | SsvSignerNotInCommittee u64 "u64 list"

record ssv_message =
  sm_msg_type :: msg_type
  sm_msg_id :: message_id
  sm_data :: bytes

definition BYTES_PER_LENGTH_OFFSET :: nat where "BYTES_PER_LENGTH_OFFSET = 4"

definition MAX_CONSENSUS_MSG_SIZE :: nat where
  "MAX_CONSENSUS_MSG_SIZE =
     8 + 8 + 8 + (56 + BYTES_PER_LENGTH_OFFSET) + 32 + 8
     + (MAX_SIGNATURES * (ROUND_CHANGE_JUSTIFICATION_LENGTH + BYTES_PER_LENGTH_OFFSET)
        + BYTES_PER_LENGTH_OFFSET)
     + (MAX_SIGNATURES * (PREPARE_JUSTIFICATION_LENGTH + BYTES_PER_LENGTH_OFFSET)
        + BYTES_PER_LENGTH_OFFSET)"

definition PARTIAL_SIGNATURE_MSG_SIZE :: nat where
  "PARTIAL_SIGNATURE_MSG_SIZE = 96 + 32 + 8 + 8"

definition MAX_PARTIAL_SIGNATURE_MSGS_SIZE :: nat where
  "MAX_PARTIAL_SIGNATURE_MSGS_SIZE =
     8 + 8 + 5048 * PARTIAL_SIGNATURE_MSG_SIZE + BYTES_PER_LENGTH_OFFSET"

definition SSV_MESSAGE_DATA_LEN :: nat where
  "SSV_MESSAGE_DATA_LEN = 726 * 1000 + 932"

definition ssv_message_validate :: "ssv_message \<Rightarrow> ssv_message_error + unit" where
  "ssv_message_validate m =
     (if sm_data m = [] then Inl EmptyData
      else case sm_msg_type m of
        SSVConsensusMsgType \<Rightarrow>
          if length (sm_data m) > MAX_CONSENSUS_MSG_SIZE
          then Inl (SSVDataTooBig (length (sm_data m)) MAX_CONSENSUS_MSG_SIZE) else Inr ()
      | SSVPartialSignatureMsgType \<Rightarrow>
          if length (sm_data m) > MAX_PARTIAL_SIGNATURE_MSGS_SIZE
          then Inl (SSVDataTooBig (length (sm_data m)) MAX_PARTIAL_SIGNATURE_MSGS_SIZE) else Inr ())"

definition ssv_message_new :: "msg_type \<Rightarrow> message_id \<Rightarrow> bytes \<Rightarrow> ssv_message_error + ssv_message" where
  "ssv_message_new t mid data =
     bindR (try_to_variable_list SSV_MESSAGE_DATA_LEN SSVDataTooBig data) (\<lambda>d.
     let m = \<lparr>sm_msg_type = t, sm_msg_id = mid, sm_data = d\<rparr>
     in bindR (ssv_message_validate m) (\<lambda>_. Inr m))"

datatype signed_ssv_message_error =
    TooManySignatures nat nat
  | WrongRSASignatureSize nat nat nat
  | TooManyOperatorIDs nat nat
  | FullDataTooLong nat nat
  | NoSigners
  | SignersAndSignaturesWithDifferentLength
  | ZeroSigner
  | SignersNotSorted
  | NoSignatures
  | DuplicatedSigner
  | SSVMessageError ssv_message_error

record signed_ssv_message =
  sg_signatures :: "bytes list"
  sg_operator_ids :: "operator_id list"
  sg_ssv_message :: ssv_message
  sg_full_data :: bytes

definition SSV_MESSAGE_FULL_DATA_LEN :: nat where
  "SSV_MESSAGE_FULL_DATA_LEN = 8 * 1000000 + (388 * 1000 + 836)"

text \<open>The first signature whose size is not \<open>RSA_SIGNATURE_SIZE\<close>, counting from \<open>i\<close>.\<close>

fun check_signature_sizes :: "nat \<Rightarrow> bytes list \<Rightarrow> signed_ssv_message_error + unit" where
  "check_signature_sizes i [] = Inr ()"
| "check_signature_sizes i (sig # sigs) =
     (if length sig \<noteq> RSA_SIGNATURE_SIZE
      then Inl (WrongRSASignatureSize i (length sig) RSA_SIGNATURE_SIZE)
      else check_signature_sizes (Suc i) sigs)"

text \<open>The \<open>seen_ids\<close> loop: an identifier already in the set is a duplicate.\<close>

fun has_duplicate :: "operator_id set \<Rightarrow> operator_id list \<Rightarrow> bool" where
  "has_duplicate seen [] = False"
| "has_duplicate seen (x # xs) = (x \<in> seen \<or> has_duplicate (insert x seen) xs)"

definition signed_validate :: "signed_ssv_message \<Rightarrow> signed_ssv_message_error + unit" where
  "signed_validate m =
     bindR (check_signature_sizes 0 (sg_signatures m)) (\<lambda>_.
     if sg_operator_ids m = [] then Inl NoSigners
     else if sg_signatures m = [] then Inl NoSignatures
     else if \<exists>op \<in> set (sg_operator_ids m). op = 0 then Inl ZeroSigner
     else if has_duplicate {} (sg_operator_ids m) then Inl DuplicatedSigner
     else if length (sg_operator_ids m) \<noteq> length (sg_signatures m)
       then Inl SignersAndSignaturesWithDifferentLength
     else case ssv_message_validate (sg_ssv_message m) of
        Inl e \<Rightarrow> Inl (SSVMessageError e)
      | Inr _ \<Rightarrow> Inr ())"

text \<open>
  \<open>SignedSSVMessage::new\<close> takes signatures of type \<open>[u8; 256]\<close>; the conversion of one to a
  \<open>VariableList<u8, U256>\<close> fails when it is longer than 256 bytes.
\<close>

fun signatures_to_lists :: "nat \<Rightarrow> bytes list \<Rightarrow> signed_ssv_message_error + bytes list" where
  "signatures_to_lists i [] = Inr []"
| "signatures_to_lists i (sig # sigs) =
     (if length sig \<le> 256
      then bindR (signatures_to_lists (Suc i) sigs) (\<lambda>rest. Inr (sig # rest))
      else Inl (WrongRSASignatureSize i (length sig) RSA_SIGNATURE_SIZE))"

definition signed_new ::
    "bytes list \<Rightarrow> operator_id list \<Rightarrow> ssv_message \<Rightarrow> bytes \<Rightarrow> signed_ssv_message_error + signed_ssv_message" where
  "signed_new signatures operator_ids msg full_data =
     bindR (signatures_to_lists 0 signatures) (\<lambda>lists.
     bindR (try_to_variable_list 13 TooManySignatures lists) (\<lambda>sigs.
     bindR (try_to_variable_list 13 TooManyOperatorIDs operator_ids) (\<lambda>ids.
     bindR (try_to_variable_list SSV_MESSAGE_FULL_DATA_LEN FullDataTooLong full_data) (\<lambda>fd.
     let m = \<lparr>sg_signatures = sigs, sg_operator_ids = ids, sg_ssv_message = msg, sg_full_data = fd\<rparr>
     in bindR (signed_validate m) (\<lambda>_. Inr m)))))"

definition set_full_data :: "signed_ssv_message \<Rightarrow> bytes \<Rightarrow> signed_ssv_message_error + signed_ssv_message" where
  "set_full_data m data =
     bindR (try_to_variable_list SSV_MESSAGE_FULL_DATA_LEN FullDataTooLong data) (\<lambda>d.
       Inr (m\<lparr>sg_full_data := d\<rparr>))"

definition without_full_data :: "signed_ssv_message \<Rightarrow> signed_ssv_message" where
  "without_full_data m = m\<lparr>sg_full_data := []\<rparr>"

text \<open>\<open>VariableList::push\<close> in a loop: fails once the list holds 13 elements.\<close>

fun push_all :: "(nat \<Rightarrow> nat \<Rightarrow> 'e) \<Rightarrow> 'a list \<Rightarrow> 'a list \<Rightarrow> 'e + 'a list" where
  "push_all err acc [] = Inr acc"
| "push_all err acc (x # xs) =
     (if length acc < 13 then push_all err (acc @ [x]) xs
      else Inl (err (length acc + 1) MAX_SIGNATURES))"

fun aggregate_push :: "signed_ssv_message \<Rightarrow> signed_ssv_message list \<Rightarrow> signed_ssv_message_error + signed_ssv_message" where
  "aggregate_push self [] = Inr self"
| "aggregate_push self (m # ms) =
     (if length (sg_operator_ids m) \<noteq> length (sg_signatures m)
      then Inl SignersAndSignaturesWithDifferentLength
      else bindR (push_all TooManySignatures (sg_signatures self) (sg_signatures m)) (\<lambda>sigs.
           bindR (push_all TooManyOperatorIDs (sg_operator_ids self) (sg_operator_ids m)) (\<lambda>ids.
           aggregate_push (self\<lparr>sg_signatures := sigs, sg_operator_ids := ids\<rparr>) ms)))"

definition aggregate :: "signed_ssv_message \<Rightarrow> signed_ssv_message list \<Rightarrow> signed_ssv_message_error + signed_ssv_message" where
  "aggregate self others =
     bindR (aggregate_push self others) (\<lambda>m.
     let pairs = sort_key snd (zip (sg_signatures m) (sg_operator_ids m)) in
     bindR (try_to_variable_list 13 TooManySignatures (map fst pairs)) (\<lambda>sigs.
     bindR (try_to_variable_list 13 TooManyOperatorIDs (map snd pairs)) (\<lambda>ids.
     Inr (m\<lparr>sg_signatures := sigs, sg_operator_ids := ids\<rparr>))))"

text \<open>
  The serialisation interface of the messages. The encoders and decoders are generated code
  outside the repository; components take this record as an argument.
\<close>

record codec =
  cd_signed_from_ssz :: "bytes \<Rightarrow> decode_error + signed_ssv_message"
  cd_signed_as_ssz :: "signed_ssv_message \<Rightarrow> bytes"
  cd_qbft_from_ssz :: "bytes \<Rightarrow> decode_error + qbft_message"
  cd_qbft_as_ssz :: "qbft_message \<Rightarrow> bytes"
  cd_partial_from_ssz :: "bytes \<Rightarrow> decode_error + partial_signature_messages"

definition extract_slot :: "codec \<Rightarrow> ssv_message \<Rightarrow> slot option" where
  "extract_slot cd m =
     (case sm_msg_type m of
        SSVConsensusMsgType \<Rightarrow>
          (case cd_qbft_from_ssz cd (sm_data m) of Inl _ \<Rightarrow> None | Inr q \<Rightarrow> Some (qm_height q))
      | SSVPartialSignatureMsgType \<Rightarrow>
          (case cd_partial_from_ssz cd (sm_data m) of Inl _ \<Rightarrow> None | Inr p \<Rightarrow> Some (ps_slot p)))"

section \<open>Lemmas\<close>

subsection \<open>Committee sizes and quorums\<close>

lemma valid_committee_cases:
  assumes "is_valid_committee_size n"
  shows "\<exists>f \<in> {1, 2, 3, 4}. n = 3 * f + 1 \<and> get_f n = f \<and> quorum_size n = 2 * f + 1"
proof -
  define f where "f = get_f n"
  from assms have f: "1 \<le> f" "f \<le> 4" and m: "(n - 1) mod 3 = 0"
    by (auto simp: is_valid_committee_size_def f_def Let_def get_f_def MAX_SIGNATURES_def)
  have "n - 1 = 3 * f"
    using m mult_div_mod_eq [of 3 "n - 1"] by (simp add: f_def get_f_def)
  then have n: "n = 3 * f + 1" using f by linarith
  have "f = 1 \<or> f = 2 \<or> f = 3 \<or> f = 4" using f by linarith
  then have "f \<in> {1, 2, 3, 4}" by simp
  moreover have "quorum_size n = 2 * f + 1" by (simp add: quorum_size_def f_def)
  moreover have "get_f n = f" by (simp add: f_def)
  ultimately show ?thesis
    using n by blast
qed

lemma valid_committee_threshold:
  assumes "is_valid_committee_size n"
  shows "threshold_quorum n (get_f n) (quorum_size n)"
  using valid_committee_cases [OF assms] by unfold_locales auto

lemma quorum_size_pos [simp]: "0 < quorum_size n"
  by (simp add: quorum_size_def)

interpretation committee4: threshold_quorum 4 "get_f 4" "quorum_size 4"
  by (rule valid_committee_threshold) (simp add: is_valid_committee_size_def get_f_def MAX_SIGNATURES_def)

interpretation committee7: threshold_quorum 7 "get_f 7" "quorum_size 7"
  by (rule valid_committee_threshold) (simp add: is_valid_committee_size_def get_f_def MAX_SIGNATURES_def)

interpretation committee10: threshold_quorum 10 "get_f 10" "quorum_size 10"
  by (rule valid_committee_threshold) (simp add: is_valid_committee_size_def get_f_def MAX_SIGNATURES_def)

interpretation committee13: threshold_quorum 13 "get_f 13" "quorum_size 13"
  by (rule valid_committee_threshold) (simp add: is_valid_committee_size_def get_f_def MAX_SIGNATURES_def)

subsection \<open>Rounds\<close>

lemma round_next_Some: "round_next r = Some r' \<Longrightarrow> r' = r + 1 \<and> unat r' = unat r + 1"
  by (auto simp: round_next_def checked_add_def unat_word_ariths split: if_splits)

lemma round_next_greater: "round_next r = Some r' \<Longrightarrow> r < r'"
proof -
  assume "round_next r = Some r'"
  then have "unat r' = unat r + 1" using round_next_Some by blast
  then show ?thesis by (simp add: word_less_nat_alt)
qed

lemma round_next_least:
  assumes "round_next r = Some r'"
  shows "r' \<le> x \<longleftrightarrow> r < x"
proof -
  have "unat r' = unat r + 1" using round_next_Some [OF assms] by blast
  then show ?thesis by (simp only: word_le_nat_alt word_less_nat_alt) linarith
qed

subsection \<open>Signed messages\<close>

lemma check_signature_sizes_iff:
  "check_signature_sizes i sigs = Inr u \<longleftrightarrow> (\<forall>s \<in> set sigs. length s = RSA_SIGNATURE_SIZE)"
  by (induction sigs arbitrary: i) auto

lemma has_duplicate_iff: "has_duplicate seen xs \<longleftrightarrow> \<not> distinct xs \<or> seen \<inter> set xs \<noteq> {}"
  by (induction xs arbitrary: seen) auto

text \<open>The checks of \<open>signed_validate\<close> as one predicate.\<close>

definition signed_wf :: "signed_ssv_message \<Rightarrow> bool" where
  "signed_wf m \<longleftrightarrow>
     (\<forall>s \<in> set (sg_signatures m). length s = RSA_SIGNATURE_SIZE)
     \<and> sg_operator_ids m \<noteq> [] \<and> 0 \<notin> set (sg_operator_ids m) \<and> distinct (sg_operator_ids m)
     \<and> length (sg_operator_ids m) = length (sg_signatures m)
     \<and> ssv_message_validate (sg_ssv_message m) = Inr ()"

lemma signed_validate_iff: "signed_validate m = Inr u \<longleftrightarrow> signed_wf m"
proof -
  have "signed_validate m = Inr u \<longleftrightarrow>
      check_signature_sizes 0 (sg_signatures m) = Inr () \<and> sg_operator_ids m \<noteq> []
      \<and> sg_signatures m \<noteq> [] \<and> 0 \<notin> set (sg_operator_ids m) \<and> distinct (sg_operator_ids m)
      \<and> length (sg_operator_ids m) = length (sg_signatures m)
      \<and> ssv_message_validate (sg_ssv_message m) = Inr ()"
    unfolding signed_validate_def bindR_Inr_iff
    by (auto simp: has_duplicate_iff split: sum.splits if_splits)
  then show ?thesis
    by (auto simp: signed_wf_def check_signature_sizes_iff)
qed

lemma push_all_Inr: "push_all err acc xs = Inr ys \<Longrightarrow> ys = acc @ xs \<and> (acc \<noteq> ys \<longrightarrow> length ys \<le> 13)"
proof (induction xs arbitrary: acc)
  case Nil
  then show ?case by simp
next
  case (Cons x xs)
  from Cons.prems have l: "length acc < 13" and p: "push_all err (acc @ [x]) xs = Inr ys"
    by (auto split: if_splits)
  from Cons.IH [OF p] l show ?case by auto
qed

lemma push_all_fits: "length acc + length xs \<le> 13 \<Longrightarrow> push_all err acc xs = Inr (acc @ xs)"
  by (induction xs arbitrary: acc) auto

lemma aggregate_push_Inr:
  "aggregate_push self ms = Inr m \<Longrightarrow>
     sg_signatures m = sg_signatures self @ concat (map sg_signatures ms)
     \<and> sg_operator_ids m = sg_operator_ids self @ concat (map sg_operator_ids ms)
     \<and> sg_ssv_message m = sg_ssv_message self \<and> sg_full_data m = sg_full_data self
     \<and> (\<forall>x \<in> set ms. length (sg_operator_ids x) = length (sg_signatures x))"
proof (induction ms arbitrary: self)
  case Nil
  then show ?case by simp
next
  case (Cons x ms)
  from Cons.prems have len: "length (sg_operator_ids x) = length (sg_signatures x)"
    and "\<exists>sigs ids. push_all TooManySignatures (sg_signatures self) (sg_signatures x) = Inr sigs
        \<and> push_all TooManyOperatorIDs (sg_operator_ids self) (sg_operator_ids x) = Inr ids
        \<and> aggregate_push (self\<lparr>sg_signatures := sigs, sg_operator_ids := ids\<rparr>) ms = Inr m"
    by (auto simp: bindR_Inr_iff split: if_splits)
  then obtain sigs ids
    where ps: "push_all TooManySignatures (sg_signatures self) (sg_signatures x) = Inr sigs"
      and pi: "push_all TooManyOperatorIDs (sg_operator_ids self) (sg_operator_ids x) = Inr ids"
      and rest: "aggregate_push (self\<lparr>sg_signatures := sigs, sg_operator_ids := ids\<rparr>) ms = Inr m"
    by blast
  have s: "sigs = sg_signatures self @ sg_signatures x" using push_all_Inr [OF ps] by blast
  have i: "ids = sg_operator_ids self @ sg_operator_ids x" using push_all_Inr [OF pi] by blast
  from Cons.IH [OF rest] s i len show ?case by simp
qed

lemma aggregate_push_fits:
  "\<forall>x \<in> set ms. length (sg_operator_ids x) = 1 \<and> length (sg_signatures x) = 1 \<Longrightarrow>
   length (sg_operator_ids self) + length ms \<le> 13 \<Longrightarrow>
   length (sg_signatures self) + length ms \<le> 13 \<Longrightarrow>
   \<exists>m. aggregate_push self ms = Inr m"
proof (induction ms arbitrary: self)
  case Nil
  then show ?case by simp
next
  case (Cons x ms)
  let ?self = "self\<lparr>sg_signatures := sg_signatures self @ sg_signatures x,
                    sg_operator_ids := sg_operator_ids self @ sg_operator_ids x\<rparr>"
  have "\<exists>m. aggregate_push ?self ms = Inr m"
    by (rule Cons.IH) (use Cons.prems in auto)
  then show ?case
    using Cons.prems by (simp add: push_all_fits)
qed

text \<open>
  Aggregation keeps each signature beside its signer, adds nothing and loses nothing, and
  orders the signers.
\<close>

lemma aggregate_Inr:
  assumes ag: "aggregate self others = Inr m"
    and len: "length (sg_operator_ids self) = length (sg_signatures self)"
  shows "mset (zip (sg_signatures m) (sg_operator_ids m)) =
           mset (concat (map (\<lambda>x. zip (sg_signatures x) (sg_operator_ids x)) (self # others)))"
    and "sorted (sg_operator_ids m)"
    and "length (sg_operator_ids m) = length (sg_signatures m)"
    and "sg_ssv_message m = sg_ssv_message self" and "sg_full_data m = sg_full_data self"
proof -
  from ag obtain p where p: "aggregate_push self others = Inr p"
    and m: "m = p\<lparr>sg_signatures := map fst (sort_key snd (zip (sg_signatures p) (sg_operator_ids p))),
                   sg_operator_ids := map snd (sort_key snd (zip (sg_signatures p) (sg_operator_ids p)))\<rparr>"
    by (auto simp: aggregate_def bindR_Inr_iff Let_def try_to_variable_list_def split: if_splits)
  note pp = aggregate_push_Inr [OF p]
  have zc: "\<forall>x \<in> set xs. length (sg_operator_ids x) = length (sg_signatures x) \<Longrightarrow>
      zip (concat (map sg_signatures xs)) (concat (map sg_operator_ids xs)) =
      concat (map (\<lambda>x. zip (sg_signatures x) (sg_operator_ids x)) xs)" for xs
    by (induction xs) auto
  have "zip (sg_signatures p) (sg_operator_ids p) =
      concat (map (\<lambda>x. zip (sg_signatures x) (sg_operator_ids x)) (self # others))"
    using zc [of "self # others"] pp len by simp
  then show "mset (zip (sg_signatures m) (sg_operator_ids m)) =
      mset (concat (map (\<lambda>x. zip (sg_signatures x) (sg_operator_ids x)) (self # others)))"
    by (simp add: m zip_map_fst_snd del: mset_append)
  show "sorted (sg_operator_ids m)" by (simp add: m)
  show "length (sg_operator_ids m) = length (sg_signatures m)" by (simp add: m)
  show "sg_ssv_message m = sg_ssv_message self" "sg_full_data m = sg_full_data self"
    using pp by (simp_all add: m)
qed

end
