(* ===== verification/Qbft_Types.thy ===== *)
theory Qbft_Types
  imports Ssv_Types
begin

text \<open>
  The configuration, the types and the errors of the \<open>qbft\<close> crate (\<open>config.rs\<close>,
  \<open>qbft_types.rs\<close>, \<open>error.rs\<close>): the builder and its checks, the leader function, the instance
  states and the messages an instance receives and sends.
\<close>

section \<open>Leader selection (qbft_types.rs)\<close>

type_synonym instance_height = u64
type_synonym leader_fn = "operator_id \<Rightarrow> round \<Rightarrow> instance_height \<Rightarrow> operator_id list \<Rightarrow> bool"

record default_leader_function =
  dl_slots_per_epoch :: u64
  dl_include_epoch_shift :: bool

definition default_leader_function_new :: "u64 \<Rightarrow> bool \<Rightarrow> default_leader_function" where
  "default_leader_function_new slots_per_epoch include_epoch_shift =
     \<lparr>dl_slots_per_epoch = slots_per_epoch, dl_include_epoch_shift = include_epoch_shift\<rparr>"

definition default_leader_function_default :: default_leader_function where
  "default_leader_function_default = \<lparr>dl_slots_per_epoch = 32, dl_include_epoch_shift = False\<rparr>"

text \<open>
  The operator \<open>leader_function\<close> selects. The index is computed on \<open>usize\<close>, which wraps in the
  release profile. \<open>None\<close> is the panic of \<open>% 0\<close> on an empty committee, which \<open>Config::build\<close>
  excludes.
\<close>

definition leader_of :: "default_leader_function \<Rightarrow> round \<Rightarrow> instance_height \<Rightarrow> operator_id list \<Rightarrow> operator_id option" where
  "leader_of dl r height committee =
     (if committee = [] then None
      else
        let sorted_committee = sort committee;
            eth_epoch = (if dl_include_epoch_shift dl then height div dl_slots_per_epoch dl else 0);
            index = (r - round_default + height + eth_epoch) mod of_nat (length sorted_committee)
        in Some (sorted_committee ! unat index))"

definition leader_function :: "default_leader_function \<Rightarrow> leader_fn" where
  "leader_function dl op r height committee = (leader_of dl r height committee = Some op)"

section \<open>Configuration (config.rs)\<close>

datatype config_builder_error =
    NoParticipants | ZeroMaxRounds | ExceedingStartingRound | InvalidCommitteeSize
  | MissingOperatorId | OperatorNotParticipant | MissingInstanceHeight

text \<open>Durations are counted in nanoseconds.\<close>

record config =
  cf_operator_id :: operator_id
  cf_instance_height :: instance_height
  cf_round :: round
  cf_committee_members :: "operator_id list"
  cf_round_time :: nat
  cf_max_rounds :: u64
  cf_leader_fn :: leader_fn

record config_builder =
  cb_operator_id :: operator_id
  cb_instance_height :: instance_height
  cb_committee_members :: "operator_id list"
  cb_leader_fn :: leader_fn
  cb_round :: round
  cb_round_time :: nat
  cb_max_rounds :: u64

definition config_quorum_size :: "config \<Rightarrow> nat" where
  "config_quorum_size c = quorum_size (length (cf_committee_members c))"

definition config_from_builder :: "config_builder \<Rightarrow> config" where
  "config_from_builder b =
     \<lparr>cf_operator_id = cb_operator_id b, cf_instance_height = cb_instance_height b,
      cf_round = cb_round b, cf_committee_members = cb_committee_members b,
      cf_round_time = cb_round_time b, cf_max_rounds = cb_max_rounds b,
      cf_leader_fn = cb_leader_fn b\<rparr>"

definition config_builder_new_with_leader_fn ::
    "operator_id \<Rightarrow> instance_height \<Rightarrow> operator_id list \<Rightarrow> leader_fn \<Rightarrow> config_builder" where
  "config_builder_new_with_leader_fn op height members lf =
     \<lparr>cb_operator_id = op, cb_instance_height = height, cb_committee_members = members,
      cb_leader_fn = lf, cb_round = round_default, cb_round_time = 2 * 10 ^ 9,
      cb_max_rounds = 4\<rparr>"

definition config_builder_new :: "operator_id \<Rightarrow> instance_height \<Rightarrow> operator_id list \<Rightarrow> config_builder" where
  "config_builder_new op height members =
     config_builder_new_with_leader_fn op height members
       (leader_function default_leader_function_default)"

definition with_round :: "config_builder \<Rightarrow> round \<Rightarrow> config_builder" where
  "with_round b r = b\<lparr>cb_round := r\<rparr>"

definition with_max_rounds :: "config_builder \<Rightarrow> u64 \<Rightarrow> config_builder" where
  "with_max_rounds b n = b\<lparr>cb_max_rounds := n\<rparr>"

definition with_leader_fn :: "config_builder \<Rightarrow> leader_fn \<Rightarrow> config_builder" where
  "with_leader_fn b lf = b\<lparr>cb_leader_fn := lf\<rparr>"

definition config_build :: "config_builder \<Rightarrow> config_builder_error + config" where
  "config_build b =
     (let committee_size = length (cb_committee_members b) in
      if committee_size = 0 then Inl NoParticipants
      else if cb_operator_id b \<notin> set (cb_committee_members b) then Inl OperatorNotParticipant
      else if \<not> is_valid_committee_size committee_size then Inl InvalidCommitteeSize
      else if cb_max_rounds b = 0 then Inl ZeroMaxRounds
      else if cb_round b > cb_max_rounds b then Inl ExceedingStartingRound
      else Inr (config_from_builder b))"

section \<open>Instance states and messages (qbft_types.rs)\<close>

record wrapped_qbft_message =
  wq_signed_message :: signed_ssv_message
  wq_qbft_message :: qbft_message

record unsigned_ssv_message =
  us_ssv_message :: ssv_message
  us_full_data :: bytes

record unsigned_wrapped_qbft_message =
  uw_unsigned_message :: unsigned_ssv_message
  uw_qbft_message :: qbft_message

datatype instance_state =
    AwaitingProposal
  | PrepareState hash256
  | CommitState hash256
  | SentRoundChange
  | Complete
  | RoundChangeConsensus

fun instance_state_to_u8 :: "instance_state \<Rightarrow> byte" where
  "instance_state_to_u8 AwaitingProposal = 0"
| "instance_state_to_u8 (PrepareState _) = 1"
| "instance_state_to_u8 (CommitState _) = 2"
| "instance_state_to_u8 SentRoundChange = 4"
| "instance_state_to_u8 Complete = 5"
| "instance_state_to_u8 RoundChangeConsensus = 6"

datatype instance_state_kind =
    KindAwaitingProposal | KindPrepare | KindCommit | KindSentRoundChange | KindComplete
  | KindRoundChangeConsensus

fun instance_state_kind_of :: "instance_state \<Rightarrow> instance_state_kind" where
  "instance_state_kind_of AwaitingProposal = KindAwaitingProposal"
| "instance_state_kind_of (PrepareState _) = KindPrepare"
| "instance_state_kind_of (CommitState _) = KindCommit"
| "instance_state_kind_of SentRoundChange = KindSentRoundChange"
| "instance_state_kind_of Complete = KindComplete"
| "instance_state_kind_of RoundChangeConsensus = KindRoundChangeConsensus"

datatype 'd completed = TimedOut | Success 'd

section \<open>Errors (error.rs)\<close>

datatype qbft_error =
    SignerNotInCommittee | WrongHeight | WrongRound | PastRound | InvalidFullData
  | DataValidationFailed | MissingOperators | InvalidDataRound | WrongMessageType
  | NotEnoughSignatures
  | ProposalNotFromLeader | ProposalAlreadyReceived | ProposalNotAccepted | ProposalMissingData
  | ProposalNotFound | ProposedDataMismatch
  | DuplicateProposal
  | ProposalRoundChangeJustificationNoQuorum | RoundChangeJustificationNoQuorum
  | RoundChangeJustificationWrongRound | RoundChangeJustificationWrongHeight
  | RoundChangeJustificationInvalidMessage | RoundChangeJustificationNotRoundChange
  | RoundChangeJustificationInvalidDataRound | RoundChangeJustificationDecodeFailed
  | RoundChangeJustificationInvalidPrepareRoot | RoundChangeJustificationNotInCommittee
  | RoundChangeJustificationNoPrepareQuorum | RoundChangeJustificationMultiSigner
  | RoundChangeJustificationTooBig nat nat | RoundChangeJustificationListTooBig nat nat
  | PrepareJustificationWrongRound | PrepareJustificationMultiSigner
  | PrepareJustificationWrongHeight | PrepareJustificationNoQuorum
  | PrepareJustificationDecodeFailed | PrepareJustificationNotPrepare
  | PrepareJustificationRootMismatch | PrepareJustificationTooBig nat nat
  | PrepareJustificationListTooBig nat nat
  | MissingLastPreparedValue | FailedToAggregate signed_ssv_message_error
  | QbftSignedSSVMessageError signed_ssv_message_error | InvalidState | MissingData
  | CommitQuorumMismatch | MissingCommit

section \<open>Lemmas\<close>

text \<open>A configuration as \<open>build\<close> returns it. An \<open>IndexSet\<close> holds no element twice.\<close>

definition config_wf :: "config \<Rightarrow> bool" where
  "config_wf c \<longleftrightarrow>
     distinct (cf_committee_members c)
     \<and> is_valid_committee_size (length (cf_committee_members c))
     \<and> cf_operator_id c \<in> set (cf_committee_members c)
     \<and> cf_round c \<le> cf_max_rounds c \<and> cf_max_rounds c \<noteq> 0"

lemma config_build_Inr:
  assumes "config_build b = Inr c"
  shows "c = config_from_builder b" and "distinct (cb_committee_members b) \<Longrightarrow> config_wf c"
    and "cf_committee_members c \<noteq> []"
  using assms by (auto simp: config_build_def Let_def config_wf_def config_from_builder_def split: if_splits)

lemma config_wf_quorum:
  assumes "config_wf c"
  shows "threshold_quorum (length (cf_committee_members c))
           (get_f (length (cf_committee_members c))) (config_quorum_size c)"
  using valid_committee_threshold assms by (auto simp: config_wf_def config_quorum_size_def)

lemma config_quorum_size_pos [simp]: "0 < config_quorum_size c"
  by (simp add: config_quorum_size_def)

lemma config_wf_sizes:
  assumes "config_wf c"
  shows "config_quorum_size c \<le> length (cf_committee_members c)"
    and "length (cf_committee_members c) < 2 * config_quorum_size c"
    and "get_f (length (cf_committee_members c)) + 1 < config_quorum_size c"
    and "length (cf_committee_members c) \<le> 13"
proof -
  have v: "is_valid_committee_size (length (cf_committee_members c))"
    using assms by (simp add: config_wf_def)
  obtain f where "f \<in> {1, 2, 3, 4}" "length (cf_committee_members c) = 3 * f + 1"
    "get_f (length (cf_committee_members c)) = f" "config_quorum_size c = 2 * f + 1"
    using valid_committee_cases [OF v] unfolding config_quorum_size_def by blast
  then show "config_quorum_size c \<le> length (cf_committee_members c)"
    and "length (cf_committee_members c) < 2 * config_quorum_size c"
    and "get_f (length (cf_committee_members c)) + 1 < config_quorum_size c"
    and "length (cf_committee_members c) \<le> 13"
    by auto
qed

text \<open>A non-empty committee has exactly one leader per round and height, one of its members.\<close>

lemma leader_of_member:
  assumes "committee \<noteq> []" and "length committee < 2 ^ 64"
  shows "\<exists>op \<in> set committee. leader_of dl r height committee = Some op"
proof -
  let ?n = "length committee"
  let ?e = "if dl_include_epoch_shift dl then height div dl_slots_per_epoch dl else 0"
  let ?i = "(r - round_default + height + ?e) mod (of_nat ?n :: u64)"
  have "unat (of_nat ?n :: u64) = ?n" using assms(2) by (simp add: unat_of_nat)
  then have "unat ?i < ?n"
    using assms(1) by (simp add: unat_mod)
  then have "sort committee ! unat ?i \<in> set (sort committee)"
    by (intro nth_mem) simp
  then show ?thesis
    using assms(1) by (auto simp: leader_of_def Let_def)
qed

lemma leader_function_unique:
  "leader_function dl a r h c \<Longrightarrow> leader_function dl b r h c \<Longrightarrow> a = b"
  by (simp add: leader_function_def)

end
