(* ===== verification/Msg_Container.thy ===== *)
theory Msg_Container
  imports Qbft_Types
begin

text \<open>
  The per-round message store of a QBFT instance (\<open>msg_container.rs\<close>): at most one message
  per sender and round, counts per value, and the partial quorum over future rounds. The
  invariant ties the sender sets to the stored messages; from it a reported quorum is a set of
  that many distinct senders, and a value with a quorum is unique.
\<close>

record message_container =
  mc_messages :: "round \<rightharpoonup> wrapped_qbft_message list"
  mc_senders_by_round :: "(round, operator_id set) btree"
  mc_values_by_round :: "round \<rightharpoonup> hash256 set"
  mc_quorum_size :: nat

definition mc_new :: "nat \<Rightarrow> message_container" where
  "mc_new q = \<lparr>mc_messages = Map.empty, mc_senders_by_round = [],
               mc_values_by_round = Map.empty, mc_quorum_size = q\<rparr>"

abbreviation wq_root :: "wrapped_qbft_message \<Rightarrow> hash256" where
  "wq_root m \<equiv> qm_root (wq_qbft_message m)"

text \<open>\<open>entry(k).or_default()\<close> for the three maps.\<close>

definition or_default :: "'a \<Rightarrow> 'a option \<Rightarrow> 'a" where
  "or_default d x = (case x of None \<Rightarrow> d | Some a \<Rightarrow> a)"

lemma or_default_simps [simp]: "or_default d None = d" "or_default d (Some a) = a"
  by (simp_all add: or_default_def)

definition add_message ::
    "message_container \<Rightarrow> round \<Rightarrow> operator_id \<Rightarrow> wrapped_qbft_message \<Rightarrow> message_container \<times> bool" where
  "add_message c r sender msg =
     (let senders = or_default {} (map_of (mc_senders_by_round c) r) in
      if sender \<in> senders then (c, False)
      else
        (c\<lparr>mc_senders_by_round := bt_insert r (insert sender senders) (mc_senders_by_round c),
           mc_messages := (mc_messages c)(r \<mapsto> or_default [] (mc_messages c r) @ [msg]),
           mc_values_by_round :=
             (mc_values_by_round c)(r \<mapsto> insert (wq_root msg) (or_default {} (mc_values_by_round c r)))\<rparr>,
         True))"

text \<open>
  \<open>*value_counts.entry(root).or_default() += 1\<close> over the messages of a round. The source keeps
  the counts in a \<open>HashMap\<close>, whose iteration order is unspecified; the model iterates in the
  order of first occurrence, and \<open>has_quorum_unique\<close> shows the order does not matter.
\<close>

fun bump_count :: "hash256 \<Rightarrow> (hash256 \<times> nat) list \<Rightarrow> (hash256 \<times> nat) list" where
  "bump_count h [] = [(h, 1)]"
| "bump_count h ((k, c) # m) = (if k = h then (k, c + 1) # m else (k, c) # bump_count h m)"

definition value_counts :: "wrapped_qbft_message list \<Rightarrow> (hash256 \<times> nat) list" where
  "value_counts msgs = foldl (\<lambda>m msg. bump_count (wq_root msg) m) [] msgs"

definition has_quorum :: "message_container \<Rightarrow> round \<Rightarrow> hash256 option" where
  "has_quorum c r =
     (case mc_messages c r of
        None \<Rightarrow> None
      | Some round_messages \<Rightarrow>
          map_option fst (find (\<lambda>(_, count). count \<ge> mc_quorum_size c) (value_counts round_messages)))"

definition has_quorum_disregarding_root :: "message_container \<Rightarrow> round \<Rightarrow> bool" where
  "has_quorum_disregarding_root c r =
     (case mc_messages c r of None \<Rightarrow> False | Some msgs \<Rightarrow> length msgs \<ge> mc_quorum_size c)"

definition lowest_partial_quorum_above_round :: "message_container \<Rightarrow> round \<Rightarrow> nat \<Rightarrow> round option" where
  "lowest_partial_quorum_above_round c r partial =
     (case round_next r of
        None \<Rightarrow> None
      | Some start_round \<Rightarrow>
          let future = bt_range_from start_round (mc_senders_by_round c);
              min_future_round = (case future of [] \<Rightarrow> None | e # _ \<Rightarrow> Some (fst e));
              all_operators = \<Union> (snd ` set future)
          in if card all_operators \<ge> partial then min_future_round else None)"

definition get_messages_for_round :: "message_container \<Rightarrow> round \<Rightarrow> wrapped_qbft_message list" where
  "get_messages_for_round c r = or_default [] (mc_messages c r)"

definition get_quorum_of_messages :: "message_container \<Rightarrow> round \<Rightarrow> wrapped_qbft_message list" where
  "get_quorum_of_messages c r =
     (case has_quorum c r of
        None \<Rightarrow> []
      | Some hash \<Rightarrow>
          (case mc_messages c r of
             None \<Rightarrow> []
           | Some round_messages \<Rightarrow> filter (\<lambda>msg. wq_root msg = hash) round_messages))"

section \<open>Invariant\<close>

text \<open>
  \<open>P r s m\<close> says that \<open>m\<close> may be stored for round \<open>r\<close> from sender \<open>s\<close>. Every round's
  messages have pairwise distinct senders, which are exactly the recorded ones.
\<close>

type_synonym stored = "round \<Rightarrow> operator_id \<Rightarrow> wrapped_qbft_message \<Rightarrow> bool"

definition mc_round_ok :: "stored \<Rightarrow> round \<Rightarrow> operator_id set \<Rightarrow> wrapped_qbft_message list \<Rightarrow> bool" where
  "mc_round_ok P r senders msgs \<longleftrightarrow>
     (\<exists>ss. distinct ss \<and> set ss = senders \<and> list_all2 (P r) ss msgs)"

definition mc_inv :: "stored \<Rightarrow> message_container \<Rightarrow> bool" where
  "mc_inv P c \<longleftrightarrow>
     bt_wf (mc_senders_by_round c)
     \<and> (\<forall>r. mc_round_ok P r (or_default {} (map_of (mc_senders_by_round c) r)) (get_messages_for_round c r))
     \<and> (\<forall>r s. map_of (mc_senders_by_round c) r = Some s \<longrightarrow> s \<noteq> {})"

lemma mc_quorum_size_new [simp]: "mc_quorum_size (mc_new q) = q"
  by (simp add: mc_new_def)

lemma mc_inv_new [inv_intros]: "mc_inv P (mc_new q)"
  using bt.wf_empty by (simp add: mc_inv_def mc_new_def mc_round_ok_def get_messages_for_round_def)

lemma mc_round_ok_add:
  assumes "mc_round_ok P r S ms" "s \<notin> S" "P r s m"
  shows "mc_round_ok P r (insert s S) (ms @ [m])"
proof -
  from assms(1) obtain ss where "distinct ss" "set ss = S" "list_all2 (P r) ss ms"
    by (auto simp: mc_round_ok_def)
  then show ?thesis
    unfolding mc_round_ok_def
    by (intro exI [of _ "ss @ [s]"]) (use assms in \<open>auto intro: list_all2_appendI\<close>)
qed

lemma mc_inv_add [inv_intros]:
  assumes inv: "mc_inv P c" and P: "P r s m"
  shows "mc_inv P (fst (add_message c r s m))"
proof (cases "s \<in> or_default {} (map_of (mc_senders_by_round c) r)")
  case True
  then show ?thesis using inv by (simp add: add_message_def)
next
  case False
  let ?S = "or_default {} (map_of (mc_senders_by_round c) r)"
  let ?c = "fst (add_message c r s m)"
  have senders: "mc_senders_by_round ?c = bt_insert r (insert s ?S) (mc_senders_by_round c)"
    and msgs: "mc_messages ?c = (mc_messages c)(r \<mapsto> or_default [] (mc_messages c r) @ [m])"
    using False by (simp_all add: add_message_def Let_def)
  have "mc_round_ok P r ?S (get_messages_for_round c r)" using inv by (simp add: mc_inv_def)
  then have "mc_round_ok P r (insert s ?S) (get_messages_for_round c r @ [m])"
    using False P by (rule mc_round_ok_add)
  then have "mc_round_ok P r' (or_default {} (map_of (mc_senders_by_round ?c) r')) (get_messages_for_round ?c r')" for r'
    using inv by (simp add: mc_inv_def senders msgs bt.get_ins get_messages_for_round_def)
  then show ?thesis
    using inv by (auto simp: mc_inv_def senders bt.wf_ins bt.get_ins)
qed

lemma add_message_quorum_size [simp]: "mc_quorum_size (fst (add_message c r s m)) = mc_quorum_size c"
  by (simp add: add_message_def Let_def)

lemma add_message_duplicate:
  "snd (add_message c r s m) \<longleftrightarrow> s \<notin> or_default {} (map_of (mc_senders_by_round c) r)"
  by (simp add: add_message_def Let_def)

lemma add_message_unchanged: "\<not> snd (add_message c r s m) \<Longrightarrow> fst (add_message c r s m) = c"
  by (auto simp: add_message_def Let_def split: if_splits)

lemma add_message_messages:
  "snd (add_message c r s m) \<Longrightarrow>
     get_messages_for_round (fst (add_message c r s m)) r' =
       (if r' = r then get_messages_for_round c r @ [m] else get_messages_for_round c r')"
  by (auto simp: add_message_def Let_def get_messages_for_round_def split: if_splits)

lemma mc_inv_mono: "mc_inv P c \<Longrightarrow> (\<And>r s m. P r s m \<Longrightarrow> Q r s m) \<Longrightarrow> mc_inv Q c"
  unfolding mc_inv_def mc_round_ok_def by (meson list_all2_mono)

text \<open>What the invariant says of one round: its senders, as a list beside its messages.\<close>

lemma mc_inv_round:
  assumes "mc_inv P c"
  obtains ss where "distinct ss" "set ss = or_default {} (map_of (mc_senders_by_round c) r)"
    "list_all2 (P r) ss (get_messages_for_round c r)"
  using assms unfolding mc_inv_def mc_round_ok_def by blast

lemma mc_inv_stored:
  assumes "mc_inv P c" "m \<in> set (get_messages_for_round c r)"
  shows "\<exists>s. P r s m"
proof -
  obtain ss where "list_all2 (P r) ss (get_messages_for_round c r)"
    using mc_inv_round [OF assms(1)] by metis
  then show ?thesis
    using assms(2) by (metis in_set_conv_nth list_all2_conv_all_nth)
qed

section \<open>Counting\<close>

lemma bump_count_get:
  "map_of (bump_count h m) k = (if k = h then Some (or_default 0 (map_of m h) + 1) else map_of m k)"
  by (induction m) auto

lemma bump_count_keys: "fst ` set (bump_count h m) = insert h (fst ` set m)"
  by (induction h m rule: bump_count.induct) auto

lemma bump_count_distinct: "distinct (map fst m) \<Longrightarrow> distinct (map fst (bump_count h m))"
proof (induction m)
  case Nil
  then show ?case by simp
next
  case (Cons e m)
  obtain k c where e: "e = (k, c)" by (cases e)
  have keys: "set (map fst (bump_count h m)) = insert h (set (map fst m))"
    using bump_count_keys [of h m] by simp
  show ?case using Cons keys by (auto simp: e)
qed

definition root_count :: "hash256 \<Rightarrow> wrapped_qbft_message list \<Rightarrow> nat" where
  "root_count h msgs = length (filter (\<lambda>m. wq_root m = h) msgs)"

lemma value_counts_foldl:
  "distinct (map fst m) \<Longrightarrow>
     let m' = foldl (\<lambda>m msg. bump_count (wq_root msg) m) m msgs in
     distinct (map fst m')
     \<and> (\<forall>h. map_of m' h = (if root_count h msgs = 0 then map_of m h
                           else Some (or_default 0 (map_of m h) + root_count h msgs)))"
proof (induction msgs arbitrary: m)
  case Nil
  then show ?case by (simp add: root_count_def)
next
  case (Cons msg msgs)
  have d: "distinct (map fst (bump_count (wq_root msg) m))"
    using Cons.prems by (rule bump_count_distinct)
  show ?case
    using Cons.IH [OF d] by (auto simp: Let_def bump_count_get root_count_def)
qed

lemma value_counts_get:
  "map_of (value_counts msgs) h = (if root_count h msgs = 0 then None else Some (root_count h msgs))"
  and value_counts_distinct: "distinct (map fst (value_counts msgs))"
  using value_counts_foldl [of "[]" msgs] by (simp_all add: value_counts_def Let_def)

lemma value_counts_mem: "(h, n) \<in> set (value_counts msgs) \<longleftrightarrow> n = root_count h msgs \<and> n \<noteq> 0"
proof -
  have "(h, n) \<in> set (value_counts msgs) \<longleftrightarrow> map_of (value_counts msgs) h = Some n"
    using value_counts_distinct [of msgs] by simp
  then show ?thesis by (auto simp: value_counts_get)
qed

text \<open>\<open>has_quorum\<close> reports a value that reached the quorum, and reports one whenever there is one.\<close>

lemma has_quorum_Some:
  assumes "has_quorum c r = Some h"
  shows "mc_quorum_size c \<le> root_count h (get_messages_for_round c r)"
proof -
  from assms obtain msgs e where m: "mc_messages c r = Some msgs"
    and f: "find (\<lambda>(_, count). count \<ge> mc_quorum_size c) (value_counts msgs) = Some e"
    and h: "h = fst e"
    by (auto simp: has_quorum_def split: option.splits)
  from f have "e \<in> set (value_counts msgs)" "mc_quorum_size c \<le> snd e"
    by (auto simp: find_Some_iff split_def)
  then show ?thesis
    using value_counts_mem [of h "snd e" msgs] h m by (simp add: get_messages_for_round_def)
qed

lemma has_quorum_None:
  assumes "has_quorum c r = None" "0 < mc_quorum_size c"
  shows "root_count h (get_messages_for_round c r) < mc_quorum_size c"
proof (cases "mc_messages c r")
  case None
  then show ?thesis using assms(2) by (simp add: get_messages_for_round_def root_count_def)
next
  case (Some msgs)
  then have "find (\<lambda>(_, count). count \<ge> mc_quorum_size c) (value_counts msgs) = None"
    using assms(1) by (simp add: has_quorum_def)
  then have "\<forall>e \<in> set (value_counts msgs). snd e < mc_quorum_size c"
    by (auto simp: find_None_iff not_le)
  then have "(h, root_count h msgs) \<in> set (value_counts msgs) \<Longrightarrow> root_count h msgs < mc_quorum_size c"
    by force
  then show ?thesis
    using value_counts_mem [of h "root_count h msgs" msgs] Some assms(2)
    by (cases "root_count h msgs = 0") (auto simp: get_messages_for_round_def)
qed

section \<open>Quorums of senders\<close>

text \<open>The senders of a round's messages for value \<open>h\<close>: as many as there are such messages.\<close>

lemma root_count_senders:
  assumes "mc_inv P c"
  obtains S where "S \<subseteq> or_default {} (map_of (mc_senders_by_round c) r)" "finite S"
    "card S = root_count h (get_messages_for_round c r)"
    "\<And>s. s \<in> S \<Longrightarrow> \<exists>m \<in> set (get_messages_for_round c r). wq_root m = h \<and> P r s m"
proof -
  let ?ms = "get_messages_for_round c r"
  obtain ss where d: "distinct ss" and ss: "set ss = or_default {} (map_of (mc_senders_by_round c) r)"
    and all2: "list_all2 (P r) ss ?ms"
    using mc_inv_round [OF assms] by metis
  have len: "length ss = length ?ms" using all2 by (rule list_all2_lengthD)
  define S where "S = fst ` set (filter (\<lambda>p. wq_root (snd p) = h) (zip ss ?ms))"
  have inj: "inj_on fst (set (zip ss ?ms))"
    using d by (auto simp: inj_on_def set_zip nth_eq_iff_index_eq)
  have dz: "distinct (zip ss ?ms)" using d by (rule distinct_zipI1)
  have "card S = card (set (filter (\<lambda>p. wq_root (snd p) = h) (zip ss ?ms)))"
    unfolding S_def by (rule card_image) (rule inj_on_subset [OF inj], auto)
  also have "\<dots> = length (filter (\<lambda>p. wq_root (snd p) = h) (zip ss ?ms))"
    by (rule distinct_card) (simp add: dz)
  also have "\<dots> = length (map snd (filter (\<lambda>p. wq_root (snd p) = h) (zip ss ?ms)))"
    by simp
  also have "map snd (filter (\<lambda>p. wq_root (snd p) = h) (zip ss ?ms)) =
      filter (\<lambda>m. wq_root m = h) (map snd (zip ss ?ms))"
    by (simp add: filter_map comp_def)
  also have "map snd (zip ss ?ms) = ?ms" using len by simp
  finally have "card S = root_count h ?ms" by (simp add: root_count_def)
  moreover have "S \<subseteq> set ss" unfolding S_def by (auto dest: set_zip_leftD)
  moreover have "\<exists>m \<in> set ?ms. wq_root m = h \<and> P r s m" if "s \<in> S" for s
  proof -
    from that obtain m where "(s, m) \<in> set (zip ss ?ms)" "wq_root m = h"
      by (auto simp: S_def)
    moreover from this have "m \<in> set ?ms" "P r s m"
      using all2 by (auto simp: list_all2_iff dest: set_zip_rightD)
    ultimately show ?thesis by blast
  qed
  ultimately show ?thesis
    using that [of S] ss by (auto simp: S_def)
qed

lemma quorum_senders:
  assumes "mc_inv P c" "has_quorum c r = Some h"
  obtains S where "finite S" "mc_quorum_size c \<le> card S"
    "S \<subseteq> or_default {} (map_of (mc_senders_by_round c) r)"
    "\<And>s. s \<in> S \<Longrightarrow> \<exists>m \<in> set (get_messages_for_round c r). wq_root m = h \<and> P r s m"
  using root_count_senders [OF assms(1), of r h] has_quorum_Some [OF assms(2)] by metis

lemma root_count_disjoint:
  "h \<noteq> h' \<Longrightarrow> root_count h ms + root_count h' ms \<le> length ms"
  unfolding root_count_def by (induction ms) auto

lemma mc_inv_round_length:
  assumes "mc_inv P c"
  shows "length (get_messages_for_round c r) = card (or_default {} (map_of (mc_senders_by_round c) r))"
proof -
  obtain ss where "distinct ss" "set ss = or_default {} (map_of (mc_senders_by_round c) r)"
    "list_all2 (P r) ss (get_messages_for_round c r)"
    using mc_inv_round [OF assms] by metis
  then show ?thesis by (metis distinct_card list_all2_lengthD)
qed

lemma mc_inv_senders:
  assumes "mc_inv P c" "s \<in> or_default {} (map_of (mc_senders_by_round c) r)"
  shows "\<exists>m \<in> set (get_messages_for_round c r). P r s m"
proof -
  obtain ss where "set ss = or_default {} (map_of (mc_senders_by_round c) r)"
    "list_all2 (P r) ss (get_messages_for_round c r)"
    using mc_inv_round [OF assms(1)] by metis
  then show ?thesis
    using assms(2) by (metis in_set_conv_nth list_all2_conv_all_nth)
qed

text \<open>
  With senders drawn from a committee of fewer than two quorums, at most one value has a
  quorum, so the iteration order of the \<open>HashMap\<close> cannot change the answer.
\<close>

lemma has_quorum_unique:
  assumes inv: "mc_inv P c" and P: "\<And>s m. P r s m \<Longrightarrow> s \<in> C"
    and fin: "finite C" and size: "card C < 2 * mc_quorum_size c"
    and q: "mc_quorum_size c \<le> root_count h (get_messages_for_round c r)"
    and pos: "0 < mc_quorum_size c"
  shows "has_quorum c r = Some h"
proof (cases "has_quorum c r")
  case None
  then show ?thesis using has_quorum_None [OF _ pos, of r h] q by simp
next
  case (Some h')
  have "or_default {} (map_of (mc_senders_by_round c) r) \<subseteq> C"
    using mc_inv_senders [OF inv] P by blast
  then have "length (get_messages_for_round c r) \<le> card C"
    using mc_inv_round_length [OF inv, of r] fin by (simp add: card_mono)
  then have "\<not> h \<noteq> h'"
    using root_count_disjoint [of h h' "get_messages_for_round c r"] has_quorum_Some [OF Some] q size
    by force
  then show ?thesis using Some by simp
qed

section \<open>The future partial quorum\<close>

lemma lowest_partial_quorum_Some:
  assumes inv: "mc_inv P c" and q: "lowest_partial_quorum_above_round c r k = Some r'"
  shows "r < r'"
    and "map_of (mc_senders_by_round c) r' \<noteq> None"
    and "\<And>r'' s. r < r'' \<Longrightarrow> map_of (mc_senders_by_round c) r'' = Some s \<Longrightarrow> r' \<le> r''"
    and "k \<le> card {s. \<exists>r'' S. r < r'' \<and> map_of (mc_senders_by_round c) r'' = Some S \<and> s \<in> S}"
proof -
  have wf: "bt_wf (mc_senders_by_round c)" using inv by (simp add: mc_inv_def)
  from q obtain st e rest where st: "round_next r = Some st"
    and rng: "bt_range_from st (mc_senders_by_round c) = e # rest" and r': "r' = fst e"
    and card: "k \<le> card (\<Union> (snd ` set (bt_range_from st (mc_senders_by_round c))))"
    by (auto simp: lowest_partial_quorum_above_round_def Let_def split: option.splits list.splits if_splits)
  have rng': "bt_range_from st (mc_senders_by_round c) = (fst e, snd e) # rest" using rng by simp
  have head: "st \<le> fst e" "map_of (mc_senders_by_round c) (fst e) = Some (snd e)"
    using bt.range_head_least(1,2) [OF wf rng'] by simp_all
  show "r < r'" using head(1) round_next_least [OF st] by (simp add: r')
  show "map_of (mc_senders_by_round c) r' \<noteq> None" using head(2) by (simp add: r')
  show "r' \<le> r''" if "r < r''" "map_of (mc_senders_by_round c) r'' = Some s" for r'' s
    using bt.range_head_least(3) [OF wf rng', of r'' s] that round_next_least [OF st] by (simp add: r')
  have "\<Union> (snd ` set (bt_range_from st (mc_senders_by_round c))) =
      {s. \<exists>r'' S. r < r'' \<and> map_of (mc_senders_by_round c) r'' = Some S \<and> s \<in> S}"
    using bt.range_set [OF wf, of st] round_next_least [OF st] by force
  then show "k \<le> card {s. \<exists>r'' S. r < r'' \<and> map_of (mc_senders_by_round c) r'' = Some S \<and> s \<in> S}"
    using card by simp
qed

end
