(* ===== verification/Qbft.thy ===== *)
theory Qbft
  imports Msg_Container
begin

text \<open>
  The QBFT instance (\<open>qbft/src/lib.rs\<close>): its state, the validation of a message, the four
  message handlers, decided messages, the end of a round, and the construction of outgoing
  messages. Methods on \<open>&mut self\<close> return the new state beside their result; what they wrote
  before an error stays written, and an \<open>expect\<close> that fails is \<open>Panic\<close>. Messages handed to
  the sender callback are appended to \<open>qb_sent\<close>. Logging is left out.
\<close>

section \<open>State\<close>

text \<open>
  What an instance calls and does not define: the SSZ codecs, the value type's own codec and
  hash (the \<open>QbftData\<close> trait) and the value check (the \<open>QbftDataValidator\<close> trait).
\<close>

record 'd qbft_env =
  qe_codec :: codec
  qe_data_from_ssz :: "bytes \<Rightarrow> decode_error + 'd"
  qe_data_as_ssz :: "'d \<Rightarrow> bytes"
  qe_hash :: "'d \<Rightarrow> hash256"
  qe_validate :: "'d \<Rightarrow> 'd \<Rightarrow> bool"

record 'd valid_data =
  vd_hash :: hash256
  vd_data :: 'd

datatype 'd message_content = CompleteContent "'d valid_data" | HashOnly hash256

datatype 'd rc_justification_outcome =
    HighestPrepared "'d valid_data"
  | PreparedExistsButDataMissing hash256
  | NoPrepared

record message_data =
  md_data_round :: u64
  md_round :: u64
  md_root :: hash256
  md_full_data :: bytes

record 'd qbft =
  qb_config :: config
  qb_identifier :: message_id
  qb_instance_height :: instance_height
  qb_start_data_hash :: hash256
  qb_start_data :: 'd
  qb_valid_start_data :: "'d valid_data"
  qb_data :: "hash256 \<rightharpoonup> 'd"
  qb_current_round :: round
  qb_state :: instance_state
  qb_completed :: "hash256 completed option"
  qb_propose_container :: message_container
  qb_prepare_container :: message_container
  qb_commit_container :: message_container
  qb_round_change_container :: message_container
  qb_proposal_accepted_for_current_round :: bool
  qb_proposal_root :: "hash256 option"
  qb_last_prepared_round :: "round option"
  qb_last_prepared_value :: "hash256 option"
  qb_aggregated_commit :: "signed_ssv_message option"
  qb_sent :: "unsigned_wrapped_qbft_message list"

type_synonym 'd step_result = "'d qbft \<times> (unit, qbft_error) outcome"

section \<open>Checks\<close>

definition state_kind :: "'d qbft \<Rightarrow> instance_state_kind" where
  "state_kind q = instance_state_kind_of (qb_state q)"

definition check_leader :: "'d qbft \<Rightarrow> operator_id \<Rightarrow> round \<Rightarrow> bool" where
  "check_leader q op r =
     cf_leader_fn (qb_config q) op r (qb_instance_height q) (cf_committee_members (qb_config q))"

definition check_committee :: "'d qbft \<Rightarrow> operator_id \<Rightarrow> bool" where
  "check_committee q op = (op \<in> set (cf_committee_members (qb_config q)))"

definition qbft_has_quorum :: "'d qbft \<Rightarrow> signed_ssv_message list \<Rightarrow> bool" where
  "qbft_has_quorum q msgs =
     (let unique_operators = set (filter (check_committee q) (concat (map sg_operator_ids msgs)))
      in card unique_operators \<ge> config_quorum_size (qb_config q))"

definition is_proposal_accepted :: "'d qbft \<Rightarrow> qbft_error + unit" where
  "is_proposal_accepted q =
     (if \<not> qb_proposal_accepted_for_current_round q then Inl ProposalNotAccepted else Inr ())"

definition try_decode_signed_ssv_messages ::
    "'d qbft_env \<Rightarrow> bytes list \<Rightarrow> qbft_error \<Rightarrow> qbft_error + signed_ssv_message list" where
  "try_decode_signed_ssv_messages E messages decode_err =
     collect_results (\<lambda>bs. case cd_signed_from_ssz (qe_codec E) bs of
        Inl _ \<Rightarrow> Inl decode_err | Inr m \<Rightarrow> Inr m) messages"

definition try_encode_signed_ssv_messages ::
    "'d qbft_env \<Rightarrow> nat \<Rightarrow> signed_ssv_message list \<Rightarrow> (nat \<Rightarrow> nat \<Rightarrow> qbft_error) \<Rightarrow> (nat \<Rightarrow> nat \<Rightarrow> qbft_error)
     \<Rightarrow> qbft_error + bytes list" where
  "try_encode_signed_ssv_messages E n messages inner_error_fn outer_error_fn =
     bindR (collect_results (\<lambda>msg.
              try_to_variable_list n inner_error_fn
                (cd_signed_as_ssz (qe_codec E) (without_full_data msg))) messages)
           (\<lambda>message_vec. try_to_variable_list 13 outer_error_fn message_vec)"

section \<open>Message validation\<close>

text \<open>The round rules: only a decided commit may come from another round, except that
  proposals and round changes may come from a later one.\<close>

definition validate_round :: "'d qbft \<Rightarrow> wrapped_qbft_message \<Rightarrow> qbft_error + unit" where
  "validate_round q w =
     (let m = wq_qbft_message w; decided = qbft_has_quorum q [wq_signed_message w] in
      if qm_round m < qb_current_round q \<and> \<not> (qm_type m = Commit \<and> decided) then Inl PastRound
      else if qm_round m > qb_current_round q then
        (case qm_type m of
           Proposal \<Rightarrow> Inr ()
         | RoundChange \<Rightarrow> Inr ()
         | Commit \<Rightarrow> if \<not> decided then Inl WrongRound else Inr ()
         | Prepare \<Rightarrow> Inl WrongRound)
      else Inr ())"

definition validate_message ::
    "'d qbft_env \<Rightarrow> 'd qbft \<Rightarrow> wrapped_qbft_message \<Rightarrow> qbft_error + 'd message_content \<times> operator_id" where
  "validate_message E q w =
     (let m = wq_qbft_message w; sm = wq_signed_message w in
      bindR (validate_round q w) (\<lambda>_.
      if qm_height m \<noteq> qb_instance_height q then Inl WrongHeight
      else if \<exists>signer \<in> set (sg_operator_ids sm). \<not> check_committee q signer then Inl SignerNotInCommittee
      else if length (sg_operator_ids sm) > 1 then Inr (HashOnly (qm_root m), 0)
      else
        (case sg_operator_ids sm of
           [] \<Rightarrow> Inl MissingOperators
         | signer # _ \<Rightarrow>
             if sg_full_data sm = [] \<or> qm_type m = RoundChange then Inr (HashOnly (qm_root m), signer)
             else
               (case qe_data_from_ssz E (sg_full_data sm) of
                  Inl _ \<Rightarrow> Inl InvalidFullData
                | Inr data \<Rightarrow>
                    if \<not> qe_validate E data (qb_start_data q) then Inl DataValidationFailed
                    else Inr (CompleteContent \<lparr>vd_hash = qm_root m, vd_data = data\<rparr>, signer)))))"

section \<open>Outgoing messages\<close>

definition get_message_data :: "'d qbft_env \<Rightarrow> 'd qbft \<Rightarrow> qbft_message_type \<Rightarrow> hash256 \<Rightarrow> message_data" where
  "get_message_data E q msg_type data_hash =
     (let full_data =
        (if msg_type = Proposal
         then (case qb_data q data_hash of None \<Rightarrow> [] | Some d \<Rightarrow> qe_data_as_ssz E d)
         else [])
      in if msg_type = RoundChange then
           (case (qb_last_prepared_value q, qb_last_prepared_round q) of
              (Some last_prepared_value, Some last_prepared_round) \<Rightarrow>
                \<lparr>md_data_round = last_prepared_round, md_round = qb_current_round q,
                 md_root = last_prepared_value,
                 md_full_data = (case qb_data q last_prepared_value of
                    None \<Rightarrow> [] | Some d \<Rightarrow> qe_data_as_ssz E d)\<rparr>
            | _ \<Rightarrow>
                \<lparr>md_data_round = 0, md_round = qb_current_round q, md_root = replicate 32 0,
                 md_full_data = []\<rparr>)
         else \<lparr>md_data_round = 0, md_round = qb_current_round q, md_root = data_hash,
               md_full_data = full_data\<rparr>)"

text \<open>Clearing the full data of a justification; \<open>set_full_data\<close> of nothing cannot fail.\<close>

definition clear_full_data :: "signed_ssv_message list \<Rightarrow> qbft_error + signed_ssv_message list" where
  "clear_full_data msgs =
     collect_results (\<lambda>m. case set_full_data m [] of Inl _ \<Rightarrow> Inl InvalidFullData | Inr m' \<Rightarrow> Inr m') msgs"

definition new_unsigned_message ::
    "'d qbft_env \<Rightarrow> 'd qbft \<Rightarrow> qbft_message_type \<Rightarrow> hash256 \<Rightarrow> signed_ssv_message list \<Rightarrow> signed_ssv_message list
     \<Rightarrow> (unsigned_wrapped_qbft_message, qbft_error) outcome" where
  "new_unsigned_message E q msg_type data_hash rc_justs prep_justs =
     (let data = get_message_data E q msg_type data_hash;
          justs =
            bindR (clear_full_data rc_justs) (\<lambda>rcs.
            bindR (clear_full_data prep_justs) (\<lambda>preps.
            bindR (try_encode_signed_ssv_messages E ROUND_CHANGE_JUSTIFICATION_LENGTH rcs
                     RoundChangeJustificationTooBig RoundChangeJustificationListTooBig) (\<lambda>rc_bytes.
            bindR (try_encode_signed_ssv_messages E PREPARE_JUSTIFICATION_LENGTH preps
                     PrepareJustificationTooBig PrepareJustificationListTooBig) (\<lambda>prep_bytes.
            Inr (rc_bytes, prep_bytes)))))
      in case justs of
           Inl e \<Rightarrow> Err e
         | Inr (rc_bytes, prep_bytes) \<Rightarrow>
             let m = \<lparr>qm_type = msg_type, qm_height = qb_instance_height q, qm_round = md_round data,
                      qm_identifier = qb_identifier q, qm_root = md_root data,
                      qm_data_round = md_data_round data,
                      qm_round_change_justification = rc_bytes, qm_prepare_justification = prep_bytes\<rparr>
             in case ssv_message_new SSVConsensusMsgType (qb_identifier q) (cd_qbft_as_ssz (qe_codec E) m) of
                  Inl _ \<Rightarrow> Panic
                | Inr ssv \<Rightarrow>
                    Ok \<lparr>uw_unsigned_message = \<lparr>us_ssv_message = ssv, us_full_data = md_full_data data\<rparr>,
                        uw_qbft_message = m\<rparr>)"

definition emit :: "'d qbft \<Rightarrow> unsigned_wrapped_qbft_message \<Rightarrow> 'd qbft" where
  "emit q m = q\<lparr>qb_sent := qb_sent q @ [m]\<rparr>"

text \<open>Build a message from the state and hand it to the sender; \<open>finish\<close> is what the caller
  writes between the two.\<close>

definition build_and_send ::
    "'d qbft_env \<Rightarrow> 'd qbft \<Rightarrow> qbft_message_type \<Rightarrow> hash256 \<Rightarrow> signed_ssv_message list \<Rightarrow> signed_ssv_message list
     \<Rightarrow> ('d qbft \<Rightarrow> 'd qbft) \<Rightarrow> 'd step_result" where
  "build_and_send E q t h rc_justs prep_justs finish =
     (case new_unsigned_message E q t h rc_justs prep_justs of
        Ok m \<Rightarrow> (emit (finish q) m, Ok ())
      | Err e \<Rightarrow> (q, Err e)
      | Panic \<Rightarrow> (q, Panic))"

definition get_round_change_justifications :: "'d qbft \<Rightarrow> signed_ssv_message list" where
  "get_round_change_justifications q =
     (if qb_current_round q \<le> round_default then []
      else if qb_state q = AwaitingProposal then
        (let round_changes =
           map wq_signed_message (get_messages_for_round (qb_round_change_container q) (qb_current_round q))
         in if qbft_has_quorum q round_changes then round_changes else [])
      else [])"

definition get_round_change_prepare_justifications :: "'d qbft \<Rightarrow> signed_ssv_message list" where
  "get_round_change_prepare_justifications q =
     (case (qb_last_prepared_value q, qb_last_prepared_round q) of
        (Some last_prepared_value, Some last_prepared_round) \<Rightarrow>
          let filtered_prepares =
            map wq_signed_message
              (filter (\<lambda>msg. wq_root msg = last_prepared_value)
                 (get_messages_for_round (qb_prepare_container q) last_prepared_round))
          in if qbft_has_quorum q filtered_prepares then filtered_prepares else []
      | _ \<Rightarrow> [])"

text \<open>The round change with the highest prepared round; the first one on ties.\<close>

definition highest_prepared_first :: "wrapped_qbft_message list \<Rightarrow> wrapped_qbft_message option" where
  "highest_prepared_first msgs =
     foldl (\<lambda>best m.
        if qm_data_round (wq_qbft_message m) > 0 then
          (case best of
             None \<Rightarrow> Some m
           | Some b \<Rightarrow>
               if qm_data_round (wq_qbft_message m) > qm_data_round (wq_qbft_message b)
               then Some m else Some b)
        else best) None msgs"

definition get_prepare_justifications ::
    "'d qbft_env \<Rightarrow> 'd qbft \<Rightarrow> qbft_error + signed_ssv_message list \<times> hash256 option" where
  "get_prepare_justifications E q =
     (if qb_current_round q = round_default then Inr ([], None)
      else if qb_state q \<noteq> AwaitingProposal then Inr ([], None)
      else
        let potential = get_round_change_prepare_justifications q in
        if potential \<noteq> [] then
          (case qb_last_prepared_value q of
             Some last_prepared \<Rightarrow> Inr (potential, Some last_prepared)
           | None \<Rightarrow> Inl MissingLastPreparedValue)
        else
          let round_changes = get_messages_for_round (qb_round_change_container q) (qb_current_round q) in
          if \<not> qbft_has_quorum q (map wq_signed_message round_changes) then Inr ([], None)
          else
            (case highest_prepared_first round_changes of
               None \<Rightarrow> Inr ([], None)
             | Some highest_rc \<Rightarrow>
                 bindR (try_decode_signed_ssv_messages E
                          (qm_round_change_justification (wq_qbft_message highest_rc))
                          RoundChangeJustificationDecodeFailed)
                   (\<lambda>prepare_msgs.
                      if qbft_has_quorum q prepare_msgs
                      then Inr (prepare_msgs, Some (qm_root (wq_qbft_message highest_rc)))
                      else Inr ([], None))))"

definition send_proposal :: "'d qbft_env \<Rightarrow> 'd qbft \<Rightarrow> hash256 \<Rightarrow> 'd \<Rightarrow> 'd step_result" where
  "send_proposal E q0 hash data =
     (let q = q0\<lparr>qb_data := (qb_data q0)(hash \<mapsto> data)\<rparr>;
          round_change_justifications = get_round_change_justifications q
      in case get_prepare_justifications E q of
           Inl e \<Rightarrow> (q, Err e)
         | Inr (prepare_justifications, value_to_propose) \<Rightarrow>
             build_and_send E q Proposal (or_default hash value_to_propose)
               round_change_justifications prepare_justifications (\<lambda>q. q))"

definition send_prepare :: "'d qbft_env \<Rightarrow> 'd qbft \<Rightarrow> hash256 \<Rightarrow> 'd step_result" where
  "send_prepare E q data_hash =
     (if qb_data q data_hash = None then (q, Err MissingData)
      else build_and_send E q Prepare data_hash [] [] (\<lambda>q. q))"

definition send_commit :: "'d qbft_env \<Rightarrow> 'd qbft \<Rightarrow> hash256 \<Rightarrow> 'd step_result" where
  "send_commit E q data_hash = build_and_send E q Commit data_hash [] [] (\<lambda>q. q)"

definition send_round_change :: "'d qbft_env \<Rightarrow> 'd qbft \<Rightarrow> hash256 \<Rightarrow> 'd step_result" where
  "send_round_change E q data_hash =
     build_and_send E q RoundChange data_hash (get_round_change_prepare_justifications q) []
       (\<lambda>q. q\<lparr>qb_proposal_accepted_for_current_round := False\<rparr>)"

section \<open>Starting a round\<close>

text \<open>\<open>max_by_key\<close> over the prepared round changes; the last one on ties.\<close>

definition highest_prepared_last :: "wrapped_qbft_message list \<Rightarrow> wrapped_qbft_message option" where
  "highest_prepared_last msgs =
     foldl (\<lambda>best m.
        (case best of
           None \<Rightarrow> Some m
         | Some b \<Rightarrow>
             if qm_data_round (wq_qbft_message b) \<le> qm_data_round (wq_qbft_message m)
             then Some m else Some b))
       None (filter (\<lambda>m. qm_data_round (wq_qbft_message m) \<noteq> 0) msgs)"

definition justify_round_change_quorum :: "'d qbft_env \<Rightarrow> 'd qbft \<Rightarrow> 'd rc_justification_outcome" where
  "justify_round_change_quorum E q =
     (let round_change_messages =
        get_messages_for_round (qb_round_change_container q) (qb_current_round q) in
      if \<not> qbft_has_quorum q (map wq_signed_message round_change_messages) then NoPrepared
      else
        (case highest_prepared_last round_change_messages of
           None \<Rightarrow> NoPrepared
         | Some highest_prepared \<Rightarrow>
             let claimed_hash = wq_root highest_prepared;
                 full_data = sg_full_data (wq_signed_message highest_prepared) in
             if full_data = [] then PreparedExistsButDataMissing claimed_hash
             else
               (case qe_data_from_ssz E full_data of
                  Inl _ \<Rightarrow> PreparedExistsButDataMissing claimed_hash
                | Inr data \<Rightarrow>
                    if qe_hash E data \<noteq> claimed_hash then PreparedExistsButDataMissing claimed_hash
                    else if \<not> qe_validate E data (qb_start_data q)
                      then PreparedExistsButDataMissing claimed_hash
                    else HighestPrepared \<lparr>vd_hash = claimed_hash, vd_data = data\<rparr>)))"

text \<open>An error of \<open>send_proposal\<close> is logged and dropped; its panic is not.\<close>

definition swallow_error :: "'d step_result \<Rightarrow> 'd step_result" where
  "swallow_error r = (case r of (q, Panic) \<Rightarrow> (q, Panic) | (q, _) \<Rightarrow> (q, Ok ()))"

definition start_round :: "'d qbft_env \<Rightarrow> 'd qbft \<Rightarrow> 'd step_result" where
  "start_round E q0 =
     (if qb_state q0 = SentRoundChange then (q0, Ok ())
      else
        let q = q0\<lparr>qb_state := AwaitingProposal\<rparr> in
        if check_leader q (cf_operator_id (qb_config q)) (qb_current_round q) then
          (case justify_round_change_quorum E q of
             HighestPrepared valid_data \<Rightarrow>
               swallow_error (send_proposal E q (vd_hash valid_data) (vd_data valid_data))
           | NoPrepared \<Rightarrow>
               swallow_error (send_proposal E q (vd_hash (qb_valid_start_data q))
                                (vd_data (qb_valid_start_data q)))
           | PreparedExistsButDataMissing _ \<Rightarrow> (q, Ok ()))
        else (q, Ok ()))"

definition set_round :: "'d qbft_env \<Rightarrow> 'd qbft \<Rightarrow> round \<Rightarrow> 'd step_result" where
  "set_round E q new_round = start_round E (q\<lparr>qb_current_round := new_round\<rparr>)"

definition qbft_new :: "'d qbft_env \<Rightarrow> config \<Rightarrow> 'd \<Rightarrow> message_id \<Rightarrow> 'd step_result" where
  "qbft_new E c start_data identifier =
     (let quorum = config_quorum_size c;
          start_data_hash = qe_hash E start_data;
          q = \<lparr>qb_config = c, qb_identifier = identifier,
               qb_instance_height = cf_instance_height c,
               qb_start_data_hash = start_data_hash, qb_start_data = start_data,
               qb_valid_start_data = \<lparr>vd_hash = start_data_hash, vd_data = start_data\<rparr>,
               qb_data = Map.empty, qb_current_round = cf_round c,
               qb_state = AwaitingProposal, qb_completed = None,
               qb_propose_container = mc_new quorum, qb_prepare_container = mc_new quorum,
               qb_commit_container = mc_new quorum, qb_round_change_container = mc_new quorum,
               qb_proposal_accepted_for_current_round = False, qb_proposal_root = None,
               qb_last_prepared_round = None, qb_last_prepared_value = None,
               qb_aggregated_commit = None, qb_sent = []\<rparr>
      in start_round E (q\<lparr>qb_data := (qb_data q)(start_data_hash \<mapsto> start_data)\<rparr>))"

section \<open>Justifications\<close>

definition is_valid_prepare_justification_for_round_and_root ::
    "'d qbft_env \<Rightarrow> 'd qbft \<Rightarrow> signed_ssv_message \<Rightarrow> round \<Rightarrow> hash256 \<Rightarrow> qbft_error + unit" where
  "is_valid_prepare_justification_for_round_and_root E q justification r root =
     (case sg_operator_ids justification of
        [operator_id] \<Rightarrow>
          if length (sg_signatures justification) \<noteq> 1 then Inl PrepareJustificationMultiSigner
          else if \<not> check_committee q operator_id then Inl SignerNotInCommittee
          else
            (case cd_qbft_from_ssz (qe_codec E) (sm_data (sg_ssv_message justification)) of
               Inl _ \<Rightarrow> Inl PrepareJustificationDecodeFailed
             | Inr prepare \<Rightarrow>
                 if qm_type prepare \<noteq> Prepare then Inl PrepareJustificationNotPrepare
                 else if qm_height prepare \<noteq> qb_instance_height q then Inl PrepareJustificationWrongHeight
                 else if qm_round prepare \<noteq> r then Inl PrepareJustificationWrongRound
                 else if qm_root prepare \<noteq> root then Inl PrepareJustificationRootMismatch
                 else Inr ())
      | _ \<Rightarrow> Inl PrepareJustificationMultiSigner)"

text \<open>One round change of a proposal's justification: the checks of the loop body, with the
  decoded round change as the result.\<close>

definition check_rc_justification ::
    "'d qbft_env \<Rightarrow> 'd qbft \<Rightarrow> qbft_message \<Rightarrow> signed_ssv_message \<Rightarrow> qbft_error + qbft_message" where
  "check_rc_justification E q msg signed_round_change =
     (if length (sg_operator_ids signed_round_change) \<noteq> 1
         \<or> length (sg_signatures signed_round_change) \<noteq> 1
      then Inl RoundChangeJustificationMultiSigner
      else if \<exists>signer \<in> set (sg_operator_ids signed_round_change). \<not> check_committee q signer
      then Inl RoundChangeJustificationNotInCommittee
      else
        (case cd_qbft_from_ssz (qe_codec E) (sm_data (sg_ssv_message signed_round_change)) of
           Inl _ \<Rightarrow> Inl RoundChangeJustificationDecodeFailed
         | Inr round_change \<Rightarrow>
             if qm_type round_change \<noteq> RoundChange then Inl RoundChangeJustificationNotRoundChange
             else if qm_round round_change \<noteq> qm_round msg then Inl RoundChangeJustificationWrongRound
             else if qm_height round_change \<noteq> qb_instance_height q then Inl RoundChangeJustificationWrongHeight
             else if qm_data_round round_change > 0 then
               if qm_data_round round_change \<ge> qm_round round_change
               then Inl RoundChangeJustificationInvalidDataRound
               else if qm_root msg \<noteq> qm_root round_change
               then Inl RoundChangeJustificationInvalidPrepareRoot
               else
                 bindR (try_decode_signed_ssv_messages E (qm_round_change_justification round_change)
                          RoundChangeJustificationDecodeFailed) (\<lambda>inner.
                 if \<not> qbft_has_quorum q inner then Inl RoundChangeJustificationNoPrepareQuorum
                 else bindR (try_for_each (\<lambda>signed_prepare.
                        is_valid_prepare_justification_for_round_and_root E q signed_prepare
                          (qm_data_round round_change) (qm_root round_change)) inner)
                      (\<lambda>_. Inr round_change))
             else Inr round_change))"

text \<open>The loop with its accumulator: the round change of the highest prepared round so far.\<close>

fun check_rc_justifications ::
    "'d qbft_env \<Rightarrow> 'd qbft \<Rightarrow> qbft_message \<Rightarrow> qbft_message option \<Rightarrow> signed_ssv_message list
     \<Rightarrow> qbft_error + qbft_message option" where
  "check_rc_justifications E q msg max_prepared [] = Inr max_prepared"
| "check_rc_justifications E q msg max_prepared (signed_rc # rest) =
     bindR (check_rc_justification E q msg signed_rc) (\<lambda>round_change.
       let max_prepared_round = (case max_prepared of None \<Rightarrow> 0 | Some m \<Rightarrow> qm_data_round m) in
       check_rc_justifications E q msg
         (if qm_data_round round_change > max_prepared_round then Some round_change else max_prepared)
         rest)"

definition validate_proposal_justifications ::
    "'d qbft_env \<Rightarrow> 'd qbft \<Rightarrow> wrapped_qbft_message \<Rightarrow> qbft_error + unit" where
  "validate_proposal_justifications E q w =
     (let msg = wq_qbft_message w in
      bindR (try_decode_signed_ssv_messages E (qm_round_change_justification msg)
               RoundChangeJustificationDecodeFailed) (\<lambda>signed_rc_justifications.
      if \<not> qbft_has_quorum q signed_rc_justifications
      then Inl ProposalRoundChangeJustificationNoQuorum
      else
        bindR (check_rc_justifications E q msg None signed_rc_justifications) (\<lambda>max_prepared.
        case max_prepared of
          None \<Rightarrow> Inr ()
        | Some max_prepared_msg \<Rightarrow>
            bindR (try_decode_signed_ssv_messages E (qm_prepare_justification msg)
                     PrepareJustificationNoQuorum) (\<lambda>signed_prepare_justifications.
            if \<not> qbft_has_quorum q signed_prepare_justifications then Inl PrepareJustificationNoQuorum
            else if qm_root msg \<noteq> qm_root max_prepared_msg then Inl PrepareJustificationRootMismatch
            else try_for_each (\<lambda>signed_prepare.
                   is_valid_prepare_justification_for_round_and_root E q signed_prepare
                     (qm_data_round max_prepared_msg) (qm_root max_prepared_msg))
                   signed_prepare_justifications))))"

section \<open>Message handlers\<close>

definition received_propose ::
    "'d qbft_env \<Rightarrow> 'd qbft \<Rightarrow> 'd valid_data \<Rightarrow> operator_id \<Rightarrow> round \<Rightarrow> wrapped_qbft_message \<Rightarrow> 'd step_result" where
  "received_propose E q valid_data operator_id r w =
     (if r = qb_current_round q \<and> qb_state q \<noteq> AwaitingProposal then (q, Err InvalidState)
      else if \<not> check_leader q operator_id r then (q, Err ProposalNotFromLeader)
      else
        (case (if r > round_default then validate_proposal_justifications E q w else Inr ()) of
           Inl e \<Rightarrow> (q, Err e)
         | Inr _ \<Rightarrow>
             let q1 = q\<lparr>qb_data := (qb_data q)(vd_hash valid_data \<mapsto> vd_data valid_data)\<rparr>;
                 (container, added) = add_message (qb_propose_container q1) r operator_id w;
                 q2 = q1\<lparr>qb_propose_container := container\<rparr>
             in
               if \<not> added then (q2, Err DuplicateProposal)
               else if qb_proposal_accepted_for_current_round q2 \<and> r = qb_current_round q2
               then (q2, Err ProposalAlreadyReceived)
               else
                 let q3 = (if r > qb_current_round q2 then q2\<lparr>qb_current_round := r\<rparr> else q2);
                     q4 = q3\<lparr>qb_proposal_accepted_for_current_round := True,
                             qb_proposal_root := Some (vd_hash valid_data),
                             qb_state := PrepareState (vd_hash valid_data)\<rparr>
                 in send_prepare E q4 (wq_root w)))"

definition received_prepare ::
    "'d qbft_env \<Rightarrow> 'd qbft \<Rightarrow> operator_id \<Rightarrow> round \<Rightarrow> wrapped_qbft_message \<Rightarrow> 'd step_result" where
  "received_prepare E q operator_id r w =
     (if qb_completed q \<noteq> None then (q, Ok ())
      else if instance_state_to_u8 (qb_state q) \<ge> instance_state_to_u8 SentRoundChange
      then (q, Err InvalidState)
      else if qm_type (wq_qbft_message w) \<noteq> Prepare then (q, Err WrongMessageType)
      else
        let (container, added) = add_message (qb_prepare_container q) r operator_id w;
            q1 = q\<lparr>qb_prepare_container := container\<rparr>
        in
          if \<not> added then (q1, Ok ())
          else
            (case is_proposal_accepted q1 of
               Inl e \<Rightarrow> (q1, Err e)
             | Inr _ \<Rightarrow>
                 if (case qb_proposal_root q1 of
                       Some accepted_root \<Rightarrow> wq_root w \<noteq> accepted_root | None \<Rightarrow> False)
                 then (q1, Err ProposedDataMismatch)
                 else
                   (case has_quorum (qb_prepare_container q1) r of
                      None \<Rightarrow> (q1, Ok ())
                    | Some hash \<Rightarrow>
                        (case qb_state q1 of
                           PrepareState proposal_root \<Rightarrow>
                             if hash \<noteq> proposal_root then (q1, Err ProposedDataMismatch)
                             else
                               send_commit E
                                 (q1\<lparr>qb_state := CommitState proposal_root,
                                     qb_last_prepared_value := Some hash,
                                     qb_last_prepared_round := Some (qb_current_round q1)\<rparr>) hash
                         | _ \<Rightarrow> (q1, Ok ())))))"

definition aggregate_commit_messages ::
    "'d qbft_env \<Rightarrow> 'd qbft \<Rightarrow> wrapped_qbft_message list \<Rightarrow> qbft_error + signed_ssv_message" where
  "aggregate_commit_messages E q commit_quorum =
     (case commit_quorum of
        [] \<Rightarrow> Inl MissingCommit
      | first_commit # rest \<Rightarrow>
          let aggregated_ssv = sg_ssv_message (wq_signed_message first_commit) in
          if \<not> (\<forall>commit_msg \<in> set rest. aggregated_ssv = sg_ssv_message (wq_signed_message commit_msg))
          then Inl CommitQuorumMismatch
          else
            (case aggregate (wq_signed_message first_commit) (map wq_signed_message rest) of
               Inl e \<Rightarrow> Inl (FailedToAggregate e)
             | Inr aggregated_commit \<Rightarrow>
                 (case qb_data q (wq_root first_commit) of
                    None \<Rightarrow> Inl MissingData
                  | Some data \<Rightarrow>
                      (case set_full_data aggregated_commit (qe_data_as_ssz E data) of
                         Inl e \<Rightarrow> Inl (QbftSignedSSVMessageError e)
                       | Inr m \<Rightarrow> Inr m))))"

text \<open>What a commit quorum does: the quorum's root must be the accepted one.\<close>

definition commit_quorum_reached :: "'d qbft_env \<Rightarrow> 'd qbft \<Rightarrow> round \<Rightarrow> hash256 \<Rightarrow> 'd step_result" where
  "commit_quorum_reached E q r hash =
     (let finish =
        (case aggregate_commit_messages E q (get_quorum_of_messages (qb_commit_container q) r) of
           Inl e \<Rightarrow> (q, Err e)
         | Inr aggregated_commit \<Rightarrow>
             (q\<lparr>qb_aggregated_commit := Some aggregated_commit, qb_state := Complete,
                qb_completed := Some (Success hash)\<rparr>, Ok ()))
      in case qb_state q of
           PrepareState proposal_root \<Rightarrow>
             if hash \<noteq> proposal_root then (q, Err ProposedDataMismatch) else finish
         | CommitState proposal_root \<Rightarrow>
             if hash \<noteq> proposal_root then (q, Err ProposedDataMismatch) else finish
         | _ \<Rightarrow> (q, Err InvalidState))"

definition received_commit ::
    "'d qbft_env \<Rightarrow> 'd qbft \<Rightarrow> operator_id \<Rightarrow> round \<Rightarrow> wrapped_qbft_message \<Rightarrow> 'd step_result" where
  "received_commit E q operator_id r w =
     (if qb_completed q \<noteq> None then (q, Ok ())
      else if instance_state_to_u8 (qb_state q) \<ge> instance_state_to_u8 SentRoundChange
      then (q, Err InvalidState)
      else if qm_type (wq_qbft_message w) \<noteq> Commit then (q, Err WrongMessageType)
      else
        (case is_proposal_accepted q of
           Inl e \<Rightarrow> (q, Err e)
         | Inr _ \<Rightarrow>
             (case qb_proposal_root q of
                None \<Rightarrow> (q, Err ProposalNotFound)
              | Some accepted_root \<Rightarrow>
                  if wq_root w \<noteq> accepted_root then (q, Err ProposedDataMismatch)
                  else
                    let (container, added) = add_message (qb_commit_container q) r operator_id w;
                        q1 = q\<lparr>qb_commit_container := container\<rparr>
                    in
                      if \<not> added then (q1, Ok ())
                      else
                        (case has_quorum (qb_commit_container q1) r of
                           None \<Rightarrow> (q1, Ok ())
                         | Some hash \<Rightarrow> commit_quorum_reached E q1 r hash))))"

text \<open>The justification of a prepared round change.\<close>

definition validate_prepared_round_change ::
    "'d qbft_env \<Rightarrow> 'd qbft \<Rightarrow> qbft_message \<Rightarrow> qbft_error + unit" where
  "validate_prepared_round_change E q m =
     (if qm_data_round m > 0 then
        bindR (try_decode_signed_ssv_messages E (qm_round_change_justification m)
                 RoundChangeJustificationDecodeFailed) (\<lambda>signed_rc_justifications.
        if \<not> qbft_has_quorum q signed_rc_justifications then Inl RoundChangeJustificationNoQuorum
        else if qm_data_round m \<ge> qm_round m then Inl InvalidDataRound
        else try_for_each (\<lambda>justification.
               is_valid_prepare_justification_for_round_and_root E q justification
                 (qm_data_round m) (qm_root m)) signed_rc_justifications)
      else Inr ())"

definition received_round_change ::
    "'d qbft_env \<Rightarrow> 'd qbft \<Rightarrow> operator_id \<Rightarrow> round \<Rightarrow> wrapped_qbft_message \<Rightarrow> 'd step_result" where
  "received_round_change E q operator_id r w =
     (if instance_state_to_u8 (qb_state q) \<ge> instance_state_to_u8 Complete then (q, Err InvalidState)
      else
        (case validate_prepared_round_change E q (wq_qbft_message w) of
           Inl e \<Rightarrow> (q, Err e)
         | Inr _ \<Rightarrow>
             let had_quorum_before = has_quorum_disregarding_root (qb_round_change_container q) r;
                 q1 = q\<lparr>qb_round_change_container :=
                          fst (add_message (qb_round_change_container q) r operator_id w)\<rparr>
             in
               if had_quorum_before then (q1, Ok ())
               else if has_quorum_disregarding_root (qb_round_change_container q1) r then
                 set_round E (q1\<lparr>qb_state := RoundChangeConsensus\<rparr>) r
               else
                 (case lowest_partial_quorum_above_round (qb_round_change_container q1)
                         (qb_current_round q1)
                         (get_f (length (cf_committee_members (qb_config q1))) + 1) of
                    None \<Rightarrow> (q1, Ok ())
                  | Some new_round \<Rightarrow>
                      if new_round > qb_current_round q1 then
                        send_round_change E
                          (q1\<lparr>qb_state := SentRoundChange, qb_current_round := new_round,
                              qb_proposal_accepted_for_current_round := False\<rparr>) (replicate 32 0)
                      else (q1, Ok ()))))"

definition received_decided :: "'d qbft_env \<Rightarrow> 'd qbft \<Rightarrow> wrapped_qbft_message \<Rightarrow> 'd step_result" where
  "received_decided E q w =
     (if \<not> qbft_has_quorum q [wq_signed_message w] then (q, Err NotEnoughSignatures)
      else
        (case qb_completed q of
           Some (Success _) \<Rightarrow> (q, Ok ())
         | _ \<Rightarrow>
             (case qe_data_from_ssz E (sg_full_data (wq_signed_message w)) of
                Inl _ \<Rightarrow> (q, Err InvalidFullData)
              | Inr data \<Rightarrow>
                  if \<not> qe_validate E data (qb_start_data q) then (q, Err InvalidFullData)
                  else
                    (q\<lparr>qb_state := Complete, qb_data := (qb_data q)(wq_root w \<mapsto> data),
                       qb_completed := Some (Success (wq_root w)),
                       qb_aggregated_commit := Some (wq_signed_message w)\<rparr>, Ok ()))))"

section \<open>The instance's entry points\<close>

definition receive :: "'d qbft_env \<Rightarrow> 'd qbft \<Rightarrow> wrapped_qbft_message \<Rightarrow> 'd step_result" where
  "receive E q w =
     (case validate_message E q w of
        Inl e \<Rightarrow> (q, Err e)
      | Inr (validated_msg, signer) \<Rightarrow>
          (case round_from_u64 (qm_round (wq_qbft_message w)) of
             None \<Rightarrow> (q, Panic)
           | Some msg_round \<Rightarrow>
               (case qm_type (wq_qbft_message w) of
                  Proposal \<Rightarrow>
                    (case validated_msg of
                       CompleteContent valid_data \<Rightarrow> received_propose E q valid_data signer msg_round w
                     | HashOnly _ \<Rightarrow> (q, Ok ()))
                | Prepare \<Rightarrow> received_prepare E q signer msg_round w
                | Commit \<Rightarrow>
                    if length (sg_operator_ids (wq_signed_message w)) = 1
                    then received_commit E q signer msg_round w
                    else received_decided E q w
                | RoundChange \<Rightarrow> received_round_change E q signer msg_round w)))"

definition end_round :: "'d qbft_env \<Rightarrow> 'd qbft \<Rightarrow> 'd step_result" where
  "end_round E q =
     (let timed_out = (q\<lparr>qb_state := Complete, qb_completed := Some TimedOut\<rparr>, Ok ()) in
      case round_next (qb_current_round q) of
        None \<Rightarrow> timed_out
      | Some next_round \<Rightarrow>
          if next_round > cf_max_rounds (qb_config q) then timed_out
          else
            (case send_round_change E
                    (q\<lparr>qb_current_round := next_round, qb_state := SentRoundChange\<rparr>) (replicate 32 0) of
               (q', Ok _) \<Rightarrow> start_round E q'
             | (q', Err _) \<Rightarrow> (q', Ok ())
             | (q', Panic) \<Rightarrow> (q', Panic)))"

definition qbft_completed :: "'d qbft \<Rightarrow> 'd completed option" where
  "qbft_completed q =
     (case qb_completed q of
        None \<Rightarrow> None
      | Some TimedOut \<Rightarrow> Some TimedOut
      | Some (Success hash) \<Rightarrow>
          (case qb_data q hash of None \<Rightarrow> None | Some data \<Rightarrow> Some (Success data)))"

text \<open>The events an instance reacts to, and one step of it.\<close>

datatype qbft_event = Receive wrapped_qbft_message | EndRound

fun qbft_step :: "'d qbft_env \<Rightarrow> 'd qbft \<Rightarrow> qbft_event \<Rightarrow> 'd step_result" where
  "qbft_step E q (Receive w) = receive E q w"
| "qbft_step E q EndRound = end_round E q"

end
