(* ===== verification/Qbft_Inv.thy ===== *)
theory Qbft_Inv
  imports Qbft
begin

text \<open>
  What every reachable state of a QBFT instance satisfies. The invariant relates the messages an
  instance has sent to the messages it has stored: a sent prepare, commit or prepared round
  change is backed by the one proposal stored for its round, a sent commit by a quorum of
  prepares, a completed instance by a quorum of commits.
\<close>

section \<open>What a step keeps\<close>

text \<open>The configuration and the height never change.\<close>

definition same_instance :: "'d qbft \<Rightarrow> 'd qbft \<Rightarrow> bool" where
  "same_instance q0 q \<longleftrightarrow>
     qb_config q = qb_config q0 \<and> qb_instance_height q = qb_instance_height q0"

lemma same_instance_refl [simp]: "same_instance q q"
  by (simp add: same_instance_def)

lemma same_instance_eqs:
  assumes "same_instance q0 q"
  shows "qb_config q = qb_config q0" and "qb_instance_height q = qb_instance_height q0"
  using assms by (simp_all add: same_instance_def)

lemma check_committee_cong: "same_instance q0 q \<Longrightarrow> check_committee q = check_committee q0"
  by (intro ext) (simp only: check_committee_def same_instance_eqs)

lemma check_leader_cong: "same_instance q0 q \<Longrightarrow> check_leader q = check_leader q0"
  by (intro ext) (simp only: check_leader_def same_instance_eqs)

lemma qbft_has_quorum_cong: "same_instance q0 q \<Longrightarrow> qbft_has_quorum q = qbft_has_quorum q0"
  by (intro ext) (simp only: qbft_has_quorum_def check_committee_cong same_instance_eqs)

lemma prepare_justification_cong:
  assumes "same_instance q0 q"
  shows "is_valid_prepare_justification_for_round_and_root E q =
     is_valid_prepare_justification_for_round_and_root E q0"
  by (intro ext) (simp only: is_valid_prepare_justification_for_round_and_root_def
      check_committee_cong [OF assms] same_instance_eqs [OF assms])

lemma check_rc_justification_cong:
  assumes "same_instance q0 q"
  shows "check_rc_justification E q = check_rc_justification E q0"
  by (intro ext) (simp only: check_rc_justification_def check_committee_cong [OF assms]
      qbft_has_quorum_cong [OF assms] prepare_justification_cong [OF assms] same_instance_eqs [OF assms])

lemma check_rc_justifications_cong:
  assumes "same_instance q0 q"
  shows "check_rc_justifications E q = check_rc_justifications E q0"
proof (intro ext)
  fix m b js
  show "check_rc_justifications E q m b js = check_rc_justifications E q0 m b js"
    by (induction js arbitrary: b)
       (simp_all only: check_rc_justifications.simps check_rc_justification_cong [OF assms])
qed

lemma validate_proposal_justifications_cong:
  assumes "same_instance q0 q"
  shows "validate_proposal_justifications E q = validate_proposal_justifications E q0"
  by (intro ext) (simp only: validate_proposal_justifications_def qbft_has_quorum_cong [OF assms]
      check_rc_justifications_cong [OF assms] prepare_justification_cong [OF assms])

section \<open>Admissible messages\<close>

text \<open>
  What the message validator has checked of a message before the instance sees it: a round from
  1 on, and several signers only on a commit.
\<close>

definition prevalidated :: "wrapped_qbft_message \<Rightarrow> bool" where
  "prevalidated w \<longleftrightarrow>
     qm_round (wq_qbft_message w) \<noteq> 0
     \<and> (length (sg_operator_ids (wq_signed_message w)) > 1 \<longrightarrow> qm_type (wq_qbft_message w) = Commit)"

type_synonym admission = "wrapped_qbft_message \<Rightarrow> bool"

definition single_ok :: "admission \<Rightarrow> 'd qbft \<Rightarrow> qbft_message_type \<Rightarrow> stored" where
  "single_ok A q0 t r s w \<longleftrightarrow>
     A w \<and> prevalidated w \<and> qm_type (wq_qbft_message w) = t \<and> qm_round (wq_qbft_message w) = r
     \<and> sg_operator_ids (wq_signed_message w) = [s] \<and> check_committee q0 s"

definition proposal_ok :: "'d qbft_env \<Rightarrow> admission \<Rightarrow> 'd qbft \<Rightarrow> stored" where
  "proposal_ok E A q0 r s w \<longleftrightarrow>
     single_ok A q0 Proposal r s w \<and> check_leader q0 s r
     \<and> (r > round_default \<longrightarrow> validate_proposal_justifications E q0 w = Inr ())"

definition unique_leader :: "'d qbft \<Rightarrow> bool" where
  "unique_leader q0 \<longleftrightarrow>
     (\<forall>a b r. check_committee q0 a \<longrightarrow> check_committee q0 b \<longrightarrow>
        check_leader q0 a r \<longrightarrow> check_leader q0 b r \<longrightarrow> a = b)"

section \<open>Containers under insertion\<close>

lemma get_messages_add_mono:
  "set (get_messages_for_round c r) \<subseteq> set (get_messages_for_round (fst (add_message c r' s m)) r)"
  by (cases "snd (add_message c r' s m)") (auto simp: add_message_messages add_message_unchanged)

lemma root_count_add_mono:
  "root_count h (get_messages_for_round c r) \<le>
     root_count h (get_messages_for_round (fst (add_message c r' s m)) r)"
  by (cases "snd (add_message c r' s m)")
     (auto simp: add_message_messages add_message_unchanged root_count_def)

lemma add_message_stored:
  "snd (add_message c r s m) \<Longrightarrow> m \<in> set (get_messages_for_round (fst (add_message c r s m)) r)"
  by (simp add: add_message_messages)

text \<open>With one leader per round, at most one proposal is stored per round.\<close>

lemma stored_proposal_unique:
  assumes inv: "mc_inv (proposal_ok E A q0) c" and u: "unique_leader q0"
    and m: "m \<in> set (get_messages_for_round c r)" and m': "m' \<in> set (get_messages_for_round c r)"
  shows "m = m'"
proof -
  let ?ms = "get_messages_for_round c r"
  obtain ss where d: "distinct ss" and all2: "list_all2 (proposal_ok E A q0 r) ss ?ms"
    using mc_inv_round [OF inv] by metis
  obtain i j where i: "i < length ?ms" "?ms ! i = m" and j: "j < length ?ms" "?ms ! j = m'"
    using m m' by (metis in_set_conv_nth)
  have len: "length ss = length ?ms" using all2 by (rule list_all2_lengthD)
  have "check_leader q0 (ss ! i) r" "check_leader q0 (ss ! j) r"
    "check_committee q0 (ss ! i)" "check_committee q0 (ss ! j)"
    using list_all2_nthD2 [OF all2 i(1)] list_all2_nthD2 [OF all2 j(1)]
    by (simp_all add: proposal_ok_def single_ok_def)
  then have "ss ! i = ss ! j" using u unfolding unique_leader_def by blast
  then have "i = j" using d i j len by (simp add: nth_eq_iff_index_eq)
  then show ?thesis using i j by simp
qed

section \<open>The invariant\<close>

definition sent_msgs :: "'d qbft \<Rightarrow> qbft_message list" where
  "sent_msgs q = map uw_qbft_message (qb_sent q)"

text \<open>A proposal with root \<open>h\<close> is stored for round \<open>r\<close>.\<close>

definition proposed :: "'d qbft \<Rightarrow> round \<Rightarrow> hash256 \<Rightarrow> bool" where
  "proposed q r h \<longleftrightarrow> (\<exists>w \<in> set (get_messages_for_round (qb_propose_container q) r). wq_root w = h)"

text \<open>A quorum of prepares for root \<open>h\<close> is stored for round \<open>r\<close>.\<close>

definition prepared :: "'d qbft \<Rightarrow> round \<Rightarrow> hash256 \<Rightarrow> bool" where
  "prepared q r h \<longleftrightarrow>
     config_quorum_size (qb_config q) \<le> root_count h (get_messages_for_round (qb_prepare_container q) r)"

text \<open>A quorum of committee members signed admissible commits for round \<open>r\<close> and root \<open>h\<close>.\<close>

definition commit_certificate :: "admission \<Rightarrow> 'd qbft \<Rightarrow> round \<Rightarrow> hash256 \<Rightarrow> bool" where
  "commit_certificate A q0 r h \<longleftrightarrow>
     (\<exists>S. S \<subseteq> set (cf_committee_members (qb_config q0)) \<and> config_quorum_size (qb_config q0) \<le> card S
        \<and> (\<forall>s \<in> S. \<exists>w. A w \<and> prevalidated w \<and> s \<in> set (sg_operator_ids (wq_signed_message w))
             \<and> qm_type (wq_qbft_message w) = Commit \<and> qm_round (wq_qbft_message w) = r \<and> wq_root w = h))"

definition containers_ok :: "'d qbft_env \<Rightarrow> admission \<Rightarrow> 'd qbft \<Rightarrow> 'd qbft \<Rightarrow> bool" where
  "containers_ok E A q0 q \<longleftrightarrow>
     mc_inv (proposal_ok E A q0) (qb_propose_container q)
     \<and> mc_inv (single_ok A q0 Prepare) (qb_prepare_container q)
     \<and> mc_inv (single_ok A q0 Commit) (qb_commit_container q)
     \<and> mc_inv (single_ok A q0 RoundChange) (qb_round_change_container q)
     \<and> mc_quorum_size (qb_prepare_container q) = config_quorum_size (qb_config q0)
     \<and> mc_quorum_size (qb_commit_container q) = config_quorum_size (qb_config q0)
     \<and> mc_quorum_size (qb_round_change_container q) = config_quorum_size (qb_config q0)"

fun state_ok :: "'d qbft \<Rightarrow> instance_state \<Rightarrow> bool" where
  "state_ok q (PrepareState h) = proposed q (qb_current_round q) h"
| "state_ok q (CommitState h) = (proposed q (qb_current_round q) h \<and> prepared q (qb_current_round q) h)"
| "state_ok q _ = True"

definition last_prepared_ok :: "'d qbft \<Rightarrow> bool" where
  "last_prepared_ok q \<longleftrightarrow>
     (case (qb_last_prepared_round q, qb_last_prepared_value q) of
        (None, None) \<Rightarrow> True
      | (Some r, Some h) \<Rightarrow> r \<noteq> 0 \<and> r \<le> qb_current_round q \<and> proposed q r h \<and> prepared q r h
      | _ \<Rightarrow> False)"

definition sent_ok :: "'d qbft \<Rightarrow> qbft_message \<Rightarrow> bool" where
  "sent_ok q m \<longleftrightarrow>
     qm_round m \<le> qb_current_round q
     \<and> (qm_type m = Prepare \<longrightarrow> proposed q (qm_round m) (qm_root m))
     \<and> (qm_type m = Commit \<longrightarrow> proposed q (qm_round m) (qm_root m) \<and> prepared q (qm_round m) (qm_root m)
          \<and> qm_round m \<noteq> 0
          \<and> (\<exists>lr. qb_last_prepared_round q = Some lr \<and> qm_round m \<le> lr))
     \<and> (qm_type m = RoundChange \<and> qm_data_round m \<noteq> 0 \<longrightarrow>
          proposed q (qm_data_round m) (qm_root m) \<and> prepared q (qm_data_round m) (qm_root m))
     \<and> (qm_type m = RoundChange \<longrightarrow>
          (\<forall>c \<in> set (sent_msgs q). qm_type c = Commit \<and> qm_round c < qm_round m \<longrightarrow>
             qm_round c \<le> qm_data_round m))"

definition completed_ok :: "admission \<Rightarrow> 'd qbft \<Rightarrow> 'd qbft \<Rightarrow> bool" where
  "completed_ok A q0 q \<longleftrightarrow>
     (\<forall>h. qb_completed q = Some (Success h) \<longrightarrow>
        (\<exists>r. commit_certificate A q0 r h) \<and> qb_data q h \<noteq> None \<and> qb_aggregated_commit q \<noteq> None)"

definition qbft_inv :: "'d qbft_env \<Rightarrow> admission \<Rightarrow> 'd qbft \<Rightarrow> 'd qbft \<Rightarrow> bool" where
  "qbft_inv E A q0 q \<longleftrightarrow>
     same_instance q0 q \<and> containers_ok E A q0 q \<and> state_ok q (qb_state q)
     \<and> last_prepared_ok q \<and> (\<forall>m \<in> set (sent_msgs q). sent_ok q m) \<and> completed_ok A q0 q"

section \<open>Steps the handlers are made of\<close>

text \<open>\<open>grows q q'\<close>: nothing the invariant rests on has been forgotten.\<close>

definition grows :: "'d qbft \<Rightarrow> 'd qbft \<Rightarrow> bool" where
  "grows q q' \<longleftrightarrow>
     same_instance q q' \<and> qb_current_round q \<le> qb_current_round q' \<and> dom (qb_data q) \<subseteq> dom (qb_data q')
     \<and> (\<forall>r h. proposed q r h \<longrightarrow> proposed q' r h) \<and> (\<forall>r h. prepared q r h \<longrightarrow> prepared q' r h)"

lemma same_instance_trans: "same_instance a b \<Longrightarrow> same_instance b c \<Longrightarrow> same_instance a c"
  by (simp add: same_instance_def)

lemma sent_ok_grows:
  assumes "sent_ok q m" "grows q q'" "qb_sent q' = qb_sent q"
    "qb_last_prepared_round q' = qb_last_prepared_round q"
  shows "sent_ok q' m"
  using assms order_trans [of "qm_round m" "qb_current_round q" "qb_current_round q'"]
  unfolding sent_ok_def grows_def sent_msgs_def by auto

lemma last_prepared_ok_grows:
  assumes "last_prepared_ok q" "grows q q'"
    "qb_last_prepared_round q' = qb_last_prepared_round q"
    "qb_last_prepared_value q' = qb_last_prepared_value q"
  shows "last_prepared_ok q'"
  using assms unfolding last_prepared_ok_def grows_def by (auto split: option.splits)

lemma completed_ok_grows:
  assumes "completed_ok A q0 q" "grows q q'" "qb_completed q' = qb_completed q"
    "qb_aggregated_commit q' = qb_aggregated_commit q"
  shows "completed_ok A q0 q'"
proof -
  have "qb_data q h \<noteq> None \<Longrightarrow> qb_data q' h \<noteq> None" for h
    using assms(2) unfolding grows_def dom_def by blast
  then show ?thesis using assms(1,3,4) unfolding completed_ok_def by simp
qed

lemma inv_grows_completed:
  assumes inv: "qbft_inv E A q0 q" and g: "grows q q'" and c: "containers_ok E A q0 q'"
    and s: "state_ok q' (qb_state q')" and sent: "qb_sent q' = qb_sent q"
    and last: "qb_last_prepared_round q' = qb_last_prepared_round q"
      "qb_last_prepared_value q' = qb_last_prepared_value q"
    and comp: "completed_ok A q0 q'"
  shows "qbft_inv E A q0 q'"
proof -
  have "same_instance q0 q'"
    using inv g same_instance_trans unfolding qbft_inv_def grows_def by blast
  moreover have "last_prepared_ok q'"
    using inv last_prepared_ok_grows [OF _ g last] unfolding qbft_inv_def by blast
  moreover have "\<forall>m \<in> set (sent_msgs q'). sent_ok q' m"
    using inv sent_ok_grows [OF _ g sent last(1)] sent unfolding qbft_inv_def sent_msgs_def by auto
  ultimately show ?thesis using c s comp unfolding qbft_inv_def by blast
qed

lemma inv_grows:
  assumes inv: "qbft_inv E A q0 q" and g: "grows q q'" and c: "containers_ok E A q0 q'"
    and s: "state_ok q' (qb_state q')" and sent: "qb_sent q' = qb_sent q"
    and last: "qb_last_prepared_round q' = qb_last_prepared_round q"
      "qb_last_prepared_value q' = qb_last_prepared_value q"
    and comp: "qb_completed q' = qb_completed q" "qb_aggregated_commit q' = qb_aggregated_commit q"
  shows "qbft_inv E A q0 q'"
  using inv g c s sent last
proof (rule inv_grows_completed)
  show "completed_ok A q0 q'"
    using inv completed_ok_grows [OF _ g comp] unfolding qbft_inv_def by blast
qed

text \<open>Data insertion, leaving the round's state, moving to a later round, finishing.\<close>

lemma inv_data [inv_intros]:
  assumes "qbft_inv E A q0 q"
  shows "qbft_inv E A q0 (q\<lparr>qb_data := (qb_data q)(h \<mapsto> d)\<rparr>)"
proof (rule inv_grows [OF assms])
  have "state_ok q (qb_state q)" using assms by (simp add: qbft_inv_def)
  then show "state_ok (q\<lparr>qb_data := (qb_data q)(h \<mapsto> d)\<rparr>) (qb_state (q\<lparr>qb_data := (qb_data q)(h \<mapsto> d)\<rparr>))"
    by (cases "qb_state q") (simp_all add: proposed_def prepared_def)
qed (use assms in \<open>auto simp: grows_def same_instance_def proposed_def prepared_def qbft_inv_def
      containers_ok_def\<close>)

definition idle_state :: "instance_state \<Rightarrow> bool" where
  "idle_state s \<longleftrightarrow> s \<in> {AwaitingProposal, SentRoundChange, Complete, RoundChangeConsensus}"

lemma idle_state_simps [simp]:
  "idle_state AwaitingProposal" "idle_state SentRoundChange" "idle_state Complete"
  "idle_state RoundChangeConsensus"
  by (simp_all add: idle_state_def)

lemma inv_idle:
  assumes "qbft_inv E A q0 q" "idle_state s" "qb_current_round q \<le> r"
  shows "qbft_inv E A q0 (q\<lparr>qb_state := s, qb_current_round := r\<rparr>)"
  by (rule inv_grows [OF assms(1)])
     (use assms in \<open>auto simp: grows_def same_instance_def proposed_def prepared_def qbft_inv_def
        containers_ok_def idle_state_def\<close>)

lemma inv_idle_state:
  assumes "qbft_inv E A q0 q" "idle_state s"
  shows "qbft_inv E A q0 (q\<lparr>qb_state := s\<rparr>)"
proof -
  have "q\<lparr>qb_state := s\<rparr> = q\<lparr>qb_state := s, qb_current_round := qb_current_round q\<rparr>" by simp
  then show ?thesis using inv_idle [OF assms, of "qb_current_round q"] by simp
qed

lemma inv_accepted [inv_intros]:
  assumes "qbft_inv E A q0 q"
  shows "qbft_inv E A q0 (q\<lparr>qb_proposal_accepted_for_current_round := b\<rparr>)"
proof (rule inv_grows [OF assms])
  have "state_ok q (qb_state q)" using assms by (simp add: qbft_inv_def)
  then show "state_ok (q\<lparr>qb_proposal_accepted_for_current_round := b\<rparr>)
      (qb_state (q\<lparr>qb_proposal_accepted_for_current_round := b\<rparr>))"
    by (cases "qb_state q") (simp_all add: proposed_def prepared_def)
qed (use assms in \<open>auto simp: grows_def same_instance_def proposed_def prepared_def qbft_inv_def
      containers_ok_def\<close>)

text \<open>Sending. A message is built from the state: its round is the current one.\<close>

lemma new_unsigned_message_Ok:
  assumes "new_unsigned_message E q t h rcs preps = Ok m"
  shows "qm_type (uw_qbft_message m) = t" and "qm_round (uw_qbft_message m) = qb_current_round q"
    and "qm_root (uw_qbft_message m) = md_root (get_message_data E q t h)"
    and "qm_data_round (uw_qbft_message m) = md_data_round (get_message_data E q t h)"
proof -
  have "md_round (get_message_data E q t h) = qb_current_round q"
    by (auto simp: get_message_data_def Let_def split: option.splits)
  then show "qm_type (uw_qbft_message m) = t" "qm_round (uw_qbft_message m) = qb_current_round q"
    "qm_root (uw_qbft_message m) = md_root (get_message_data E q t h)"
    "qm_data_round (uw_qbft_message m) = md_data_round (get_message_data E q t h)"
    using assms by (auto simp: new_unsigned_message_def Let_def split: sum.splits)
qed

text \<open>What the invariant asks of a message about to be sent.\<close>

definition sendable :: "'d qbft \<Rightarrow> qbft_message \<Rightarrow> bool" where
  "sendable q m \<longleftrightarrow>
     qm_round m = qb_current_round q
     \<and> (qm_type m = Prepare \<longrightarrow> proposed q (qm_round m) (qm_root m))
     \<and> (qm_type m = Commit \<longrightarrow> qm_round m \<noteq> 0 \<and> qb_last_prepared_round q = Some (qm_round m)
          \<and> qb_last_prepared_value q = Some (qm_root m))
     \<and> (qm_type m = RoundChange \<longrightarrow>
          (case qb_last_prepared_round q of
             None \<Rightarrow> qm_data_round m = 0
           | Some lr \<Rightarrow> qm_data_round m = lr \<and> qb_last_prepared_value q = Some (qm_root m)))"

lemma emit_simps [simp]:
  "proposed (emit q m) = proposed q" "prepared (emit q m) = prepared q"
  "qb_current_round (emit q m) = qb_current_round q" "qb_state (emit q m) = qb_state q"
  "qb_last_prepared_round (emit q m) = qb_last_prepared_round q"
  "qb_last_prepared_value (emit q m) = qb_last_prepared_value q"
  "same_instance q0 (emit q m) = same_instance q0 q"
  "containers_ok E A q0 (emit q m) = containers_ok E A q0 q"
  "completed_ok A q0 (emit q m) = completed_ok A q0 q"
  "sent_msgs (emit q m) = sent_msgs q @ [uw_qbft_message m]"
  by (auto simp: emit_def proposed_def prepared_def fun_eq_iff same_instance_def containers_ok_def
      completed_ok_def sent_msgs_def)

lemma state_ok_emit [simp]: "state_ok (emit q m) s = state_ok q s"
  by (cases s) simp_all

lemma last_prepared_ok_emit [simp]: "last_prepared_ok (emit q m) = last_prepared_ok q"
  by (simp add: last_prepared_ok_def cong: option.case_cong)

lemma last_prepared_okD:
  assumes "last_prepared_ok q" "qb_last_prepared_round q = Some r" "qb_last_prepared_value q = Some h"
  shows "r \<noteq> 0" "r \<le> qb_current_round q" "proposed q r h" "prepared q r h"
  using assms by (simp_all add: last_prepared_ok_def)

lemma last_prepared_ok_None:
  "last_prepared_ok q \<Longrightarrow> qb_last_prepared_round q = None \<longleftrightarrow> qb_last_prepared_value q = None"
  by (auto simp: last_prepared_ok_def split: option.splits)

text \<open>An earlier message stays in order: a commit sent now is of the current round, and no round
  change sent before is of a later one.\<close>

lemma sent_ok_emit_old:
  assumes "sent_ok q m" "sendable q (uw_qbft_message n)"
  shows "sent_ok (emit q n) m"
  using assms unfolding sent_ok_def sendable_def by auto

lemma sent_ok_emit_new:
  assumes last: "last_prepared_ok q" and old: "\<forall>m \<in> set (sent_msgs q). sent_ok q m"
    and s: "sendable q (uw_qbft_message n)"
  shows "sent_ok (emit q n) (uw_qbft_message n)"
proof -
  let ?n = "uw_qbft_message n"
  have r: "qm_round ?n = qb_current_round q" using s by (simp add: sendable_def)
  have commit: "proposed q (qm_round ?n) (qm_root ?n) \<and> prepared q (qm_round ?n) (qm_root ?n)"
    if "qm_type ?n = Commit"
    using s that last_prepared_okD [OF last] unfolding sendable_def by blast
  have rc: "proposed q (qm_data_round ?n) (qm_root ?n) \<and> prepared q (qm_data_round ?n) (qm_root ?n)"
    if "qm_type ?n = RoundChange" "qm_data_round ?n \<noteq> 0"
    using s that last_prepared_okD [OF last] unfolding sendable_def
    by (cases "qb_last_prepared_round q") auto
  have before: "qm_round c \<le> qm_data_round ?n"
    if "qm_type ?n = RoundChange" "c \<in> set (sent_msgs q)" "qm_type c = Commit" for c
    using s that old unfolding sendable_def sent_ok_def by (cases "qb_last_prepared_round q") auto
  show ?thesis
    using s r commit rc before unfolding sent_ok_def sendable_def by auto
qed

lemma inv_emit:
  assumes "qbft_inv E A q0 q" "sendable q (uw_qbft_message n)"
  shows "qbft_inv E A q0 (emit q n)"
  using assms sent_ok_emit_old [OF _ assms(2)] sent_ok_emit_new [OF _ _ assms(2)]
  unfolding qbft_inv_def by auto

lemma inv_build_and_send:
  assumes inv: "qbft_inv E A q0 q" and fin: "qbft_inv E A q0 (finish q)"
    and s: "\<And>m. new_unsigned_message E q t h rcs preps = Ok m \<Longrightarrow> sendable (finish q) (uw_qbft_message m)"
  shows "qbft_inv E A q0 (fst (build_and_send E q t h rcs preps finish))"
  using inv inv_emit [OF fin s]
  by (auto simp: build_and_send_def split: outcome.splits)

lemma inv_send_proposal:
  assumes "qbft_inv E A q0 q"
  shows "qbft_inv E A q0 (fst (send_proposal E q h d))"
proof -
  let ?q = "q\<lparr>qb_data := (qb_data q)(h \<mapsto> d)\<rparr>"
  have inv: "qbft_inv E A q0 ?q" using assms by (rule inv_data)
  have "qbft_inv E A q0 (fst (build_and_send E ?q Proposal v rcs preps (\<lambda>q. q)))" for v rcs preps
    using inv by (rule inv_build_and_send)
      (use inv in \<open>auto simp: sendable_def dest: new_unsigned_message_Ok\<close>)
  then show ?thesis
    using inv by (auto simp: send_proposal_def Let_def split: sum.splits)
qed

lemma inv_send_prepare:
  assumes inv: "qbft_inv E A q0 q" and p: "proposed q (qb_current_round q) h"
  shows "qbft_inv E A q0 (fst (send_prepare E q h))"
proof -
  have "qbft_inv E A q0 (fst (build_and_send E q Prepare h [] [] (\<lambda>q. q)))"
    using inv inv
    by (rule inv_build_and_send)
       (use p in \<open>auto simp: sendable_def new_unsigned_message_Ok get_message_data_def Let_def\<close>)
  then show ?thesis using inv by (simp add: send_prepare_def)
qed

lemma inv_send_commit:
  assumes inv: "qbft_inv E A q0 q" and "qb_current_round q \<noteq> 0"
    and "qb_last_prepared_round q = Some (qb_current_round q)" "qb_last_prepared_value q = Some h"
  shows "qbft_inv E A q0 (fst (send_commit E q h))"
  unfolding send_commit_def using inv inv
  by (rule inv_build_and_send)
     (use assms in \<open>auto simp: sendable_def new_unsigned_message_Ok get_message_data_def Let_def\<close>)

lemma inv_send_round_change:
  assumes inv: "qbft_inv E A q0 q"
  shows "qbft_inv E A q0 (fst (send_round_change E q h))"
  unfolding send_round_change_def
proof (rule inv_build_and_send [OF inv])
  show "qbft_inv E A q0 (q\<lparr>qb_proposal_accepted_for_current_round := False\<rparr>)"
    using inv by (rule inv_accepted)
  fix m
  assume m: "new_unsigned_message E q RoundChange h (get_round_change_prepare_justifications q) [] = Ok m"
  have "last_prepared_ok q" using inv by (simp add: qbft_inv_def)
  then show "sendable (q\<lparr>qb_proposal_accepted_for_current_round := False\<rparr>) (uw_qbft_message m)"
    using last_prepared_ok_None [of q]
    by (auto simp: sendable_def new_unsigned_message_Ok [OF m] get_message_data_def Let_def
        split: option.splits)
qed

text \<open>Storing a message.\<close>

lemma state_ok_mono:
  assumes "state_ok q s" "grows q q'" "qb_current_round q' = qb_current_round q"
  shows "state_ok q' s"
  using assms by (cases s) (auto simp: grows_def)

lemma inv_add_proposal:
  assumes inv: "qbft_inv E A q0 q" and p: "proposal_ok E A q0 r s w"
  shows "qbft_inv E A q0 (q\<lparr>qb_propose_container := fst (add_message (qb_propose_container q) r s w)\<rparr>)"
    (is "qbft_inv E A q0 ?q")
proof -
  have g: "grows q ?q"
    using get_messages_add_mono [of "qb_propose_container q" _ r s w]
    unfolding grows_def same_instance_def proposed_def prepared_def by auto
  have "containers_ok E A q0 ?q"
    using inv mc_inv_add [of "proposal_ok E A q0" "qb_propose_container q", OF _ p]
    by (simp add: qbft_inv_def containers_ok_def)
  moreover have "state_ok ?q (qb_state ?q)"
    using inv state_ok_mono [OF _ g] by (simp add: qbft_inv_def)
  ultimately show ?thesis by (intro inv_grows [OF inv g]) simp_all
qed

lemma inv_add_prepare:
  assumes inv: "qbft_inv E A q0 q" and p: "single_ok A q0 Prepare r s w"
  shows "qbft_inv E A q0 (q\<lparr>qb_prepare_container := fst (add_message (qb_prepare_container q) r s w)\<rparr>)"
    (is "qbft_inv E A q0 ?q")
proof -
  have g: "grows q ?q"
    using root_count_add_mono [of _ "qb_prepare_container q" _ r s w] order_trans
    unfolding grows_def same_instance_def proposed_def prepared_def by fastforce
  have "containers_ok E A q0 ?q"
    using inv mc_inv_add [of "single_ok A q0 Prepare" "qb_prepare_container q", OF _ p]
    by (simp add: qbft_inv_def containers_ok_def)
  moreover have "state_ok ?q (qb_state ?q)"
    using inv state_ok_mono [OF _ g] by (simp add: qbft_inv_def)
  ultimately show ?thesis by (intro inv_grows [OF inv g]) simp_all
qed

lemma inv_add_commit:
  assumes inv: "qbft_inv E A q0 q" and p: "single_ok A q0 Commit r s w"
  shows "qbft_inv E A q0 (q\<lparr>qb_commit_container := fst (add_message (qb_commit_container q) r s w)\<rparr>)"
    (is "qbft_inv E A q0 ?q")
proof -
  have g: "grows q ?q"
    unfolding grows_def same_instance_def proposed_def prepared_def by simp
  have "containers_ok E A q0 ?q"
    using inv mc_inv_add [of "single_ok A q0 Commit" "qb_commit_container q", OF _ p]
    by (simp add: qbft_inv_def containers_ok_def)
  moreover have "state_ok ?q (qb_state ?q)"
    using inv state_ok_mono [OF _ g] by (simp add: qbft_inv_def)
  ultimately show ?thesis by (intro inv_grows [OF inv g]) simp_all
qed

lemma inv_add_round_change:
  assumes inv: "qbft_inv E A q0 q" and p: "single_ok A q0 RoundChange r s w"
  shows "qbft_inv E A q0
    (q\<lparr>qb_round_change_container := fst (add_message (qb_round_change_container q) r s w)\<rparr>)"
    (is "qbft_inv E A q0 ?q")
proof -
  have g: "grows q ?q"
    unfolding grows_def same_instance_def proposed_def prepared_def by simp
  have "containers_ok E A q0 ?q"
    using inv mc_inv_add [of "single_ok A q0 RoundChange" "qb_round_change_container q", OF _ p]
    by (simp add: qbft_inv_def containers_ok_def)
  moreover have "state_ok ?q (qb_state ?q)"
    using inv state_ok_mono [OF _ g] by (simp add: qbft_inv_def)
  ultimately show ?thesis by (intro inv_grows [OF inv g]) simp_all
qed

text \<open>Accepting a proposal, reaching a prepare quorum, completing.\<close>

lemma inv_accept:
  assumes inv: "qbft_inv E A q0 q" and r: "qb_current_round q \<le> r" and p: "proposed q r h"
  shows "qbft_inv E A q0 (q\<lparr>qb_current_round := r, qb_proposal_accepted_for_current_round := True,
           qb_proposal_root := Some h, qb_state := PrepareState h\<rparr>)"
  by (rule inv_grows [OF inv])
     (use inv r p in \<open>auto simp: grows_def same_instance_def proposed_def prepared_def qbft_inv_def
        containers_ok_def\<close>)

lemma inv_reach_prepared:
  assumes inv: "qbft_inv E A q0 q" and s: "qb_state q = PrepareState h"
    and p: "prepared q (qb_current_round q) h" and r: "qb_current_round q \<noteq> 0"
  shows "qbft_inv E A q0 (q\<lparr>qb_state := CommitState h, qb_last_prepared_value := Some h,
           qb_last_prepared_round := Some (qb_current_round q)\<rparr>)" (is "qbft_inv E A q0 ?q")
proof -
  have e: "proposed ?q = proposed q" "prepared ?q = prepared q" "sent_msgs ?q = sent_msgs q"
    by (auto simp: proposed_def prepared_def sent_msgs_def fun_eq_iff)
  have "sent_ok ?q m" if "sent_ok q m" for m
    using that unfolding sent_ok_def e by auto
  moreover have "last_prepared_ok ?q"
    using inv s p r unfolding qbft_inv_def last_prepared_ok_def e by simp
  moreover have "state_ok ?q (qb_state ?q)"
    using inv s p unfolding qbft_inv_def by (simp add: e)
  ultimately show ?thesis
    using inv unfolding qbft_inv_def e by (simp add: same_instance_def containers_ok_def completed_ok_def)
qed

lemma inv_complete:
  assumes inv: "qbft_inv E A q0 q" and c: "commit_certificate A q0 r h" and d: "qb_data q h \<noteq> None"
  shows "qbft_inv E A q0 (q\<lparr>qb_aggregated_commit := Some a, qb_state := Complete,
           qb_completed := Some (Success h)\<rparr>)"
  by (rule inv_grows_completed [OF inv])
     (use inv c d in \<open>auto simp: grows_def same_instance_def proposed_def prepared_def qbft_inv_def
        containers_ok_def completed_ok_def\<close>)

lemma inv_time_out:
  assumes inv: "qbft_inv E A q0 q"
  shows "qbft_inv E A q0 (q\<lparr>qb_state := Complete, qb_completed := Some TimedOut\<rparr>)"
  by (rule inv_grows_completed [OF inv])
     (use inv in \<open>auto simp: grows_def same_instance_def proposed_def prepared_def qbft_inv_def
        containers_ok_def completed_ok_def\<close>)

end
