(* ===== verification/Qbft_Steps.thy ===== *)
theory Qbft_Steps
  imports Qbft_Inv
begin

text \<open>
  Every handler of the instance keeps the invariant of \<open>Qbft_Inv\<close> and never moves to an earlier
  round; both facts are lifted to runs through the two run contracts of the prelude.
\<close>

section \<open>What validation establishes\<close>

lemma validate_round_Inr:
  assumes "validate_round q w = Inr u"
  shows "qm_type (wq_qbft_message w) \<noteq> Commit \<Longrightarrow> qb_current_round q \<le> qm_round (wq_qbft_message w)"
    and "qm_type (wq_qbft_message w) = Prepare \<Longrightarrow> qm_round (wq_qbft_message w) = qb_current_round q"
  using assms
  by (auto simp: validate_round_def Let_def not_less split: if_splits qbft_message_type.splits)

lemma validate_message_Inr:
  assumes "validate_message E q w = Inr (c, s)"
  shows "validate_round q w = Inr ()"
    and "qm_height (wq_qbft_message w) = qb_instance_height q"
    and "\<forall>x \<in> set (sg_operator_ids (wq_signed_message w)). check_committee q x"
    and "sg_operator_ids (wq_signed_message w) \<noteq> []"
    and "length (sg_operator_ids (wq_signed_message w)) \<le> 1 \<Longrightarrow> sg_operator_ids (wq_signed_message w) = [s]"
    and "c = CompleteContent vd \<Longrightarrow> length (sg_operator_ids (wq_signed_message w)) \<le> 1 \<and> vd_hash vd = wq_root w
           \<and> qe_validate E (vd_data vd) (qb_start_data q)"
  using assms
  by (auto simp: validate_message_def Let_def bindR_Inr_iff split: if_splits list.splits sum.splits)

lemma single_okI:
  assumes v: "validate_message E q w = Inr (c, s)" and A: "A w" "prevalidated w"
    and inst: "same_instance q0 q" and t: "qm_type (wq_qbft_message w) = t"
    and one: "length (sg_operator_ids (wq_signed_message w)) \<le> 1"
  shows "single_ok A q0 t (qm_round (wq_qbft_message w)) s w"
  using validate_message_Inr(3) [OF v] validate_message_Inr(5) [OF v one] A t
  by (simp add: single_ok_def check_committee_cong [OF inst])

lemma not_commit_single:
  "prevalidated w \<Longrightarrow> qm_type (wq_qbft_message w) \<noteq> Commit \<Longrightarrow>
     length (sg_operator_ids (wq_signed_message w)) \<le> 1"
  by (auto simp: prevalidated_def)

section \<open>Handlers keep the invariant\<close>

lemma inv_same_instance: "qbft_inv E A q0 q \<Longrightarrow> same_instance q0 q"
  by (simp add: qbft_inv_def)

lemma fst_swallow_error [simp]: "fst (swallow_error r) = fst r"
  by (auto simp: swallow_error_def split: prod.splits outcome.splits)

lemma inv_start_round:
  assumes "qbft_inv E A q0 q"
  shows "qbft_inv E A q0 (fst (start_round E q))"
proof -
  have "qbft_inv E A q0 (q\<lparr>qb_state := AwaitingProposal\<rparr>)"
    using assms by (rule inv_idle_state) simp
  then show ?thesis
    using assms inv_send_proposal
    by (auto simp: start_round_def Let_def split: rc_justification_outcome.splits)
qed

lemma inv_set_round:
  assumes "qbft_inv E A q0 q" "qb_current_round q \<le> r" "idle_state s"
  shows "qbft_inv E A q0 (fst (set_round E (q\<lparr>qb_state := s\<rparr>) r))"
  using inv_start_round [OF inv_idle [OF assms(1,3,2)]] by (simp add: set_round_def)

lemma inv_received_propose:
  assumes inv: "qbft_inv E A q0 q" and p: "single_ok A q0 Proposal r s w"
    and r: "qb_current_round q \<le> r" and h: "vd_hash vd = wq_root w"
  shows "qbft_inv E A q0 (fst (received_propose E q vd s r w))"
proof -
  note inst = inv_same_instance [OF inv]
  let ?q1 = "q\<lparr>qb_data := (qb_data q)(vd_hash vd \<mapsto> vd_data vd)\<rparr>"
  let ?add = "add_message (qb_propose_container ?q1) r s w"
  let ?q2 = "?q1\<lparr>qb_propose_container := fst ?add\<rparr>"
  let ?q4 = "?q2\<lparr>qb_current_round := r, qb_proposal_accepted_for_current_round := True,
               qb_proposal_root := Some (vd_hash vd), qb_state := PrepareState (vd_hash vd)\<rparr>"
  have inv2: "qbft_inv E A q0 ?q2"
    if "check_leader q s r" "r > round_default \<longrightarrow> validate_proposal_justifications E q w = Inr ()"
    by (rule inv_add_proposal [OF inv_data [OF inv]])
       (use that p in \<open>simp add: proposal_ok_def check_leader_cong [OF inst]
          validate_proposal_justifications_cong [OF inst]\<close>)
  have send: "qbft_inv E A q0 (fst (send_prepare E ?q4 (wq_root w)))"
    if "qbft_inv E A q0 ?q2" "snd ?add"
  proof -
    have "proposed ?q2 r (vd_hash vd)"
      using add_message_stored [OF that(2)] h by (auto simp: proposed_def)
    then have "qbft_inv E A q0 ?q4" "proposed ?q4 r (vd_hash vd)"
      using inv_accept [OF that(1)] r by (auto simp: proposed_def)
    then show ?thesis using inv_send_prepare [of E A q0 ?q4 "wq_root w"] h by simp
  qed
  have q4: "(if r > qb_current_round ?q2 then ?q2\<lparr>qb_current_round := r\<rparr> else ?q2)
      = ?q2\<lparr>qb_current_round := r\<rparr>"
    using r by (cases "r = qb_current_round q") auto
  show ?thesis
    using inv inv2 send q4
    by (auto simp: received_propose_def Let_def split_def split: sum.splits if_splits)
qed

lemma inv_received_prepare:
  assumes inv: "qbft_inv E A q0 q" and p: "single_ok A q0 Prepare r s w"
    and r: "r = qb_current_round q"
  shows "qbft_inv E A q0 (fst (received_prepare E q s r w))"
proof -
  let ?q1 = "q\<lparr>qb_prepare_container := fst (add_message (qb_prepare_container q) r s w)\<rparr>"
  have inv1: "qbft_inv E A q0 ?q1" using inv p by (rule inv_add_prepare)
  have r0: "r \<noteq> 0" using p by (auto simp: single_ok_def prevalidated_def)
  have size: "mc_quorum_size (qb_prepare_container ?q1) = config_quorum_size (qb_config ?q1)"
    using inv1 inv_same_instance [OF inv1] by (simp add: qbft_inv_def containers_ok_def same_instance_def)
  have send: "qbft_inv E A q0 (fst (send_commit E
      (?q1\<lparr>qb_state := CommitState h, qb_last_prepared_value := Some h,
           qb_last_prepared_round := Some (qb_current_round ?q1)\<rparr>) h))"
    if "has_quorum (qb_prepare_container ?q1) r = Some h" "qb_state ?q1 = PrepareState h" for h
  proof -
    have "prepared ?q1 (qb_current_round ?q1) h"
      using has_quorum_Some [OF that(1)] size r by (simp add: prepared_def)
    then show ?thesis
      using inv_send_commit [OF inv_reach_prepared [OF inv1 that(2)]] r r0 by simp
  qed
  show ?thesis
    using inv inv1 send
    by (auto simp: received_prepare_def Let_def split_def
        split: sum.splits option.splits instance_state.splits if_splits)
qed

lemma commit_quorum_certificate:
  assumes inv: "qbft_inv E A q0 q" and q: "has_quorum (qb_commit_container q) r = Some h"
  shows "commit_certificate A q0 r h"
proof -
  have mc: "mc_inv (single_ok A q0 Commit) (qb_commit_container q)"
    and size: "mc_quorum_size (qb_commit_container q) = config_quorum_size (qb_config q0)"
    using inv by (simp_all add: qbft_inv_def containers_ok_def)
  obtain S where S: "mc_quorum_size (qb_commit_container q) \<le> card S"
    and mem: "\<And>s. s \<in> S \<Longrightarrow>
      \<exists>m \<in> set (get_messages_for_round (qb_commit_container q) r). wq_root m = h \<and> single_ok A q0 Commit r s m"
    using quorum_senders [OF mc q] by metis
  have one: "\<exists>w. A w \<and> prevalidated w \<and> s \<in> set (sg_operator_ids (wq_signed_message w))
      \<and> qm_type (wq_qbft_message w) = Commit \<and> qm_round (wq_qbft_message w) = r \<and> wq_root w = h"
    if "s \<in> S" for s
    using mem [OF that] by (auto simp: single_ok_def)
  have "S \<subseteq> set (cf_committee_members (qb_config q0))"
    using mem by (fastforce simp: single_ok_def check_committee_def)
  then show ?thesis
    unfolding commit_certificate_def using one S size by (intro exI [of _ S]) auto
qed

lemma aggregate_commit_data:
  assumes "aggregate_commit_messages E q (get_quorum_of_messages (qb_commit_container q) r) = Inr a"
    and "has_quorum (qb_commit_container q) r = Some h"
  shows "qb_data q h \<noteq> None"
proof -
  obtain w ws where w: "get_quorum_of_messages (qb_commit_container q) r = w # ws"
    and d: "qb_data q (wq_root w) \<noteq> None"
    using assms(1) by (auto simp: aggregate_commit_messages_def Let_def
        split: list.splits if_splits sum.splits option.splits)
  have "w \<in> set (get_quorum_of_messages (qb_commit_container q) r)" using w by simp
  then have "wq_root w = h"
    using assms(2) by (auto simp: get_quorum_of_messages_def split: option.splits)
  then show ?thesis using d by simp
qed

lemma inv_commit_quorum_reached:
  assumes inv: "qbft_inv E A q0 q" and q: "has_quorum (qb_commit_container q) r = Some h"
  shows "qbft_inv E A q0 (fst (commit_quorum_reached E q r h))"
proof -
  have "qbft_inv E A q0 (q\<lparr>qb_aggregated_commit := Some a, qb_state := Complete,
      qb_completed := Some (Success h)\<rparr>)"
    if "aggregate_commit_messages E q (get_quorum_of_messages (qb_commit_container q) r) = Inr a" for a
    using inv commit_quorum_certificate [OF inv q] aggregate_commit_data [OF that q]
    by (rule inv_complete)
  then show ?thesis
    using inv by (auto simp: commit_quorum_reached_def Let_def
        split: instance_state.splits sum.splits if_splits)
qed

lemma inv_received_commit:
  assumes inv: "qbft_inv E A q0 q" and p: "single_ok A q0 Commit r s w"
  shows "qbft_inv E A q0 (fst (received_commit E q s r w))"
  using inv inv_add_commit [OF inv p] inv_commit_quorum_reached [OF inv_add_commit [OF inv p]]
  by (auto simp: received_commit_def Let_def split_def split: sum.splits option.splits if_splits)

lemma inv_received_decided:
  assumes inv: "qbft_inv E A q0 q" and A: "A w" "prevalidated w"
    and t: "qm_type (wq_qbft_message w) = Commit"
  shows "qbft_inv E A q0 (fst (received_decided E q w))"
proof -
  note inst = inv_same_instance [OF inv]
  have cert: "commit_certificate A q0 (qm_round (wq_qbft_message w)) (wq_root w)"
    if "qbft_has_quorum q [wq_signed_message w]"
  proof -
    let ?S = "set (filter (check_committee q0) (sg_operator_ids (wq_signed_message w)))"
    have "config_quorum_size (qb_config q0) \<le> card ?S"
      using that unfolding qbft_has_quorum_cong [OF inst] by (simp add: qbft_has_quorum_def Let_def)
    then show ?thesis
      unfolding commit_certificate_def using A t
      by (intro exI [of _ ?S]) (auto simp: check_committee_def)
  qed
  have "qbft_inv E A q0 (q\<lparr>qb_state := Complete, qb_data := (qb_data q)(wq_root w \<mapsto> d),
      qb_completed := Some (Success (wq_root w)), qb_aggregated_commit := Some a\<rparr>)"
    (is "qbft_inv E A q0 ?q'") if "qbft_has_quorum q [wq_signed_message w]" for d a
  proof -
    have eq: "?q' = (q\<lparr>qb_data := (qb_data q)(wq_root w \<mapsto> d)\<rparr>)\<lparr>qb_aggregated_commit := Some a,
        qb_state := Complete, qb_completed := Some (Success (wq_root w))\<rparr>"
      by (rule qbft.equality) simp_all
    show ?thesis
      unfolding eq using inv_complete [OF inv_data [OF inv] cert [OF that], of "wq_root w" d a] by simp
  qed
  then show ?thesis
    using inv by (auto simp: received_decided_def split: option.splits completed.splits sum.splits)
qed

lemma inv_received_round_change:
  assumes inv: "qbft_inv E A q0 q" and p: "single_ok A q0 RoundChange r s w"
    and r: "qb_current_round q \<le> r"
  shows "qbft_inv E A q0 (fst (received_round_change E q s r w))"
proof -
  let ?q1 = "q\<lparr>qb_round_change_container := fst (add_message (qb_round_change_container q) r s w)\<rparr>"
  have inv1: "qbft_inv E A q0 ?q1" using inv p by (rule inv_add_round_change)
  have set: "qbft_inv E A q0 (fst (set_round E (?q1\<lparr>qb_state := RoundChangeConsensus\<rparr>) r))"
    using inv1 by (rule inv_set_round) (use r in simp_all)
  have send: "qbft_inv E A q0 (fst (send_round_change E
      (?q1\<lparr>qb_state := SentRoundChange, qb_current_round := r',
           qb_proposal_accepted_for_current_round := False\<rparr>) h))"
    if "qb_current_round ?q1 < r'" for r' h
    by (rule inv_send_round_change, rule inv_accepted, rule inv_idle [OF inv1])
       (use that in simp_all)
  show ?thesis
    using inv inv1 set send
    by (auto simp: received_round_change_def Let_def split: sum.splits option.splits if_splits)
qed

lemma inv_end_round:
  assumes inv: "qbft_inv E A q0 q"
  shows "qbft_inv E A q0 (fst (end_round E q))"
proof -
  have "qbft_inv E A q0 (fst (send_round_change E
      (q\<lparr>qb_current_round := r, qb_state := SentRoundChange\<rparr>) h))"
    if "round_next (qb_current_round q) = Some r" for r h
  proof -
    have "qb_current_round q \<le> r" using round_next_greater [OF that] by simp
    moreover have eq: "q\<lparr>qb_current_round := r, qb_state := SentRoundChange\<rparr> =
        q\<lparr>qb_state := SentRoundChange, qb_current_round := r\<rparr>"
      by (rule qbft.equality) simp_all
    ultimately show ?thesis
      unfolding eq using inv_send_round_change [OF inv_idle [OF inv, of SentRoundChange r]] by simp
  qed
  note send = this
  show ?thesis
  proof (cases "round_next (qb_current_round q)")
    case None
    then show ?thesis using inv_time_out [OF inv] by (simp add: end_round_def)
  next
    case (Some r)
    then show ?thesis
      using inv_time_out [OF inv] send [OF Some, of "replicate 32 0"] inv_start_round
      by (auto simp: end_round_def Let_def split: prod.splits outcome.splits)
  qed
qed

lemma inv_receive:
  assumes inv: "qbft_inv E A q0 q" and A: "A w" "prevalidated w"
  shows "qbft_inv E A q0 (fst (receive E q w))"
proof (cases "validate_message E q w")
  case (Inl e)
  then show ?thesis using inv by (simp add: receive_def)
next
  case (Inr cs)
  obtain c s where v: "validate_message E q w = Inr (c, s)" using Inr by (cases cs) auto
  note inst = inv_same_instance [OF inv]
  let ?r = "qm_round (wq_qbft_message w)" and ?t = "qm_type (wq_qbft_message w)"
  note vr = validate_round_Inr [OF validate_message_Inr(1) [OF v]]
  have r: "round_from_u64 ?r = Some ?r"
    using A(2) by (simp add: prevalidated_def round_from_u64_def)
  have ok: "single_ok A q0 ?t ?r s w" if "length (sg_operator_ids (wq_signed_message w)) \<le> 1"
    using v A inst refl that by (rule single_okI)
  show ?thesis
  proof (cases ?t)
    case Proposal
    then have "single_ok A q0 Proposal ?r s w" using ok not_commit_single [OF A(2)] by simp
    then show ?thesis
      using inv_received_propose [OF inv] vr(1) validate_message_Inr(6) [OF v] inv Proposal
      by (auto simp: receive_def v r split: message_content.splits)
  next
    case Prepare
    then show ?thesis
      using inv_received_prepare [OF inv, of ?r s w] ok not_commit_single [OF A(2)] vr(2) r
      by (auto simp: receive_def v)
  next
    case Commit
    then show ?thesis
      using inv_received_commit [OF inv] ok inv_received_decided [OF inv A]
      by (auto simp: receive_def v r)
  next
    case RoundChange
    then show ?thesis
      using inv_received_round_change [OF inv] ok not_commit_single [OF A(2)] vr(1)
      by (simp add: receive_def v r)
  qed
qed

section \<open>Runs\<close>

definition qbft_run :: "'d qbft_env \<Rightarrow> 'd qbft \<Rightarrow> qbft_event list \<Rightarrow> 'd qbft" where
  "qbft_run E q es = foldl (\<lambda>q e. fst (qbft_step E q e)) q es"

fun event_admissible :: "admission \<Rightarrow> qbft_event \<Rightarrow> bool" where
  "event_admissible A (Receive w) = (A w \<and> prevalidated w)"
| "event_admissible A EndRound = True"

lemma inv_qbft_step:
  "qbft_inv E A q0 q \<Longrightarrow> event_admissible A e \<Longrightarrow> qbft_inv E A q0 (fst (qbft_step E q e))"
  by (cases e) (simp_all add: inv_receive inv_end_round)

interpretation qbft_safe: step_invariant "\<lambda>q e. fst (qbft_step E q e)" "qbft_inv E A q0" "event_admissible A"
  for E :: "'d qbft_env" and A :: admission and q0 :: "'d qbft"
  by unfold_locales (rule inv_qbft_step)

lemma inv_qbft_new:
  assumes "qb_config q0 = c" "qb_instance_height q0 = cf_instance_height c"
  shows "qbft_inv E A q0 (fst (qbft_new E c d i))"
  unfolding qbft_new_def Let_def
  by (rule inv_start_round)
     (use assms in \<open>simp add: qbft_inv_def same_instance_def containers_ok_def mc_inv_new
        last_prepared_ok_def completed_ok_def sent_msgs_def\<close>)

section \<open>Rounds\<close>

lemma round_build_and_send:
  "(\<And>q. qb_current_round (finish q) = qb_current_round q) \<Longrightarrow>
     qb_current_round (fst (build_and_send E q t h a b finish)) = qb_current_round q"
  by (auto simp: build_and_send_def emit_def split: outcome.splits)

lemma round_sends [simp]:
  "qb_current_round (fst (send_proposal E q h d)) = qb_current_round q"
  "qb_current_round (fst (send_prepare E q h)) = qb_current_round q"
  "qb_current_round (fst (send_commit E q h)) = qb_current_round q"
  "qb_current_round (fst (send_round_change E q h)) = qb_current_round q"
  by (auto simp: send_proposal_def send_prepare_def send_commit_def send_round_change_def Let_def
      round_build_and_send split: sum.splits)

lemma round_start_round [simp]: "qb_current_round (fst (start_round E q)) = qb_current_round q"
  by (auto simp: start_round_def Let_def split: rc_justification_outcome.splits)

lemma round_set_round [simp]: "qb_current_round (fst (set_round E q r)) = r"
  by (simp add: set_round_def)

lemma round_commit_quorum_reached [simp]:
  "qb_current_round (fst (commit_quorum_reached E q r h)) = qb_current_round q"
  by (auto simp: commit_quorum_reached_def Let_def split: instance_state.splits sum.splits)

lemma round_received_propose:
  "qb_current_round q \<le> r \<Longrightarrow> qb_current_round q \<le> qb_current_round (fst (received_propose E q vd s r w))"
  by (auto simp: received_propose_def Let_def split_def split: sum.splits)

lemma round_received_prepare [simp]:
  "qb_current_round (fst (received_prepare E q s r w)) = qb_current_round q"
  by (auto simp: received_prepare_def Let_def split_def
      split: sum.splits option.splits instance_state.splits)

lemma round_received_commit [simp]:
  "qb_current_round (fst (received_commit E q s r w)) = qb_current_round q"
  by (auto simp: received_commit_def Let_def split_def split: sum.splits option.splits)

lemma round_received_decided [simp]:
  "qb_current_round (fst (received_decided E q w)) = qb_current_round q"
  by (auto simp: received_decided_def split: option.splits completed.splits sum.splits)

lemma round_received_round_change:
  "qb_current_round q \<le> r \<Longrightarrow>
     qb_current_round q \<le> qb_current_round (fst (received_round_change E q s r w))"
  by (auto simp: received_round_change_def Let_def split: sum.splits option.splits)

lemma round_receive: "qb_current_round q \<le> qb_current_round (fst (receive E q w))"
proof (cases "validate_message E q w")
  case (Inr cs)
  obtain c s where v: "validate_message E q w = Inr (c, s)" using Inr by (cases cs) auto
  note r = validate_round_Inr(1) [OF validate_message_Inr(1) [OF v]]
  show ?thesis
    using r round_received_propose [of q "qm_round (wq_qbft_message w)" E _ s w]
      round_received_round_change [of q "qm_round (wq_qbft_message w)" E s w]
    by (auto simp: receive_def v round_from_u64_def
        split: option.splits qbft_message_type.splits message_content.splits)
qed (simp add: receive_def)

lemma round_end_round: "qb_current_round q \<le> qb_current_round (fst (end_round E q))"
proof (cases "round_next (qb_current_round q)")
  case (Some r)
  let ?x = "send_round_change E (q\<lparr>qb_current_round := r, qb_state := SentRoundChange\<rparr>) (replicate 32 0)"
  obtain q' res where x: "?x = (q', res)" by (cases ?x)
  have "qb_current_round (fst ?x) = r" by simp
  then have "qb_current_round q' = r" by (simp add: x)
  then show ?thesis
    using Some round_next_greater [OF Some]
    by (auto simp: end_round_def Let_def x split: outcome.splits)
qed (simp add: end_round_def)

interpretation qbft_rounds: step_monotone "\<lambda>q e. fst (qbft_step E q e)" qb_current_round
  for E :: "'d qbft_env"
proof
  show "qb_current_round s \<le> qb_current_round (fst (qbft_step E s e))" for s :: "'d qbft" and e
    by (cases e) (simp_all add: round_receive round_end_round)
qed

end
