(* ===== verification/Qbft_Agreement.thy ===== *)
theory Qbft_Agreement
  imports Qbft_Steps
begin

text \<open>
  Agreement of a committee of QBFT instances, across rounds. First the votes alone: four laws on
  who prepared, committed and changed rounds, from which no two values are ever committed by a
  quorum. Then the refinement: the messages the instances of a committee send obey these laws,
  when at most \<open>f\<close> members are faulty and no honest member's signature is forged.
\<close>

section \<open>Abstract votes\<close>

record votes =
  vt_prepare :: "operator_id \<Rightarrow> round \<Rightarrow> hash256 \<Rightarrow> bool"
  vt_commit :: "operator_id \<Rightarrow> round \<Rightarrow> hash256 \<Rightarrow> bool"
  vt_round_change :: "operator_id \<Rightarrow> round \<Rightarrow> round \<Rightarrow> hash256 \<Rightarrow> bool"

definition quorum_of :: "operator_id list \<Rightarrow> operator_id set \<Rightarrow> bool" where
  "quorum_of com S \<longleftrightarrow> S \<subseteq> set com \<and> quorum_size (length com) \<le> card S"

text \<open>The votes of the honest members \<open>H\<close>: a commit rests on a quorum of prepares; a member
  commits one value per round; a prepare after the first round rests on a quorum of round
  changes, whose prepared ones carry the prepared value and its quorum; and a member that has
  committed says so in every later round change.\<close>

definition voting_laws :: "operator_id list \<Rightarrow> operator_id set \<Rightarrow> votes \<Rightarrow> bool" where
  "voting_laws com H V \<longleftrightarrow>
     (\<forall>s \<in> H. \<forall>r h. vt_commit V s r h \<longrightarrow>
        r \<noteq> 0 \<and> (\<exists>S. quorum_of com S \<and> (\<forall>t \<in> S \<inter> H. vt_prepare V t r h)))
     \<and> (\<forall>s \<in> H. \<forall>r h h'. vt_commit V s r h \<longrightarrow> vt_commit V s r h' \<longrightarrow> h = h')
     \<and> (\<forall>s \<in> H. \<forall>r h. vt_prepare V s r h \<longrightarrow> r > round_default \<longrightarrow>
        (\<exists>S. quorum_of com S \<and> (\<forall>t \<in> S \<inter> H. \<exists>dr h'. vt_round_change V t r dr h'
           \<and> (dr \<noteq> 0 \<longrightarrow> h' = h \<and> dr < r
                \<and> (\<exists>S'. quorum_of com S' \<and> (\<forall>u \<in> S' \<inter> H. vt_prepare V u dr h))))))
     \<and> (\<forall>s \<in> H. \<forall>r h r' dr h'. vt_commit V s r h \<longrightarrow> vt_round_change V s r' dr h' \<longrightarrow> r < r' \<longrightarrow>
        r \<le> dr \<and> (dr = r \<longrightarrow> h' = h))"

definition faults_bounded :: "operator_id list \<Rightarrow> operator_id set \<Rightarrow> bool" where
  "faults_bounded com H \<longleftrightarrow>
     distinct com \<and> is_valid_committee_size (length com) \<and> H \<subseteq> set com
     \<and> card (set com - H) \<le> get_f (length com)"

lemma honest_in_both:
  assumes f: "faults_bounded com H" and S: "quorum_of com S" "quorum_of com S'"
  obtains t where "t \<in> S" "t \<in> S'" "t \<in> H"
proof -
  have tq: "threshold_quorum (length com) (get_f (length com)) (quorum_size (length com))"
    using f valid_committee_threshold by (simp add: faults_bounded_def)
  have "\<exists>x \<in> S \<inter> S'. x \<notin> set com - H"
    by (rule threshold_quorum.quorum_honest_member [OF tq, of "set com"])
       (use f S in \<open>auto simp: faults_bounded_def quorum_of_def distinct_card\<close>)
  then show ?thesis using that S by (auto simp: quorum_of_def)
qed

lemma honest_in_quorum:
  assumes "faults_bounded com H" "quorum_of com S"
  obtains t where "t \<in> S" "t \<in> H"
  using honest_in_both [OF assms assms(2)] by blast

lemma voting_commit:
  assumes "voting_laws com H V" "s \<in> H" "vt_commit V s r h"
  obtains S where "r \<noteq> 0" "quorum_of com S" "\<And>t. t \<in> S \<Longrightarrow> t \<in> H \<Longrightarrow> vt_prepare V t r h"
  using assms unfolding voting_laws_def by (metis IntI)

lemma voting_commit_unique:
  "voting_laws com H V \<Longrightarrow> s \<in> H \<Longrightarrow> vt_commit V s r h \<Longrightarrow> vt_commit V s r h' \<Longrightarrow> h = h'"
  unfolding voting_laws_def by metis

lemma voting_justified:
  assumes "voting_laws com H V" "s \<in> H" "vt_prepare V s r h" "r > round_default"
  obtains S where "quorum_of com S"
    "\<And>t. t \<in> S \<Longrightarrow> t \<in> H \<Longrightarrow> \<exists>dr h'. vt_round_change V t r dr h'
       \<and> (dr \<noteq> 0 \<longrightarrow> h' = h \<and> dr < r
            \<and> (\<exists>S'. quorum_of com S' \<and> (\<forall>u \<in> S' \<inter> H. vt_prepare V u dr h)))"
proof -
  have "\<exists>S. quorum_of com S \<and> (\<forall>t \<in> S \<inter> H. \<exists>dr h'. vt_round_change V t r dr h'
       \<and> (dr \<noteq> 0 \<longrightarrow> h' = h \<and> dr < r
            \<and> (\<exists>S'. quorum_of com S' \<and> (\<forall>u \<in> S' \<inter> H. vt_prepare V u dr h))))"
    using assms unfolding voting_laws_def by simp
  then show ?thesis using that by (auto simp: Ball_def)
qed

lemma voting_round_change:
  assumes "voting_laws com H V" "s \<in> H" "vt_commit V s r h" "vt_round_change V s r' dr h'" "r < r'"
  shows "r \<le> dr" and "dr = r \<Longrightarrow> h' = h"
  using assms unfolding voting_laws_def by metis+

text \<open>A value committed by a quorum binds every later prepare of an honest member.\<close>

lemma committed_binds:
  assumes V: "voting_laws com H V" and f: "faults_bounded com H" and S: "quorum_of com S"
    and c: "\<And>t. t \<in> S \<Longrightarrow> t \<in> H \<Longrightarrow> vt_commit V t r h" and r: "r \<noteq> 0"
  shows "r < r' \<Longrightarrow> t \<in> H \<Longrightarrow> vt_prepare V t r' x \<Longrightarrow> x = h"
proof (induction "unat r'" arbitrary: r' t x rule: less_induct)
  case less
  have "r' > round_default"
    using r less.prems(1) by (simp add: round_default_def word_less_nat_alt unat_eq_zero [symmetric])
  then obtain S2 where S2: "quorum_of com S2"
    and rc: "\<And>t. t \<in> S2 \<Longrightarrow> t \<in> H \<Longrightarrow> \<exists>dr h'. vt_round_change V t r' dr h'
       \<and> (dr \<noteq> 0 \<longrightarrow> h' = x \<and> dr < r'
            \<and> (\<exists>S'. quorum_of com S' \<and> (\<forall>u \<in> S' \<inter> H. vt_prepare V u dr x)))"
    using voting_justified [OF V less.prems(2,3)] by metis
  obtain u where u: "u \<in> S" "u \<in> S2" "u \<in> H" using honest_in_both [OF f S S2] by metis
  obtain dr h' where dr: "vt_round_change V u r' dr h'"
    and just: "dr \<noteq> 0 \<longrightarrow> h' = x \<and> dr < r'
            \<and> (\<exists>S'. quorum_of com S' \<and> (\<forall>u \<in> S' \<inter> H. vt_prepare V u dr x))"
    using rc [OF u(2,3)] by blast
  note order = voting_round_change [OF V u(3) c [OF u(1,3)] dr less.prems(1)]
  have "dr \<noteq> 0" using order(1) r by auto
  then have x: "h' = x" and lt: "dr < r'"
    and ex: "\<exists>S'. quorum_of com S' \<and> (\<forall>u \<in> S' \<inter> H. vt_prepare V u dr x)"
    using just by auto
  show ?case
  proof (cases "dr = r")
    case True
    then show ?thesis using order(2) x by simp
  next
    case False
    then have gt: "r < dr" using order(1) by simp
    obtain S' where S': "quorum_of com S'" and p: "\<forall>u \<in> S' \<inter> H. vt_prepare V u dr x"
      using ex by blast
    obtain u' where "u' \<in> S'" "u' \<in> H" using honest_in_quorum [OF f S'] by metis
    then have "vt_prepare V u' dr x" using p by blast
    then show ?thesis using less.hyps [of dr u' x] gt lt \<open>u' \<in> H\<close> by (simp add: word_less_nat_alt)
  qed
qed

text \<open>Two committed values are equal.\<close>

lemma committed_later:
  assumes V: "voting_laws com H V" and f: "faults_bounded com H"
    and S: "quorum_of com S" "\<And>t. t \<in> S \<Longrightarrow> t \<in> H \<Longrightarrow> vt_commit V t r h"
    and S': "quorum_of com S'" "\<And>t. t \<in> S' \<Longrightarrow> t \<in> H \<Longrightarrow> vt_commit V t r' h'"
    and r: "r < r'"
  shows "h' = h"
proof -
  obtain s where s: "s \<in> S" "s \<in> H" using honest_in_quorum [OF f S(1)] by metis
  obtain t where t: "t \<in> S'" "t \<in> H" using honest_in_quorum [OF f S'(1)] by metis
  have r0: "r \<noteq> 0" using voting_commit [OF V s(2) S(2) [OF s]] by metis
  obtain P where P: "quorum_of com P" "\<And>u. u \<in> P \<Longrightarrow> u \<in> H \<Longrightarrow> vt_prepare V u r' h'"
    using voting_commit [OF V t(2) S'(2) [OF t]] by metis
  obtain u where u: "u \<in> P" "u \<in> H" using honest_in_quorum [OF f P(1)] by metis
  show ?thesis using committed_binds [OF V f S(1,2) r0 r u(2) P(2) [OF u]] by simp
qed

lemma voting_agreement:
  assumes V: "voting_laws com H V" and f: "faults_bounded com H"
    and S: "quorum_of com S" "\<And>t. t \<in> S \<Longrightarrow> t \<in> H \<Longrightarrow> vt_commit V t r h"
    and S': "quorum_of com S'" "\<And>t. t \<in> S' \<Longrightarrow> t \<in> H \<Longrightarrow> vt_commit V t r' h'"
  shows "h = h'"
proof (cases r r' rule: linorder_cases)
  case less
  then show ?thesis using committed_later [OF V f S S'] by simp
next
  case greater
  then show ?thesis using committed_later [OF V f S' S] by simp
next
  case equal
  obtain u where "u \<in> S" "u \<in> S'" "u \<in> H" using honest_in_both [OF f S(1) S'(1)] by metis
  then show ?thesis using voting_commit_unique [OF V] S(2) S'(2) equal by metis
qed

section \<open>Committees of instances\<close>

text \<open>
  The signed statements a message carries: its own, those of its justifications, and those of
  the round changes inside them.
\<close>

definition signed_attests :: "codec \<Rightarrow> signed_ssv_message \<Rightarrow> (operator_id \<times> qbft_message) list" where
  "signed_attests cdc j =
     (case cd_qbft_from_ssz cdc (sm_data (sg_ssv_message j)) of
        Inl _ \<Rightarrow> [] | Inr m \<Rightarrow> map (\<lambda>s. (s, m)) (sg_operator_ids j))"

definition list_attests :: "codec \<Rightarrow> bytes list \<Rightarrow> (operator_id \<times> qbft_message) list" where
  "list_attests cdc bs =
     concat (map (\<lambda>b. case cd_signed_from_ssz cdc b of Inl _ \<Rightarrow> [] | Inr j \<Rightarrow> signed_attests cdc j) bs)"

definition attests :: "codec \<Rightarrow> wrapped_qbft_message \<Rightarrow> (operator_id \<times> qbft_message) list" where
  "attests cdc w =
     (let m = wq_qbft_message w; rcs = list_attests cdc (qm_round_change_justification m) in
      map (\<lambda>s. (s, m)) (sg_operator_ids (wq_signed_message w))
      @ rcs @ list_attests cdc (qm_prepare_justification m)
      @ concat (map (\<lambda>(_, m'). list_attests cdc (qm_round_change_justification m')) rcs))"

text \<open>A member of the committee: its environment, configuration, start value, identifier, and the
  events it has processed.\<close>

record 'd node =
  nd_env :: "'d qbft_env"
  nd_config :: config
  nd_start_data :: 'd
  nd_identifier :: message_id
  nd_events :: "qbft_event list"

definition node_start :: "'d node \<Rightarrow> 'd qbft" where
  "node_start n = fst (qbft_new (nd_env n) (nd_config n) (nd_start_data n) (nd_identifier n))"

definition node_state :: "'d node \<Rightarrow> 'd qbft" where
  "node_state n = qbft_run (nd_env n) (node_start n) (nd_events n)"

text \<open>No forgery: an honest member has itself sent, in this instance, whatever is attested under
  its name.\<close>

definition unforged :: "codec \<Rightarrow> (operator_id \<Rightarrow> 'd node) \<Rightarrow> operator_id set \<Rightarrow> admission" where
  "unforged cdc nodes H w \<longleftrightarrow>
     (\<forall>(s, m) \<in> set (attests cdc w). s \<in> H \<longrightarrow> m \<in> set (sent_msgs (node_state (nodes s))))"

definition committee_run ::
    "codec \<Rightarrow> operator_id list \<Rightarrow> instance_height \<Rightarrow> leader_fn \<Rightarrow> operator_id set \<Rightarrow> (operator_id \<Rightarrow> 'd node) \<Rightarrow> bool" where
  "committee_run cdc com height lf H nodes \<longleftrightarrow>
     faults_bounded com H
     \<and> (\<forall>a \<in> set com. \<forall>b \<in> set com. \<forall>r. lf a r height com \<longrightarrow> lf b r height com \<longrightarrow> a = b)
     \<and> (\<forall>s \<in> H. qe_codec (nd_env (nodes s)) = cdc
          \<and> cf_committee_members (nd_config (nodes s)) = com
          \<and> cf_instance_height (nd_config (nodes s)) = height
          \<and> cf_leader_fn (nd_config (nodes s)) = lf
          \<and> (\<forall>e \<in> set (nd_events (nodes s)). event_admissible (unforged cdc nodes H) e))"

section \<open>The votes of a committee\<close>

definition votes_of :: "(operator_id \<Rightarrow> 'd node) \<Rightarrow> votes" where
  "votes_of nodes =
     \<lparr>vt_prepare = (\<lambda>s r h. \<exists>m \<in> set (sent_msgs (node_state (nodes s))).
         qm_type m = Prepare \<and> qm_round m = r \<and> qm_root m = h),
      vt_commit = (\<lambda>s r h. \<exists>m \<in> set (sent_msgs (node_state (nodes s))).
         qm_type m = Commit \<and> qm_round m = r \<and> qm_root m = h),
      vt_round_change = (\<lambda>s r dr h. \<exists>m \<in> set (sent_msgs (node_state (nodes s))).
         qm_type m = RoundChange \<and> qm_round m = r \<and> qm_data_round m = dr \<and> qm_root m = h)\<rparr>"

lemma qbft_new_instance:
  "qb_config (fst (qbft_new E c d i)) = c"
  "qb_instance_height (fst (qbft_new E c d i)) = cf_instance_height c"
proof -
  let ?q0 = "(undefined :: 'a qbft)\<lparr>qb_config := c, qb_instance_height := cf_instance_height c\<rparr>"
  have "same_instance ?q0 (fst (qbft_new E c d i))"
    by (rule inv_same_instance [OF inv_qbft_new]) simp_all
  then show "qb_config (fst (qbft_new E c d i)) = c"
    "qb_instance_height (fst (qbft_new E c d i)) = cf_instance_height c"
    by (simp_all add: same_instance_def)
qed

lemma node_start_instance:
  "qb_config (node_start n) = nd_config n"
  "qb_instance_height (node_start n) = cf_instance_height (nd_config n)"
  by (simp_all add: node_start_def qbft_new_instance)

lemma node_inv:
  assumes "\<forall>e \<in> set (nd_events n). event_admissible A e"
  shows "qbft_inv (nd_env n) A (node_start n) (node_state n)"
  unfolding node_state_def qbft_run_def
  by (rule qbft_safe.inv_run)
     (use assms inv_qbft_new [of "node_start n" "nd_config n"] in
       \<open>simp_all add: node_start_instance\<close>, simp add: node_start_def)

text \<open>A quorum of messages signed by committee members, each with one attested statement.\<close>

lemma has_quorum_set:
  assumes "qbft_has_quorum q js"
  shows "quorum_of (cf_committee_members (qb_config q))
    (set (filter (check_committee q) (concat (map sg_operator_ids js))))"
  using assms by (auto simp: qbft_has_quorum_def Let_def quorum_of_def config_quorum_size_def check_committee_def)

lemma try_decode_mem:
  assumes "try_decode_signed_ssv_messages E bs err = Inr js" "j \<in> set js"
  shows "\<exists>b \<in> set bs. cd_signed_from_ssz (qe_codec E) b = Inr j"
  using assms
proof (induction bs arbitrary: js)
  case (Cons b bs)
  then show ?case
    by (auto simp: try_decode_signed_ssv_messages_def bindR_Inr_iff split: sum.splits)
qed (simp add: try_decode_signed_ssv_messages_def)

lemma decoded_attests:
  assumes "try_decode_signed_ssv_messages E bs err = Inr js" "j \<in> set js"
    "cd_qbft_from_ssz (qe_codec E) (sm_data (sg_ssv_message j)) = Inr m" "s \<in> set (sg_operator_ids j)"
  shows "(s, m) \<in> set (list_attests (qe_codec E) bs)"
  using try_decode_mem [OF assms(1,2)] assms(3,4)
  by (force simp: list_attests_def signed_attests_def)

lemma prepare_justification_Inr:
  assumes "is_valid_prepare_justification_for_round_and_root E q j r h = Inr u"
  obtains m where "cd_qbft_from_ssz (qe_codec E) (sm_data (sg_ssv_message j)) = Inr m"
    "qm_type m = Prepare" "qm_round m = r" "qm_root m = h"
  using assms by (auto simp: is_valid_prepare_justification_for_round_and_root_def
      split: list.splits if_splits sum.splits)

text \<open>Accepted prepare justifications: a quorum of attested prepares.\<close>

definition prepare_quorum :: "codec \<Rightarrow> operator_id list \<Rightarrow> bytes list \<Rightarrow> round \<Rightarrow> hash256 \<Rightarrow> bool" where
  "prepare_quorum cdc com bs r h \<longleftrightarrow>
     (\<exists>S. quorum_of com S \<and> (\<forall>s \<in> S. \<exists>m. (s, m) \<in> set (list_attests cdc bs)
        \<and> qm_type m = Prepare \<and> qm_round m = r \<and> qm_root m = h))"

lemma prepare_quorumI:
  assumes d: "try_decode_signed_ssv_messages E bs err = Inr js" and q: "qbft_has_quorum q js"
    and v: "\<forall>j \<in> set js. is_valid_prepare_justification_for_round_and_root E q j r h = Inr ()"
  shows "prepare_quorum (qe_codec E) (cf_committee_members (qb_config q)) bs r h"
  unfolding prepare_quorum_def
proof (rule exI, intro conjI ballI)
  show "quorum_of (cf_committee_members (qb_config q))
      (set (filter (check_committee q) (concat (map sg_operator_ids js))))"
    using q by (rule has_quorum_set)
  fix s
  assume "s \<in> set (filter (check_committee q) (concat (map sg_operator_ids js)))"
  then obtain j where j: "j \<in> set js" "s \<in> set (sg_operator_ids j)" by auto
  obtain m where m: "cd_qbft_from_ssz (qe_codec E) (sm_data (sg_ssv_message j)) = Inr m"
    "qm_type m = Prepare" "qm_round m = r" "qm_root m = h"
    using prepare_justification_Inr v j(1) by metis
  then show "\<exists>m. (s, m) \<in> set (list_attests (qe_codec E) bs)
      \<and> qm_type m = Prepare \<and> qm_round m = r \<and> qm_root m = h"
    using decoded_attests [OF d j(1) m(1) j(2)] by blast
qed

lemma rc_justification_Inr:
  assumes "check_rc_justification E q msg j = Inr m"
  shows "cd_qbft_from_ssz (qe_codec E) (sm_data (sg_ssv_message j)) = Inr m"
    and "qm_type m = RoundChange" and "qm_round m = qm_round msg"
    and "qm_data_round m \<noteq> 0 \<Longrightarrow> qm_root m = qm_root msg \<and> qm_data_round m < qm_round m
      \<and> prepare_quorum (qe_codec E) (cf_committee_members (qb_config q))
            (qm_round_change_justification m) (qm_data_round m) (qm_root m)"
proof -
  show "cd_qbft_from_ssz (qe_codec E) (sm_data (sg_ssv_message j)) = Inr m"
    and "qm_type m = RoundChange" and "qm_round m = qm_round msg"
    using assms by (auto simp: check_rc_justification_def bindR_Inr_iff split: if_splits sum.splits)
  assume dr: "qm_data_round m \<noteq> 0"
  obtain js where "try_decode_signed_ssv_messages E (qm_round_change_justification m)
      RoundChangeJustificationDecodeFailed = Inr js" "qbft_has_quorum q js"
    "\<forall>j \<in> set js. is_valid_prepare_justification_for_round_and_root E q j (qm_data_round m) (qm_root m) = Inr ()"
    using assms dr
    by (auto simp: check_rc_justification_def bindR_Inr_iff try_for_each_Inr_iff word_gt_0
        split: if_splits sum.splits)
  then show "qm_root m = qm_root msg \<and> qm_data_round m < qm_round m
      \<and> prepare_quorum (qe_codec E) (cf_committee_members (qb_config q))
            (qm_round_change_justification m) (qm_data_round m) (qm_root m)"
    using assms dr prepare_quorumI
    by (auto simp: check_rc_justification_def bindR_Inr_iff word_gt_0 split: if_splits sum.splits)
qed

lemma check_rc_justifications_Inr:
  "check_rc_justifications E q msg b js = Inr x \<Longrightarrow> j \<in> set js \<Longrightarrow>
     \<exists>m. check_rc_justification E q msg j = Inr m"
  by (induction js arbitrary: b) (auto simp: bindR_Inr_iff Let_def)

lemma justified_proposal:
  assumes "validate_proposal_justifications E q w = Inr ()"
  shows "\<exists>S. quorum_of (cf_committee_members (qb_config q)) S \<and> (\<forall>s \<in> S. \<exists>m.
     (s, m) \<in> set (list_attests (qe_codec E) (qm_round_change_justification (wq_qbft_message w)))
     \<and> qm_type m = RoundChange \<and> qm_round m = qm_round (wq_qbft_message w)
     \<and> (qm_data_round m \<noteq> 0 \<longrightarrow> qm_root m = wq_root w \<and> qm_data_round m < qm_round m
          \<and> prepare_quorum (qe_codec E) (cf_committee_members (qb_config q))
                (qm_round_change_justification m) (qm_data_round m) (qm_root m)))"
proof -
  obtain js x where d: "try_decode_signed_ssv_messages E
      (qm_round_change_justification (wq_qbft_message w)) RoundChangeJustificationDecodeFailed = Inr js"
    and q: "qbft_has_quorum q js"
    and c: "check_rc_justifications E q (wq_qbft_message w) None js = Inr x"
    using assms by (auto simp: validate_proposal_justifications_def Let_def bindR_Inr_iff split: if_splits)
  show ?thesis
  proof (rule exI, intro conjI ballI)
    show "quorum_of (cf_committee_members (qb_config q))
        (set (filter (check_committee q) (concat (map sg_operator_ids js))))"
      using q by (rule has_quorum_set)
    fix s
    assume "s \<in> set (filter (check_committee q) (concat (map sg_operator_ids js)))"
    then obtain j where j: "j \<in> set js" "s \<in> set (sg_operator_ids j)" by auto
    obtain m where m: "check_rc_justification E q (wq_qbft_message w) j = Inr m"
      using check_rc_justifications_Inr [OF c j(1)] by blast
    note rc = rc_justification_Inr [OF m]
    show "\<exists>m. (s, m) \<in> set (list_attests (qe_codec E) (qm_round_change_justification (wq_qbft_message w)))
       \<and> qm_type m = RoundChange \<and> qm_round m = qm_round (wq_qbft_message w)
       \<and> (qm_data_round m \<noteq> 0 \<longrightarrow> qm_root m = wq_root w \<and> qm_data_round m < qm_round m
          \<and> prepare_quorum (qe_codec E) (cf_committee_members (qb_config q))
                (qm_round_change_justification m) (qm_data_round m) (qm_root m))"
      using decoded_attests [OF d j(1) rc(1) j(2)] rc(2,3,4) by blast
  qed
qed

section \<open>Refinement\<close>

text \<open>What is attested in an unforged message has been sent.\<close>

lemma unforged_attests:
  assumes "unforged cdc nodes H w" "(s, m) \<in> set (attests cdc w)" "s \<in> H"
  shows "m \<in> set (sent_msgs (node_state (nodes s)))"
  using assms unfolding unforged_def by blast

lemma attests_own:
  "s \<in> set (sg_operator_ids (wq_signed_message w)) \<Longrightarrow> (s, wq_qbft_message w) \<in> set (attests cdc w)"
  by (simp add: attests_def Let_def)

lemma own_vote:
  assumes "unforged cdc nodes H w" "s \<in> set (sg_operator_ids (wq_signed_message w))" "s \<in> H"
  shows "wq_qbft_message w \<in> set (sent_msgs (node_state (nodes s)))"
  using unforged_attests [OF assms(1) attests_own [OF assms(2)] assms(3)] .

lemma votes_ofI:
  "m \<in> set (sent_msgs (node_state (nodes s))) \<Longrightarrow> qm_type m = Prepare \<Longrightarrow>
     vt_prepare (votes_of nodes) s (qm_round m) (qm_root m)"
  "m \<in> set (sent_msgs (node_state (nodes s))) \<Longrightarrow> qm_type m = Commit \<Longrightarrow>
     vt_commit (votes_of nodes) s (qm_round m) (qm_root m)"
  "m \<in> set (sent_msgs (node_state (nodes s))) \<Longrightarrow> qm_type m = RoundChange \<Longrightarrow>
     vt_round_change (votes_of nodes) s (qm_round m) (qm_data_round m) (qm_root m)"
  by (auto simp: votes_of_def)

lemma attests_rc:
  assumes "(s, m) \<in> set (list_attests cdc (qm_round_change_justification (wq_qbft_message w)))"
  shows "(s, m) \<in> set (attests cdc w)"
    and "(t, p) \<in> set (list_attests cdc (qm_round_change_justification m)) \<Longrightarrow> (t, p) \<in> set (attests cdc w)"
  using assms by (auto simp: attests_def Let_def)

text \<open>What an honest member's state says, in the committee's terms.\<close>

lemma member_inv:
  assumes "committee_run cdc com height lf H nodes" "s \<in> H"
  shows "qbft_inv (nd_env (nodes s)) (unforged cdc nodes H) (node_start (nodes s)) (node_state (nodes s))"
    and "cf_committee_members (qb_config (node_start (nodes s))) = com"
    and "config_quorum_size (qb_config (node_start (nodes s))) = quorum_size (length com)"
    and "qe_codec (nd_env (nodes s)) = cdc"
    and "unique_leader (node_start (nodes s))"
proof -
  have e: "\<forall>e \<in> set (nd_events (nodes s)). event_admissible (unforged cdc nodes H) e"
    and com: "cf_committee_members (nd_config (nodes s)) = com"
    and cfg: "cf_instance_height (nd_config (nodes s)) = height" "cf_leader_fn (nd_config (nodes s)) = lf"
      "qe_codec (nd_env (nodes s)) = cdc"
    and u: "\<forall>a \<in> set com. \<forall>b \<in> set com. \<forall>r. lf a r height com \<longrightarrow> lf b r height com \<longrightarrow> a = b"
    using assms unfolding committee_run_def by blast+
  show "qbft_inv (nd_env (nodes s)) (unforged cdc nodes H) (node_start (nodes s)) (node_state (nodes s))"
    using e by (rule node_inv)
  show "cf_committee_members (qb_config (node_start (nodes s))) = com"
    "config_quorum_size (qb_config (node_start (nodes s))) = quorum_size (length com)"
    "qe_codec (nd_env (nodes s)) = cdc"
    using com cfg by (simp_all add: node_start_instance config_quorum_size_def)
  show "unique_leader (node_start (nodes s))"
    using u com cfg
    unfolding unique_leader_def check_leader_def check_committee_def node_start_instance by blast
qed

text \<open>A stored prepare quorum is a quorum of prepare votes.\<close>

lemma prepared_votes:
  assumes run: "committee_run cdc com height lf H nodes" and s: "s \<in> H"
    and p: "prepared (node_state (nodes s)) r h"
  shows "\<exists>S. quorum_of com S \<and> (\<forall>t \<in> S \<inter> H. vt_prepare (votes_of nodes) t r h)"
proof -
  let ?st = "node_state (nodes s)" and ?init = "node_start (nodes s)"
  note inv = member_inv [OF run s]
  have mc: "mc_inv (single_ok (unforged cdc nodes H) ?init Prepare) (qb_prepare_container ?st)"
    using inv(1) by (simp add: qbft_inv_def containers_ok_def)
  obtain S where S: "card S = root_count h (get_messages_for_round (qb_prepare_container ?st) r)"
    and mem: "\<And>t. t \<in> S \<Longrightarrow> \<exists>w \<in> set (get_messages_for_round (qb_prepare_container ?st) r).
        wq_root w = h \<and> single_ok (unforged cdc nodes H) ?init Prepare r t w"
    using root_count_senders [OF mc, of r h] by metis
  have "S \<subseteq> set com"
    using mem inv(2) by (fastforce simp: single_ok_def check_committee_def)
  moreover have "quorum_size (length com) \<le> card S"
    using p S inv(3) same_instance_eqs(1) [OF inv_same_instance [OF inv(1)]] by (simp add: prepared_def)
  moreover have "vt_prepare (votes_of nodes) t r h" if t: "t \<in> S" "t \<in> H" for t
  proof -
    obtain w where w: "wq_root w = h" "single_ok (unforged cdc nodes H) ?init Prepare r t w"
      using mem [OF t(1)] by blast
    then have "wq_qbft_message w \<in> set (sent_msgs (node_state (nodes t)))"
      using own_vote [of cdc nodes H w t] t(2) by (simp add: single_ok_def)
    from votes_ofI(1) [where nodes = nodes and s = t, OF this] show ?thesis
      using w by (simp add: single_ok_def)
  qed
  ultimately show ?thesis unfolding quorum_of_def by blast
qed

lemma proposed_unique:
  assumes "qbft_inv E A q0 q" "unique_leader q0" "proposed q r h" "proposed q r h'"
  shows "h = h'"
  using assms stored_proposal_unique [of E A q0 "qb_propose_container q"]
  unfolding qbft_inv_def containers_ok_def proposed_def by metis

lemma sent_commit_unique:
  assumes inv: "qbft_inv E A q0 q" "unique_leader q0"
    and m: "m \<in> set (sent_msgs q)" "m' \<in> set (sent_msgs q)"
    and t: "qm_type m \<in> {Prepare, Commit}" "qm_type m' \<in> {Prepare, Commit}"
    and r: "qm_round m = qm_round m'"
  shows "qm_root m = qm_root m'"
proof -
  have "sent_ok q m" "sent_ok q m'" using inv(1) m unfolding qbft_inv_def by blast+
  then have "proposed q (qm_round m) (qm_root m)" "proposed q (qm_round m) (qm_root m')"
    using t r unfolding sent_ok_def by auto
  then show ?thesis using proposed_unique [OF inv] by blast
qed

lemma sent_commit_then_round_change:
  assumes inv: "qbft_inv E A q0 q" "unique_leader q0"
    and c: "c \<in> set (sent_msgs q)" "qm_type c = Commit"
    and m: "m \<in> set (sent_msgs q)" "qm_type m = RoundChange" "qm_round c < qm_round m"
  shows "qm_round c \<le> qm_data_round m" and "qm_data_round m = qm_round c \<Longrightarrow> qm_root m = qm_root c"
proof -
  have ok: "sent_ok q c" "sent_ok q m" using inv(1) c m unfolding qbft_inv_def by blast+
  show "qm_round c \<le> qm_data_round m" using ok(2) c m unfolding sent_ok_def by blast
  assume e: "qm_data_round m = qm_round c"
  have "proposed q (qm_round c) (qm_root c)" "qm_round c \<noteq> 0" using ok(1) c unfolding sent_ok_def by blast+
  moreover from this have "proposed q (qm_round c) (qm_root m)"
    using ok(2) m e unfolding sent_ok_def by metis
  ultimately show "qm_root m = qm_root c" using proposed_unique [OF inv] by blast
qed

text \<open>A prepare after the first round rests on the justification of the stored proposal.\<close>

lemma sent_prepare_justified:
  assumes run: "committee_run cdc com height lf H nodes" and s: "s \<in> H"
    and m: "m \<in> set (sent_msgs (node_state (nodes s)))" "qm_type m = Prepare" "qm_round m > round_default"
  shows "\<exists>S. quorum_of com S \<and> (\<forall>t \<in> S \<inter> H. \<exists>dr h'. vt_round_change (votes_of nodes) t (qm_round m) dr h'
     \<and> (dr \<noteq> 0 \<longrightarrow> h' = qm_root m \<and> dr < qm_round m
          \<and> (\<exists>S'. quorum_of com S' \<and> (\<forall>u \<in> S' \<inter> H. vt_prepare (votes_of nodes) u dr (qm_root m)))))"
proof -
  let ?st = "node_state (nodes s)" and ?init = "node_start (nodes s)"
  note inv = member_inv [OF run s]
  have mc: "mc_inv (proposal_ok (nd_env (nodes s)) (unforged cdc nodes H) ?init) (qb_propose_container ?st)"
    using inv(1) by (simp add: qbft_inv_def containers_ok_def)
  have "proposed ?st (qm_round m) (qm_root m)"
    using inv(1) m unfolding qbft_inv_def sent_ok_def by blast
  then obtain w where w: "w \<in> set (get_messages_for_round (qb_propose_container ?st) (qm_round m))"
    "wq_root w = qm_root m"
    by (auto simp: proposed_def)
  obtain ld where "proposal_ok (nd_env (nodes s)) (unforged cdc nodes H) ?init (qm_round m) ld w"
    using mc_inv_stored [OF mc w(1)] by blast
  then have A: "unforged cdc nodes H w" and r: "qm_round (wq_qbft_message w) = qm_round m"
    and v: "validate_proposal_justifications (nd_env (nodes s)) ?init w = Inr ()"
    using m(3) by (auto simp: proposal_ok_def single_ok_def)
  obtain S where S: "quorum_of com S" and rc: "\<And>t. t \<in> S \<Longrightarrow> \<exists>m'.
     (t, m') \<in> set (list_attests cdc (qm_round_change_justification (wq_qbft_message w)))
     \<and> qm_type m' = RoundChange \<and> qm_round m' = qm_round m
     \<and> (qm_data_round m' \<noteq> 0 \<longrightarrow> qm_root m' = qm_root m \<and> qm_data_round m' < qm_round m
          \<and> prepare_quorum cdc com (qm_round_change_justification m') (qm_data_round m') (qm_root m))"
    using justified_proposal [OF v] unfolding inv(2,4) w(2) r by metis
  have votes: "\<exists>S'. quorum_of com S' \<and> (\<forall>u \<in> S' \<inter> H. vt_prepare (votes_of nodes) u dr h)"
    if pq: "prepare_quorum cdc com (qm_round_change_justification m') dr h"
      and att: "(t, m') \<in> set (list_attests cdc (qm_round_change_justification (wq_qbft_message w)))" for m' t dr h
  proof -
    obtain S' where S': "quorum_of com S'"
      and p: "\<And>u. u \<in> S' \<Longrightarrow> \<exists>x. (u, x) \<in> set (list_attests cdc (qm_round_change_justification m'))
        \<and> qm_type x = Prepare \<and> qm_round x = dr \<and> qm_root x = h"
      using pq unfolding prepare_quorum_def by blast
    have "vt_prepare (votes_of nodes) u dr h" if u: "u \<in> S'" "u \<in> H" for u
      using p [OF u(1)] unforged_attests [OF A attests_rc(2) [OF att] u(2)]
      unfolding votes_of_def by auto
    then show ?thesis using S' by blast
  qed
  have "\<exists>dr h'. vt_round_change (votes_of nodes) t (qm_round m) dr h'
     \<and> (dr \<noteq> 0 \<longrightarrow> h' = qm_root m \<and> dr < qm_round m
          \<and> (\<exists>S'. quorum_of com S' \<and> (\<forall>u \<in> S' \<inter> H. vt_prepare (votes_of nodes) u dr (qm_root m))))"
    if t: "t \<in> S" "t \<in> H" for t
  proof -
    obtain m' where m': "(t, m') \<in> set (list_attests cdc (qm_round_change_justification (wq_qbft_message w)))"
      "qm_type m' = RoundChange" "qm_round m' = qm_round m"
      "qm_data_round m' \<noteq> 0 \<longrightarrow> qm_root m' = qm_root m \<and> qm_data_round m' < qm_round m
          \<and> prepare_quorum cdc com (qm_round_change_justification m') (qm_data_round m') (qm_root m)"
      using rc [OF t(1)] by blast
    have "vt_round_change (votes_of nodes) t (qm_round m) (qm_data_round m') (qm_root m')"
      using unforged_attests [OF A attests_rc(1) [OF m'(1)] t(2)] m'(2,3) by (auto simp: votes_of_def)
    then show ?thesis using m'(4) votes [OF _ m'(1)] by blast
  qed
  then show ?thesis using S by blast
qed

text \<open>The messages of a committee's honest members obey the voting laws.\<close>

lemma committee_refines_voting:
  assumes run: "committee_run cdc com height lf H nodes"
  shows "voting_laws com H (votes_of nodes)"
  unfolding voting_laws_def
proof (intro conjI ballI allI impI)
  fix s r h
  assume s: "s \<in> H" and c: "vt_commit (votes_of nodes) s r h"
  then obtain m where m: "m \<in> set (sent_msgs (node_state (nodes s)))" "qm_type m = Commit"
    "qm_round m = r" "qm_root m = h"
    by (auto simp: votes_of_def)
  have "sent_ok (node_state (nodes s)) m"
    using member_inv(1) [OF run s] m(1) unfolding qbft_inv_def by blast
  then have ok: "r \<noteq> 0" "prepared (node_state (nodes s)) r h"
    using m unfolding sent_ok_def by auto
  show "r \<noteq> 0" by (rule ok(1))
  show "\<exists>S. quorum_of com S \<and> (\<forall>t \<in> S \<inter> H. vt_prepare (votes_of nodes) t r h)"
    using run s ok(2) by (rule prepared_votes)
next
  fix s r h h'
  assume s: "s \<in> H" and c: "vt_commit (votes_of nodes) s r h" "vt_commit (votes_of nodes) s r h'"
  then obtain m m' where m: "m \<in> set (sent_msgs (node_state (nodes s)))" "qm_type m = Commit"
      "qm_round m = r" "qm_root m = h"
    and m': "m' \<in> set (sent_msgs (node_state (nodes s)))" "qm_type m' = Commit"
      "qm_round m' = r" "qm_root m' = h'"
    by (auto simp: votes_of_def)
  show "h = h'"
    using sent_commit_unique [OF member_inv(1,5) [OF run s] m(1) m'(1)] m m' by simp
next
  fix s r h
  assume s: "s \<in> H" and p: "vt_prepare (votes_of nodes) s r h" and r: "round_default < r"
  then obtain m where m: "m \<in> set (sent_msgs (node_state (nodes s)))" "qm_type m = Prepare"
    "qm_round m = r" "qm_root m = h"
    by (auto simp: votes_of_def)
  show "\<exists>S. quorum_of com S \<and> (\<forall>t \<in> S \<inter> H. \<exists>dr h'. vt_round_change (votes_of nodes) t r dr h'
     \<and> (dr \<noteq> 0 \<longrightarrow> h' = h \<and> dr < r
          \<and> (\<exists>S'. quorum_of com S' \<and> (\<forall>u \<in> S' \<inter> H. vt_prepare (votes_of nodes) u dr h))))"
    using sent_prepare_justified [OF run s m(1,2)] r unfolding m(3,4) by blast
next
  fix s r h r' dr h'
  assume "s \<in> H" "vt_commit (votes_of nodes) s r h" "vt_round_change (votes_of nodes) s r' dr h'" "r < r'"
  then obtain c m where s: "s \<in> H" and c: "c \<in> set (sent_msgs (node_state (nodes s)))" "qm_type c = Commit"
      "qm_round c = r" "qm_root c = h"
    and m: "m \<in> set (sent_msgs (node_state (nodes s)))" "qm_type m = RoundChange"
      "qm_round m = r'" "qm_data_round m = dr" "qm_root m = h'" and lt: "qm_round c < qm_round m"
    by (auto simp: votes_of_def)
  note order = sent_commit_then_round_change [OF member_inv(1,5) [OF run s] c(1,2) m(1,2) lt]
  show "r \<le> dr" using order(1) c m by simp
  assume "dr = r"
  then show "h' = h" using order(2) c m by simp
qed

text \<open>A completed member's certificate is a quorum of commit votes.\<close>

lemma completed_votes:
  assumes run: "committee_run cdc com height lf H nodes" and s: "s \<in> H"
    and c: "qb_completed (node_state (nodes s)) = Some (Success h)"
  obtains r S where "quorum_of com S" "\<And>t. t \<in> S \<Longrightarrow> t \<in> H \<Longrightarrow> vt_commit (votes_of nodes) t r h"
proof -
  note inv = member_inv [OF run s]
  obtain r where "commit_certificate (unforged cdc nodes H) (node_start (nodes s)) r h"
    using inv(1) c unfolding qbft_inv_def completed_ok_def by blast
  then obtain S where S: "S \<subseteq> set com" "quorum_size (length com) \<le> card S"
    and w: "\<And>t. t \<in> S \<Longrightarrow> \<exists>w. unforged cdc nodes H w \<and> t \<in> set (sg_operator_ids (wq_signed_message w))
      \<and> qm_type (wq_qbft_message w) = Commit \<and> qm_round (wq_qbft_message w) = r \<and> wq_root w = h"
    unfolding commit_certificate_def inv(2,3) by metis
  have "vt_commit (votes_of nodes) t r h" if t: "t \<in> S" "t \<in> H" for t
  proof -
    obtain w where w: "unforged cdc nodes H w" "t \<in> set (sg_operator_ids (wq_signed_message w))"
      "qm_type (wq_qbft_message w) = Commit" "qm_round (wq_qbft_message w) = r" "wq_root w = h"
      using w [OF t(1)] by blast
    show ?thesis
      using votes_ofI(2) [where nodes = nodes and s = t, OF own_vote [OF w(1,2) t(2)] w(3)] w(4,5) by simp
  qed
  then show ?thesis using that S unfolding quorum_of_def by blast
qed

lemma completed_agree:
  assumes run: "committee_run cdc com height lf H nodes" and s: "a \<in> H" "b \<in> H"
    and c: "qb_completed (node_state (nodes a)) = Some (Success x)"
      "qb_completed (node_state (nodes b)) = Some (Success y)"
  shows "x = y"
proof -
  have f: "faults_bounded com H" using run by (simp add: committee_run_def)
  obtain r S where S: "quorum_of com S" "\<And>t. t \<in> S \<Longrightarrow> t \<in> H \<Longrightarrow> vt_commit (votes_of nodes) t r x"
    using completed_votes [OF run s(1) c(1)] by metis
  obtain r' S' where S': "quorum_of com S'" "\<And>t. t \<in> S' \<Longrightarrow> t \<in> H \<Longrightarrow> vt_commit (votes_of nodes) t r' y"
    using completed_votes [OF run s(2) c(2)] by metis
  show ?thesis using committee_refines_voting [OF run] f S S' by (rule voting_agreement)
qed

end
