(* ===== verification/Qbft_Demo.thy ===== *)
theory Qbft_Demo
  imports Qbft_Agreement
begin

text \<open>
  A committee of four deciding in its first round, one member silent: the concrete run on which
  the hypotheses of the agreement theorems are evaluated.
\<close>

definition demo_codec :: codec where
  "demo_codec = \<lparr>cd_signed_from_ssz = (\<lambda>_. Inl NoMatchingVariant), cd_signed_as_ssz = (\<lambda>_. []),
     cd_qbft_from_ssz = (\<lambda>_. Inl NoMatchingVariant), cd_qbft_as_ssz = (\<lambda>_. [1]),
     cd_partial_from_ssz = (\<lambda>_. Inl NoMatchingVariant)\<rparr>"

definition demo_env :: "bytes qbft_env" where
  "demo_env = \<lparr>qe_codec = demo_codec, qe_data_from_ssz = (\<lambda>b. if b = [] then Inl NoMatchingVariant else Inr b),
     qe_data_as_ssz = (\<lambda>d. d),
     qe_hash = (\<lambda>d. d), qe_validate = (\<lambda>_ _. True)\<rparr>"

definition demo_committee :: "operator_id list" where
  "demo_committee = [1, 2, 3, 4]"

definition demo_leader :: leader_fn where
  "demo_leader = leader_function default_leader_function_default"

definition demo_id :: message_id where
  "demo_id = message_id_new (\<lambda>pk. pk) [0, 0, 0, 1] Committee (CommitteeExecutor (replicate 32 5))"

definition demo_message :: "qbft_message_type \<Rightarrow> qbft_message" where
  "demo_message t = \<lparr>qm_type = t, qm_height = 5, qm_round = 1, qm_identifier = demo_id, qm_root = [7],
     qm_data_round = 0, qm_round_change_justification = [], qm_prepare_justification = []\<rparr>"

definition demo_wrapped :: "operator_id \<Rightarrow> qbft_message_type \<Rightarrow> wrapped_qbft_message" where
  "demo_wrapped s t =
     \<lparr>wq_signed_message =
        \<lparr>sg_signatures = [[]], sg_operator_ids = [s],
         sg_ssv_message = \<lparr>sm_msg_type = SSVConsensusMsgType, sm_msg_id = demo_id, sm_data = [1]\<rparr>,
         sg_full_data = (if t = Proposal then [7] else [])\<rparr>,
      wq_qbft_message = demo_message t\<rparr>"

definition demo_config :: "operator_id \<Rightarrow> config" where
  "demo_config s =
     config_from_builder (with_max_rounds
       (config_builder_new_with_leader_fn s 5 demo_committee demo_leader) 12)"

definition demo_events :: "qbft_event list" where
  "demo_events = Receive (demo_wrapped 2 Proposal)
     # map (\<lambda>s. Receive (demo_wrapped s Prepare)) [1, 2, 3]
     @ map (\<lambda>s. Receive (demo_wrapped s Commit)) [1, 2, 3]"

definition demo_node :: "operator_id \<Rightarrow> bytes node" where
  "demo_node s = \<lparr>nd_env = demo_env, nd_config = demo_config s, nd_start_data = [7],
     nd_identifier = demo_id, nd_events = demo_events\<rparr>"

text \<open>The run, state by state; \<open>sent\<close> is what the leader has sent at the start.\<close>

definition demo_container :: "(round \<rightharpoonup> wrapped_qbft_message list) \<Rightarrow> (round, operator_id set) btree
    \<Rightarrow> (round \<rightharpoonup> hash256 set) \<Rightarrow> message_container" where
  "demo_container ms ss vs = \<lparr>mc_messages = ms, mc_senders_by_round = ss, mc_values_by_round = vs,
     mc_quorum_size = 3\<rparr>"

definition demo_filled :: "operator_id list \<Rightarrow> qbft_message_type \<Rightarrow> message_container" where
  "demo_filled ops t =
     (if ops = [] then demo_container Map.empty [] Map.empty
      else demo_container [1 \<mapsto> map (\<lambda>s. demo_wrapped s t) ops] [(1, set ops)] [1 \<mapsto> {[7]}])"

definition demo_unsigned :: "qbft_message_type \<Rightarrow> unsigned_wrapped_qbft_message" where
  "demo_unsigned t =
     \<lparr>uw_unsigned_message =
        \<lparr>us_ssv_message = \<lparr>sm_msg_type = SSVConsensusMsgType, sm_msg_id = demo_id, sm_data = [1]\<rparr>,
         us_full_data = (if t = Proposal then [7] else [])\<rparr>,
      uw_qbft_message = demo_message t\<rparr>"

definition demo_state :: "operator_id \<Rightarrow> operator_id list \<Rightarrow> operator_id list \<Rightarrow> operator_id list \<Rightarrow>
    unsigned_wrapped_qbft_message list \<Rightarrow> bytes qbft" where
  "demo_state s props preps comms sent =
     \<lparr>qb_config = demo_config s, qb_identifier = demo_id, qb_instance_height = 5,
      qb_start_data_hash = [7], qb_start_data = [7],
      qb_valid_start_data = \<lparr>vd_hash = [7], vd_data = [7]\<rparr>,
      qb_data = [[7] \<mapsto> [7]], qb_current_round = 1,
      qb_state = (if length comms = 3 then Complete else if length preps = 3 then CommitState [7]
        else if props = [] then AwaitingProposal else PrepareState [7]),
      qb_completed = (if length comms = 3 then Some (Success [7]) else None),
      qb_propose_container = demo_filled props Proposal,
      qb_prepare_container = demo_filled preps Prepare,
      qb_commit_container = demo_filled comms Commit,
      qb_round_change_container = demo_container Map.empty [] Map.empty,
      qb_proposal_accepted_for_current_round = (props \<noteq> []),
      qb_proposal_root = (if props = [] then None else Some [7]),
      qb_last_prepared_round = (if length preps = 3 then Some 1 else None),
      qb_last_prepared_value = (if length preps = 3 then Some [7] else None),
      qb_aggregated_commit = (if length comms = 3
        then Some \<lparr>sg_signatures = [[], [], []], sg_operator_ids = [1, 2, 3],
               sg_ssv_message = \<lparr>sm_msg_type = SSVConsensusMsgType, sm_msg_id = demo_id, sm_data = [1]\<rparr>,
               sg_full_data = [7]\<rparr> else None),
      qb_sent = sent\<rparr>"

lemmas demo_data = demo_codec_def demo_env_def demo_committee_def demo_message_def demo_wrapped_def
  demo_config_def demo_state_def demo_container_def demo_filled_def demo_unsigned_def
  config_from_builder_def with_max_rounds_def config_builder_new_with_leader_fn_def demo_leader_def
  config_quorum_size_def quorum_size_def get_f_def MAX_SIGNATURES_def round_default_def

lemmas demo_sends = new_unsigned_message_def get_message_data_def clear_full_data_def
  try_encode_signed_ssv_messages_def try_to_variable_list_def ssv_message_new_def
  ssv_message_validate_def SSV_MESSAGE_DATA_LEN_def MAX_CONSENSUS_MSG_SIZE_def
  build_and_send_def emit_def send_prepare_def send_commit_def send_proposal_def

lemmas demo_receives = receive_def validate_message_def validate_round_def qbft_has_quorum_def
  check_committee_def round_from_u64_def received_propose_def received_prepare_def
  received_commit_def is_proposal_accepted_def add_message_def check_leader_def
  leader_function_def

lemma demo_leader_is_2: "leader_of default_leader_function_default 1 5 [1, 2, 3, 4] = Some 2"
  by (simp add: leader_of_def default_leader_function_default_def round_default_def)

lemmas demo_quorums = has_quorum_def value_counts_def commit_quorum_reached_def
  get_quorum_of_messages_def aggregate_commit_messages_def aggregate_def set_full_data_def
  SSV_MESSAGE_FULL_DATA_LEN_def

lemma demo_state_codes: "\<not> (4 :: byte) \<le> 1" "\<not> (4 :: byte) \<le> 2" "\<not> (4 :: byte) \<le> 0"
  by (simp_all add: word_le_nat_alt)

lemma demo_propose:
  "fst (qbft_step demo_env (demo_state s [] [] [] sent) (Receive (demo_wrapped 2 Proposal))) =
     demo_state s [2] [] [] (sent @ [demo_unsigned Prepare])"
  by (simp add: demo_data demo_receives demo_sends demo_leader_is_2)

lemma demo_prepares:
  "fst (qbft_step demo_env (demo_state s [2] [] [] sent) (Receive (demo_wrapped 1 Prepare))) =
     demo_state s [2] [1] [] sent"
  "fst (qbft_step demo_env (demo_state s [2] [1] [] sent) (Receive (demo_wrapped 2 Prepare))) =
     demo_state s [2] [1, 2] [] sent"
  "fst (qbft_step demo_env (demo_state s [2] [1, 2] [] sent) (Receive (demo_wrapped 3 Prepare))) =
     demo_state s [2] [1, 2, 3] [] (sent @ [demo_unsigned Commit])"
  by (simp_all add: demo_data demo_receives demo_sends demo_quorums demo_state_codes insert_commute)

lemma demo_commits:
  "fst (qbft_step demo_env (demo_state s [2] [1, 2, 3] [] sent) (Receive (demo_wrapped 1 Commit))) =
     demo_state s [2] [1, 2, 3] [1] sent"
  "fst (qbft_step demo_env (demo_state s [2] [1, 2, 3] [1] sent) (Receive (demo_wrapped 2 Commit))) =
     demo_state s [2] [1, 2, 3] [1, 2] sent"
  "fst (qbft_step demo_env (demo_state s [2] [1, 2, 3] [1, 2] sent) (Receive (demo_wrapped 3 Commit))) =
     demo_state s [2] [1, 2, 3] [1, 2, 3] sent"
  by (simp_all add: demo_data demo_receives demo_sends demo_quorums demo_state_codes insert_commute)

lemma demo_start:
  "s \<noteq> 2 \<Longrightarrow> node_start (demo_node s) = demo_state s [] [] [] []"
  "node_start (demo_node 2) = demo_state 2 [] [] [] [demo_unsigned Proposal]"
  by (simp_all add: node_start_def demo_node_def qbft_new_def start_round_def demo_data demo_receives
      demo_sends demo_leader_is_2 mc_new_def justify_round_change_quorum_def get_messages_for_round_def
      get_round_change_justifications_def get_prepare_justifications_def swallow_error_def Let_def)

lemma demo_final:
  assumes "node_start (demo_node s) = demo_state s [] [] [] sent"
  shows "node_state (demo_node s) =
     demo_state s [2] [1, 2, 3] [1, 2, 3] (sent @ [demo_unsigned Prepare, demo_unsigned Commit])"
proof -
  have "nd_env (demo_node s) = demo_env" "nd_events (demo_node s) = demo_events"
    by (simp_all add: demo_node_def)
  then show ?thesis
    by (simp add: node_state_def qbft_run_def assms demo_events_def demo_propose demo_prepares demo_commits
        del: qbft_step.simps)
qed

lemma demo_states:
  "s \<noteq> 2 \<Longrightarrow> node_state (demo_node s) =
     demo_state s [2] [1, 2, 3] [1, 2, 3] [demo_unsigned Prepare, demo_unsigned Commit]"
  "node_state (demo_node 2) = demo_state 2 [2] [1, 2, 3] [1, 2, 3]
     [demo_unsigned Proposal, demo_unsigned Prepare, demo_unsigned Commit]"
  using demo_final [OF demo_start(1)] demo_final [OF demo_start(2)] by simp_all

lemma demo_sent:
  "sent_msgs (node_state (demo_node 1)) = [demo_message Prepare, demo_message Commit]"
  "sent_msgs (node_state (demo_node 2)) = [demo_message Proposal, demo_message Prepare, demo_message Commit]"
  "sent_msgs (node_state (demo_node 3)) = [demo_message Prepare, demo_message Commit]"
  by (simp_all add: demo_states sent_msgs_def demo_state_def demo_unsigned_def)

lemma demo_completed:
  "s \<noteq> 2 \<Longrightarrow> qb_completed (node_state (demo_node s)) = Some (Success [7])"
  "qb_completed (node_state (demo_node 2)) = Some (Success [7])"
  by (simp_all add: demo_states demo_state_def)

lemma demo_attests: "attests demo_codec (demo_wrapped t ty) = [(t, demo_message ty)]"
  by (simp add: attests_def list_attests_def demo_wrapped_def demo_message_def Let_def)

lemma demo_unforged:
  "unforged demo_codec demo_node {1, 2, 3} (demo_wrapped t ty) \<longleftrightarrow>
     (t \<in> {1, 2, 3} \<longrightarrow> demo_message ty \<in> set (sent_msgs (node_state (demo_node t))))"
  by (simp add: unforged_def demo_attests)

lemma demo_admissible:
  assumes "e \<in> set demo_events"
  shows "event_admissible (unforged demo_codec demo_node {1, 2, 3}) e"
proof -
  have p: "prevalidated (demo_wrapped t ty)" for t ty
    by (simp add: prevalidated_def demo_wrapped_def demo_message_def)
  have u: "\<forall>x \<in> set demo_events. case x of
      Receive w \<Rightarrow> unforged demo_codec demo_node {1, 2, 3} w \<and> prevalidated w | EndRound \<Rightarrow> True"
    by (simp add: demo_events_def p demo_unforged demo_sent)
  show ?thesis using u assms by (cases e) auto
qed

lemma demo_faults: "faults_bounded demo_committee {1, 2, 3}"
proof -
  have "set demo_committee - {1, 2, 3} = {4}" by (simp add: demo_committee_def insert_Diff_if)
  then show ?thesis
    by (simp add: faults_bounded_def demo_committee_def is_valid_committee_size_def get_f_def
        MAX_SIGNATURES_def)
qed

lemma demo_node_fields:
  "qe_codec (nd_env (demo_node s)) = demo_codec"
  "cf_committee_members (nd_config (demo_node s)) = demo_committee"
  "cf_instance_height (nd_config (demo_node s)) = 5"
  "cf_leader_fn (nd_config (demo_node s)) = demo_leader"
  "nd_events (demo_node s) = demo_events"
  by (simp_all add: demo_node_def demo_env_def demo_config_def config_from_builder_def
      with_max_rounds_def config_builder_new_with_leader_fn_def)

lemma demo_run: "committee_run demo_codec demo_committee 5 demo_leader {1, 2, 3} demo_node"
proof -
  have "a = b" if "demo_leader a r 5 demo_committee" "demo_leader b r 5 demo_committee" for a b r
    using that unfolding demo_leader_def by (rule leader_function_unique)
  then show ?thesis
    unfolding committee_run_def demo_node_fields using demo_faults demo_admissible by blast
qed

end
