(* ===== verification/Qbft_Validity.thy ===== *)
theory Qbft_Validity
  imports Qbft_Steps
begin

text \<open>
  What an instance keeps in its data map (\<open>qbft/src/lib.rs\<close>): only its own start value and values
  that passed the value check. The handlers that write the map are treated once, for any property
  of its entries; the validity of a decided value and its binding to the decided root are the two
  instances.
\<close>

section \<open>A property of stored values\<close>

text \<open>
  The property \<open>P\<close> of a root and its value must hold of the start value, of a checked value under
  its own hash, and of a checked value that comes with an admitted message under that message's root.
\<close>

locale value_store =
  fixes E :: "'d qbft_env" and d0 :: 'd and P :: "hash256 \<Rightarrow> 'd \<Rightarrow> bool"
    and A :: "wrapped_qbft_message \<Rightarrow> bool"
  assumes start: "P (qe_hash E d0) d0"
    and own: "qe_validate E d d0 \<Longrightarrow> P (qe_hash E d) d"
    and full_data: "A w \<Longrightarrow> qe_data_from_ssz E (sg_full_data (wq_signed_message w)) = Inr d \<Longrightarrow>
      qe_validate E d d0 \<Longrightarrow> P (wq_root w) d"
begin

definition stored :: "'d qbft \<Rightarrow> bool" where
  "stored q \<longleftrightarrow> qb_start_data q = d0
     \<and> qb_valid_start_data q = \<lparr>vd_hash = qe_hash E d0, vd_data = d0\<rparr>
     \<and> (\<forall>h d. qb_data q h = Some d \<longrightarrow> P h d)"

lemma own_hash: "qe_validate E d d0 \<Longrightarrow> qe_hash E d = h \<Longrightarrow> P h d"
  using own by blast

lemma stored_eq:
  "qb_start_data q' = qb_start_data q \<Longrightarrow> qb_valid_start_data q' = qb_valid_start_data q \<Longrightarrow>
     qb_data q' = qb_data q \<Longrightarrow> stored q' \<longleftrightarrow> stored q"
  by (simp add: stored_def)

lemma stored_upd: "stored q \<Longrightarrow> P h d \<Longrightarrow> stored (q\<lparr>qb_data := (qb_data q)(h \<mapsto> d)\<rparr>)"
  by (auto simp: stored_def)

lemma stored_fields [simp]:
  "stored (q\<lparr>qb_state := st\<rparr>) = stored q"
  "stored (q\<lparr>qb_current_round := r\<rparr>) = stored q"
  "stored (q\<lparr>qb_completed := c\<rparr>) = stored q"
  "stored (q\<lparr>qb_propose_container := c1\<rparr>) = stored q"
  "stored (q\<lparr>qb_prepare_container := c1\<rparr>) = stored q"
  "stored (q\<lparr>qb_commit_container := c1\<rparr>) = stored q"
  "stored (q\<lparr>qb_round_change_container := c1\<rparr>) = stored q"
  "stored (q\<lparr>qb_proposal_accepted_for_current_round := b\<rparr>) = stored q"
  "stored (q\<lparr>qb_proposal_root := o1\<rparr>) = stored q"
  "stored (q\<lparr>qb_last_prepared_round := o2\<rparr>) = stored q"
  "stored (q\<lparr>qb_last_prepared_value := o1\<rparr>) = stored q"
  "stored (q\<lparr>qb_aggregated_commit := o3\<rparr>) = stored q"
  "stored (q\<lparr>qb_sent := l\<rparr>) = stored q"
  by (rule stored_eq; simp)+

lemma stored_build_and_send:
  "stored q \<Longrightarrow> (\<And>q. stored q \<Longrightarrow> stored (finish q)) \<Longrightarrow> stored (fst (build_and_send E q t h a b finish))"
  by (auto simp: build_and_send_def emit_def split: outcome.splits)

lemma stored_send_proposal: "stored q \<Longrightarrow> P h d \<Longrightarrow> stored (fst (send_proposal E q h d))"
  by (auto simp: send_proposal_def Let_def stored_upd intro!: stored_build_and_send split: sum.splits)

lemma stored_sends:
  assumes "stored q"
  shows "stored (fst (send_prepare E q h))" "stored (fst (send_commit E q h))"
    "stored (fst (send_round_change E q h))"
  using assms
  by (auto simp: send_prepare_def send_commit_def send_round_change_def intro!: stored_build_and_send)

lemma stored_start_round: "stored q \<Longrightarrow> stored (fst (start_round E q))"
proof -
  assume s: "stored q"
  have "P (vd_hash vd) (vd_data vd)" if "justify_round_change_quorum E q' = HighestPrepared vd" "stored q'" for vd q'
    using that
    by (auto simp: justify_round_change_quorum_def Let_def stored_def intro: own_hash split: if_splits option.splits sum.splits)
  moreover have "P (vd_hash (qb_valid_start_data q)) (vd_data (qb_valid_start_data q))"
    using s start by (simp add: stored_def)
  ultimately show ?thesis
    using s
    by (auto simp: start_round_def Let_def intro!: stored_send_proposal
        split: rc_justification_outcome.splits)
qed

lemma stored_set_round: "stored q \<Longrightarrow> stored (fst (set_round E q r))"
  by (simp add: set_round_def stored_start_round)

lemma stored_new: "stored (fst (qbft_new E c d0 i))"
  unfolding qbft_new_def Let_def
  by (rule stored_start_round) (auto simp: stored_def start)

lemma stored_received_propose:
  "stored q \<Longrightarrow> P (vd_hash vd) (vd_data vd) \<Longrightarrow> stored (fst (received_propose E q vd s r w))"
  by (auto simp: received_propose_def Let_def split_def stored_upd intro!: stored_sends split: sum.splits)

lemma stored_received_prepare: "stored q \<Longrightarrow> stored (fst (received_prepare E q s r w))"
  by (auto simp: received_prepare_def Let_def split_def intro!: stored_sends
      split: sum.splits option.splits instance_state.splits)

lemma stored_received_commit: "stored q \<Longrightarrow> stored (fst (received_commit E q s r w))"
  by (auto simp: received_commit_def commit_quorum_reached_def Let_def split_def
      split: sum.splits option.splits instance_state.splits)

lemma stored_received_decided:
  assumes "stored q" "A w"
  shows "stored (fst (received_decided E q w))"
proof -
  have "stored (q\<lparr>qb_state := Complete, qb_data := (qb_data q)(wq_root w \<mapsto> d),
      qb_completed := c, qb_aggregated_commit := a\<rparr>)"
    if "qe_data_from_ssz E (sg_full_data (wq_signed_message w)) = Inr d" "qe_validate E d (qb_start_data q)" for d c a
    using full_data [OF assms(2) that(1)] that(2) assms(1) by (auto simp: stored_def)
  then show ?thesis
    using assms(1) by (auto simp: received_decided_def split: option.splits completed.splits sum.splits)
qed

lemma stored_received_round_change: "stored q \<Longrightarrow> stored (fst (received_round_change E q s r w))"
  by (auto simp: received_round_change_def Let_def intro!: stored_sends stored_set_round
      split: sum.splits option.splits)

lemma validated_content:
  assumes "validate_message E q w = Inr (CompleteContent vd, s)" "stored q" "A w"
  shows "P (vd_hash vd) (vd_data vd)"
proof -
  have "vd_hash vd = wq_root w" "qe_data_from_ssz E (sg_full_data (wq_signed_message w)) = Inr (vd_data vd)"
    "qe_validate E (vd_data vd) d0"
    using assms(1,2)
    by (auto simp: validate_message_def Let_def stored_def bindR_def
        split: if_splits list.splits sum.splits)
  then show ?thesis using full_data [OF assms(3)] by simp
qed

lemma stored_receive: "stored q \<Longrightarrow> A w \<Longrightarrow> stored (fst (receive E q w))"
  by (auto simp: receive_def intro!: stored_received_propose stored_received_prepare stored_received_commit
      stored_received_decided stored_received_round_change dest: validated_content
      split: sum.splits option.splits qbft_message_type.splits message_content.splits)

lemma stored_end_round:
  assumes "stored q"
  shows "stored (fst (end_round E q))"
proof (cases "round_next (qb_current_round q)")
  case (Some r)
  let ?x = "send_round_change E (q\<lparr>qb_current_round := r, qb_state := SentRoundChange\<rparr>) (replicate 32 0)"
  obtain q' res where x: "?x = (q', res)" by (cases ?x)
  have "stored (fst ?x)" using assms by (simp add: stored_sends)
  then have "stored q'" by (simp add: x)
  then show ?thesis
    using Some assms by (auto simp: end_round_def Let_def x stored_start_round split: outcome.splits)
qed (use assms in \<open>simp add: end_round_def\<close>)

lemma stored_step: "stored q \<Longrightarrow> (\<And>w. e = Receive w \<Longrightarrow> A w) \<Longrightarrow> stored (fst (qbft_step E q e))"
  by (cases e) (simp_all add: stored_receive stored_end_round)

lemma stored_run:
  assumes "stored q" and "\<And>w. Receive w \<in> set es \<Longrightarrow> A w"
  shows "stored (qbft_run E q es)"
  unfolding qbft_run_def using assms
proof (induction es arbitrary: q)
  case (Cons e es)
  have "stored (fst (qbft_step E q e))" using Cons.prems by (auto intro!: stored_step)
  then show ?case using Cons by simp
qed simp

lemma completed_stored:
  assumes "stored q" "qbft_completed q = Some (Success d)"
  shows "\<exists>h. qb_completed q = Some (Success h) \<and> P h d"
  using assms by (auto simp: qbft_completed_def stored_def split: option.splits completed.splits)

end

section \<open>Validity and binding\<close>

text \<open>A value this instance may decide: its own, or one that its value check accepts against it.\<close>

definition acceptable :: "'d qbft_env \<Rightarrow> 'd \<Rightarrow> 'd \<Rightarrow> bool" where
  "acceptable E d0 d \<longleftrightarrow> d = d0 \<or> qe_validate E d d0"

interpretation checked: value_store E d0 "\<lambda>_. acceptable E d0" "\<lambda>_. True"
  for E :: "'d qbft_env" and d0 :: 'd
  by unfold_locales (auto simp: acceptable_def)

text \<open>The instance itself does not hash what a message carries: that the full data of a message
  hashes to its root is what the message validator has checked.\<close>

definition full_data_bound :: "'d qbft_env \<Rightarrow> wrapped_qbft_message \<Rightarrow> bool" where
  "full_data_bound E w \<longleftrightarrow>
     (case qe_data_from_ssz E (sg_full_data (wq_signed_message w)) of
        Inl _ \<Rightarrow> True | Inr d \<Rightarrow> qe_hash E d = wq_root w)"

interpretation bound: value_store E d0 "\<lambda>h d. qe_hash E d = h" "full_data_bound E"
  for E :: "'d qbft_env" and d0 :: 'd
  by unfold_locales (auto simp: full_data_bound_def)

lemma decided_acceptable:
  assumes "qbft_completed (qbft_run E (fst (qbft_new E c d0 i)) es) = Some (Success d)"
  shows "acceptable E d0 d"
  using checked.completed_stored [OF checked.stored_run [OF checked.stored_new] assms] by blast

lemma decided_bound:
  assumes "qbft_completed (qbft_run E (fst (qbft_new E c d0 i)) es) = Some (Success d)"
    and "\<And>w. Receive w \<in> set es \<Longrightarrow> full_data_bound E w"
  shows "qb_completed (qbft_run E (fst (qbft_new E c d0 i)) es) = Some (Success (qe_hash E d))"
  using bound.completed_stored [OF bound.stored_run [OF bound.stored_new assms(2)] assms(1)] by blast

end
