(* ===== verification/Fork_Schedule.thy ===== *)
theory Fork_Schedule
  imports Ssv_Types
begin

text \<open>
  The \<open>fork\<close> crate: forks and their order (\<open>fork.rs\<close>), the fork schedule and the lifecycle it
  assigns to every slot (\<open>schedule.rs\<close>, \<open>lifecycle.rs\<close>), and the monitor that publishes the
  lifecycle from slot-clock observations (\<open>monitor.rs\<close>). An \<open>expect\<close> that fails is \<open>None\<close>.
\<close>

section \<open>Forks (fork.rs)\<close>

datatype fork = Alan | Boole

fun fork_rank :: "fork \<Rightarrow> nat" where
  "fork_rank Alan = 0"
| "fork_rank Boole = 1"

lemma fork_rank_inj: "fork_rank a = fork_rank b \<longleftrightarrow> a = b"
  by (cases a; cases b) auto

text \<open>The derived \<open>Ord\<close>: the order of the constructors.\<close>

instantiation fork :: linorder
begin

definition less_eq_fork :: "fork \<Rightarrow> fork \<Rightarrow> bool" where
  "less_eq_fork a b \<longleftrightarrow> fork_rank a \<le> fork_rank b"

definition less_fork :: "fork \<Rightarrow> fork \<Rightarrow> bool" where
  "less_fork a b \<longleftrightarrow> fork_rank a < fork_rank b"

instance
  by standard (auto simp: less_eq_fork_def less_fork_def fork_rank_inj)

end

definition fork_all :: "fork list" where
  "fork_all = [Alan, Boole]"

fun fork_name :: "fork \<Rightarrow> string" where
  "fork_name Alan = ''alan''"
| "fork_name Boole = ''boole''"

definition ALAN_TOPIC_PREFIX :: string where
  "ALAN_TOPIC_PREFIX = ''ssv.v2.''"

definition fork_topic_prefix :: "fork \<Rightarrow> string \<Rightarrow> string" where
  "fork_topic_prefix f network_name =
     (case f of
        Alan \<Rightarrow> ALAN_TOPIC_PREFIX
      | _ \<Rightarrow> ''/ssv/'' @ network_name @ ''/'' @ fork_name f @ ''/'')"

section \<open>The consensus-layer clock\<close>

text \<open>
  What the code takes from the Ethereum \<open>types\<close> crate and the chain specification: slot and
  epoch arithmetic (checked division by \<open>safe_div\<close> included), the slot iterator of an epoch,
  whether an epoch is at or after the Gloas fork, and four constants of the specification.
\<close>

record chain =
  ch_epoch :: "slot \<Rightarrow> u64 \<Rightarrow> epoch"
  ch_start_slot :: "epoch \<Rightarrow> u64 \<Rightarrow> slot"
  ch_slot_iter :: "epoch \<Rightarrow> u64 \<Rightarrow> slot list"
  ch_slot_add :: "slot \<Rightarrow> u64 \<Rightarrow> slot"
  ch_slot_saturating_sub :: "slot \<Rightarrow> slot \<Rightarrow> slot"
  ch_epoch_saturating_sub :: "epoch \<Rightarrow> epoch \<Rightarrow> epoch"
  ch_epoch_safe_div :: "epoch \<Rightarrow> u64 \<Rightarrow> epoch option"
  ch_gloas_enabled :: "epoch \<Rightarrow> bool"
  ch_gloas_fork_epoch :: "epoch option"
  ch_min_seed_lookahead :: epoch
  ch_sync_committee_subnet_count :: nat

text \<open>The documented meaning of \<open>Slot::epoch\<close>: the quotient by the slots of an epoch.\<close>

definition epoch_is_quotient :: "chain \<Rightarrow> bool" where
  "epoch_is_quotient C \<longleftrightarrow> (\<forall>s n. n \<noteq> 0 \<longrightarrow> ch_epoch C s n = s div n)"

section \<open>The schedule (schedule.rs)\<close>

definition FORK_PREPARATION_EPOCHS :: u64 where "FORK_PREPARATION_EPOCHS = 1"
definition SUBSEQUENT_WINDOW_SLOTS :: u64 where "SUBSEQUENT_WINDOW_SLOTS = 32"

record fork_config =
  fc_fork :: fork
  fc_epoch :: epoch
  fc_domain_type :: domain_type

definition fork_config_new :: "fork \<Rightarrow> epoch \<Rightarrow> domain_type \<Rightarrow> fork_config" where
  "fork_config_new f e d = \<lparr>fc_fork = f, fc_epoch = e, fc_domain_type = d\<rparr>"

record fork_schedule =
  fs_configs :: "(fork, fork_config) btree"
  fs_network_name :: string

definition fork_schedule_new :: "fork \<Rightarrow> domain_type \<Rightarrow> string \<Rightarrow> fork_schedule" where
  "fork_schedule_new f baseline_domain_type network_name =
     \<lparr>fs_configs = foldl (\<lambda>configs g. bt_insert g (fork_config_new g 0 baseline_domain_type) configs) []
        (takeWhile (\<lambda>g. g \<le> f) fork_all),
      fs_network_name = network_name\<rparr>"

datatype fork_schedule_error =
    AlanNotAtGenesis
  | AlanMissing
  | ForkOutOfOrder fork epoch epoch
  | DomainReused fork domain_type fork

text \<open>The loop over the raw configurations: the previous epoch and the domains seen so far.\<close>

fun check_fork_configs ::
    "epoch option \<Rightarrow> (domain_type \<rightharpoonup> fork) \<Rightarrow> (fork \<times> epoch \<times> domain_type) list \<Rightarrow> fork_schedule_error + unit" where
  "check_fork_configs prev_epoch domains [] = Inr ()"
| "check_fork_configs prev_epoch domains ((f, e, d) # rest) =
     (case (case prev_epoch of Some prev \<Rightarrow> if e \<le> prev \<and> e \<noteq> 0 then Some prev else None | None \<Rightarrow> None) of
        Some prev \<Rightarrow> Inl (ForkOutOfOrder f e prev)
      | None \<Rightarrow>
          (case domains d of
             Some previous_fork \<Rightarrow> Inl (DomainReused f d previous_fork)
           | None \<Rightarrow> check_fork_configs (Some e) (domains(d \<mapsto> f)) rest))"

definition from_fork_configs ::
    "(fork, epoch \<times> domain_type) btree \<Rightarrow> string \<Rightarrow> fork_schedule_error + fork_schedule" where
  "from_fork_configs raw_configs network_name =
     (case map_of raw_configs Alan of
        None \<Rightarrow> Inl AlanMissing
      | Some (e, _) \<Rightarrow>
          if e \<noteq> 0 then Inl AlanNotAtGenesis
          else bindR (check_fork_configs None Map.empty raw_configs) (\<lambda>_.
                 Inr \<lparr>fs_configs = map (\<lambda>(f, e, d). (f, fork_config_new f e d)) raw_configs,
                      fs_network_name = network_name\<rparr>))"

definition schedule_config :: "fork_schedule \<Rightarrow> fork \<Rightarrow> fork_config option" where
  "schedule_config s f = map_of (fs_configs s) f"

definition fork_epoch :: "fork_schedule \<Rightarrow> fork \<Rightarrow> epoch option" where
  "fork_epoch s f = map_option fc_epoch (map_of (fs_configs s) f)"

definition schedule_domain_type :: "fork_schedule \<Rightarrow> fork \<Rightarrow> domain_type option" where
  "schedule_domain_type s f = map_option fc_domain_type (map_of (fs_configs s) f)"

text \<open>\<open>max_by_key\<close> keeps the last of equal keys, \<open>min_by_key\<close> the first.\<close>

fun max_by_key :: "('a \<Rightarrow> 'k::linorder) \<Rightarrow> 'a list \<Rightarrow> 'a option" where
  "max_by_key k [] = None"
| "max_by_key k (x # xs) =
     (case max_by_key k xs of None \<Rightarrow> Some x | Some y \<Rightarrow> if k y < k x then Some x else Some y)"

fun min_by_key :: "('a \<Rightarrow> 'k::linorder) \<Rightarrow> 'a list \<Rightarrow> 'a option" where
  "min_by_key k [] = None"
| "min_by_key k (x # xs) =
     (case min_by_key k xs of None \<Rightarrow> Some x | Some y \<Rightarrow> if k y < k x then Some y else Some x)"

definition active_fork_config :: "fork_schedule \<Rightarrow> epoch \<Rightarrow> fork_config option" where
  "active_fork_config s e = max_by_key fc_fork (filter (\<lambda>c. e \<ge> fc_epoch c) (map snd (fs_configs s)))"

definition active_fork :: "fork_schedule \<Rightarrow> epoch \<Rightarrow> fork option" where
  "active_fork s e = map_option fc_fork (active_fork_config s e)"

definition next_fork_after :: "fork_schedule \<Rightarrow> epoch \<Rightarrow> (fork \<times> epoch) option" where
  "next_fork_after s e =
     map_option (\<lambda>(f, c). (f, fc_epoch c))
       (min_by_key (\<lambda>(_, c). fc_epoch c) (filter (\<lambda>(_, c). fc_epoch c > e) (fs_configs s)))"

datatype fork_lifecycle =
    Normal fork_config
  | WarmUp fork_config fork_config
  | GracePeriod fork_config fork_config

fun current_fork_config :: "fork_lifecycle \<Rightarrow> fork_config" where
  "current_fork_config (Normal current) = current"
| "current_fork_config (WarmUp current _) = current"
| "current_fork_config (GracePeriod current _) = current"

definition saturating_sub :: "u64 \<Rightarrow> u64 \<Rightarrow> u64" where
  "saturating_sub a b = (if b \<le> a then a - b else 0)"

definition lifecycle_at :: "chain \<Rightarrow> fork_schedule \<Rightarrow> slot \<Rightarrow> u64 \<Rightarrow> fork_lifecycle option" where
  "lifecycle_at C s sl slots_per_epoch =
     (let e = ch_epoch C sl slots_per_epoch in
      case active_fork_config s e of
        None \<Rightarrow> None
      | Some current \<Rightarrow>
          let rest =
            (let activation_slot = fc_epoch current * slots_per_epoch in
             if fc_epoch current > 0 \<and> sl < activation_slot + SUBSEQUENT_WINDOW_SLOTS then
               map_option (GracePeriod current) (active_fork_config s (fc_epoch current - 1))
             else Some (Normal current))
          in
            case next_fork_after s e of
              None \<Rightarrow> rest
            | Some (upcoming_fork, upcoming_epoch) \<Rightarrow>
                let preparation_start_slot =
                  saturating_sub upcoming_epoch FORK_PREPARATION_EPOCHS * slots_per_epoch in
                if sl \<ge> preparation_start_slot
                then map_option (WarmUp current) (schedule_config s upcoming_fork)
                else rest)"

section \<open>The monitor (monitor.rs)\<close>

datatype clock_observation = Advanced | BackwardsWithinWindow | BackwardsAcrossBoundary

definition classify_observation :: "chain \<Rightarrow> fork_schedule \<Rightarrow> u64 \<Rightarrow> slot \<Rightarrow> slot \<Rightarrow> clock_observation" where
  "classify_observation C s slots_per_epoch highest_observed_slot now =
     (if now \<ge> highest_observed_slot then Advanced
      else if lifecycle_at C s now slots_per_epoch = lifecycle_at C s highest_observed_slot slots_per_epoch
      then BackwardsWithinWindow
      else BackwardsAcrossBoundary)"

text \<open>The state of the monitor task: the published lifecycle is what its receivers see; sleeps are
  counted in nanoseconds.\<close>

record monitor =
  mo_highest_observed_slot :: slot
  mo_boundary_unavailable_streak :: "32 word"
  mo_published :: "fork_lifecycle option"
  mo_shutdown :: bool
  mo_sleeps :: "nat list"

text \<open>One clock reading of an iteration: the slot, and the time to the next boundary.\<close>

record clock_reading =
  cr_now :: "slot option"
  cr_duration_to_next :: "nat option"

definition monitor_step :: "chain \<Rightarrow> fork_schedule \<Rightarrow> u64 \<Rightarrow> nat \<Rightarrow> monitor \<Rightarrow> clock_reading \<Rightarrow> monitor" where
  "monitor_step C s slots_per_epoch one_slot m reading =
     (if mo_shutdown m then m
      else
        case cr_now reading of
          None \<Rightarrow> m\<lparr>mo_shutdown := True\<rparr>
        | Some now \<Rightarrow>
            let proceed = (\<lambda>m1.
              let lifecycle = lifecycle_at C s (mo_highest_observed_slot m1) slots_per_epoch;
                  m2 = (if mo_published m1 = lifecycle then m1 else m1\<lparr>mo_published := lifecycle\<rparr>)
              in case cr_duration_to_next reading of
                   Some until_boundary \<Rightarrow>
                     m2\<lparr>mo_boundary_unavailable_streak := 0,
                        mo_sleeps := mo_sleeps m2 @ [min until_boundary one_slot]\<rparr>
                 | None \<Rightarrow>
                     let streak = mo_boundary_unavailable_streak m2 + 1 in
                     m2\<lparr>mo_boundary_unavailable_streak := streak,
                        mo_sleeps := mo_sleeps m2 @ [if streak > 1 then one_slot else 0]\<rparr>)
            in case classify_observation C s slots_per_epoch (mo_highest_observed_slot m) now of
                 Advanced \<Rightarrow> proceed (m\<lparr>mo_highest_observed_slot := now\<rparr>)
               | BackwardsWithinWindow \<Rightarrow> proceed m
               | BackwardsAcrossBoundary \<Rightarrow> m\<lparr>mo_shutdown := True\<rparr>)"

text \<open>\<open>spawn\<close>: nothing without a readable clock; the channel starts with the lifecycle of the
  current slot.\<close>

definition monitor_spawn :: "chain \<Rightarrow> fork_schedule \<Rightarrow> u64 \<Rightarrow> slot option \<Rightarrow> monitor option" where
  "monitor_spawn C s slots_per_epoch now =
     (case now of
        None \<Rightarrow> None
      | Some current_slot \<Rightarrow>
          Some \<lparr>mo_highest_observed_slot = current_slot, mo_boundary_unavailable_streak = 0,
                mo_published = lifecycle_at C s current_slot slots_per_epoch,
                mo_shutdown = False, mo_sleeps = []\<rparr>)"

section \<open>Well-formed schedules\<close>

definition schedule_wf :: "fork_schedule \<Rightarrow> bool" where
  "schedule_wf s \<longleftrightarrow>
     bt_wf (fs_configs s) \<and> (\<forall>(f, c) \<in> set (fs_configs s). fc_fork c = f)
     \<and> (\<exists>c. (Alan, c) \<in> set (fs_configs s) \<and> fc_epoch c = 0)"

lemma fork_less_simps [simp]:
  "Alan < Boole" "\<not> Boole < Alan" "Alan \<le> f" "f \<le> Boole" "\<not> Boole \<le> Alan"
  by (cases f; simp add: less_fork_def less_eq_fork_def)+

lemma fork_sorted_cases:
  assumes "bt_wf (m :: (fork, 'v) btree)"
  shows "m = [] \<or> (\<exists>f v. m = [(f, v)]) \<or> (\<exists>a b. m = [(Alan, a), (Boole, b)])"
proof -
  have no3: "\<not> (x < y \<and> y < z)" for x y z :: fork
    by (cases x; cases y; cases z) auto
  have lt: "x < y \<Longrightarrow> x = Alan \<and> y = Boole" for x y :: fork
    by (cases x; cases y) auto
  show ?thesis
  proof (cases m rule: remdups_adj.cases)
    case (3 x y xs)
    then have "fst x < fst y" using assms by (simp add: bt_wf_def)
    moreover have "xs = []" using assms 3 no3 by (cases xs) (auto simp: bt_wf_def)
    ultimately show ?thesis using 3 lt [of "fst x" "fst y"] by (cases x; cases y) auto
  qed auto
qed

lemma schedule_cases:
  assumes "schedule_wf s"
  obtains a where "fs_configs s = [(Alan, a)]" "fc_fork a = Alan" "fc_epoch a = 0"
  | a b where "fs_configs s = [(Alan, a), (Boole, b)]" "fc_fork a = Alan" "fc_epoch a = 0" "fc_fork b = Boole"
  using fork_sorted_cases [of "fs_configs s"] assms unfolding schedule_wf_def by fastforce

lemma bt_wf_map_values: "bt_wf (map (\<lambda>(k, v). (k, g k v)) m) = bt_wf m"
  unfolding bt_wf_def by (induction m) (auto simp: split_def image_image)

lemma check_fork_configs_domains:
  "check_fork_configs p ds cs = Inr u \<Longrightarrow>
     distinct (map (\<lambda>(_, _, d). d) cs) \<and> (\<forall>(_, _, d) \<in> set cs. ds d = None)"
proof (induction cs arbitrary: p ds)
  case (Cons x rest)
  obtain f e d where x: "x = (f, e, d)" by (cases x)
  have free: "ds d = None" and rec: "check_fork_configs (Some e) (ds(d \<mapsto> f)) rest = Inr u"
    using Cons.prems unfolding x by (auto split: option.splits if_splits)
  show ?case using Cons.IH [OF rec] free unfolding x by (auto split: if_splits)
qed simp

lemma from_fork_configs_Inr:
  assumes "bt_wf raw" "from_fork_configs raw name = Inr s"
  shows "schedule_wf s"
    and "distinct (map (\<lambda>(_, c). fc_domain_type c) (fs_configs s))"
    and "schedule_domain_type s f = map_option snd (map_of raw f)"
proof -
  obtain d where alan: "map_of raw Alan = Some (0, d)"
    and check: "check_fork_configs None Map.empty raw = Inr ()"
    and s: "fs_configs s = map (\<lambda>(f, e, d). (f, fork_config_new f e d)) raw"
    using assms(2) by (auto simp: from_fork_configs_def bindR_Inr_iff split: option.splits if_splits)
  have s': "fs_configs s = map (\<lambda>(f, x). (f, fork_config_new f (fst x) (snd x))) raw"
    using s by (simp add: split_def)
  have "(Alan, fork_config_new Alan 0 d) \<in> set (fs_configs s)"
    using map_of_SomeD [OF alan] by (force simp: s)
  then show "schedule_wf s"
    using assms(1) bt_wf_map_values [of "\<lambda>f x. fork_config_new f (fst x) (snd x)" raw]
    unfolding schedule_wf_def s' by (auto simp: fork_config_new_def)
  show "distinct (map (\<lambda>(_, c). fc_domain_type c) (fs_configs s))"
    using check_fork_configs_domains [OF check] by (simp add: s split_def fork_config_new_def comp_def)
  show "schedule_domain_type s f = map_option snd (map_of raw f)"
    unfolding schedule_domain_type_def s' by (induction raw) (auto simp: fork_config_new_def)
qed

text \<open>A well-formed schedule always has an active fork; the later one wins once activated.\<close>

lemma active_fork_eq:
  assumes "schedule_wf s"
  shows "active_fork s e =
    Some (case schedule_config s Boole of Some b \<Rightarrow> if fc_epoch b \<le> e then Boole else Alan | None \<Rightarrow> Alan)"
  using assms
  by (cases rule: schedule_cases)
     (auto simp: active_fork_def active_fork_config_def schedule_config_def)

lemma active_fork_config_eq:
  assumes "schedule_wf s"
  shows "\<exists>c. active_fork_config s e = Some c \<and> schedule_config s (fc_fork c) = Some c \<and> fc_epoch c \<le> e"
  using assms
  by (cases rule: schedule_cases) (auto simp: active_fork_config_def schedule_config_def)

lemma active_fork_mono:
  assumes "schedule_wf s" "e \<le> e'"
  shows "the (active_fork s e) \<le> the (active_fork s e')"
  using assms(2) by (auto simp: active_fork_eq [OF assms(1)] split: option.splits)

section \<open>The lifecycle windows\<close>

lemma word_le_div_iff:
  fixes A s n :: u64
  assumes "n \<noteq> 0" "unat A * unat n < 2 ^ 64"
  shows "A \<le> s div n \<longleftrightarrow> A * n \<le> s"
proof -
  have "0 < unat n" using assms(1) by (simp add: unat_gt_0)
  then have "unat A \<le> unat s div unat n \<longleftrightarrow> unat A * unat n \<le> unat s"
    by (rule less_eq_div_iff_mult_less_eq)
  moreover have "unat (A * n) = unat A * unat n"
    using assms(2) by (simp add: unat_word_ariths)
  ultimately show ?thesis by (simp add: word_le_nat_alt unat_div)
qed

text \<open>
  With Boole scheduled after genesis, the slots fall into four consecutive windows around its
  activation slot.
\<close>

definition lifecycle_window :: "fork_config \<Rightarrow> fork_config \<Rightarrow> u64 \<Rightarrow> slot \<Rightarrow> fork_lifecycle" where
  "lifecycle_window a b n sl =
     (if sl < (fc_epoch b - 1) * n then Normal a
      else if sl < fc_epoch b * n then WarmUp a b
      else if sl < fc_epoch b * n + 32 then GracePeriod b a
      else Normal b)"

lemma lifecycle_at_windows:
  assumes C: "epoch_is_quotient C" and n: "n \<noteq> 0"
    and s: "fs_configs s = [(Alan, a), (Boole, b)]" "fc_fork a = Alan" "fc_epoch a = 0" "fc_fork b = Boole"
    and b: "fc_epoch b \<noteq> 0" and fits: "unat (fc_epoch b) * unat n < 2 ^ 64"
  shows "lifecycle_at C s sl n = Some (lifecycle_window a b n sl)"
proof -
  let ?e = "sl div n"
  have e: "ch_epoch C sl n = ?e" using C n by (simp add: epoch_is_quotient_def)
  have act: "fc_epoch b \<le> ?e \<longleftrightarrow> fc_epoch b * n \<le> sl"
    by (rule word_le_div_iff [OF n fits])
  have b1: "1 \<le> fc_epoch b" using b by (simp add: word_le_nat_alt unat_gt_0 Suc_le_eq)
  have prev: "\<not> fc_epoch b \<le> fc_epoch b - 1"
  proof -
    have "0 < unat (fc_epoch b)" using b by (simp add: unat_gt_0)
    moreover have "unat (fc_epoch b - 1) = unat (fc_epoch b) - 1" using b by (rule unat_minus_one)
    ultimately show ?thesis unfolding word_le_nat_alt by linarith
  qed
  have early: "(fc_epoch b - 1) * n \<le> fc_epoch b * n"
  proof -
    have le: "unat (fc_epoch b - 1) * unat n \<le> unat (fc_epoch b) * unat n"
      using unat_minus_one [OF b] by (intro mult_le_mono1) simp
    have "unat (fc_epoch b - 1) * unat n < 2 ^ 64" using le fits by (rule le_less_trans)
    then have "unat ((fc_epoch b - 1) * n) = unat (fc_epoch b - 1) * unat n"
      unfolding unat_word_ariths by (intro mod_less) simp
    moreover have "unat (fc_epoch b * n) = unat (fc_epoch b) * unat n"
      unfolding unat_word_ariths using fits by (intro mod_less) simp
    ultimately show ?thesis using le unfolding word_le_nat_alt by linarith
  qed
  show ?thesis
  proof (cases "fc_epoch b * n \<le> sl")
    case True
    then have late: "\<not> sl < (fc_epoch b - 1) * n" "\<not> sl < fc_epoch b * n" using early by auto
    have "active_fork_config s ?e = Some b" using True act by (simp add: active_fork_config_def s)
    moreover have "next_fork_after s ?e = None"
      using True act by (simp add: next_fork_after_def s leD)
    moreover have "active_fork_config s (fc_epoch b - 1) = Some a"
      using prev by (simp add: active_fork_config_def s)
    ultimately show ?thesis
      using late b by (simp add: lifecycle_at_def e Let_def lifecycle_window_def
          SUBSEQUENT_WINDOW_SLOTS_def word_gt_0)
  next
    case False
    then show ?thesis
      using act b1
      by (auto simp: lifecycle_at_def e active_fork_config_def next_fork_after_def s Let_def
          lifecycle_window_def schedule_config_def saturating_sub_def FORK_PREPARATION_EPOCHS_def)
  qed
qed

section \<open>What the monitor publishes\<close>

definition monitor_inv :: "chain \<Rightarrow> fork_schedule \<Rightarrow> u64 \<Rightarrow> nat \<Rightarrow> monitor \<Rightarrow> bool" where
  "monitor_inv C s n one_slot m \<longleftrightarrow>
     mo_published m = lifecycle_at C s (mo_highest_observed_slot m) n
     \<and> (\<forall>d \<in> set (mo_sleeps m). d \<le> one_slot)"

interpretation monitor_safe: step_invariant "monitor_step C s n one_slot" "monitor_inv C s n one_slot" "\<lambda>_. True"
  for C s n one_slot
  by unfold_locales
     (auto simp: monitor_inv_def monitor_step_def classify_observation_def Let_def
       split: option.splits if_splits clock_observation.splits)

interpretation monitor_clock: step_monotone "monitor_step C s n one_slot" mo_highest_observed_slot
  for C s n one_slot
  by unfold_locales
     (auto simp: monitor_step_def classify_observation_def Let_def
       split: option.splits clock_observation.splits)

lemma monitor_shutdown_iff:
  assumes "\<not> mo_shutdown m"
  shows "mo_shutdown (monitor_step C s n one_slot m reading) \<longleftrightarrow>
    (case cr_now reading of
       None \<Rightarrow> True
     | Some now \<Rightarrow> now < mo_highest_observed_slot m
         \<and> lifecycle_at C s now n \<noteq> lifecycle_at C s (mo_highest_observed_slot m) n)"
  using assms
  by (auto simp: monitor_step_def classify_observation_def Let_def
      split: option.splits clock_observation.splits if_splits)

lemma monitor_spawn_inv: "monitor_spawn C s n now = Some m \<Longrightarrow> monitor_inv C s n one_slot m"
  by (auto simp: monitor_spawn_def monitor_inv_def split: option.splits)

end
