(* ===== verification/Qbft_Manager.thy ===== *)
theory Qbft_Manager
  imports Qbft_Agreement Qbft_Validity Fork_Schedule
begin

text \<open>
  The \<open>qbft_manager\<close> crate: round deadlines (\<open>timeout.rs\<close>), the task that owns one QBFT instance
  (\<open>instance.rs\<close>) and the manager that configures instances, routes messages to them and drops old
  ones (\<open>lib.rs\<close>). Instants and durations are nanoseconds. Signing a message is asynchronous in the
  code; the signed copy comes back as one more network message, which is how the task sees it.
\<close>

section \<open>Round deadlines (timeout.rs)\<close>

definition TM_QUICK_TIMEOUT_THRESHOLD :: u64 where "TM_QUICK_TIMEOUT_THRESHOLD = 8"
definition TM_QUICK_TIMEOUT :: u64 where "TM_QUICK_TIMEOUT = 2"
definition TM_SLOW_TIMEOUT :: u64 where "TM_SLOW_TIMEOUT = 120"
definition PROPOSER_ROUND_TIMEOUT :: nat where "PROPOSER_ROUND_TIMEOUT = 1500 * 10 ^ 6"
definition LEGACY_PROPOSER_ROUND_TIMEOUT :: nat where "LEGACY_PROPOSER_ROUND_TIMEOUT = 2 * 10 ^ 9"

datatype timeout_mode =
    SlotTime nat
  | Relative nat nat

definition checked_mul :: "u64 \<Rightarrow> u64 \<Rightarrow> u64 option" where
  "checked_mul a b = (if unat a * unat b < 2 ^ 64 then Some (a * b) else None)"

definition checked_sub :: "u64 \<Rightarrow> u64 \<Rightarrow> u64 option" where
  "checked_sub a b = (if b \<le> a then Some (a - b) else None)"

text \<open>A \<open>Duration\<close> counts its seconds in a \<open>u64\<close>, an \<open>Instant\<close> in an \<open>i64\<close>.\<close>

definition from_secs :: "u64 \<Rightarrow> nat" where
  "from_secs s = unat s * 10 ^ 9"

definition duration_checked_add :: "nat \<Rightarrow> nat \<Rightarrow> nat option" where
  "duration_checked_add a b = (if (a + b) div 10 ^ 9 < 2 ^ 64 then Some (a + b) else None)"

definition instant_checked_add :: "nat \<Rightarrow> nat \<Rightarrow> nat option" where
  "instant_checked_add t d = (if (t + d) div 10 ^ 9 < 2 ^ 63 then Some (t + d) else None)"

definition cumulative_timeout :: "u64 \<Rightarrow> nat option" where
  "cumulative_timeout r =
     (if r \<le> TM_QUICK_TIMEOUT_THRESHOLD then map_option from_secs (checked_mul r TM_QUICK_TIMEOUT)
      else
        let quick_portion = from_secs (TM_QUICK_TIMEOUT_THRESHOLD * TM_QUICK_TIMEOUT) in
        case checked_sub r TM_QUICK_TIMEOUT_THRESHOLD of
          None \<Rightarrow> None
        | Some slow_rounds \<Rightarrow>
            (case checked_mul slow_rounds TM_SLOW_TIMEOUT of
               None \<Rightarrow> None
             | Some secs \<Rightarrow> duration_checked_add quick_portion (from_secs secs)))"

definition single_round_timeout :: "u64 \<Rightarrow> nat \<Rightarrow> nat" where
  "single_round_timeout r round_timeout =
     (if r \<le> TM_QUICK_TIMEOUT_THRESHOLD then round_timeout else from_secs TM_SLOW_TIMEOUT)"

definition calculate_round_timeout :: "u64 \<Rightarrow> timeout_mode \<Rightarrow> nat option" where
  "calculate_round_timeout r mode =
     (case mode of
        SlotTime round_deadline_origin \<Rightarrow>
          (case cumulative_timeout r of
             None \<Rightarrow> None | Some d \<Rightarrow> instant_checked_add round_deadline_origin d)
      | Relative current_round_start_time round_timeout \<Rightarrow>
          instant_checked_add current_round_start_time (single_round_timeout r round_timeout))"

section \<open>The instance task (instance.rs)\<close>

definition MESSAGE_BUFFER_LIMIT :: nat where "MESSAGE_BUFFER_LIMIT = 100"

text \<open>An initialization: the value validator and the codecs of the instance are its environment, a
  listener stands for the channel of the caller that awaits the result.\<close>

record 'd qbft_initialization =
  qi_env :: "'d qbft_env"
  qi_initial :: 'd
  qi_message_id :: message_id
  qi_timeout_mode :: timeout_mode
  qi_config :: config
  qi_listener :: nat

record 'd initialized =
  in_env :: "'d qbft_env"
  in_qbft :: "'d qbft"
  in_on_completed :: "nat list"
  in_timeout_mode :: timeout_mode

datatype 'd qbft_instance =
    Uninitialized "wrapped_qbft_message list"
  | Initialized "'d initialized"
  | Decided "'d completed"

text \<open>The task: its instance, the results handed to listeners, the decided messages handed to the
  network with the members whose committee id routes them, and whether the loop still runs (it ends
  when its queue closes, and when it panics).\<close>

record 'd instance_task =
  tk_instance :: "'d qbft_instance"
  tk_notified :: "(nat \<times> 'd completed) list"
  tk_decided_sent :: "(signed_ssv_message \<times> operator_id list) list"
  tk_running :: bool

datatype 'd instance_event =
    Initialize "'d qbft_initialization" nat
  | NetworkMessage wrapped_qbft_message nat
  | RoundEnd nat
  | Closed

definition task_new :: "'d instance_task" where
  "task_new = \<lparr>tk_instance = Uninitialized [], tk_notified = [], tk_decided_sent = [], tk_running = True\<rparr>"

definition restart_timer :: "timeout_mode \<Rightarrow> nat \<Rightarrow> timeout_mode" where
  "restart_timer mode now =
     (case mode of SlotTime origin \<Rightarrow> SlotTime origin | Relative _ round_timeout \<Rightarrow> Relative now round_timeout)"

text \<open>Replaying the buffer: errors are logged and dropped, a panic is not.\<close>

fun replay :: "'d qbft_env \<Rightarrow> 'd qbft \<Rightarrow> wrapped_qbft_message list \<Rightarrow> 'd step_result" where
  "replay E q [] = (q, Ok ())"
| "replay E q (w # ws) =
     (case receive E q w of (q', Panic) \<Rightarrow> (q', Panic) | (q', _) \<Rightarrow> replay E q' ws)"

definition initialize_buffered ::
    "wrapped_qbft_message list \<Rightarrow> 'd qbft_initialization \<Rightarrow> nat \<Rightarrow> 'd initialized option" where
  "initialize_buffered buffer init now =
     (case qbft_new (qi_env init) (qi_config init) (qi_initial init) (qi_message_id init) of
        (_, Panic) \<Rightarrow> None
      | (q, _) \<Rightarrow>
          (case replay (qi_env init) q buffer of
             (_, Panic) \<Rightarrow> None
           | (q', _) \<Rightarrow>
               Some \<lparr>in_env = qi_env init, in_qbft = q', in_on_completed = [qi_listener init],
                     in_timeout_mode = restart_timer (qi_timeout_mode init) now\<rparr>))"

definition crash :: "'d instance_task \<Rightarrow> 'd instance_task" where
  "crash t = t\<lparr>tk_running := False\<rparr>"

definition task_initialize :: "'d instance_task \<Rightarrow> 'd qbft_initialization \<Rightarrow> nat \<Rightarrow> 'd instance_task" where
  "task_initialize t init now =
     (case tk_instance t of
        Uninitialized buffer \<Rightarrow>
          (case initialize_buffered buffer init now of
             None \<Rightarrow> crash t | Some i \<Rightarrow> t\<lparr>tk_instance := Initialized i\<rparr>)
      | Initialized i \<Rightarrow>
          t\<lparr>tk_instance := Initialized (i\<lparr>in_on_completed := in_on_completed i @ [qi_listener init]\<rparr>)\<rparr>
      | Decided value \<Rightarrow> t\<lparr>tk_notified := tk_notified t @ [(qi_listener init, value)]\<rparr>)"

definition task_receive :: "'d instance_task \<Rightarrow> wrapped_qbft_message \<Rightarrow> nat \<Rightarrow> 'd instance_task" where
  "task_receive t w now =
     (case tk_instance t of
        Initialized i \<Rightarrow>
          (case receive (in_env i) (in_qbft i) w of
             (_, Panic) \<Rightarrow> crash t
           | (q', _) \<Rightarrow>
               t\<lparr>tk_instance := Initialized (i\<lparr>in_qbft := q',
                   in_timeout_mode :=
                     (if qb_current_round q' > qb_current_round (in_qbft i)
                      then restart_timer (in_timeout_mode i) now else in_timeout_mode i)\<rparr>)\<rparr>)
      | Uninitialized buffer \<Rightarrow>
          if length buffer < MESSAGE_BUFFER_LIMIT then t\<lparr>tk_instance := Uninitialized (buffer @ [w])\<rparr> else t
      | Decided _ \<Rightarrow> t)"

definition task_round_end :: "'d instance_task \<Rightarrow> nat \<Rightarrow> 'd instance_task" where
  "task_round_end t now =
     (case tk_instance t of
        Initialized i \<Rightarrow>
          (case end_round (in_env i) (in_qbft i) of
             (_, Panic) \<Rightarrow> crash t
           | (q', _) \<Rightarrow>
               t\<lparr>tk_instance := Initialized (i\<lparr>in_qbft := q',
                   in_timeout_mode := restart_timer (in_timeout_mode i) now\<rparr>)\<rparr>)
      | _ \<Rightarrow> t)"

definition task_closed :: "'d instance_task \<Rightarrow> 'd instance_task" where
  "task_closed t =
     (case tk_instance t of
        Initialized i \<Rightarrow>
          t\<lparr>tk_notified := tk_notified t @ map (\<lambda>l. (l, TimedOut)) (in_on_completed i), tk_running := False\<rparr>
      | _ \<Rightarrow> t\<lparr>tk_running := False\<rparr>)"

definition complete_if_done :: "'d instance_task \<Rightarrow> 'd instance_task" where
  "complete_if_done t =
     (case tk_instance t of
        Initialized i \<Rightarrow>
          (case qbft_completed (in_qbft i) of
             None \<Rightarrow> t
           | Some completed \<Rightarrow>
               t\<lparr>tk_instance := Decided completed,
                 tk_notified := tk_notified t @ map (\<lambda>l. (l, completed)) (in_on_completed i),
                 tk_decided_sent := tk_decided_sent t @
                   (case qb_aggregated_commit (in_qbft i) of
                      Some msg \<Rightarrow> [(msg, cf_committee_members (qb_config (in_qbft i)))] | None \<Rightarrow> [])\<rparr>)
      | _ \<Rightarrow> t)"

definition finish_iteration :: "'d instance_task \<Rightarrow> 'd instance_task" where
  "finish_iteration t = (if tk_running t then complete_if_done t else t)"

text \<open>When an initialized instance wakes up by itself; with no deadline it stops.\<close>

definition round_deadline :: "'d initialized \<Rightarrow> nat option" where
  "round_deadline i = calculate_round_timeout (qb_current_round (in_qbft i)) (in_timeout_mode i)"

definition task_step :: "'d instance_task \<Rightarrow> 'd instance_event \<Rightarrow> 'd instance_task" where
  "task_step t e =
     (if \<not> tk_running t then t
      else if (case tk_instance t of Initialized i \<Rightarrow> round_deadline i = None | _ \<Rightarrow> False) then task_closed t
      else
        (case e of
           Initialize init now \<Rightarrow> finish_iteration (task_initialize t init now)
         | NetworkMessage w now \<Rightarrow> finish_iteration (task_receive t w now)
         | RoundEnd now \<Rightarrow> finish_iteration (task_round_end t now)
         | Closed \<Rightarrow> task_closed t))"

definition task_run :: "'d instance_event list \<Rightarrow> 'd instance_task" where
  "task_run es = foldl task_step task_new es"

section \<open>The manager (lib.rs)\<close>

definition QBFT_RETAIN_SLOTS :: u64 where "QBFT_RETAIN_SLOTS = 1"

datatype validator_duty_kind = ProposalDuty | AggregatorDuty | SyncCommitteeAggregatorDuty

text \<open>The identifier of an instance together with the map it lives in.\<close>

datatype instance_id =
    ProposerInstanceId bytes validator_duty_kind instance_height
  | CommitteeInstanceId committee_id instance_height
  | GloasCommitteeInstanceId committee_id instance_height
  | AggregatorCommitteeInstanceId committee_id instance_height

fun instance_height_of :: "instance_id \<Rightarrow> instance_height" where
  "instance_height_of (ProposerInstanceId _ _ h) = h"
| "instance_height_of (CommitteeInstanceId _ h) = h"
| "instance_height_of (GloasCommitteeInstanceId _ h) = h"
| "instance_height_of (AggregatorCommitteeInstanceId _ h) = h"

fun duty_role :: "validator_duty_kind \<Rightarrow> role" where
  "duty_role ProposalDuty = Proposer"
| "duty_role AggregatorDuty = Aggregator"
| "duty_role SyncCommitteeAggregatorDuty = SyncCommittee"

fun instance_message_id :: "domain_type \<Rightarrow> instance_id \<Rightarrow> message_id" where
  "instance_message_id domain (ProposerInstanceId validator duty _) =
     message_id_new (\<lambda>pk. pk) domain (duty_role duty) (ValidatorExecutor validator)"
| "instance_message_id domain (CommitteeInstanceId committee _) =
     message_id_new (\<lambda>pk. pk) domain Committee (CommitteeExecutor committee)"
| "instance_message_id domain (GloasCommitteeInstanceId committee _) =
     message_id_new (\<lambda>pk. pk) domain Committee (CommitteeExecutor committee)"
| "instance_message_id domain (AggregatorCommitteeInstanceId committee _) =
     message_id_new (\<lambda>pk. pk) domain AggregatorCommittee (CommitteeExecutor committee)"

datatype manager_error =
    QueueClosedError
  | QueueFullError
  | ManagerConfigError config_builder_error
  | InconsistentMessageId
  | OwnOperatorIdUnknown
  | RoleNotActive

text \<open>What the manager is built with; \<open>mg_eth_slots_per_epoch\<close> is \<open>E::slots_per_epoch()\<close> of the
  Ethereum preset, beside the configured number.\<close>

record 'd manager =
  mg_operator_id :: "operator_id option"
  mg_instances :: "instance_id \<rightharpoonup> 'd instance_task"
  mg_slots_per_epoch :: u64
  mg_eth_slots_per_epoch :: u64
  mg_fork_schedule :: fork_schedule
  mg_chain :: chain

definition domain_type_for_instance :: "'d manager \<Rightarrow> instance_height \<Rightarrow> domain_type option" where
  "domain_type_for_instance mg height =
     map_option fc_domain_type
       (active_fork_config (mg_fork_schedule mg) (ch_epoch (mg_chain mg) height (mg_eth_slots_per_epoch mg)))"

definition gloas_enabled_at_slot :: "'d manager \<Rightarrow> slot \<Rightarrow> bool" where
  "gloas_enabled_at_slot mg sl =
     ch_gloas_enabled (mg_chain mg) (ch_epoch (mg_chain mg) sl (mg_eth_slots_per_epoch mg))"

definition instance_leader_fn :: "'d manager \<Rightarrow> instance_height \<Rightarrow> default_leader_function option" where
  "instance_leader_fn mg height =
     map_option (\<lambda>f. default_leader_function_new (mg_slots_per_epoch mg) (f \<ge> Boole))
       (active_fork (mg_fork_schedule mg) (height div mg_slots_per_epoch mg))"

text \<open>The configuration and message id with which \<open>decide_instance\<close> initializes an instance.\<close>

definition decide_config ::
    "'d manager \<Rightarrow> instance_id \<Rightarrow> operator_id list \<Rightarrow> (config \<times> message_id, manager_error) outcome" where
  "decide_config mg i committee_members =
     bindO (ok_or OwnOperatorIdUnknown (mg_operator_id mg)) (\<lambda>operator_id.
     let height = instance_height_of i in
     bindO (expect (domain_type_for_instance mg height)) (\<lambda>domain.
     let message_id = instance_message_id domain i in
     bindO (expect (instance_leader_fn mg height)) (\<lambda>dl.
     let b = config_builder_new_with_leader_fn operator_id height committee_members (leader_function dl) in
     bindO (ok_or InconsistentMessageId (Option.bind (msgid_role message_id) max_round)) (\<lambda>max_rounds.
     bindO (map_err ManagerConfigError (config_build (with_max_rounds b max_rounds))) (\<lambda>c.
     Ok (c, message_id))))))"

definition get_or_spawn_instance :: "'d manager \<Rightarrow> instance_id \<Rightarrow> 'd instance_task" where
  "get_or_spawn_instance mg i = (case mg_instances mg i of Some t \<Rightarrow> t | None \<Rightarrow> task_new)"

text \<open>Handing an event to an instance through the processor, whose queue may refuse it; the
  instance has been spawned by then.\<close>

definition deliver ::
    "'d manager \<Rightarrow> instance_id \<Rightarrow> manager_error option \<Rightarrow> 'd instance_event \<Rightarrow> 'd manager \<times> (unit, manager_error) outcome" where
  "deliver mg i refused e =
     (let t = get_or_spawn_instance mg i in
      case refused of
        Some err \<Rightarrow> (mg\<lparr>mg_instances := (mg_instances mg)(i \<mapsto> t)\<rparr>, Err err)
      | None \<Rightarrow> (mg\<lparr>mg_instances := (mg_instances mg)(i \<mapsto> task_step t e)\<rparr>, Ok ()))"

definition decide_instance ::
    "'d manager \<Rightarrow> instance_id \<Rightarrow> 'd qbft_env \<Rightarrow> 'd \<Rightarrow> timeout_mode \<Rightarrow> operator_id list \<Rightarrow> nat
     \<Rightarrow> manager_error option \<Rightarrow> nat \<Rightarrow> 'd manager \<times> (unit, manager_error) outcome" where
  "decide_instance mg i E initial mode committee_members listener refused now =
     (case decide_config mg i committee_members of
        Err e \<Rightarrow> (mg, Err e)
      | Panic \<Rightarrow> (mg, Panic)
      | Ok (c, message_id) \<Rightarrow>
          deliver mg i refused
            (Initialize \<lparr>qi_env = E, qi_initial = initial, qi_message_id = message_id,
                         qi_timeout_mode = mode, qi_config = c, qi_listener = listener\<rparr> now))"

definition route_message ::
    "(bytes \<Rightarrow> bytes option) \<Rightarrow> 'd manager \<Rightarrow> message_id \<Rightarrow> u64 \<Rightarrow> (instance_id, manager_error) outcome" where
  "route_message pk_deserialize mg msg_id height =
     (case msgid_duty_executor pk_deserialize msg_id of
        Some (ValidatorExecutor validator) \<Rightarrow>
          (case msgid_role msg_id of
             Some Proposer \<Rightarrow> Ok (ProposerInstanceId validator ProposalDuty height)
           | Some Aggregator \<Rightarrow> Ok (ProposerInstanceId validator AggregatorDuty height)
           | Some SyncCommittee \<Rightarrow> Ok (ProposerInstanceId validator SyncCommitteeAggregatorDuty height)
           | _ \<Rightarrow> Err InconsistentMessageId)
      | Some (CommitteeExecutor committee) \<Rightarrow>
          (case msgid_role msg_id of
             Some Committee \<Rightarrow>
               if gloas_enabled_at_slot mg height then Ok (GloasCommitteeInstanceId committee height)
               else Ok (CommitteeInstanceId committee height)
           | Some AggregatorCommittee \<Rightarrow>
               bindO (expect (active_fork (mg_fork_schedule mg)
                        (ch_epoch (mg_chain mg) height (mg_eth_slots_per_epoch mg)))) (\<lambda>f.
               if f < Boole then Err RoleNotActive
               else Ok (AggregatorCommitteeInstanceId committee height))
           | _ \<Rightarrow> Err InconsistentMessageId)
      | None \<Rightarrow> Err InconsistentMessageId)"

definition receive_data ::
    "(bytes \<Rightarrow> bytes option) \<Rightarrow> 'd manager \<Rightarrow> wrapped_qbft_message \<Rightarrow> manager_error option \<Rightarrow> nat
     \<Rightarrow> 'd manager \<times> (unit, manager_error) outcome" where
  "receive_data pk_deserialize mg w refused now =
     (case route_message pk_deserialize mg (sm_msg_id (sg_ssv_message (wq_signed_message w)))
             (qm_height (wq_qbft_message w)) of
        Ok i \<Rightarrow> deliver mg i refused (NetworkMessage w now)
      | Err e \<Rightarrow> (mg, Err e)
      | Panic \<Rightarrow> (mg, Panic))"

text \<open>One pass of the cleaner: an instance below the cutoff loses its sender, which closes the queue
  of its task.\<close>

definition manager_cleaner_step :: "'d manager \<Rightarrow> slot option \<Rightarrow> 'd manager" where
  "manager_cleaner_step mg now =
     (case now of
        None \<Rightarrow> mg
      | Some sl \<Rightarrow>
          let cutoff = ch_slot_saturating_sub (mg_chain mg) sl QBFT_RETAIN_SLOTS in
          mg\<lparr>mg_instances := (\<lambda>i. if instance_height_of i \<ge> cutoff then mg_instances mg i else None)\<rparr>)"

section \<open>Deadlines\<close>

definition deadline_secs :: "nat \<Rightarrow> nat" where
  "deadline_secs n = (if n \<le> 8 then 2 * n else 16 + 120 * (n - 8))"

lemma deadline_secs_strict: "m < n \<Longrightarrow> deadline_secs m < deadline_secs n"
  by (auto simp: deadline_secs_def)

lemma unat_mult_u64: "unat a * unat (b :: u64) < 2 ^ 64 \<Longrightarrow> unat (a * b) = unat a * unat b"
  by (simp add: unat_word_ariths)

lemma unat_numeral_u64: "unat (120 :: u64) = 120"
  by simp

lemma cumulative_timeout_eq:
  assumes "unat r < 2 ^ 56"
  shows "cumulative_timeout r = Some (deadline_secs (unat r) * 10 ^ 9)"
proof (cases "r \<le> 8")
  case True
  then have n: "unat r \<le> 8" by (simp add: word_le_nat_alt)
  then have "unat (r * 2) = unat r * 2" by (simp add: unat_word_ariths)
  then show ?thesis
    using True n by (simp add: cumulative_timeout_def TM_QUICK_TIMEOUT_THRESHOLD_def TM_QUICK_TIMEOUT_def
        checked_mul_def from_secs_def deadline_secs_def)
next
  case False
  then have n: "8 < unat r" by (simp add: word_le_nat_alt)
  then have sub: "unat (r - 8) = unat r - 8" by (simp add: unat_sub_if_size)
  have small: "(unat r - 8) * 120 < 2 ^ 64" using assms by simp
  then have "unat ((r - 8) * 120) = (unat r - 8) * 120"
    using unat_mult_u64 [of "r - 8" 120] by (simp only: sub unat_numeral_u64)
  moreover have "16 + (unat r - 8) * 120 < 2 ^ 64" using assms by simp
  ultimately show ?thesis
    using False n small
    by (simp add: cumulative_timeout_def TM_QUICK_TIMEOUT_THRESHOLD_def TM_QUICK_TIMEOUT_def
        TM_SLOW_TIMEOUT_def checked_sub_def checked_mul_def from_secs_def deadline_secs_def sub
        duration_checked_add_def word_le_nat_alt div_mult_self_is_m add_mult_distrib [symmetric])
qed

section \<open>The task keeps its promises\<close>

text \<open>
  The buffer stays within its limit, nobody is told anything before the instance is done, and
  whoever is told is told the same.
\<close>

definition task_settled :: "'d instance_task \<Rightarrow> bool" where
  "task_settled t \<longleftrightarrow>
     (case tk_instance t of
        Uninitialized buffer \<Rightarrow> length buffer \<le> MESSAGE_BUFFER_LIMIT \<and> tk_notified t = []
      | Initialized i \<Rightarrow>
          if tk_running t then tk_notified t = [] else (\<forall>(_, c) \<in> set (tk_notified t). c = TimedOut)
      | Decided v \<Rightarrow> \<forall>(_, c) \<in> set (tk_notified t). c = v)"

definition task_inv :: "'d instance_task \<Rightarrow> bool" where
  "task_inv t \<longleftrightarrow> task_settled t
     \<and> (case tk_instance t of
          Initialized i \<Rightarrow> tk_running t \<longrightarrow> qbft_completed (in_qbft i) = None | _ \<Rightarrow> True)"

lemma settled_initialize: "task_settled t \<Longrightarrow> tk_running t \<Longrightarrow> task_settled (task_initialize t init now)"
  by (auto simp: task_settled_def task_initialize_def crash_def split: qbft_instance.splits option.splits)

lemma settled_receive: "task_settled t \<Longrightarrow> tk_running t \<Longrightarrow> task_settled (task_receive t w now)"
  by (auto simp: task_settled_def task_receive_def crash_def split: qbft_instance.splits prod.splits outcome.splits)

lemma settled_round_end: "task_settled t \<Longrightarrow> tk_running t \<Longrightarrow> task_settled (task_round_end t now)"
  by (auto simp: task_settled_def task_round_end_def crash_def split: qbft_instance.splits prod.splits outcome.splits)

lemma inv_closed: "task_settled t \<Longrightarrow> tk_running t \<Longrightarrow> task_inv (task_closed t)"
  by (auto simp: task_inv_def task_settled_def task_closed_def split: qbft_instance.splits)

lemma inv_finish: "task_settled t \<Longrightarrow> task_inv (finish_iteration t)"
  by (auto simp: task_inv_def task_settled_def finish_iteration_def complete_if_done_def
      split: qbft_instance.splits option.splits if_splits)

lemma task_inv_step: "task_inv t \<Longrightarrow> task_inv (task_step t e)"
  by (auto simp: task_step_def task_inv_def [of t] intro: inv_finish inv_closed settled_initialize
      settled_receive settled_round_end split: instance_event.split)

interpretation task_safe: step_invariant task_step task_inv "\<lambda>_. True"
  by unfold_locales (rule task_inv_step)

lemma task_inv_run: "task_inv (task_run es)"
  unfolding task_run_def
  by (rule task_safe.inv_run) (auto simp: task_inv_def task_settled_def task_new_def)

lemma task_notified_same:
  assumes "(l, c) \<in> set (tk_notified (task_run es))" "(l', c') \<in> set (tk_notified (task_run es))"
  shows "c = c'"
proof -
  have "task_settled (task_run es)" using task_inv_run [of es] by (simp add: task_inv_def)
  then have "\<exists>v. \<forall>p \<in> set (tk_notified (task_run es)). snd p = v"
    unfolding task_settled_def
    by (cases "tk_instance (task_run es)") (auto simp: case_prod_beta split: if_splits)
  then obtain v where v: "snd p = v" if "p \<in> set (tk_notified (task_run es))" for p by blast
  show ?thesis using v [OF assms(1)] v [OF assms(2)] by simp
qed

lemma task_buffer_bounded:
  "tk_instance (task_run es) = Uninitialized buffer \<Longrightarrow> length buffer \<le> MESSAGE_BUFFER_LIMIT"
  using task_inv_run [of es] by (simp add: task_inv_def task_settled_def)

section \<open>The task runs the instance\<close>

text \<open>
  The log of a task: the initialization that created the instance, and the events the instance was
  given since, the replayed buffer first.
\<close>

definition log_event ::
    "'d instance_task \<Rightarrow> ('d qbft_initialization \<times> qbft_event list) option \<Rightarrow> 'd instance_event
     \<Rightarrow> ('d qbft_initialization \<times> qbft_event list) option" where
  "log_event t log e =
     (if \<not> tk_running t then log
      else case tk_instance t of
        Uninitialized buffer \<Rightarrow>
          (case e of Initialize init _ \<Rightarrow> Some (init, map Receive buffer) | _ \<Rightarrow> log)
      | Initialized i \<Rightarrow>
          if round_deadline i = None then log
          else (case e of
             NetworkMessage w _ \<Rightarrow> map_option (\<lambda>(init, evs). (init, evs @ [Receive w])) log
           | RoundEnd _ \<Rightarrow> map_option (\<lambda>(init, evs). (init, evs @ [EndRound])) log
           | _ \<Rightarrow> log)
      | Decided _ \<Rightarrow> log)"

fun task_log :: "'d instance_event list \<Rightarrow> ('d qbft_initialization \<times> qbft_event list) option" where
  "task_log es = fst (foldl (\<lambda>(log, t) e. (log_event t log e, task_step t e)) (None, task_new) es)"

declare task_log.simps [simp del]

definition init_qbft :: "'d qbft_initialization \<Rightarrow> 'd qbft" where
  "init_qbft init = fst (qbft_new (qi_env init) (qi_config init) (qi_initial init) (qi_message_id init))"

definition log_state :: "'d qbft_initialization \<times> qbft_event list \<Rightarrow> 'd qbft" where
  "log_state l = (case l of (init, evs) \<Rightarrow> qbft_run (qi_env init) (init_qbft init) evs)"

lemma task_log_Nil [simp]: "task_log [] = None"
  by (simp add: task_log.simps)

lemma task_log_snoc [simp]: "task_log (es @ [e]) = log_event (task_run es) (task_log es) e"
proof -
  have "snd (foldl (\<lambda>(log, t) e. (log_event t log e, task_step t e)) (None, task_new) es) = task_run es"
    unfolding task_run_def
    by (induction es rule: rev_induct) (simp_all add: case_prod_beta)
  then show ?thesis by (simp add: task_log.simps case_prod_beta)
qed

lemma task_run_snoc [simp]: "task_run (es @ [e]) = task_step (task_run es) e"
  by (simp add: task_run_def)

text \<open>A running task is where its log leads, and a decided one holds what the logged run decided.\<close>

definition task_logged ::
    "'d instance_task \<Rightarrow> ('d qbft_initialization \<times> qbft_event list) option \<Rightarrow> bool" where
  "task_logged t log \<longleftrightarrow>
     (case tk_instance t of
        Uninitialized _ \<Rightarrow> tk_running t \<longrightarrow> log = None
      | Initialized i \<Rightarrow> tk_running t \<longrightarrow>
          (\<exists>init evs. log = Some (init, evs) \<and> in_env i = qi_env init \<and> in_qbft i = log_state (init, evs))
      | Decided v \<Rightarrow> \<exists>l. log = Some l \<and> qbft_completed (log_state l) = Some v)"

lemma qbft_run_append: "qbft_run E q (es @ es') = qbft_run E (qbft_run E q es) es'"
  by (simp add: qbft_run_def)

lemma log_state_snoc: "log_state (init, evs @ [e]) = fst (qbft_step (qi_env init) (log_state (init, evs)) e)"
  by (simp add: log_state_def qbft_run_def)

lemma replay_run: "fst (replay E q ws) = q' \<Longrightarrow> snd (replay E q ws) \<noteq> Panic \<Longrightarrow> q' = qbft_run E q (map Receive ws)"
proof (induction ws arbitrary: q)
  case (Cons w ws)
  obtain q1 r where rc: "receive E q w = (q1, r)" by (cases "receive E q w")
  with Cons.prems have "r \<noteq> Panic" by auto
  then have "replay E q (w # ws) = replay E q1 ws" using rc by (cases r) auto
  then have "q' = qbft_run E q1 (map Receive ws)" using Cons by simp
  then show ?case by (simp add: qbft_run_def rc)
qed (simp add: qbft_run_def)

lemma initialize_buffered_Some:
  assumes "initialize_buffered buffer init now = Some i"
  shows "in_env i = qi_env init" and "in_qbft i = log_state (init, map Receive buffer)"
    and "in_on_completed i = [qi_listener init]"
proof -
  obtain q r where n: "qbft_new (qi_env init) (qi_config init) (qi_initial init) (qi_message_id init) = (q, r)"
    by (cases "qbft_new (qi_env init) (qi_config init) (qi_initial init) (qi_message_id init)")
  obtain q' r' where rp: "replay (qi_env init) q buffer = (q', r')"
    by (cases "replay (qi_env init) q buffer")
  have ok: "r' \<noteq> Panic" and i: "in_env i = qi_env init" "in_qbft i = q'" "in_on_completed i = [qi_listener init]"
    using assms n rp by (auto simp: initialize_buffered_def split: outcome.splits)
  then have "in_qbft i = qbft_run (qi_env init) q (map Receive buffer)"
    using replay_run [of "qi_env init" q buffer] rp by simp
  then show "in_env i = qi_env init" "in_qbft i = log_state (init, map Receive buffer)"
    "in_on_completed i = [qi_listener init]"
    using i n by (simp_all add: log_state_def init_qbft_def)
qed

lemma logged_initialize:
  assumes "task_logged t log" and "tk_running t"
    and "case tk_instance t of Initialized i \<Rightarrow> round_deadline i \<noteq> None | _ \<Rightarrow> True"
  shows "task_logged (task_initialize t init now) (log_event t log (Initialize init now))"
  using assms
  by (cases "tk_instance t")
     (auto simp: task_logged_def task_initialize_def log_event_def crash_def initialize_buffered_Some
       split: option.splits)

lemma logged_receive:
  assumes "task_logged t log" and "tk_running t"
    and "case tk_instance t of Initialized i \<Rightarrow> round_deadline i \<noteq> None | _ \<Rightarrow> True"
  shows "task_logged (task_receive t w now) (log_event t log (NetworkMessage w now))"
  using assms
  by (cases "tk_instance t")
     (auto simp: task_logged_def task_receive_def log_event_def crash_def log_state_snoc
       split: prod.splits outcome.splits)

lemma logged_round_end:
  assumes "task_logged t log" and "tk_running t"
    and "case tk_instance t of Initialized i \<Rightarrow> round_deadline i \<noteq> None | _ \<Rightarrow> True"
  shows "task_logged (task_round_end t now) (log_event t log (RoundEnd now))"
  using assms
  by (cases "tk_instance t")
     (auto simp: task_logged_def task_round_end_def log_event_def crash_def log_state_snoc
       split: prod.splits outcome.splits)

lemma logged_finish: "task_logged t log \<Longrightarrow> task_logged (finish_iteration t) log"
  by (auto simp: task_logged_def finish_iteration_def complete_if_done_def
      split: qbft_instance.splits option.splits)

lemma logged_stop:
  "task_logged t log \<Longrightarrow> tk_running t \<Longrightarrow> task_logged (task_closed t) log'"
  if "case tk_instance t of Decided v \<Rightarrow> log' = log | _ \<Rightarrow> True"
  using that by (auto simp: task_logged_def task_closed_def split: qbft_instance.splits)

lemma logged_step: "task_logged t log \<Longrightarrow> task_logged (task_step t e) (log_event t log e)"
proof (cases "tk_running t")
  case False
  then show "task_logged t log \<Longrightarrow> ?thesis" by (simp add: task_step_def log_event_def)
next
  case True
  assume l: "task_logged t log"
  show ?thesis
  proof (cases "case tk_instance t of Initialized i \<Rightarrow> round_deadline i \<noteq> None | _ \<Rightarrow> True")
    case ok: True
    then have "\<not> (case tk_instance t of Initialized i \<Rightarrow> round_deadline i = None | _ \<Rightarrow> False)"
      by (cases "tk_instance t") auto
    moreover have "log_event t log Closed = log"
      by (simp add: log_event_def split: qbft_instance.split)
    moreover have "task_logged (task_closed t) log"
      using l True by (auto intro: logged_stop split: qbft_instance.split)
    ultimately show ?thesis
      using True logged_initialize [OF l True ok] logged_receive [OF l True ok] logged_round_end [OF l True ok]
      by (cases e) (simp_all add: task_step_def logged_finish)
  next
    case False
    then have "case tk_instance t of Initialized i \<Rightarrow> round_deadline i = None | _ \<Rightarrow> False"
      by (cases "tk_instance t") auto
    then show ?thesis
      using True l
      by (auto simp: task_step_def log_event_def intro!: logged_stop split: qbft_instance.splits)
  qed
qed

lemma task_run_logged: "task_logged (task_run es) (task_log es)"
proof (induction es rule: rev_induct)
  case Nil
  then show ?case by (simp add: task_run_def task_new_def task_logged_def)
next
  case (snoc e es)
  then show ?case by (simp add: logged_step)
qed

lemma task_decided_log:
  assumes "tk_instance (task_run es) = Decided v"
  shows "\<exists>l. task_log es = Some l \<and> qbft_completed (log_state l) = Some v"
  using task_run_logged [of es] assms by (simp add: task_logged_def)

text \<open>Everybody who asked is served: a listener of a running task is waiting or has been told.\<close>

definition listeners_served :: "'d instance_event list \<Rightarrow> 'd instance_task \<Rightarrow> bool" where
  "listeners_served es t \<longleftrightarrow>
     (tk_running t \<longrightarrow> (\<forall>init now. Initialize init now \<in> set es \<longrightarrow>
       (case tk_instance t of
          Uninitialized _ \<Rightarrow> False
        | Initialized i \<Rightarrow> qi_listener init \<in> set (in_on_completed i)
        | Decided v \<Rightarrow> (qi_listener init, v) \<in> set (tk_notified t))))"

lemma served_initialize:
  "listeners_served es t \<Longrightarrow> listeners_served (es @ [Initialize init now]) (task_initialize t init now)"
  by (cases "tk_instance t")
     (auto simp: listeners_served_def task_initialize_def crash_def initialize_buffered_Some split: option.splits)

lemma served_receive:
  "listeners_served es t \<Longrightarrow> listeners_served (es @ [NetworkMessage w now]) (task_receive t w now)"
  by (cases "tk_instance t")
     (auto simp: listeners_served_def task_receive_def crash_def split: prod.splits outcome.splits)

lemma served_round_end:
  "listeners_served es t \<Longrightarrow> listeners_served (es @ [RoundEnd now]) (task_round_end t now)"
  by (cases "tk_instance t")
     (auto simp: listeners_served_def task_round_end_def crash_def split: prod.splits outcome.splits)

text \<open>Deciding hands the value to everyone who waits.\<close>

lemma complete_if_done_served:
  assumes "tk_instance t = Initialized i" "qbft_completed (in_qbft i) = Some v"
  shows "tk_instance (complete_if_done t) = Decided v"
    and "set (tk_notified (complete_if_done t)) = set (tk_notified t) \<union> (\<lambda>l. (l, v)) ` set (in_on_completed i)"
  using assms by (simp_all add: complete_if_done_def)

lemma complete_if_done_idle:
  assumes "\<And>i. tk_instance t = Initialized i \<Longrightarrow> qbft_completed (in_qbft i) = None"
  shows "complete_if_done t = t"
  using assms by (cases "tk_instance t") (simp_all add: complete_if_done_def)

lemma served_finish:
  assumes "listeners_served es t"
  shows "listeners_served es (finish_iteration t)"
proof (cases "\<exists>i v. tk_running t \<and> tk_instance t = Initialized i \<and> qbft_completed (in_qbft i) = Some v")
  case True
  then obtain i v where run: "tk_running t" and i: "tk_instance t = Initialized i" "qbft_completed (in_qbft i) = Some v" by blast
  have "qi_listener init \<in> set (in_on_completed i)" if "Initialize init now \<in> set es" for init now
    using assms run i(1) that by (auto simp: listeners_served_def)
  then show ?thesis
    using complete_if_done_served [OF i] run by (auto simp: listeners_served_def finish_iteration_def)
next
  case False
  then have "finish_iteration t = t"
    using complete_if_done_idle [of t] unfolding finish_iteration_def by (metis option.exhaust)
  then show ?thesis using assms by simp
qed

lemma not_running_closed [simp]: "\<not> tk_running (task_closed t)"
  by (simp add: task_closed_def split: qbft_instance.split)

lemma task_run_served: "listeners_served es (task_run es)"
proof (induction es rule: rev_induct)
  case Nil
  then show ?case by (simp add: listeners_served_def)
next
  case (snoc e es)
  show ?case
  proof (cases "tk_running (task_step (task_run es) e)")
    case True
    then have "task_step (task_run es) e =
      (case e of
         Initialize init now \<Rightarrow> finish_iteration (task_initialize (task_run es) init now)
       | NetworkMessage w now \<Rightarrow> finish_iteration (task_receive (task_run es) w now)
       | RoundEnd now \<Rightarrow> finish_iteration (task_round_end (task_run es) now)
       | Closed \<Rightarrow> task_closed (task_run es))"
      by (auto simp: task_step_def split: if_splits)
    then show ?thesis
      using snoc True
      by (cases e) (simp_all add: served_finish served_initialize served_receive served_round_end)
  qed (simp add: listeners_served_def)
qed

lemma task_decided_served:
  assumes "tk_instance (task_run es) = Decided v" "tk_running (task_run es)" "Initialize init now \<in> set es"
  shows "(qi_listener init, v) \<in> set (tk_notified (task_run es))"
  using task_run_served [of es] assms by (auto simp: listeners_served_def)

section \<open>A committee of tasks\<close>

text \<open>The member of the committee that a task runs.\<close>

definition task_node :: "'d instance_event list \<Rightarrow> 'd node" where
  "task_node es =
     (let (init, evs) = the (task_log es) in
      \<lparr>nd_env = qi_env init, nd_config = qi_config init, nd_start_data = qi_initial init,
       nd_identifier = qi_message_id init, nd_events = evs\<rparr>)"

lemma task_node_state:
  assumes "task_log es = Some l"
  shows "node_state (task_node es) = log_state l"
  using assms
  by (cases l) (simp add: task_node_def node_state_def node_start_def log_state_def init_qbft_def)

lemma task_decided_node:
  assumes "tk_instance (task_run es) = Decided v"
  shows "qbft_completed (node_state (task_node es)) = Some v"
  using task_decided_log [OF assms] by (auto simp: task_node_state)

text \<open>Only messages that reached the task are in its log.\<close>

definition log_from :: "'d instance_event list \<Rightarrow> bool" where
  "log_from es \<longleftrightarrow>
     (case tk_instance (task_run es) of
        Uninitialized buffer \<Rightarrow> \<forall>w \<in> set buffer. \<exists>now. NetworkMessage w now \<in> set es | _ \<Rightarrow> True)
     \<and> (case task_log es of
          None \<Rightarrow> True
        | Some (init, evs) \<Rightarrow>
            (\<exists>now. Initialize init now \<in> set es)
            \<and> (\<forall>w. Receive w \<in> set evs \<longrightarrow> (\<exists>now. NetworkMessage w now \<in> set es)))"

lemma buffer_step:
  assumes "tk_instance (task_step t e) = Uninitialized buffer'"
  shows "\<exists>buffer. tk_instance t = Uninitialized buffer
    \<and> (\<forall>w \<in> set buffer'. w \<in> set buffer \<or> (\<exists>now. e = NetworkMessage w now))"
  using assms
  by (auto simp: task_step_def task_initialize_def task_receive_def task_round_end_def task_closed_def
      finish_iteration_def complete_if_done_def crash_def
      split: if_splits instance_event.splits qbft_instance.splits option.splits prod.splits outcome.splits)

lemma log_from_step: "log_from es \<Longrightarrow> log_from (es @ [e])"
proof -
  assume l: "log_from es"
  have "case tk_instance (task_run (es @ [e])) of
        Uninitialized buffer \<Rightarrow> \<forall>w \<in> set buffer. \<exists>now. NetworkMessage w now \<in> set (es @ [e]) | _ \<Rightarrow> True"
    using l buffer_step [of "task_run es" e] unfolding log_from_def
    by (cases "tk_instance (task_step (task_run es) e)") fastforce+
  moreover have "case task_log (es @ [e]) of
          None \<Rightarrow> True
        | Some (init, evs) \<Rightarrow>
            (\<exists>now. Initialize init now \<in> set (es @ [e]))
            \<and> (\<forall>w. Receive w \<in> set evs \<longrightarrow> (\<exists>now. NetworkMessage w now \<in> set (es @ [e])))"
    using l unfolding log_from_def
    by (cases "task_log es"; cases "tk_instance (task_run es)"; cases e)
       (fastforce simp: log_event_def split: if_splits)+
  ultimately show ?thesis by (simp add: log_from_def)
qed

lemma log_from_run: "log_from es"
  by (induction es rule: rev_induct)
     (simp_all add: log_from_step, simp add: log_from_def task_run_def task_new_def)

lemma task_decided_acceptable:
  assumes "tk_instance (task_run es) = Decided (Success d)"
  shows "\<exists>init now. Initialize init now \<in> set es \<and> acceptable (qi_env init) (qi_initial init) d"
proof -
  obtain init evs where l: "task_log es = Some (init, evs)" "qbft_completed (log_state (init, evs)) = Some (Success d)"
    using task_decided_log [OF assms] by auto
  then have "acceptable (qi_env init) (qi_initial init) d"
    by (auto simp: log_state_def init_qbft_def intro: decided_acceptable)
  moreover have "\<exists>now. Initialize init now \<in> set es"
    using log_from_run [of es] l(1) by (auto simp: log_from_def)
  ultimately show ?thesis by blast
qed

lemma task_decided_root:
  assumes "tk_instance (task_run es) = Decided (Success d)"
    and "\<And>w now. NetworkMessage w now \<in> set es \<Longrightarrow> full_data_bound (nd_env (task_node es)) w"
  shows "qb_completed (node_state (task_node es)) = Some (Success (qe_hash (nd_env (task_node es)) d))"
proof -
  obtain init evs where l: "task_log es = Some (init, evs)" "qbft_completed (log_state (init, evs)) = Some (Success d)"
    using task_decided_log [OF assms(1)] by auto
  have n: "nd_env (task_node es) = qi_env init" using l(1) by (simp add: task_node_def)
  have "full_data_bound (qi_env init) w" if "Receive w \<in> set evs" for w
    using that log_from_run [of es] l(1) assms(2) n by (auto simp: log_from_def)
  then have "qb_completed (log_state (init, evs)) = Some (Success (qe_hash (qi_env init) d))"
    using l(2) by (auto simp: log_state_def init_qbft_def intro: decided_bound)
  then show ?thesis using task_node_state [OF l(1)] n by simp
qed

section \<open>What the manager hands to its instances\<close>

lemma decide_config_Ok:
  assumes "decide_config mg i com = Ok (c, mid)"
  shows "cf_committee_members c = com" and "cf_instance_height c = instance_height_of i"
    and "Some (cf_operator_id c) = mg_operator_id mg"
    and "distinct com \<Longrightarrow> config_wf c"
    and "\<exists>dl. instance_leader_fn mg (instance_height_of i) = Some dl \<and> cf_leader_fn c = leader_function dl"
    and "\<exists>domain. domain_type_for_instance mg (instance_height_of i) = Some domain
      \<and> mid = instance_message_id domain i"
    and "msgid_role mid \<noteq> None"
proof -
  let ?h = "instance_height_of i"
  obtain op domain dl max_rounds where d: "mg_operator_id mg = Some op"
      "domain_type_for_instance mg ?h = Some domain" "mid = instance_message_id domain i"
      "instance_leader_fn mg ?h = Some dl" "Option.bind (msgid_role mid) max_round = Some max_rounds"
    and b: "config_build (with_max_rounds
        (config_builder_new_with_leader_fn op ?h com (leader_function dl)) max_rounds) = Inr c"
    using assms
    by (auto simp: decide_config_def Let_def ok_or_def expect_def map_err_def bindO_def
        split: option.splits sum.splits outcome.splits)
  have c: "c = config_from_builder (with_max_rounds
        (config_builder_new_with_leader_fn op ?h com (leader_function dl)) max_rounds)"
    by (rule config_build_Inr(1) [OF b])
  show "distinct com \<Longrightarrow> config_wf c"
    using config_build_Inr(2) [OF b] by (simp add: with_max_rounds_def config_builder_new_with_leader_fn_def)
  show "cf_committee_members c = com" "cf_instance_height c = ?h" "Some (cf_operator_id c) = mg_operator_id mg"
    "\<exists>dl. instance_leader_fn mg ?h = Some dl \<and> cf_leader_fn c = leader_function dl"
    using d(1,4) by (simp_all add: c config_from_builder_def with_max_rounds_def config_builder_new_with_leader_fn_def)
  show "\<exists>domain. domain_type_for_instance mg ?h = Some domain \<and> mid = instance_message_id domain i"
    using d by blast
  show "msgid_role mid \<noteq> None" using d(5) by (cases "msgid_role mid") auto
qed

text \<open>Message identifiers carry their domain, role and executor, whatever the executor's encoding.\<close>

lemma role_round_trip [simp]: "role_try_from (role_to_bytes r) = Some r"
  by (cases r) (simp_all add: role_try_from_def)

lemma length_role_to_bytes [simp]: "length (role_to_bytes r) = 4"
  by (cases r) simp_all

lemma msgid_role_new [simp]:
  "length domain = 4 \<Longrightarrow> msgid_role (message_id_new ser domain r e) = Some r"
  by (simp add: msgid_role_def message_id_new_def)

lemma msgid_domain_new [simp]: "length domain = 4 \<Longrightarrow> msgid_domain (message_id_new ser domain r e) = domain"
  by (simp add: msgid_domain_def message_id_new_def)

lemma msgid_executor_committee [simp]:
  assumes "length domain = 4" "is_committee_role r" "length cid = COMMITTEE_ID_LEN"
  shows "msgid_duty_executor de (message_id_new ser domain r (CommitteeExecutor cid)) = Some (CommitteeExecutor cid)"
  using assms
  by (simp add: msgid_duty_executor_def committee_id_try_from_def) (simp add: message_id_new_def)

lemma msgid_executor_validator [simp]:
  assumes "length domain = 4" "\<not> is_committee_role r" "de (ser pk) = Some pk'"
  shows "msgid_duty_executor de (message_id_new ser domain r (ValidatorExecutor pk)) = Some (ValidatorExecutor pk')"
  using assms by (simp add: msgid_duty_executor_def) (simp add: message_id_new_def)

section \<open>Routing\<close>

text \<open>An instance identifier the manager itself uses at a height: the committee data follows the
  Ethereum fork, the aggregator committee the protocol fork.\<close>

fun instance_id_active :: "'d manager \<Rightarrow> instance_id \<Rightarrow> bool" where
  "instance_id_active mg (ProposerInstanceId _ _ _) = True"
| "instance_id_active mg (CommitteeInstanceId cid h) =
     (length cid = COMMITTEE_ID_LEN \<and> \<not> gloas_enabled_at_slot mg h)"
| "instance_id_active mg (GloasCommitteeInstanceId cid h) =
     (length cid = COMMITTEE_ID_LEN \<and> gloas_enabled_at_slot mg h)"
| "instance_id_active mg (AggregatorCommitteeInstanceId cid h) =
     (length cid = COMMITTEE_ID_LEN
      \<and> (\<exists>f. active_fork (mg_fork_schedule mg)
            (ch_epoch (mg_chain mg) h (mg_eth_slots_per_epoch mg)) = Some f \<and> f \<ge> Boole))"

lemma route_instance:
  assumes "instance_id_active mg i" and "length domain = 4"
    and "\<And>pk kind h. i = ProposerInstanceId pk kind h \<Longrightarrow> pk_deserialize pk = Some pk"
  shows "route_message pk_deserialize mg (instance_message_id domain i) (instance_height_of i) = Ok i"
proof (cases i)
  case (ProposerInstanceId pk kind h)
  then show ?thesis
    using assms by (cases kind) (auto simp: route_message_def)
qed (use assms in \<open>auto simp: route_message_def expect_def split: option.splits\<close>)

lemma cleaner_keeps:
  assumes "mg_instances mg i = Some t"
    and "instance_height_of i \<ge> ch_slot_saturating_sub (mg_chain mg) now QBFT_RETAIN_SLOTS"
  shows "mg_instances (manager_cleaner_step mg (Some now)) i = Some t"
  using assms by (simp add: manager_cleaner_step_def Let_def)

section \<open>A committee of managers\<close>

text \<open>
  The honest operators of a committee each run one instance through their manager: with the same
  schedule and epoch length, on messages that pass validation and are not forged in their names.
\<close>

definition managed_run ::
    "codec \<Rightarrow> operator_id list \<Rightarrow> instance_id \<Rightarrow> operator_id set \<Rightarrow> (operator_id \<Rightarrow> 'd manager)
     \<Rightarrow> (operator_id \<Rightarrow> 'd instance_event list) \<Rightarrow> bool" where
  "managed_run cdc com i H mgs ess \<longleftrightarrow>
     faults_bounded com H
     \<and> (\<forall>a \<in> H. \<forall>b \<in> H. mg_slots_per_epoch (mgs a) = mg_slots_per_epoch (mgs b)
          \<and> mg_fork_schedule (mgs a) = mg_fork_schedule (mgs b))
     \<and> (\<forall>s \<in> H. task_log (ess s) \<noteq> None
          \<and> qe_codec (nd_env (task_node (ess s))) = cdc
          \<and> decide_config (mgs s) i com = Ok (nd_config (task_node (ess s)), nd_identifier (task_node (ess s)))
          \<and> (\<forall>e \<in> set (nd_events (task_node (ess s))).
               event_admissible (unforged cdc (\<lambda>s. task_node (ess s)) H) e))"

lemma managed_committee_run:
  assumes m: "managed_run cdc com i H mgs ess" and "a \<in> H"
  shows "\<exists>lf. committee_run cdc com (instance_height_of i) lf H (\<lambda>s. task_node (ess s))"
proof -
  let ?h = "instance_height_of i"
  have dc: "decide_config (mgs s) i com = Ok (nd_config (task_node (ess s)), nd_identifier (task_node (ess s)))"
    if "s \<in> H" for s using m that by (simp add: managed_run_def)
  have lf: "\<exists>dl. instance_leader_fn (mgs s) ?h = Some dl \<and> cf_leader_fn (nd_config (task_node (ess s))) = leader_function dl"
    if "s \<in> H" for s using decide_config_Ok(5) [OF dc [OF that]] .
  obtain dl where dl: "instance_leader_fn (mgs a) ?h = Some dl" using lf [OF assms(2)] by blast
  have same: "instance_leader_fn (mgs s) ?h = instance_leader_fn (mgs a) ?h" if "s \<in> H" for s
  proof -
    have "mg_slots_per_epoch (mgs s) = mg_slots_per_epoch (mgs a)" "mg_fork_schedule (mgs s) = mg_fork_schedule (mgs a)"
      using m that assms(2) unfolding managed_run_def by blast+
    then show ?thesis by (simp add: instance_leader_fn_def)
  qed
  have "cf_leader_fn (nd_config (task_node (ess s))) = leader_function dl" if "s \<in> H" for s
    using lf [OF that] same [OF that] dl by auto
  moreover have "cf_committee_members (nd_config (task_node (ess s))) = com"
    "cf_instance_height (nd_config (task_node (ess s))) = ?h" if "s \<in> H" for s
    using decide_config_Ok(1,2) [OF dc [OF that]] .
  moreover have "faults_bounded com H" using m by (simp add: managed_run_def)
  ultimately have "committee_run cdc com ?h (leader_function dl) H (\<lambda>s. task_node (ess s))"
    using m unfolding committee_run_def managed_run_def by (auto intro: leader_function_unique)
  then show ?thesis by blast
qed

lemma managed_agree:
  assumes m: "managed_run cdc com i H mgs ess" and H: "a \<in> H" "b \<in> H"
    and x: "tk_instance (task_run (ess a)) = Decided (Success x)"
    and y: "tk_instance (task_run (ess b)) = Decided (Success y)"
    and bound: "\<And>s w now. s \<in> H \<Longrightarrow> NetworkMessage w now \<in> set (ess s) \<Longrightarrow>
      full_data_bound (nd_env (task_node (ess s))) w"
  shows "qe_hash (nd_env (task_node (ess a))) x = qe_hash (nd_env (task_node (ess b))) y"
proof -
  obtain lf where "committee_run cdc com (instance_height_of i) lf H (\<lambda>s. task_node (ess s))"
    using managed_committee_run [OF m H(1)] by blast
  then show ?thesis
    using task_decided_root [OF x bound [OF H(1)]] task_decided_root [OF y bound [OF H(2)]]
    by (rule completed_agree [OF _ H])
qed

end
