(* ===== verification/Manager_Demo.thy ===== *)
theory Manager_Demo
  imports Qbft_Demo Qbft_Manager
begin

text \<open>
  The committee of \<open>Qbft_Demo\<close> run by the instance tasks of four managers: the concrete input on
  which the theorems on tasks and managers are evaluated.
\<close>

definition demo_chain :: chain where
  "demo_chain =
     \<lparr>ch_epoch = (\<lambda>s n. s div n), ch_start_slot = (\<lambda>e n. e * n),
      ch_slot_iter = (\<lambda>e n. map (\<lambda>k. e * n + of_nat k) [0..<unat n]), ch_slot_add = (+),
      ch_slot_saturating_sub = (\<lambda>a b. if b \<le> a then a - b else 0),
      ch_epoch_saturating_sub = (\<lambda>a b. if b \<le> a then a - b else 0),
      ch_epoch_safe_div = (\<lambda>a b. if b = 0 then None else Some (a div b)),
      ch_gloas_enabled = (\<lambda>_. False), ch_gloas_fork_epoch = None, ch_min_seed_lookahead = 1,
      ch_sync_committee_subnet_count = 4\<rparr>"

definition demo_schedule :: fork_schedule where
  "demo_schedule = \<lparr>fs_configs = [(Alan, fork_config_new Alan 0 [0, 0, 0, 1])], fs_network_name = ''demo''\<rparr>"

definition demo_manager :: "operator_id \<Rightarrow> bytes manager" where
  "demo_manager s =
     \<lparr>mg_operator_id = Some s, mg_instances = Map.empty, mg_slots_per_epoch = 32,
      mg_eth_slots_per_epoch = 32, mg_fork_schedule = demo_schedule, mg_chain = demo_chain\<rparr>"

definition demo_instance :: instance_id where
  "demo_instance = CommitteeInstanceId (replicate 32 5) 5"

definition demo_init :: "operator_id \<Rightarrow> bytes qbft_initialization" where
  "demo_init s =
     \<lparr>qi_env = demo_env, qi_initial = [7], qi_message_id = demo_id, qi_timeout_mode = SlotTime 0,
      qi_config = demo_config s, qi_listener = 3\<rparr>"

definition demo_messages :: "wrapped_qbft_message list" where
  "demo_messages = demo_wrapped 2 Proposal # map (\<lambda>s. demo_wrapped s Prepare) [1, 2, 3]
     @ map (\<lambda>s. demo_wrapped s Commit) [1, 2, 3]"

definition demo_task_events :: "operator_id \<Rightarrow> bytes instance_event list" where
  "demo_task_events s = Initialize (demo_init s) 0 # map (\<lambda>w. NetworkMessage w 0) demo_messages"

text \<open>The task of operator \<open>s\<close> with its instance in state \<open>q\<close>.\<close>

definition demo_task :: "bytes qbft \<Rightarrow> bytes instance_task" where
  "demo_task q =
     \<lparr>tk_instance = Initialized \<lparr>in_env = demo_env, in_qbft = q, in_on_completed = [3],
        in_timeout_mode = SlotTime 0\<rparr>, tk_notified = [], tk_decided_sent = [], tk_running = True\<rparr>"

definition demo_decided :: "bytes qbft \<Rightarrow> bytes instance_task" where
  "demo_decided q =
     \<lparr>tk_instance = Decided (Success [7]), tk_notified = [(3, Success [7])],
      tk_decided_sent = (case qb_aggregated_commit q of Some m \<Rightarrow> [(m, demo_committee)] | None \<Rightarrow> []),
      tk_running = True\<rparr>"

lemma demo_deadline:
  "qb_current_round q = 1 \<Longrightarrow> round_deadline \<lparr>in_env = demo_env, in_qbft = q, in_on_completed = [3],
        in_timeout_mode = SlotTime 0\<rparr> = Some (2 * 10 ^ 9)"
  by (simp add: round_deadline_def calculate_round_timeout_def cumulative_timeout_eq deadline_secs_def
      instant_checked_add_def)

lemma demo_initialized:
  assumes "node_start (demo_node s) = demo_state s [] [] [] sent"
  shows "task_step task_new (Initialize (demo_init s) 0) = demo_task (demo_state s [] [] [] sent)"
proof -
  let ?n = "qbft_new demo_env (demo_config s) [7] demo_id"
  have "snd ?n \<noteq> Panic"
    by (simp add: qbft_new_def start_round_def demo_data demo_receives
      demo_sends demo_leader_is_2 mc_new_def justify_round_change_quorum_def get_messages_for_round_def
      get_round_change_justifications_def get_prepare_justifications_def swallow_error_def Let_def)
  moreover have "fst ?n = demo_state s [] [] [] sent"
    using assms by (simp add: node_start_def demo_node_def)
  ultimately obtain r where "?n = (demo_state s [] [] [] sent, r)" "r \<noteq> Panic"
    by (cases ?n) auto
  then have "initialize_buffered [] (demo_init s) 0 = Some \<lparr>in_env = demo_env, in_qbft = demo_state s [] [] [] sent,
      in_on_completed = [3], in_timeout_mode = SlotTime 0\<rparr>"
    by (cases r) (simp_all add: initialize_buffered_def demo_init_def restart_timer_def)
  then show ?thesis
    by (simp add: task_step_def task_new_def task_initialize_def finish_iteration_def complete_if_done_def
        demo_task_def qbft_completed_def demo_state_def)
qed

lemma demo_task_step:
  assumes "fst (qbft_step demo_env q (Receive w)) = q'" "snd (qbft_step demo_env q (Receive w)) \<noteq> Panic"
    and "qb_current_round q = 1" "qb_current_round q' = 1" "qb_completed q' = None"
  shows "task_step (demo_task q) (NetworkMessage w 0) = demo_task q'"
  using assms
  by (cases "receive demo_env q w"; cases "snd (receive demo_env q w)")
     (simp_all add: task_step_def demo_task_def demo_deadline task_receive_def finish_iteration_def
       complete_if_done_def qbft_completed_def)

lemma demo_task_last:
  assumes "fst (qbft_step demo_env q (Receive w)) = q'" "snd (qbft_step demo_env q (Receive w)) \<noteq> Panic"
    and "qb_current_round q = 1" "qb_completed q' = Some (Success [7])" "qb_data q' [7] = Some [7]"
    and "cf_committee_members (qb_config q') = demo_committee"
  shows "task_step (demo_task q) (NetworkMessage w 0) = demo_decided q'"
  using assms
  by (cases "receive demo_env q w"; cases "snd (receive demo_env q w)")
     (simp_all add: task_step_def demo_task_def demo_deadline task_receive_def finish_iteration_def
       complete_if_done_def qbft_completed_def demo_decided_def split: option.split)

lemma demo_no_panic:
  "snd (qbft_step demo_env (demo_state s [] [] [] sent) (Receive (demo_wrapped 2 Proposal))) \<noteq> Panic"
  "snd (qbft_step demo_env (demo_state s [2] [] [] sent) (Receive (demo_wrapped 1 Prepare))) \<noteq> Panic"
  "snd (qbft_step demo_env (demo_state s [2] [1] [] sent) (Receive (demo_wrapped 2 Prepare))) \<noteq> Panic"
  "snd (qbft_step demo_env (demo_state s [2] [1, 2] [] sent) (Receive (demo_wrapped 3 Prepare))) \<noteq> Panic"
  "snd (qbft_step demo_env (demo_state s [2] [1, 2, 3] [] sent) (Receive (demo_wrapped 1 Commit))) \<noteq> Panic"
  "snd (qbft_step demo_env (demo_state s [2] [1, 2, 3] [1] sent) (Receive (demo_wrapped 2 Commit))) \<noteq> Panic"
  "snd (qbft_step demo_env (demo_state s [2] [1, 2, 3] [1, 2] sent) (Receive (demo_wrapped 3 Commit))) \<noteq> Panic"
  by (simp_all add: demo_data demo_receives demo_sends demo_quorums demo_state_codes demo_leader_is_2 insert_commute)

lemma demo_state_fields:
  "qb_current_round (demo_state s a b c sent) = 1"
  "qb_data (demo_state s a b c sent) = [[7] \<mapsto> [7]]"
  "cf_committee_members (qb_config (demo_state s a b c sent)) = demo_committee"
  "qb_completed (demo_state s a b c sent) = (if length c = 3 then Some (Success [7]) else None)"
  by (simp_all add: demo_state_def demo_config_def config_from_builder_def with_max_rounds_def
      config_builder_new_with_leader_fn_def)

lemma demo_task_run:
  assumes "node_start (demo_node s) = demo_state s [] [] [] sent"
  shows "task_run (demo_task_events s) =
    demo_decided (demo_state s [2] [1, 2, 3] [1, 2, 3] (sent @ [demo_unsigned Prepare, demo_unsigned Commit]))"
proof -
  note steps = demo_task_step [OF demo_propose demo_no_panic(1)] demo_task_step [OF demo_prepares(1) demo_no_panic(2)]
    demo_task_step [OF demo_prepares(2) demo_no_panic(3)] demo_task_step [OF demo_prepares(3) demo_no_panic(4)]
    demo_task_step [OF demo_commits(1) demo_no_panic(5)] demo_task_step [OF demo_commits(2) demo_no_panic(6)]
    demo_task_last [OF demo_commits(3) demo_no_panic(7)]
  show ?thesis
    by (simp add: task_run_def demo_task_events_def demo_messages_def demo_initialized [OF assms] steps demo_state_fields)
qed

lemma demo_task_log:
  assumes "node_start (demo_node s) = demo_state s [] [] [] sent"
  shows "task_log (demo_task_events s) = Some (demo_init s, demo_events)"
proof -
  note steps = demo_task_step [OF demo_propose demo_no_panic(1)] demo_task_step [OF demo_prepares(1) demo_no_panic(2)]
    demo_task_step [OF demo_prepares(2) demo_no_panic(3)] demo_task_step [OF demo_prepares(3) demo_no_panic(4)]
    demo_task_step [OF demo_commits(1) demo_no_panic(5)] demo_task_step [OF demo_commits(2) demo_no_panic(6)]
    demo_task_last [OF demo_commits(3) demo_no_panic(7)]
  have i: "log_event task_new None (Initialize (demo_init s) 0) = Some (demo_init s, [])"
    by (simp add: log_event_def task_new_def)
  have r: "log_event (demo_task q) (Some (demo_init s, evs)) (NetworkMessage w 0) = Some (demo_init s, evs @ [Receive w])"
    if "qb_current_round q = 1" for q evs w
    using that by (simp add: log_event_def demo_task_def demo_deadline)
  show ?thesis
    by (simp add: task_log.simps demo_task_events_def demo_messages_def demo_initialized [OF assms] steps i r
        demo_state_fields demo_events_def)
qed

lemma demo_task_node: "s \<in> {1, 2, 3} \<Longrightarrow> task_node (demo_task_events s) = demo_node s"
  using demo_task_log [OF demo_start(1)] demo_task_log [OF demo_start(2)]
  by (cases "s = 2") (simp_all add: task_node_def demo_init_def demo_node_def)

lemma demo_task_decided: "tk_instance (task_run (demo_task_events s)) = Decided (Success [7])"
  using demo_task_run [OF demo_start(1)] demo_task_run [OF demo_start(2)]
  by (cases "s = 2") (simp_all add: demo_decided_def)

lemma demo_decide_config:
  assumes "s \<in> set demo_committee"
  shows "decide_config (demo_manager s) demo_instance demo_committee = Ok (demo_config s, demo_id)"
proof -
  have "domain_type_for_instance (demo_manager s) 5 = Some [0, 0, 0, 1]"
    by (simp add: domain_type_for_instance_def demo_manager_def demo_schedule_def demo_chain_def
        active_fork_config_def fork_config_new_def)
  moreover have "instance_leader_fn (demo_manager s) 5 = Some default_leader_function_default"
    by (simp add: instance_leader_fn_def demo_manager_def demo_schedule_def active_fork_def
        active_fork_config_def fork_config_new_def default_leader_function_new_def
        default_leader_function_default_def)
  moreover have "instance_message_id [0, 0, 0, 1] demo_instance = demo_id"
    by (simp add: demo_instance_def demo_id_def)
  moreover have "msgid_role demo_id = Some Committee" by (simp add: demo_id_def)
  ultimately show ?thesis
    using assms
    by (simp add: decide_config_def demo_instance_def demo_manager_def ok_or_def expect_def map_err_def
        config_build_def config_builder_new_with_leader_fn_def with_max_rounds_def demo_config_def demo_leader_def
        config_from_builder_def is_valid_committee_size_def MAX_SIGNATURES_def
        demo_committee_def round_default_def Let_def get_f_def)
qed

lemma demo_managed_run:
  "managed_run demo_codec demo_committee demo_instance {1, 2, 3} demo_manager demo_task_events"
proof -
  have "unforged demo_codec (\<lambda>s. task_node (demo_task_events s)) {1, 2, 3} w = unforged demo_codec demo_node {1, 2, 3} w" for w
    unfolding unforged_def by (auto simp: demo_task_node)
  then have "event_admissible (unforged demo_codec (\<lambda>s. task_node (demo_task_events s)) {1, 2, 3}) e"
    if "e \<in> set demo_events" for e
    using demo_admissible [OF that] by (cases e) simp_all
  moreover have "task_log (demo_task_events s) \<noteq> None" for s
    using demo_task_log [OF demo_start(1)] demo_task_log [OF demo_start(2)] by (cases "s = 2") simp_all
  moreover have "mg_slots_per_epoch (demo_manager a) = mg_slots_per_epoch (demo_manager b)"
    "mg_fork_schedule (demo_manager a) = mg_fork_schedule (demo_manager b)" for a b
    by (simp_all add: demo_manager_def)
  moreover have "{1, 2, 3} \<subseteq> set demo_committee" by (simp add: demo_committee_def)
  ultimately show ?thesis
    unfolding managed_run_def
    using demo_faults demo_decide_config demo_node_fields
    by (auto simp: demo_task_node demo_node_def)
qed

lemma demo_bound:
  assumes "s \<in> {1, 2, 3}" "NetworkMessage w now \<in> set (demo_task_events s)"
  shows "full_data_bound (nd_env (task_node (demo_task_events s))) w"
proof -
  have "nd_env (task_node (demo_task_events s)) = demo_env"
    using demo_task_node [OF assms(1)] by (simp add: demo_node_def)
  moreover have "\<exists>t ty. w = demo_wrapped t ty"
    using assms(2) by (auto simp: demo_task_events_def demo_messages_def)
  ultimately show ?thesis
    by (auto simp: full_data_bound_def demo_env_def demo_wrapped_def demo_message_def split: if_splits)
qed

end
