(* ===== verification/Validation_Failure.thy ===== *)
theory Validation_Failure
  imports Fork_Schedule
begin

text \<open>
  The verdicts of the message validator (\<open>message_validator/src/lib.rs\<close>): the failures, which of
  them gossipsub ignores and which it rejects, and how the structural errors of a signed message
  map to failures.
\<close>

section \<open>Failures and acceptance (lib.rs)\<close>

text \<open>A field that the source fills with a formatted string holds the data it is formatted from,
  or the leading word of the string.\<close>

datatype (plugins only: code) validation_failure =
    VfWrongDomain | NoShareMetadata | UnknownValidator | ValidatorLiquidated | ValidatorNotAttesting
  | ValidatorRegistrationRetired | EarlySlotMessage nat | LateSlotMessage nat
  | SlotAlreadyAdvanced u64 u64 | RoundAlreadyAdvanced u64 u64 | DecidedWithSameSigners
  | PubSubDataTooBig nat | IncorrectTopic | TopicForkMismatch | UnknownMessageSlot
  | NonExistentCommitteeID | RoundTooHigh | ValidatorIndexMismatch | NoDuty
  | EstimatedRoundNotInAllowedSpread u64 u64 | VfEmptyData | MismatchedIdentifier bytes bytes
  | SignatureVerification | PubSubMessageHasNoData | MalformedPubSubMessage | NilSignedSSVMessage
  | NilSSVMessage | VfSSVDataTooBig | InvalidRole | UnexpectedConsensusMessage | VfNoSigners
  | VfWrongRSASignatureSize | VfZeroSigner | VfSignerNotInCommittee | VfDuplicatedSigner
  | SignerNotLeader operator_id operator_id | VfSignersNotSorted | InconsistentSigners | InvalidHash
  | FullDataHash | UndecodableMessageData decode_error | EventMessage | UnknownSSVMessageType
  | UnknownQBFTMessageType | InvalidPartialSignatureType | PartialSignatureTypeRoleMismatch
  | NonDecidedWithMultipleSigners nat nat | DecidedNotEnoughSigners nat nat | DifferentProposalData
  | MalformedJustifications | UnexpectedPrepareJustifications | UnexpectedRoundChangeJustifications
  | NoPartialSignatureMessages | NoValidators | VfNoSignatures | OperatorNotFound operator_id
  | VfSignersAndSignaturesWithDifferentLength | PartialSigOneSigner | PrepareOrCommitWithFullData
  | FullDataNotInConsensusMessage | TooManyValidatorIndexOccurrences validator_index nat nat
  | ZeroRound | RoundOverflow | DuplicatedMessage string | InvalidPartialSignatureTypeCount string
  | TooManyDistinctSigningRoots nat nat nat | RelayedDuplicateMessage partial_signature_kind
  | TooManyPartialSignatureMessages nat nat | InconsistentValidatorIndices | EncodeOperators
  | SlotStartTimeNotFound slot | SignatureVerificationFailed string | ExcessiveDutyCount u64 u64 role
  | SyncCommitteePeriodCalculationFailure | UnexpectedFailure string
  | RoleNotActiveBeforeFork role fork fork | RoleNotActiveAfterFork role fork fork
  | RoleNotActiveBeforeEthFork role | RoleNotActiveAfterEthFork role

datatype message_acceptance = Accept | Ignore | Reject

definition failure_acceptance :: "validation_failure \<Rightarrow> message_acceptance" where
  "failure_acceptance failure =
     (case failure of
        VfWrongDomain \<Rightarrow> Ignore
      | NoShareMetadata \<Rightarrow> Ignore
      | UnknownValidator \<Rightarrow> Ignore
      | ValidatorLiquidated \<Rightarrow> Ignore
      | ValidatorNotAttesting \<Rightarrow> Ignore
      | ValidatorRegistrationRetired \<Rightarrow> Ignore
      | EarlySlotMessage _ \<Rightarrow> Ignore
      | LateSlotMessage _ \<Rightarrow> Ignore
      | SlotAlreadyAdvanced _ _ \<Rightarrow> Ignore
      | RoundAlreadyAdvanced _ _ \<Rightarrow> Ignore
      | DecidedWithSameSigners \<Rightarrow> Ignore
      | PubSubDataTooBig _ \<Rightarrow> Ignore
      | IncorrectTopic \<Rightarrow> Ignore
      | NonExistentCommitteeID \<Rightarrow> Ignore
      | RoundTooHigh \<Rightarrow> Ignore
      | RoundOverflow \<Rightarrow> Ignore
      | ValidatorIndexMismatch \<Rightarrow> Ignore
      | ExcessiveDutyCount _ _ _ \<Rightarrow> Ignore
      | NoDuty \<Rightarrow> Ignore
      | EstimatedRoundNotInAllowedSpread _ _ \<Rightarrow> Ignore
      | TooManyDistinctSigningRoots _ _ _ \<Rightarrow> Ignore
      | RelayedDuplicateMessage _ \<Rightarrow> Ignore
      | _ \<Rightarrow> Reject)"

fun failure_of_ssv_error :: "ssv_message_error \<Rightarrow> validation_failure" where
  "failure_of_ssv_error EmptyData = VfEmptyData"
| "failure_of_ssv_error (SSVDataTooBig _ _) = VfSSVDataTooBig"
| "failure_of_ssv_error (WrongDomain _ _) = VfWrongDomain"
| "failure_of_ssv_error (SsvSignerNotInCommittee _ _) = VfSignerNotInCommittee"

fun failure_of_signed_error :: "signed_ssv_message_error \<Rightarrow> validation_failure" where
  "failure_of_signed_error (WrongRSASignatureSize _ _ _) = VfWrongRSASignatureSize"
| "failure_of_signed_error NoSigners = VfNoSigners"
| "failure_of_signed_error NoSignatures = VfNoSignatures"
| "failure_of_signed_error ZeroSigner = VfZeroSigner"
| "failure_of_signed_error DuplicatedSigner = VfDuplicatedSigner"
| "failure_of_signed_error SignersAndSignaturesWithDifferentLength =
     VfSignersAndSignaturesWithDifferentLength"
| "failure_of_signed_error (SSVMessageError e) = failure_of_ssv_error e"
| "failure_of_signed_error (TooManySignatures _ _) = UnexpectedFailure ''TooManySignatures''"
| "failure_of_signed_error (TooManyOperatorIDs _ _) = UnexpectedFailure ''TooManyOperatorIDs''"
| "failure_of_signed_error (FullDataTooLong _ _) = UnexpectedFailure ''FullDataTooLong''"
| "failure_of_signed_error SignersNotSorted = UnexpectedFailure ''SignersNotSorted''"

end
