(* ===== verification/Duty_State.thy ===== *)
theory Duty_State
  imports Validation_Failure
begin

text \<open>
  The state of the message validator (\<open>message_counts.rs\<close>, \<open>duty_state.rs\<close>): per message
  identifier and operator a ring of per-slot signer states with message counters, the seen signer
  sets of decided messages and the signing-root budgets.
\<close>

section \<open>Message counts (message_counts.rs)\<close>

definition MAX_MESSAGES_PER_ROUND :: byte where "MAX_MESSAGES_PER_ROUND = 1"

record message_counts =
  ct_pre_consensus :: byte
  ct_proposal :: byte
  ct_prepare :: byte
  ct_commit :: byte
  ct_round_change :: byte
  ct_post_consensus :: byte

definition message_counts_default :: message_counts where
  "message_counts_default = \<lparr>ct_pre_consensus = 0, ct_proposal = 0, ct_prepare = 0, ct_commit = 0,
     ct_round_change = 0, ct_post_consensus = 0\<rparr>"

definition validate_consensus_message_limits ::
    "message_counts \<Rightarrow> signed_ssv_message \<Rightarrow> qbft_message_type \<Rightarrow> validation_failure + unit" where
  "validate_consensus_message_limits c sm t =
     (case t of
        Proposal \<Rightarrow>
          if ct_proposal c \<ge> MAX_MESSAGES_PER_ROUND then Inl (DuplicatedMessage ''proposal'') else Inr ()
      | Prepare \<Rightarrow>
          if ct_prepare c \<ge> MAX_MESSAGES_PER_ROUND then Inl (DuplicatedMessage ''prepare'') else Inr ()
      | Commit \<Rightarrow>
          if length (sg_operator_ids sm) = 1 \<and> ct_commit c \<ge> MAX_MESSAGES_PER_ROUND
          then Inl (DuplicatedMessage ''commit'') else Inr ()
      | RoundChange \<Rightarrow>
          if ct_round_change c \<ge> MAX_MESSAGES_PER_ROUND
          then Inl (DuplicatedMessage ''round change'') else Inr ())"

fun pre_consensus_kind :: "partial_signature_kind \<Rightarrow> bool" where
  "pre_consensus_kind RandaoPartialSig = True"
| "pre_consensus_kind SelectionProofPartialSig = True"
| "pre_consensus_kind ContributionProofs = True"
| "pre_consensus_kind KindValidatorRegistration = True"
| "pre_consensus_kind KindVoluntaryExit = True"
| "pre_consensus_kind AggregatorCommitteePartialSig = True"
| "pre_consensus_kind KindPTCAttester = True"
| "pre_consensus_kind _ = False"

definition counts_validate_partial_signature_message ::
    "message_counts \<Rightarrow> partial_signature_messages \<Rightarrow> validation_failure + unit" where
  "counts_validate_partial_signature_message c p =
     (if pre_consensus_kind (ps_kind p) then
        if ct_pre_consensus c \<ge> MAX_MESSAGES_PER_ROUND
        then Inl (InvalidPartialSignatureTypeCount ''pre-consensus'') else Inr ()
      else if ps_kind p = PostConsensus then
        if ct_post_consensus c \<ge> MAX_MESSAGES_PER_ROUND
        then Inl (InvalidPartialSignatureTypeCount ''post-consensus'') else Inr ()
      else Inr ())"

definition record_consensus_message :: "message_counts \<Rightarrow> qbft_message_type \<Rightarrow> nat \<Rightarrow> message_counts" where
  "record_consensus_message c t signer_count =
     (case t of
        Proposal \<Rightarrow> c\<lparr>ct_proposal := ct_proposal c + 1\<rparr>
      | Prepare \<Rightarrow> c\<lparr>ct_prepare := ct_prepare c + 1\<rparr>
      | Commit \<Rightarrow> if signer_count = 1 then c\<lparr>ct_commit := ct_commit c + 1\<rparr> else c
      | RoundChange \<Rightarrow> c\<lparr>ct_round_change := ct_round_change c + 1\<rparr>)"

definition record_partial_signature :: "message_counts \<Rightarrow> partial_signature_kind \<Rightarrow> message_counts" where
  "record_partial_signature c k =
     (if pre_consensus_kind k then c\<lparr>ct_pre_consensus := ct_pre_consensus c + 1\<rparr>
      else if k = PostConsensus then c\<lparr>ct_post_consensus := ct_post_consensus c + 1\<rparr>
      else c)"

section \<open>Signer states (duty_state.rs)\<close>

definition MAX_PROPOSER_PREFERENCES_DISTINCT_ROOTS :: nat where
  "MAX_PROPOSER_PREFERENCES_DISTINCT_ROOTS = 4"
definition MAX_REQUEST_AUTH_DISTINCT_ROOTS :: nat where
  "MAX_REQUEST_AUTH_DISTINCT_ROOTS = 8"

record signing_root_budgets =
  rb_preferences :: "hash256 set"
  rb_request_auth :: "hash256 set"

definition signing_root_budgets_default :: signing_root_budgets where
  "signing_root_budgets_default = \<lparr>rb_preferences = {}, rb_request_auth = {}\<rparr>"

record signer_state =
  ss_slot :: slot
  ss_round :: u64
  ss_message_counts :: message_counts
  ss_proposal_hash :: "hash256 option"
  ss_seen_signers :: "committee_id set"
  ss_root_budgets :: "signing_root_budgets option"

definition signer_state_new :: "slot \<Rightarrow> u64 \<Rightarrow> signer_state" where
  "signer_state_new sl r =
     \<lparr>ss_slot = sl, ss_round = r, ss_message_counts = message_counts_default,
      ss_proposal_hash = None, ss_seen_signers = {}, ss_root_budgets = None\<rparr>"

definition budgets_of :: "signer_state \<Rightarrow> signing_root_budgets" where
  "budgets_of ss = (case ss_root_budgets ss of None \<Rightarrow> signing_root_budgets_default | Some b \<Rightarrow> b)"

text \<open>\<open>root_budget\<close> hands out a mutable set with its cap; the model returns the set, the cap and how
  to write the set back, and \<open>get_or_insert_default\<close> is the state the write starts from.\<close>

fun root_budget :: "signer_state \<Rightarrow> partial_signature_kind \<Rightarrow> (hash256 set \<times> nat) option" where
  "root_budget ss KindProposerPreferences =
     Some (rb_preferences (budgets_of ss), MAX_PROPOSER_PREFERENCES_DISTINCT_ROOTS)"
| "root_budget ss RequestAuth = Some (rb_request_auth (budgets_of ss), MAX_REQUEST_AUTH_DISTINCT_ROOTS)"
| "root_budget ss _ = None"

fun root_budget_write :: "signer_state \<Rightarrow> partial_signature_kind \<Rightarrow> hash256 set \<Rightarrow> signer_state" where
  "root_budget_write ss KindProposerPreferences roots =
     ss\<lparr>ss_root_budgets := Some ((budgets_of ss)\<lparr>rb_preferences := roots\<rparr>)\<rparr>"
| "root_budget_write ss RequestAuth roots =
     ss\<lparr>ss_root_budgets := Some ((budgets_of ss)\<lparr>rb_request_auth := roots\<rparr>)\<rparr>"
| "root_budget_write ss _ roots = ss"

definition has_seen_signers :: "(bytes \<Rightarrow> bytes) \<Rightarrow> signer_state \<Rightarrow> operator_id list \<Rightarrow> bool" where
  "has_seen_signers sha256 ss operators = (committee_id_of_slice sha256 operators \<in> ss_seen_signers ss)"

definition signer_state_update ::
    "(bytes \<Rightarrow> bytes) \<Rightarrow> signer_state \<Rightarrow> signed_ssv_message \<Rightarrow> qbft_message \<Rightarrow> signer_state" where
  "signer_state_update sha256 ss sm m =
     (let s1 = (if sg_full_data sm \<noteq> [] \<and> qm_type m = Proposal
                then ss\<lparr>ss_proposal_hash := Some (qm_root m)\<rparr> else ss);
          s2 = (if length (sg_operator_ids sm) > 1
                then s1\<lparr>ss_seen_signers :=
                       insert (committee_id_of_slice sha256 (sg_operator_ids sm)) (ss_seen_signers s1)\<rparr>
                else s1)
      in s2\<lparr>ss_message_counts :=
             record_consensus_message (ss_message_counts s2) (qm_type m) (length (sg_operator_ids sm))\<rparr>)"

section \<open>Operator states (duty_state.rs)\<close>

text \<open>The ring of a duty has at least one entry (\<open>stored_slot_count\<close>); the modulus of the index is
  its length.\<close>

record operator_state =
  os_state :: "signer_state option list"
  os_max_slot :: slot

definition operator_state_new :: "nat \<Rightarrow> operator_state" where
  "operator_state_new stored_slot_count = \<lparr>os_state = replicate stored_slot_count None, os_max_slot = 0\<rparr>"

definition ring_index :: "operator_state \<Rightarrow> slot \<Rightarrow> nat" where
  "ring_index os sl = unat sl mod length (os_state os)"

definition get_signer_state :: "operator_state \<Rightarrow> slot \<Rightarrow> signer_state option" where
  "get_signer_state os sl =
     (case os_state os ! ring_index os sl of
        None \<Rightarrow> None
      | Some ss \<Rightarrow> if ss_slot ss = sl then Some ss else None)"

definition get_duty_count :: "chain \<Rightarrow> operator_state \<Rightarrow> epoch \<Rightarrow> u64 \<Rightarrow> u64" where
  "get_duty_count C os e slots_per_epoch =
     of_nat (length (filter (\<lambda>sl. get_signer_state os sl \<noteq> None) (ch_slot_iter C e slots_per_epoch)))"

definition is_first_message_for_duty :: "operator_state \<Rightarrow> slot \<Rightarrow> bool" where
  "is_first_message_for_duty os sl = (get_signer_state os sl = None)"

definition set_signer_state :: "operator_state \<Rightarrow> slot \<Rightarrow> signer_state \<Rightarrow> operator_state" where
  "set_signer_state os sl ss =
     os\<lparr>os_state := (os_state os)[ring_index os sl := Some ss],
        os_max_slot := (if sl > os_max_slot os then sl else os_max_slot os)\<rparr>"

text \<open>Writing through the reference \<open>get_signer_state_mut\<close> returned.\<close>

definition put_signer_state :: "operator_state \<Rightarrow> slot \<Rightarrow> signer_state \<Rightarrow> operator_state" where
  "put_signer_state os sl ss = os\<lparr>os_state := (os_state os)[ring_index os sl := Some ss]\<rparr>"

definition operator_state_update ::
    "(bytes \<Rightarrow> bytes) \<Rightarrow> operator_state \<Rightarrow> signed_ssv_message \<Rightarrow> qbft_message \<Rightarrow> slot \<Rightarrow> operator_state" where
  "operator_state_update sha256 os sm m sl =
     (let (os1, ss) =
        (case get_signer_state os sl of
           Some ss \<Rightarrow>
             if qm_round m > ss_round ss
             then (set_signer_state os sl (signer_state_new sl (qm_round m)), signer_state_new sl (qm_round m))
             else (os, ss)
         | None \<Rightarrow>
             (set_signer_state os sl (signer_state_new sl (qm_round m)), signer_state_new sl (qm_round m)))
      in put_signer_state os1 sl (signer_state_update sha256 ss sm m))"

section \<open>Duty states (duty_state.rs)\<close>

record duty_state =
  ds_operators :: "operator_id \<rightharpoonup> operator_state"
  ds_stored_slot_count :: nat

definition duty_state_new :: "nat \<Rightarrow> duty_state" where
  "duty_state_new stored_slot_count = \<lparr>ds_operators = Map.empty, ds_stored_slot_count = stored_slot_count\<rparr>"

definition operator_or_new :: "duty_state \<Rightarrow> operator_id \<Rightarrow> operator_state" where
  "operator_or_new ds signer =
     (case ds_operators ds signer of
        Some os \<Rightarrow> os | None \<Rightarrow> operator_state_new (ds_stored_slot_count ds))"

definition put_operator :: "duty_state \<Rightarrow> operator_id \<Rightarrow> operator_state \<Rightarrow> duty_state" where
  "put_operator ds signer os = ds\<lparr>ds_operators := (ds_operators ds)(signer \<mapsto> os)\<rparr>"

definition get_or_create_operator :: "duty_state \<Rightarrow> operator_id \<Rightarrow> duty_state \<times> operator_state" where
  "get_or_create_operator ds signer =
     (let os = operator_or_new ds signer in (put_operator ds signer os, os))"

definition update_for_consensus_message ::
    "(bytes \<Rightarrow> bytes) \<Rightarrow> duty_state \<Rightarrow> signed_ssv_message \<Rightarrow> qbft_message \<Rightarrow> duty_state" where
  "update_for_consensus_message sha256 ds sm m =
     foldl (\<lambda>ds signer.
       let (ds1, os) = get_or_create_operator ds signer in
       put_operator ds1 signer (operator_state_update sha256 os sm m (qm_height m)))
       ds (sg_operator_ids sm)"

definition FIRST_ROUND :: u64 where "FIRST_ROUND = 1"

definition update_for_partial_signature ::
    "duty_state \<Rightarrow> partial_signature_messages \<Rightarrow> operator_id \<Rightarrow> duty_state \<times> (unit, validation_failure) outcome" where
  "update_for_partial_signature ds p signer =
     (let (ds1, os) = get_or_create_operator ds signer;
          sl = ps_slot p;
          (os1, ss) =
            (case get_signer_state os sl of
               Some existing \<Rightarrow> (os, existing)
             | None \<Rightarrow> (set_signer_state os sl (signer_state_new sl FIRST_ROUND), signer_state_new sl FIRST_ROUND));
          store = (\<lambda>ss. put_operator ds1 signer (put_signer_state os1 sl ss));
          finish = (\<lambda>ss. (store (ss\<lparr>ss_message_counts :=
                              record_partial_signature (ss_message_counts ss) (ps_kind p)\<rparr>), Ok ()))
      in case root_budget ss (ps_kind p) of
           None \<Rightarrow> finish ss
         | Some (seen_roots, cap) \<Rightarrow>
             let touched = store (root_budget_write ss (ps_kind p) seen_roots);
                 new_roots = set (map psm_signing_root (ps_messages p)) - seen_roots
             in if ps_messages p = [] then (touched, Err NoPartialSignatureMessages)
                else if new_roots = {} then (touched, Err (RelayedDuplicateMessage (ps_kind p)))
                else if card seen_roots + card new_roots > cap
                then (touched, Err (TooManyDistinctSigningRoots (card seen_roots) (card new_roots) cap))
                else finish (root_budget_write ss (ps_kind p) (seen_roots \<union> new_roots)))"

definition duty_state_outdated :: "chain \<Rightarrow> duty_state \<Rightarrow> slot \<Rightarrow> bool" where
  "duty_state_outdated C ds current_slot =
     (\<forall>os \<in> ran (ds_operators ds).
        os_max_slot os < ch_slot_saturating_sub C current_slot (of_nat (ds_stored_slot_count ds)))"

end
