(* ===== verification/Multi_Index.thy ===== *)
theory Multi_Index
  imports Anchor_Prelude
begin

text \<open>
  The multi-index map of the \<open>database\<close> crate (\<open>multi_index.rs\<close>): a primary hash map and three
  further indices, each unique or not according to a type tag. A hash map is a partial function
  and a hash set a set; what iterates over a hash set takes the iteration order as an argument,
  because the order is unspecified.
\<close>

section \<open>Data\<close>

datatype index_tag = UniqueTag | NonUniqueTag

record index_tags =
  it_secondary :: index_tag
  it_tertiary :: index_tag
  it_quaternary :: index_tag

record ('k1, 'k2, 'k3, 'k4, 'v) multi_index_map =
  mi_primary :: "'k1 \<rightharpoonup> 'v"
  mi_secondary_unique :: "'k2 \<rightharpoonup> 'k1"
  mi_secondary_multi :: "'k2 \<rightharpoonup> 'k1 set"
  mi_tertiary_unique :: "'k3 \<rightharpoonup> 'k1"
  mi_tertiary_multi :: "'k3 \<rightharpoonup> 'k1 set"
  mi_quaternary_unique :: "'k4 \<rightharpoonup> 'k1"
  mi_quaternary_multi :: "'k4 \<rightharpoonup> 'k1 set"

definition mi_new :: "('k1, 'k2, 'k3, 'k4, 'v) multi_index_map" where
  "mi_new = \<lparr>mi_primary = Map.empty, mi_secondary_unique = Map.empty, mi_secondary_multi = Map.empty,
     mi_tertiary_unique = Map.empty, mi_tertiary_multi = Map.empty,
     mi_quaternary_unique = Map.empty, mi_quaternary_multi = Map.empty\<rparr>"

section \<open>One index\<close>

definition keys_of :: "('k \<rightharpoonup> 'p set) \<Rightarrow> 'k \<Rightarrow> 'p set" where
  "keys_of m k = (case m k of None \<Rightarrow> {} | Some s \<Rightarrow> s)"

definition unique_insert :: "'k \<Rightarrow> 'p \<Rightarrow> ('k \<rightharpoonup> 'p) \<Rightarrow> ('k \<rightharpoonup> 'p)" where
  "unique_insert k p m = m(k \<mapsto> p)"

definition multi_insert :: "'k \<Rightarrow> 'p \<Rightarrow> ('k \<rightharpoonup> 'p set) \<Rightarrow> ('k \<rightharpoonup> 'p set)" where
  "multi_insert k p m = m(k \<mapsto> insert p (keys_of m k))"

definition unique_retain :: "'p \<Rightarrow> ('k \<rightharpoonup> 'p) \<Rightarrow> ('k \<rightharpoonup> 'p)" where
  "unique_retain p m = (\<lambda>k. case m k of None \<Rightarrow> None | Some q \<Rightarrow> if q \<noteq> p then Some q else None)"

definition multi_retain :: "'p \<Rightarrow> ('k \<rightharpoonup> 'p set) \<Rightarrow> ('k \<rightharpoonup> 'p set)" where
  "multi_retain p m =
     (\<lambda>k. case m k of None \<Rightarrow> None | Some s \<Rightarrow> if s - {p} \<noteq> {} then Some (s - {p}) else None)"

section \<open>Operations\<close>

definition insert_or_update ::
    "index_tags \<Rightarrow> ('k1, 'k2, 'k3, 'k4, 'v) multi_index_map \<Rightarrow> 'k1 \<Rightarrow> 'k2 \<Rightarrow> 'k3 \<Rightarrow> 'k4 \<Rightarrow> 'v
     \<Rightarrow> ('k1, 'k2, 'k3, 'k4, 'v) multi_index_map" where
  "insert_or_update T m k1 k2 k3 k4 v =
     (let m0 = m\<lparr>mi_primary := (mi_primary m)(k1 \<mapsto> v)\<rparr>;
          m1 = (case it_secondary T of
                  UniqueTag \<Rightarrow> m0\<lparr>mi_secondary_unique := unique_insert k2 k1 (mi_secondary_unique m0)\<rparr>
                | NonUniqueTag \<Rightarrow> m0\<lparr>mi_secondary_multi := multi_insert k2 k1 (mi_secondary_multi m0)\<rparr>);
          m2 = (case it_tertiary T of
                  UniqueTag \<Rightarrow> m1\<lparr>mi_tertiary_unique := unique_insert k3 k1 (mi_tertiary_unique m1)\<rparr>
                | NonUniqueTag \<Rightarrow> m1\<lparr>mi_tertiary_multi := multi_insert k3 k1 (mi_tertiary_multi m1)\<rparr>)
      in (case it_quaternary T of
            UniqueTag \<Rightarrow> m2\<lparr>mi_quaternary_unique := unique_insert k4 k1 (mi_quaternary_unique m2)\<rparr>
          | NonUniqueTag \<Rightarrow> m2\<lparr>mi_quaternary_multi := multi_insert k4 k1 (mi_quaternary_multi m2)\<rparr>))"

definition mi_remove ::
    "index_tags \<Rightarrow> ('k1, 'k2, 'k3, 'k4, 'v) multi_index_map \<Rightarrow> 'k1
     \<Rightarrow> ('k1, 'k2, 'k3, 'k4, 'v) multi_index_map \<times> 'v option" where
  "mi_remove T m k1 =
     (case mi_primary m k1 of
        None \<Rightarrow> (m, None)
      | Some removed \<Rightarrow>
          let m0 = m\<lparr>mi_primary := (mi_primary m)(k1 := None)\<rparr>;
              m1 = (case it_secondary T of
                      UniqueTag \<Rightarrow> m0\<lparr>mi_secondary_unique := unique_retain k1 (mi_secondary_unique m0)\<rparr>
                    | NonUniqueTag \<Rightarrow> m0\<lparr>mi_secondary_multi := multi_retain k1 (mi_secondary_multi m0)\<rparr>);
              m2 = (case it_tertiary T of
                      UniqueTag \<Rightarrow> m1\<lparr>mi_tertiary_unique := unique_retain k1 (mi_tertiary_unique m1)\<rparr>
                    | NonUniqueTag \<Rightarrow> m1\<lparr>mi_tertiary_multi := multi_retain k1 (mi_tertiary_multi m1)\<rparr>);
              m3 = (case it_quaternary T of
                      UniqueTag \<Rightarrow> m2\<lparr>mi_quaternary_unique := unique_retain k1 (mi_quaternary_unique m2)\<rparr>
                    | NonUniqueTag \<Rightarrow> m2\<lparr>mi_quaternary_multi := multi_retain k1 (mi_quaternary_multi m2)\<rparr>)
          in (m3, Some removed))"

definition mi_update ::
    "('k1, 'k2, 'k3, 'k4, 'v) multi_index_map \<Rightarrow> 'k1 \<Rightarrow> 'v
     \<Rightarrow> ('k1, 'k2, 'k3, 'k4, 'v) multi_index_map \<times> 'v option" where
  "mi_update m k1 new_value =
     (if mi_primary m k1 = None then (m, None)
      else (m\<lparr>mi_primary := (mi_primary m)(k1 \<mapsto> new_value)\<rparr>, mi_primary m k1))"

text \<open>Lookup by the primary key, and writing through the reference \<open>get_mut_by\<close> returns.\<close>

definition get_by_primary :: "('k1, 'k2, 'k3, 'k4, 'v) multi_index_map \<Rightarrow> 'k1 \<Rightarrow> 'v option" where
  "get_by_primary m k = mi_primary m k"

definition modify_by_primary ::
    "('k1, 'k2, 'k3, 'k4, 'v) multi_index_map \<Rightarrow> 'k1 \<Rightarrow> ('v \<Rightarrow> 'v) \<Rightarrow> ('k1, 'k2, 'k3, 'k4, 'v) multi_index_map" where
  "modify_by_primary m k f =
     (case mi_primary m k of None \<Rightarrow> m | Some v \<Rightarrow> m\<lparr>mi_primary := (mi_primary m)(k \<mapsto> f v)\<rparr>)"

definition get_by_secondary :: "('k1, 'k2, 'k3, 'k4, 'v) multi_index_map \<Rightarrow> 'k2 \<Rightarrow> 'v option" where
  "get_by_secondary m k =
     (case mi_secondary_unique m k of None \<Rightarrow> None | Some primary_key \<Rightarrow> mi_primary m primary_key)"

definition values_of :: "('p set \<Rightarrow> 'p list) \<Rightarrow> ('p \<rightharpoonup> 'v) \<Rightarrow> 'p set \<Rightarrow> 'v list" where
  "values_of order primary ks = List.map_filter primary (order ks)"

definition get_all_by_secondary ::
    "('k1 set \<Rightarrow> 'k1 list) \<Rightarrow> ('k1, 'k2, 'k3, 'k4, 'v) multi_index_map \<Rightarrow> 'k2 \<Rightarrow> 'v list" where
  "get_all_by_secondary order m k = values_of order (mi_primary m) (keys_of (mi_secondary_multi m) k)"

definition get_all_by_tertiary ::
    "('k1 set \<Rightarrow> 'k1 list) \<Rightarrow> ('k1, 'k2, 'k3, 'k4, 'v) multi_index_map \<Rightarrow> 'k3 \<Rightarrow> 'v list" where
  "get_all_by_tertiary order m k = values_of order (mi_primary m) (keys_of (mi_tertiary_multi m) k)"

definition get_all_by_quaternary ::
    "('k1 set \<Rightarrow> 'k1 list) \<Rightarrow> ('k1, 'k2, 'k3, 'k4, 'v) multi_index_map \<Rightarrow> 'k4 \<Rightarrow> 'v list" where
  "get_all_by_quaternary order m k = values_of order (mi_primary m) (keys_of (mi_quaternary_multi m) k)"

definition modify_keys :: "'p set \<Rightarrow> ('v \<Rightarrow> 'v) \<Rightarrow> ('p \<rightharpoonup> 'v) \<Rightarrow> ('p \<rightharpoonup> 'v)" where
  "modify_keys ks f primary = (\<lambda>k. if k \<in> ks then map_option f (primary k) else primary k)"

definition modify_all_by_tertiary ::
    "('k1, 'k2, 'k3, 'k4, 'v) multi_index_map \<Rightarrow> 'k3 \<Rightarrow> ('v \<Rightarrow> 'v) \<Rightarrow> ('k1, 'k2, 'k3, 'k4, 'v) multi_index_map" where
  "modify_all_by_tertiary m k f =
     m\<lparr>mi_primary := modify_keys (keys_of (mi_tertiary_multi m) k) f (mi_primary m)\<rparr>"

section \<open>The contract of an index\<close>

text \<open>
  What the two kinds of index promise, through the relation between index keys and primary keys:
  an insertion relates the new pair and at most that pair more, a removal forgets a primary key
  under every index key.
\<close>

locale secondary_index =
  fixes ins :: "'k \<Rightarrow> 'p \<Rightarrow> 'i \<Rightarrow> 'i"
    and del :: "'p \<Rightarrow> 'i \<Rightarrow> 'i"
    and rel :: "'i \<Rightarrow> ('k \<times> 'p) set"
  assumes rel_ins_new: "(k, p) \<in> rel (ins k p i)"
    and rel_ins_old: "rel (ins k p i) \<subseteq> insert (k, p) (rel i)"
    and rel_del: "rel (del p i) = {(k, q) \<in> rel i. q \<noteq> p}"
begin

lemma ins_keys: "snd ` rel (ins k p i) \<subseteq> insert p (snd ` rel i)"
  using rel_ins_old [of k p i] by auto

lemma del_keys: "snd ` rel (del p i) = snd ` rel i - {p}"
  by (auto simp: rel_del)

lemma del_ins_keys: "p \<notin> snd ` rel i \<Longrightarrow> rel (del p (ins k p i)) \<subseteq> rel i"
  using rel_ins_old [of k p i] by (auto simp: rel_del)

end

definition unique_rel :: "('k \<rightharpoonup> 'p) \<Rightarrow> ('k \<times> 'p) set" where
  "unique_rel m = {(k, p). m k = Some p}"

definition multi_rel :: "('k \<rightharpoonup> 'p set) \<Rightarrow> ('k \<times> 'p) set" where
  "multi_rel m = {(k, p). p \<in> keys_of m k}"

interpretation unique: secondary_index unique_insert unique_retain unique_rel
  by unfold_locales
     (auto simp: unique_insert_def unique_retain_def unique_rel_def split: if_splits option.splits)

interpretation multi: secondary_index multi_insert multi_retain multi_rel
  by unfold_locales
     (auto simp: multi_insert_def multi_retain_def multi_rel_def keys_of_def split: if_splits option.splits)

lemma multi_rel_insert [simp]: "multi_rel (multi_insert k p m) = insert (k, p) (multi_rel m)"
  by (auto simp: multi_insert_def multi_rel_def keys_of_def split: if_splits option.splits)

lemma unique_rel_insert: "m k = None \<or> m k = Some p \<Longrightarrow> unique_rel (unique_insert k p m) = insert (k, p) (unique_rel m)"
  by (auto simp: unique_insert_def unique_rel_def split: if_splits)

lemma rel_empty [simp]: "unique_rel Map.empty = {}" "multi_rel Map.empty = {}"
  by (simp_all add: unique_rel_def multi_rel_def keys_of_def)

lemma keys_of_rel: "keys_of m k = {p. (k, p) \<in> multi_rel m}"
  by (simp add: multi_rel_def)

lemma set_values_of:
  assumes "finite ks" "\<And>S. finite S \<Longrightarrow> set (order S) = S"
  shows "set (values_of order primary ks) = {v. \<exists>k \<in> ks. primary k = Some v}"
  using assms by (force simp: values_of_def map_filter_def)

section \<open>Invariant\<close>

text \<open>
  Every index points to stored values only, and no key of a non-unique index has an empty set:
  the removal cleans up behind itself.
\<close>

definition index_ok :: "'p set \<Rightarrow> ('k \<times> 'p) set \<Rightarrow> bool" where
  "index_ok stored r \<longleftrightarrow> snd ` r \<subseteq> stored"

definition no_empty_sets :: "('k \<rightharpoonup> 'p set) \<Rightarrow> bool" where
  "no_empty_sets m \<longleftrightarrow> {} \<notin> ran m"

definition mi_inv :: "('k1, 'k2, 'k3, 'k4, 'v) multi_index_map \<Rightarrow> bool" where
  "mi_inv m \<longleftrightarrow>
     (let stored = dom (mi_primary m) in
      index_ok stored (unique_rel (mi_secondary_unique m)) \<and> index_ok stored (multi_rel (mi_secondary_multi m))
      \<and> index_ok stored (unique_rel (mi_tertiary_unique m)) \<and> index_ok stored (multi_rel (mi_tertiary_multi m))
      \<and> index_ok stored (unique_rel (mi_quaternary_unique m)) \<and> index_ok stored (multi_rel (mi_quaternary_multi m))
      \<and> no_empty_sets (mi_secondary_multi m) \<and> no_empty_sets (mi_tertiary_multi m)
      \<and> no_empty_sets (mi_quaternary_multi m))"

lemma index_ok_mono: "index_ok S r \<Longrightarrow> S \<subseteq> S' \<Longrightarrow> index_ok S' r"
  by (auto simp: index_ok_def)

lemma index_ok_empty: "index_ok S {}"
  by (simp add: index_ok_def)

lemma index_ok_insert [inv_intros]:
  "index_ok S (unique_rel u) \<Longrightarrow> index_ok (insert p S) (unique_rel (unique_insert k p u))"
  "index_ok S (multi_rel m) \<Longrightarrow> index_ok (insert p S) (multi_rel (multi_insert k p m))"
  unfolding index_ok_def using unique.ins_keys [of k p u] multi.ins_keys [of k p m] by blast+

lemma index_ok_retain [inv_intros]:
  "index_ok S (unique_rel u) \<Longrightarrow> index_ok (S - {p}) (unique_rel (unique_retain p u))"
  "index_ok S (multi_rel m) \<Longrightarrow> index_ok (S - {p}) (multi_rel (multi_retain p m))"
  by (auto simp: index_ok_def unique.del_keys multi.del_keys)

lemma no_empty_sets_steps [inv_intros]:
  "no_empty_sets m \<Longrightarrow> no_empty_sets (multi_insert k p m)"
  "no_empty_sets m \<Longrightarrow> no_empty_sets (multi_retain p m)"
  by (auto simp: no_empty_sets_def multi_insert_def multi_retain_def ran_def keys_of_def
      split: if_splits option.splits)

lemma mi_inv_new [inv_intros]: "mi_inv mi_new"
  by (simp add: mi_inv_def mi_new_def index_ok_def no_empty_sets_def)

section \<open>What the operations do to each map\<close>

lemma insert_or_update_fields [simp]:
  "mi_primary (insert_or_update T m k1 k2 k3 k4 v) = (mi_primary m)(k1 \<mapsto> v)"
  "mi_secondary_unique (insert_or_update T m k1 k2 k3 k4 v) =
     (if it_secondary T = UniqueTag then unique_insert k2 k1 (mi_secondary_unique m) else mi_secondary_unique m)"
  "mi_secondary_multi (insert_or_update T m k1 k2 k3 k4 v) =
     (if it_secondary T = UniqueTag then mi_secondary_multi m else multi_insert k2 k1 (mi_secondary_multi m))"
  "mi_tertiary_unique (insert_or_update T m k1 k2 k3 k4 v) =
     (if it_tertiary T = UniqueTag then unique_insert k3 k1 (mi_tertiary_unique m) else mi_tertiary_unique m)"
  "mi_tertiary_multi (insert_or_update T m k1 k2 k3 k4 v) =
     (if it_tertiary T = UniqueTag then mi_tertiary_multi m else multi_insert k3 k1 (mi_tertiary_multi m))"
  "mi_quaternary_unique (insert_or_update T m k1 k2 k3 k4 v) =
     (if it_quaternary T = UniqueTag then unique_insert k4 k1 (mi_quaternary_unique m) else mi_quaternary_unique m)"
  "mi_quaternary_multi (insert_or_update T m k1 k2 k3 k4 v) =
     (if it_quaternary T = UniqueTag then mi_quaternary_multi m else multi_insert k4 k1 (mi_quaternary_multi m))"
  by (simp_all add: insert_or_update_def Let_def split: index_tag.split)

lemma mi_remove_None: "mi_primary m k1 = None \<Longrightarrow> mi_remove T m k1 = (m, None)"
  by (simp add: mi_remove_def)

lemma mi_remove_value [simp]: "snd (mi_remove T m k1) = mi_primary m k1"
  by (simp add: mi_remove_def Let_def split: option.split)

lemma mi_remove_primary [simp]: "mi_primary (fst (mi_remove T m k1)) = (mi_primary m)(k1 := None)"
  by (auto simp: mi_remove_def Let_def fun_upd_idem split: option.split index_tag.split)

lemma mi_remove_fields:
  assumes "mi_primary m k1 = Some v"
  shows
  "mi_secondary_unique (fst (mi_remove T m k1)) =
     (if it_secondary T = UniqueTag then unique_retain k1 (mi_secondary_unique m) else mi_secondary_unique m)"
  "mi_secondary_multi (fst (mi_remove T m k1)) =
     (if it_secondary T = UniqueTag then mi_secondary_multi m else multi_retain k1 (mi_secondary_multi m))"
  "mi_tertiary_unique (fst (mi_remove T m k1)) =
     (if it_tertiary T = UniqueTag then unique_retain k1 (mi_tertiary_unique m) else mi_tertiary_unique m)"
  "mi_tertiary_multi (fst (mi_remove T m k1)) =
     (if it_tertiary T = UniqueTag then mi_tertiary_multi m else multi_retain k1 (mi_tertiary_multi m))"
  "mi_quaternary_unique (fst (mi_remove T m k1)) =
     (if it_quaternary T = UniqueTag then unique_retain k1 (mi_quaternary_unique m) else mi_quaternary_unique m)"
  "mi_quaternary_multi (fst (mi_remove T m k1)) =
     (if it_quaternary T = UniqueTag then mi_quaternary_multi m else multi_retain k1 (mi_quaternary_multi m))"
  using assms by (simp_all add: mi_remove_def Let_def split: index_tag.split)

text \<open>An index of the other kind than its tag says stays empty: it is never written.\<close>

definition tags_ok :: "index_tags \<Rightarrow> ('k1, 'k2, 'k3, 'k4, 'v) multi_index_map \<Rightarrow> bool" where
  "tags_ok T m \<longleftrightarrow>
     (if it_secondary T = UniqueTag then mi_secondary_multi m = Map.empty else mi_secondary_unique m = Map.empty)
     \<and> (if it_tertiary T = UniqueTag then mi_tertiary_multi m = Map.empty else mi_tertiary_unique m = Map.empty)
     \<and> (if it_quaternary T = UniqueTag then mi_quaternary_multi m = Map.empty
        else mi_quaternary_unique m = Map.empty)"

lemma tags_ok_steps [inv_intros]:
  "tags_ok T mi_new"
  "tags_ok T m \<Longrightarrow> tags_ok T (insert_or_update T m k1 k2 k3 k4 v)"
  "tags_ok T m \<Longrightarrow> tags_ok T (fst (mi_remove T m k1))"
  by (auto simp: tags_ok_def mi_new_def mi_remove_def Let_def split: option.split index_tag.split if_splits)

lemma mi_inv_insert [inv_intros]:
  assumes "mi_inv m"
  shows "mi_inv (insert_or_update T m k1 k2 k3 k4 v)"
proof -
  have mono: "dom (mi_primary m) \<subseteq> insert k1 (dom (mi_primary m))" by auto
  show ?thesis
    using assms unfolding mi_inv_def Let_def
    by (simp add: index_ok_insert no_empty_sets_steps index_ok_mono [OF _ mono] del: multi_rel_insert)
qed

lemma mi_inv_remove [inv_intros]:
  assumes "mi_inv m" "tags_ok T m"
  shows "mi_inv (fst (mi_remove T m k1))"
proof (cases "mi_primary m k1")
  case None
  then show ?thesis using assms by (simp add: mi_remove_None)
next
  case (Some v)
  show ?thesis
    using assms unfolding mi_inv_def Let_def tags_ok_def
    by (auto simp: mi_remove_fields [OF Some] dom_fun_upd index_ok_retain no_empty_sets_steps index_ok_empty
        split: if_splits)
qed

lemma mi_inv_modify [inv_intros]:
  "mi_inv m \<Longrightarrow> mi_inv (modify_by_primary m k f)"
  "mi_inv m \<Longrightarrow> mi_inv (modify_all_by_tertiary m k3 f)"
proof -
  assume inv: "mi_inv m"
  have "insert k (dom (mi_primary m)) = dom (mi_primary m)" if "mi_primary m k = Some v" for v
    using that by auto
  with inv show "mi_inv (modify_by_primary m k f)"
    by (auto simp: mi_inv_def modify_by_primary_def Let_def split: option.split)
  have "dom (modify_keys ks f (mi_primary m)) = dom (mi_primary m)" for ks
    by (auto simp: modify_keys_def dom_def split: if_splits)
  with inv show "mi_inv (modify_all_by_tertiary m k3 f)"
    by (simp add: mi_inv_def modify_all_by_tertiary_def Let_def)
qed

end
