(* ===== verification/Network_State.thy ===== *)
theory Network_State
  imports Multi_Index Ssv_Types
begin

text \<open>
  The in-memory network state of the \<open>database\<close> crate: operators, clusters, validators and own
  shares (\<open>ssv_types/src/operator.rs\<close>, \<open>cluster.rs\<close>, \<open>share.rs\<close>, \<open>database/src/lib.rs\<close>), its
  queries (\<open>state.rs\<close>) and the updates a block queues for it (\<open>pending_updates.rs\<close>). The type
  \<open>'k\<close> is the RSA public key; a failed \<open>expect\<close> is \<open>None\<close>.
\<close>

section \<open>Data\<close>

type_synonym address = bytes
type_synonym pubkey = bytes
type_synonym cluster_id = bytes

record 'k operator =
  op_id :: operator_id
  op_rsa_pubkey :: 'k
  op_owner :: address

record cluster =
  cl_cluster_id :: cluster_id
  cl_owner :: address
  cl_fee_recipient :: address
  cl_liquidated :: bool
  cl_cluster_members :: "operator_id list"

definition cluster_get_f :: "cluster \<Rightarrow> u64" where
  "cluster_get_f c = of_nat (get_f (length (cl_cluster_members c)))"

definition cluster_committee_id :: "(bytes \<Rightarrow> bytes) \<Rightarrow> cluster \<Rightarrow> committee_id" where
  "cluster_committee_id sha256 c = committee_id_of_vec sha256 (cl_cluster_members c)"

record validator_metadata =
  vm_public_key :: pubkey
  vm_cluster_id :: cluster_id
  vm_index :: "validator_index option"
  vm_graffiti :: bytes

definition ENCRYPTED_KEY_LENGTH :: nat where "ENCRYPTED_KEY_LENGTH = 256"

record share =
  sh_validator_pubkey :: pubkey
  sh_operator_id :: operator_id
  sh_cluster_id :: cluster_id
  sh_share_pubkey :: pubkey
  sh_encrypted_private_key :: bytes

record committee_info =
  ci_committee_members :: "operator_id list"
  ci_validator_indices :: "validator_index list"

type_synonym share_map = "(pubkey, cluster_id, address, committee_id, share) multi_index_map"
type_synonym metadata_map = "(pubkey, cluster_id, address, committee_id, validator_metadata) multi_index_map"
type_synonym cluster_map = "(cluster_id, pubkey, address, committee_id, cluster) multi_index_map"

definition share_tags :: index_tags where
  "share_tags = \<lparr>it_secondary = NonUniqueTag, it_tertiary = NonUniqueTag, it_quaternary = NonUniqueTag\<rparr>"

definition metadata_tags :: index_tags where
  "metadata_tags = \<lparr>it_secondary = NonUniqueTag, it_tertiary = NonUniqueTag, it_quaternary = NonUniqueTag\<rparr>"

definition cluster_tags :: index_tags where
  "cluster_tags = \<lparr>it_secondary = UniqueTag, it_tertiary = NonUniqueTag, it_quaternary = NonUniqueTag\<rparr>"

text \<open>The multi-index state and the single-index state in one record.\<close>

record 'k network_state =
  ns_shares :: share_map
  ns_validator_metadata :: metadata_map
  ns_clusters :: cluster_map
  ns_id :: "operator_id option"
  ns_last_processed_block :: u64
  ns_operators :: "operator_id \<rightharpoonup> 'k operator"
  ns_own_clusters :: "cluster_id set"
  ns_nonces :: "address \<rightharpoonup> 16 word"
  ns_max_operator_id_seen :: "u64 option"

section \<open>Queries (state.rs)\<close>

definition get_cluster_members ::
    "(cluster_id set \<Rightarrow> cluster_id list) \<Rightarrow> 'k network_state \<Rightarrow> committee_id \<Rightarrow> operator_id list option" where
  "get_cluster_members order s committee_id =
     (case get_all_by_quaternary order (ns_clusters s) committee_id of
        [] \<Rightarrow> None | c # _ \<Rightarrow> Some (cl_cluster_members c))"

definition get_cluster_members_for_validator :: "'k network_state \<Rightarrow> pubkey \<Rightarrow> operator_id list option" where
  "get_cluster_members_for_validator s validator_pk =
     (case get_by_primary (ns_validator_metadata s) validator_pk of
        None \<Rightarrow> None
      | Some v \<Rightarrow> map_option cl_cluster_members (get_by_primary (ns_clusters s) (vm_cluster_id v)))"

definition get_validator_indices ::
    "(pubkey set \<Rightarrow> pubkey list) \<Rightarrow> 'k network_state \<Rightarrow> committee_id \<Rightarrow> validator_index list" where
  "get_validator_indices order s committee_id =
     List.map_filter vm_index (get_all_by_quaternary order (ns_validator_metadata s) committee_id)"

definition get_own_id :: "'k network_state \<Rightarrow> operator_id option" where
  "get_own_id s = ns_id s"

definition get_operator :: "'k network_state \<Rightarrow> operator_id \<Rightarrow> 'k operator option" where
  "get_operator s i = ns_operators s i"

definition operator_exists :: "'k network_state \<Rightarrow> operator_id \<Rightarrow> bool" where
  "operator_exists s i = (ns_operators s i \<noteq> None)"

definition member_of_cluster :: "'k network_state \<Rightarrow> cluster_id \<Rightarrow> bool" where
  "member_of_cluster s i = (i \<in> ns_own_clusters s)"

definition get_committee_info_by_committee_id ::
    "(cluster_id set \<Rightarrow> cluster_id list) \<Rightarrow> (pubkey set \<Rightarrow> pubkey list) \<Rightarrow> 'k network_state \<Rightarrow> committee_id
     \<Rightarrow> committee_info option" where
  "get_committee_info_by_committee_id cluster_order pubkey_order s committee_id =
     (case get_cluster_members cluster_order s committee_id of
        None \<Rightarrow> None
      | Some committee_members \<Rightarrow>
          Some \<lparr>ci_committee_members = committee_members,
                ci_validator_indices = get_validator_indices pubkey_order s committee_id\<rparr>)"

definition get_committee_info_by_validator_pk :: "'k network_state \<Rightarrow> pubkey \<Rightarrow> committee_info option" where
  "get_committee_info_by_validator_pk s validator_pk =
     (case get_by_primary (ns_validator_metadata s) validator_pk of
        None \<Rightarrow> None
      | Some v \<Rightarrow>
          (case get_cluster_members_for_validator s validator_pk of
             None \<Rightarrow> None
           | Some committee_members \<Rightarrow>
               Some \<lparr>ci_committee_members = committee_members,
                     ci_validator_indices = (case vm_index v of Some idx \<Rightarrow> [idx] | None \<Rightarrow> [])\<rparr>))"

section \<open>Updates (pending_updates.rs)\<close>

datatype 'k state_update =
    SetLastProcessedBlock u64
  | SetMaxOperatorIdSeen u64
  | InsertOperator "'k operator" bool
  | DeleteOperator operator_id
  | InsertValidator cluster validator_metadata "share option"
  | UpdateClusterStatus cluster_id bool
  | DeleteValidator pubkey
  | SetOwnerNonce address "16 word"
  | UpdateFeeRecipient address address
  | UpdateGraffiti pubkey bytes

definition apply_insert_validator ::
    "(bytes \<Rightarrow> bytes) \<Rightarrow> cluster \<Rightarrow> validator_metadata \<Rightarrow> share option \<Rightarrow> 'k network_state \<Rightarrow> 'k network_state" where
  "apply_insert_validator sha256 cluster validator own_share s =
     (let pk = vm_public_key validator; cid = cl_cluster_id cluster; owner = cl_owner cluster;
          committee_id = cluster_committee_id sha256 cluster;
          s1 = (case own_share of
                  None \<Rightarrow> s
                | Some share \<Rightarrow>
                    s\<lparr>ns_own_clusters := insert cid (ns_own_clusters s),
                      ns_shares := insert_or_update share_tags (ns_shares s) pk cid owner committee_id share\<rparr>)
      in s1\<lparr>ns_clusters := insert_or_update cluster_tags (ns_clusters s1) cid pk owner committee_id cluster,
            ns_validator_metadata :=
              insert_or_update metadata_tags (ns_validator_metadata s1) pk cid owner committee_id validator\<rparr>)"

definition apply_delete_validator :: "pubkey \<Rightarrow> 'k network_state \<Rightarrow> 'k network_state option" where
  "apply_delete_validator pk s =
     (let s1 = s\<lparr>ns_shares := fst (mi_remove share_tags (ns_shares s) pk)\<rparr>;
          (metadata_map, removed) = mi_remove metadata_tags (ns_validator_metadata s1) pk
      in case removed of
           None \<Rightarrow> None
         | Some metadata \<Rightarrow>
             let cid = vm_cluster_id metadata; s2 = s1\<lparr>ns_validator_metadata := metadata_map\<rparr> in
             if \<forall>k \<in> keys_of (mi_secondary_multi metadata_map) cid. mi_primary metadata_map k = None
             then Some (s2\<lparr>ns_clusters := fst (mi_remove cluster_tags (ns_clusters s2) cid),
                           ns_own_clusters := ns_own_clusters s2 - {cid}\<rparr>)
             else Some s2)"

fun apply_update :: "(bytes \<Rightarrow> bytes) \<Rightarrow> 'k state_update \<Rightarrow> 'k network_state \<Rightarrow> 'k network_state option" where
  "apply_update sha256 (SetLastProcessedBlock n) s = Some (s\<lparr>ns_last_processed_block := n\<rparr>)"
| "apply_update sha256 (SetMaxOperatorIdSeen n) s = Some (s\<lparr>ns_max_operator_id_seen := Some n\<rparr>)"
| "apply_update sha256 (InsertOperator operator is_own_operator) s =
     (let s1 = (if ns_id s = None \<and> is_own_operator then s\<lparr>ns_id := Some (op_id operator)\<rparr> else s)
      in Some (s1\<lparr>ns_operators := (ns_operators s1)(op_id operator \<mapsto> operator)\<rparr>))"
| "apply_update sha256 (DeleteOperator i) s = Some (s\<lparr>ns_operators := (ns_operators s)(i := None)\<rparr>)"
| "apply_update sha256 (InsertValidator cluster validator own_share) s =
     Some (apply_insert_validator sha256 cluster validator own_share s)"
| "apply_update sha256 (UpdateClusterStatus cid liquidated) s =
     Some (s\<lparr>ns_clusters := modify_by_primary (ns_clusters s) cid (\<lambda>c. c\<lparr>cl_liquidated := liquidated\<rparr>)\<rparr>)"
| "apply_update sha256 (DeleteValidator pk) s = apply_delete_validator pk s"
| "apply_update sha256 (SetOwnerNonce owner nonce) s =
     Some (s\<lparr>ns_nonces := (ns_nonces s)(owner \<mapsto> nonce)\<rparr>)"
| "apply_update sha256 (UpdateFeeRecipient owner fee_recipient) s =
     Some (s\<lparr>ns_clusters := modify_all_by_tertiary (ns_clusters s) owner
                             (\<lambda>c. c\<lparr>cl_fee_recipient := fee_recipient\<rparr>)\<rparr>)"
| "apply_update sha256 (UpdateGraffiti pk graffiti) s =
     Some (s\<lparr>ns_validator_metadata :=
               modify_by_primary (ns_validator_metadata s) pk (\<lambda>v. v\<lparr>vm_graffiti := graffiti\<rparr>)\<rparr>)"

fun apply_updates :: "(bytes \<Rightarrow> bytes) \<Rightarrow> 'k state_update list \<Rightarrow> 'k network_state \<Rightarrow> 'k network_state option" where
  "apply_updates sha256 [] s = Some s"
| "apply_updates sha256 (u # us) s =
     (case apply_update sha256 u s of None \<Rightarrow> None | Some s' \<Rightarrow> apply_updates sha256 us s')"

lemma apply_updates_append:
  "apply_updates sha256 (us @ vs) s =
     (case apply_updates sha256 us s of None \<Rightarrow> None | Some s' \<Rightarrow> apply_updates sha256 vs s')"
  by (induction us arbitrary: s) (auto split: option.split)

text \<open>Publishing the updates of a committed transaction; nothing queued notifies nobody.\<close>

definition publish_pending_state_updates ::
    "(bytes \<Rightarrow> bytes) \<Rightarrow> 'k state_update list \<Rightarrow> 'k network_state \<Rightarrow> 'k network_state option" where
  "publish_pending_state_updates sha256 updates s =
     (if updates = [] then Some s else apply_updates sha256 updates s)"

lemma publish_is_apply [simp]: "publish_pending_state_updates sha256 us s = apply_updates sha256 us s"
  by (simp add: publish_pending_state_updates_def)

end
