(* ===== verification/Message_Validator.thy ===== *)
theory Message_Validator
  imports Duty_State Network_State
begin

text \<open>
  The message validator (\<open>message_validator/src\<close>): the checks every message passes before it
  reaches a QBFT instance or the signature collector. The definitions follow \<open>lib.rs\<close>,
  \<open>consensus_message.rs\<close> and \<open>partial_signature.rs\<close>. RSA verification, SHA-256, the BLS key
  parser, the slot clock, the duty provider and the subnet service are arguments. Times are
  nanoseconds since the Unix epoch.
\<close>

section \<open>Context\<close>

record 'k crypto =
  cy_codec :: codec
  cy_ssv_as_ssz :: "ssv_message \<Rightarrow> bytes"
  cy_sha256 :: "bytes \<Rightarrow> bytes"
  cy_rsa_verify :: "'k \<Rightarrow> bytes \<Rightarrow> bytes \<Rightarrow> string + bool"

record slot_clock =
  sc_now :: "slot option"
  sc_start_of :: "slot \<Rightarrow> nat option"

datatype duty_assignment = Assigned | NotAssigned | UnknownAssignment

record 'pk duties_provider =
  dp_is_epoch_known_for_proposers :: "epoch \<Rightarrow> bool"
  dp_is_validator_proposer_at_slot :: "slot \<Rightarrow> validator_index \<Rightarrow> bool"
  dp_proposer_assignment_at_slot :: "slot \<Rightarrow> 'pk \<Rightarrow> duty_assignment"
  dp_local_proposer_assignment_at_slot :: "slot \<Rightarrow> 'pk \<Rightarrow> bool"
  dp_ptc_assignment_at_slot :: "slot \<Rightarrow> validator_index \<Rightarrow> duty_assignment"
  dp_is_validator_in_sync_committee :: "u64 \<Rightarrow> validator_index \<Rightarrow> bool"
  dp_get_voluntary_exit_duty_count :: "slot \<Rightarrow> 'pk \<Rightarrow> u64"

record ('k, 'pk) validation_context =
  vc_signed_ssv_message :: signed_ssv_message
  vc_role :: role
  vc_committee_info :: committee_info
  vc_received_at :: nat
  vc_slots_per_epoch :: u64
  vc_epochs_per_sync_committee_period :: u64
  vc_sync_committee_size :: nat
  vc_slot_clock :: slot_clock
  vc_operator_pub_keys :: "operator_id \<rightharpoonup> 'k"
  vc_fork_schedule :: fork_schedule
  vc_chain :: chain
  vc_crypto :: "'k crypto"
  vc_pk_deserialize :: "bytes \<Rightarrow> 'pk option"

datatype validated_ssv_message =
    ValidatedQbftMessage qbft_message
  | ValidatedPartialSignatureMessages partial_signature_messages

abbreviation vc_ssv :: "('k, 'pk) validation_context \<Rightarrow> ssv_message" where
  "vc_ssv V \<equiv> sg_ssv_message (vc_signed_ssv_message V)"

abbreviation vc_signers :: "('k, 'pk) validation_context \<Rightarrow> operator_id list" where
  "vc_signers V \<equiv> sg_operator_ids (vc_signed_ssv_message V)"

definition vc_duty_executor :: "('k, 'pk) validation_context \<Rightarrow> 'pk duty_executor option" where
  "vc_duty_executor V = msgid_duty_executor (vc_pk_deserialize V) (sm_msg_id (vc_ssv V))"

type_synonym 'a verdict = "('a, validation_failure) outcome"

section \<open>Structure (lib.rs)\<close>

definition validate_structure_and_role :: "signed_ssv_message \<Rightarrow> role verdict" where
  "validate_structure_and_role sm =
     bindO (map_err failure_of_signed_error (signed_validate sm)) (\<lambda>_.
     ok_or InvalidRole (msgid_role (sm_msg_id (sg_ssv_message sm))))"

definition validate_outbound_message :: "codec \<Rightarrow> signed_ssv_message \<Rightarrow> slot verdict" where
  "validate_outbound_message cd sm =
     bindO (validate_structure_and_role sm) (\<lambda>_.
     ok_or UnknownMessageSlot (extract_slot cd (sg_ssv_message sm)))"

definition validate_outbound :: "codec \<Rightarrow> bytes \<Rightarrow> slot verdict" where
  "validate_outbound cd message_data =
     bindO (map_err UndecodableMessageData (cd_signed_from_ssz cd message_data))
       (validate_outbound_message cd)"

section \<open>Signatures (lib.rs)\<close>

definition verify_message_signature :: "'k crypto \<Rightarrow> signed_ssv_message \<Rightarrow> 'k \<Rightarrow> bytes \<Rightarrow> unit verdict" where
  "verify_message_signature cy sm operator_pk signature =
     (case cy_rsa_verify cy operator_pk (cy_ssv_as_ssz cy (sg_ssv_message sm)) signature of
        Inr True \<Rightarrow> Ok ()
      | Inr False \<Rightarrow> Err (SignatureVerificationFailed ''Signature verification failed'')
      | Inl reason \<Rightarrow> Err (SignatureVerificationFailed reason))"

definition verify_single_signer :: "('k, 'pk) validation_context \<Rightarrow> operator_id \<Rightarrow> unit verdict" where
  "verify_single_signer V signer =
     bindO (ok_or (OperatorNotFound signer) (vc_operator_pub_keys V signer)) (\<lambda>operator_pub_key.
     case sg_signatures (vc_signed_ssv_message V) of
       [] \<Rightarrow> Err VfNoSignatures
     | signature # _ \<Rightarrow>
         verify_message_signature (vc_crypto V) (vc_signed_ssv_message V) operator_pub_key signature)"

definition verify_message_signatures ::
    "'k crypto \<Rightarrow> signed_ssv_message \<Rightarrow> (operator_id \<rightharpoonup> 'k) \<Rightarrow> unit verdict" where
  "verify_message_signatures cy sm operator_pub_keys =
     bindO (map_err (\<lambda>e. e) (collect_results
              (\<lambda>op. option_to_result (OperatorNotFound op) (operator_pub_keys op)) (sg_operator_ids sm)))
       (\<lambda>operators_pks.
          if length (sg_signatures sm) \<noteq> length operators_pks
          then Err (SignatureVerificationFailed ''Signature count doesn't match operator count'')
          else for_each_o (\<lambda>(signature, operator_pk). verify_message_signature cy sm operator_pk signature)
                 (zip (sg_signatures sm) operators_pks))"

section \<open>Time (lib.rs)\<close>

text \<open>A \<open>SystemTime\<close> counts its seconds in an \<open>i64\<close>: \<open>UNIX_EPOCH + dur\<close> panics beyond it.\<close>

definition system_time_add :: "nat \<Rightarrow> nat \<Rightarrow> nat option" where
  "system_time_add t d = (if (t + d) div 10 ^ 9 < 2 ^ 63 then Some (t + d) else None)"

definition CLOCK_ERROR_TOLERANCE :: nat where "CLOCK_ERROR_TOLERANCE = 50 * 10 ^ 6"
definition EARLY_MESSAGE_MARGIN :: nat where "EARLY_MESSAGE_MARGIN = 10 ^ 9"
definition LATE_MESSAGE_MARGIN :: nat where "LATE_MESSAGE_MARGIN = 3 * 10 ^ 9"
definition LATE_SLOT_ALLOWANCE :: u64 where "LATE_SLOT_ALLOWANCE = 2"

text \<open>The outer \<open>Err\<close> is \<open>TimeError::Overflow\<close>; the caller maps it.\<close>

definition slot_start_time :: "slot_clock \<Rightarrow> slot \<Rightarrow> (nat, slot) outcome" where
  "slot_start_time clock sl =
     bindO (ok_or sl (sc_start_of clock sl)) (\<lambda>dur. expect (system_time_add 0 dur))"

definition start_time_or :: "validation_failure \<Rightarrow> (nat, slot) outcome \<Rightarrow> nat verdict" where
  "start_time_or e r = (case r of Ok t \<Rightarrow> Ok t | Err _ \<Rightarrow> Err e | Panic \<Rightarrow> Panic)"

definition message_earliness :: "('k, 'pk) validation_context \<Rightarrow> slot \<Rightarrow> nat verdict" where
  "message_earliness V sl0 =
     (let C = vc_chain V; n = vc_slots_per_epoch V;
          sl = (if vc_role V = ProposerPreferences
                then ch_start_slot C (ch_epoch_saturating_sub C (ch_epoch C sl0 n) (ch_min_seed_lookahead C)) n
                else sl0)
      in bindO (start_time_or (SlotStartTimeNotFound sl) (slot_start_time (vc_slot_clock V) sl)) (\<lambda>slot_start.
         Ok (slot_start - vc_received_at V)))"

fun lateness_ttl :: "u64 \<Rightarrow> role \<Rightarrow> u64" where
  "lateness_ttl slots_per_epoch Proposer = 1 + LATE_SLOT_ALLOWANCE"
| "lateness_ttl slots_per_epoch SyncCommittee = 1 + LATE_SLOT_ALLOWANCE"
| "lateness_ttl slots_per_epoch PTCAttester = 1 + LATE_SLOT_ALLOWANCE"
| "lateness_ttl slots_per_epoch ProposerPreferences = LATE_SLOT_ALLOWANCE"
| "lateness_ttl slots_per_epoch _ = slots_per_epoch + LATE_SLOT_ALLOWANCE"

definition message_lateness :: "('k, 'pk) validation_context \<Rightarrow> slot \<Rightarrow> nat verdict" where
  "message_lateness V sl =
     (let ttl = lateness_ttl (vc_slots_per_epoch V) (vc_role V) in
      bindO (start_time_or (SlotStartTimeNotFound sl)
               (slot_start_time (vc_slot_clock V) (ch_slot_add (vc_chain V) sl ttl))) (\<lambda>start.
      bindO (ok_or (UnexpectedFailure ''Unexpected overflow calculating message deadline'')
               (system_time_add start LATE_MESSAGE_MARGIN)) (\<lambda>deadline.
      Ok (vc_received_at V - deadline))))"

definition validate_slot_time :: "slot \<Rightarrow> ('k, 'pk) validation_context \<Rightarrow> unit verdict" where
  "validate_slot_time msg_slot V =
     bindO (message_earliness V msg_slot) (\<lambda>earliness.
     if earliness > CLOCK_ERROR_TOLERANCE + EARLY_MESSAGE_MARGIN then Err (EarlySlotMessage earliness)
     else bindO (message_lateness V msg_slot) (\<lambda>lateness.
       if lateness > CLOCK_ERROR_TOLERANCE then Err (LateSlotMessage lateness)
       else Ok ()))"

section \<open>Duties (lib.rs)\<close>

definition sync_committee_period :: "chain \<Rightarrow> epoch \<Rightarrow> u64 \<Rightarrow> u64 verdict" where
  "sync_committee_period C e epochs_per_period =
     ok_or SyncCommitteePeriodCalculationFailure (ch_epoch_safe_div C e epochs_per_period)"

definition single_validator_index :: "('k, 'pk) validation_context \<Rightarrow> validator_index verdict" where
  "single_validator_index V =
     (case ci_validator_indices (vc_committee_info V) of
        [] \<Rightarrow> Err NoShareMetadata | index # _ \<Rightarrow> Ok index)"

definition validate_beacon_duty ::
    "('k, 'pk) validation_context \<Rightarrow> slot \<Rightarrow> bool \<Rightarrow> 'pk duties_provider \<Rightarrow> unit verdict" where
  "validate_beacon_duty V sl randao_msg dp =
     (let C = vc_chain V; n = vc_slots_per_epoch V; r = vc_role V; e = ch_epoch C sl n in
      bindO
        (if r = Proposer then
           bindO
             (if randao_msg \<and> ch_start_slot C e n = sl then
                bindO (ok_or (UnexpectedFailure ''Failed to get current time'') (sc_now (vc_slot_clock V)))
                  (\<lambda>now. Ok (now \<le> sl \<and> \<not> dp_is_epoch_known_for_proposers dp e))
              else Ok False)
             (\<lambda>tolerated.
                if tolerated then Ok True
                else bindO (single_validator_index V) (\<lambda>index.
                  if \<not> dp_is_validator_proposer_at_slot dp sl index then Err NoDuty else Ok False))
         else Ok False)
        (\<lambda>done.
           if done then Ok ()
           else
             bindO
               (if r = ProposerPreferences then
                  (case vc_duty_executor V of
                     Some (ValidatorExecutor pk) \<Rightarrow>
                       if dp_proposer_assignment_at_slot dp sl pk = NotAssigned
                          \<and> \<not> dp_local_proposer_assignment_at_slot dp sl pk
                       then Err NoDuty else Ok ()
                   | _ \<Rightarrow> Err UnknownValidator)
                else Ok ())
               (\<lambda>_.
             bindO
               (case ci_validator_indices (vc_committee_info V) of
                  index # _ \<Rightarrow>
                    if r = PTCAttester \<and> dp_ptc_assignment_at_slot dp sl index = NotAssigned
                    then Err NoDuty else Ok ()
                | [] \<Rightarrow> Ok ())
               (\<lambda>_.
             if r = SyncCommittee then
               bindO (sync_committee_period C e (vc_epochs_per_sync_committee_period V)) (\<lambda>period.
               bindO (single_validator_index V) (\<lambda>index.
               if \<not> dp_is_validator_in_sync_committee dp period index then Err NoDuty else Ok ()))
             else Ok ()))))"

definition validate_role_for_fork :: "slot \<Rightarrow> ('k, 'pk) validation_context \<Rightarrow> unit verdict" where
  "validate_role_for_fork sl V =
     (let C = vc_chain V; r = vc_role V; e = ch_epoch C sl (vc_slots_per_epoch V) in
      bindO (expect (active_fork (vc_fork_schedule V) e)) (\<lambda>active.
      if r = AggregatorCommittee \<and> active < Boole then Err (RoleNotActiveBeforeFork r active Boole)
      else if r \<in> {Aggregator, SyncCommittee} \<and> active \<ge> Boole
      then Err (RoleNotActiveAfterFork r active Boole)
      else if r = ValidatorRegistration \<and> ch_gloas_enabled C e then Err (RoleNotActiveAfterEthFork r)
      else if r \<in> {PTCAttester, ProposerPreferences} \<and> \<not> ch_gloas_enabled C e
      then Err (RoleNotActiveBeforeEthFork r)
      else Ok ()))"

definition duty_limit ::
    "('k, 'pk) validation_context \<Rightarrow> slot \<Rightarrow> validator_index list \<Rightarrow> 'pk duties_provider \<Rightarrow> u64 option verdict" where
  "duty_limit V sl validator_indices dp =
     (let committee_limit =
        (let count = of_nat (length validator_indices); n = vc_slots_per_epoch V in
         if count < n div 2 then
           bindO (sync_committee_period (vc_chain V) (ch_epoch (vc_chain V) sl n) (vc_epochs_per_sync_committee_period V))
             (\<lambda>period.
                if \<exists>index \<in> set validator_indices. dp_is_validator_in_sync_committee dp period index
                then Ok (Some n) else Ok (Some (min n (2 * count))))
         else Ok (Some (min n (2 * count))))
      in case vc_role V of
           VoluntaryExit \<Rightarrow>
             (case vc_duty_executor V of
                Some (ValidatorExecutor pk) \<Rightarrow> Ok (Some (dp_get_voluntary_exit_duty_count dp sl pk))
              | _ \<Rightarrow> Err UnknownValidator)
         | Aggregator \<Rightarrow> Ok (Some 2)
         | ValidatorRegistration \<Rightarrow> Ok (Some 2)
         | PTCAttester \<Rightarrow> Ok (Some 2)
         | Committee \<Rightarrow> committee_limit
         | AggregatorCommittee \<Rightarrow> committee_limit
         | Proposer \<Rightarrow> Ok None
         | SyncCommittee \<Rightarrow> Ok None
         | ProposerPreferences \<Rightarrow> Ok (Some (vc_slots_per_epoch V)))"

definition validate_duty_count ::
    "('k, 'pk) validation_context \<Rightarrow> slot \<Rightarrow> operator_state \<Rightarrow> 'pk duties_provider \<Rightarrow> unit verdict" where
  "validate_duty_count V sl os dp =
     bindO (duty_limit V sl (ci_validator_indices (vc_committee_info V)) dp) (\<lambda>limit_opt.
     case limit_opt of
       None \<Rightarrow> Ok ()
     | Some limit \<Rightarrow>
         if \<not> is_first_message_for_duty os sl then Ok ()
         else
           let n = vc_slots_per_epoch V;
               duty_count = get_duty_count (vc_chain V) os (ch_epoch (vc_chain V) sl n) n
           in if duty_count \<ge> limit then Err (ExcessiveDutyCount duty_count limit (vc_role V)) else Ok ())"

fun stored_slot_count :: "chain \<Rightarrow> role \<Rightarrow> u64 \<Rightarrow> nat" where
  "stored_slot_count C ProposerPreferences slots_per_epoch =
     unat ((1 + ch_min_seed_lookahead C) * slots_per_epoch + 2 * slots_per_epoch)"
| "stored_slot_count C _ slots_per_epoch = unat (2 * slots_per_epoch + LATE_SLOT_ALLOWANCE + 1)"

section \<open>Consensus messages (consensus_message.rs)\<close>

definition MAX_ALLOWED_ROUNDS_FUTURE :: u64 where "MAX_ALLOWED_ROUNDS_FUTURE = 3"
definition QUICK_TIMEOUT_THRESHOLD :: u64 where "QUICK_TIMEOUT_THRESHOLD = 8"
definition QUICK_TIMEOUT_SECS :: u64 where "QUICK_TIMEOUT_SECS = 2"
definition SLOW_TIMEOUT_SECS :: u64 where "SLOW_TIMEOUT_SECS = 120"

text \<open>
  \<open>validate_justifications\<close> and \<open>validate_justification_list\<close> call each other once: the flag
  \<open>check_inner_justifications\<close> is set for the message and cleared for the messages inside its
  justifications. \<open>inner\<close> is that second call, when it is made.
\<close>

definition validate_justification_list ::
    "'k crypto \<Rightarrow> (operator_id \<rightharpoonup> 'k) \<Rightarrow> (qbft_message \<Rightarrow> unit verdict) option \<Rightarrow> bytes list \<Rightarrow> unit verdict" where
  "validate_justification_list cy keys inner justifications =
     for_each_o (\<lambda>signed_message_bytes.
       bindO (map_err (\<lambda>_. MalformedJustifications) (cd_signed_from_ssz (cy_codec cy) signed_message_bytes))
         (\<lambda>signed_message.
       bindO (verify_message_signatures cy signed_message keys) (\<lambda>_.
       case inner of
         None \<Rightarrow> Ok ()
       | Some validate_inner \<Rightarrow>
           bindO (map_err (\<lambda>_. MalformedJustifications)
                    (cd_qbft_from_ssz (cy_codec cy) (sm_data (sg_ssv_message signed_message))))
             validate_inner)))
       justifications"

definition validate_justifications_with ::
    "'k crypto \<Rightarrow> (operator_id \<rightharpoonup> 'k) \<Rightarrow> (qbft_message \<Rightarrow> unit verdict) option \<Rightarrow> qbft_message \<Rightarrow> unit verdict" where
  "validate_justifications_with cy keys inner m =
     (if qm_prepare_justification m \<noteq> [] \<and> qm_type m \<noteq> Proposal
      then Err UnexpectedPrepareJustifications
      else if qm_round_change_justification m \<noteq> [] \<and> qm_type m \<noteq> Proposal \<and> qm_type m \<noteq> RoundChange
      then Err UnexpectedRoundChangeJustifications
      else
        bindO (validate_justification_list cy keys inner (qm_prepare_justification m)) (\<lambda>_.
        bindO (validate_justification_list cy keys inner (qm_round_change_justification m)) (\<lambda>_. Ok ())))"

definition validate_justifications ::
    "'k crypto \<Rightarrow> (operator_id \<rightharpoonup> 'k) \<Rightarrow> bool \<Rightarrow> qbft_message \<Rightarrow> unit verdict" where
  "validate_justifications cy keys check_inner_justifications m =
     validate_justifications_with cy keys
       (if check_inner_justifications then Some (validate_justifications_with cy keys None) else None) m"

definition validate_consensus_message_semantics ::
    "'k crypto \<Rightarrow> signed_ssv_message \<Rightarrow> qbft_message \<Rightarrow> committee_info \<Rightarrow> (operator_id \<rightharpoonup> 'k) \<Rightarrow> unit verdict" where
  "validate_consensus_message_semantics cy sm m ci keys =
     (let signers = length (sg_operator_ids sm);
          required_quorum = quorum_size (length (ci_committee_members ci));
          t = qm_type m;
          msg_id = sm_msg_id (sg_ssv_message sm)
      in
        if signers > 1 \<and> t \<noteq> Commit then Err (NonDecidedWithMultipleSigners signers 1)
        else if signers > 1 \<and> signers < required_quorum
        then Err (DecidedNotEnoughSigners signers required_quorum)
        else if sg_full_data sm \<noteq> [] \<and> (t = Prepare \<or> (t = Commit \<and> signers = 1))
        then Err PrepareOrCommitWithFullData
        else if sg_full_data sm \<noteq> [] \<and> cy_sha256 cy (sg_full_data sm) \<noteq> qm_root m then Err InvalidHash
        else if qm_round m = 0 then Err ZeroRound
        else if (case msgid_role msg_id of Some r \<Rightarrow> \<not> is_qbft_role r | None \<Rightarrow> False)
        then Err UnexpectedConsensusMessage
        else
          bindO (expect (msgid_role msg_id)) (\<lambda>r.
          case max_round r of
            None \<Rightarrow> Err UnexpectedConsensusMessage
          | Some max_r \<Rightarrow>
              if qm_round m > max_r then Err RoundTooHigh
              else if qm_identifier m \<noteq> msg_id then Err (MismatchedIdentifier (qm_identifier m) msg_id)
              else validate_justifications cy keys True m))"

definition round_robin_proposer ::
    "chain \<Rightarrow> u64 \<Rightarrow> round \<Rightarrow> operator_id list \<Rightarrow> u64 \<Rightarrow> fork_schedule \<Rightarrow> operator_id verdict" where
  "round_robin_proposer C height r committee slots_per_epoch schedule =
     (if committee = [] then Err NonExistentCommitteeID
      else if slots_per_epoch = 0 then Panic
      else
        let sorted = sort committee;
            n = of_nat (length sorted) :: u64;
            first_round_index = height mod n;
            e = height div slots_per_epoch
        in bindO (expect (active_fork schedule e)) (\<lambda>active.
           let eth_epoch = (if active \<ge> Boole then e else 0);
               index = (first_round_index + r - FIRST_ROUND + eth_epoch) mod n
           in Ok (sorted ! unat index)))"

definition current_estimated_round :: "nat \<Rightarrow> u64" where
  "current_estimated_round since_slot_start =
     (let secs = of_nat (since_slot_start div 10 ^ 9) :: u64;
          delta_quick = secs div QUICK_TIMEOUT_SECS;
          current_quick_round = FIRST_ROUND + delta_quick
      in if current_quick_round \<le> QUICK_TIMEOUT_THRESHOLD then current_quick_round
         else
           let time_in_quick_phase = unat QUICK_TIMEOUT_SECS * 10 ^ 9 * unat QUICK_TIMEOUT_THRESHOLD;
               since_first_slow_round = since_slot_start - time_in_quick_phase;
               delta_slow = of_nat (since_first_slow_round div 10 ^ 9) div SLOW_TIMEOUT_SECS
           in QUICK_TIMEOUT_THRESHOLD + FIRST_ROUND + delta_slow)"

text \<open>\<open>Round::from\<close> panics on zero, which the estimate only reaches by wrapping.\<close>

definition validate_round_in_allowed_spread :: "qbft_message \<Rightarrow> ('k, 'pk) validation_context \<Rightarrow> unit verdict" where
  "validate_round_in_allowed_spread m V =
     bindO (start_time_or (SlotStartTimeNotFound (qm_height m)) (slot_start_time (vc_slot_clock V) (qm_height m)))
       (\<lambda>start.
     bindO (expect (round_from_u64
              (if vc_received_at V > start then current_estimated_round (vc_received_at V - start)
               else FIRST_ROUND))) (\<lambda>estimated_round.
     bindO (ok_or RoundOverflow (round_add estimated_round MAX_ALLOWED_ROUNDS_FUTURE)) (\<lambda>highest_allowed.
     if qm_round m < FIRST_ROUND \<or> qm_round m > highest_allowed
     then Err (EstimatedRoundNotInAllowedSpread (qm_round m) highest_allowed)
     else Ok ())))"

text \<open>The checks of one signer against its recorded state.\<close>

definition validate_signer_state ::
    "(bytes \<Rightarrow> bytes) \<Rightarrow> signed_ssv_message \<Rightarrow> qbft_message \<Rightarrow> signer_state \<Rightarrow> unit verdict" where
  "validate_signer_state sha256 sm m ss =
     (let signers = sg_operator_ids sm in
      if length signers = 1 then
        if qm_round m < ss_round ss then Err (RoundAlreadyAdvanced (qm_round m) (ss_round ss))
        else if qm_round m = ss_round ss then
          if sg_full_data sm \<noteq> []
             \<and> (case ss_proposal_hash ss of Some h \<Rightarrow> h \<noteq> qm_root m | None \<Rightarrow> False)
          then Err DifferentProposalData
          else map_err (\<lambda>e. e) (validate_consensus_message_limits (ss_message_counts ss) sm (qm_type m))
        else Ok ()
      else if length signers > 1 \<and> has_seen_signers sha256 ss signers then Err DecidedWithSameSigners
      else Ok ())"

definition validate_qbft_logic ::
    "('k, 'pk) validation_context \<Rightarrow> qbft_message \<Rightarrow> duty_state \<Rightarrow> duty_state \<times> unit verdict" where
  "validate_qbft_logic V m ds =
     (let sm = vc_signed_ssv_message V; signers = sg_operator_ids sm;
          leader_check =
            (if qm_type m = Proposal then
               case signers of
                 [] \<Rightarrow> Err VfNoSigners
               | signer # _ \<Rightarrow>
                   bindO (expect (round_from_u64 (qm_round m))) (\<lambda>r.
                   bindO (round_robin_proposer (vc_chain V) (qm_height m) r
                            (ci_committee_members (vc_committee_info V)) (vc_slots_per_epoch V)
                            (vc_fork_schedule V)) (\<lambda>leader.
                   if signer \<noteq> leader then Err (SignerNotLeader signer leader) else Ok ()))
             else Ok ())
      in and_then (ds, leader_check) (\<lambda>ds _.
         and_then (for_each_s (\<lambda>ds signer.
                     let (ds1, os) = get_or_create_operator ds signer in
                     case get_signer_state os (qm_height m) of
                       None \<Rightarrow> (ds1, Ok ())
                     | Some ss \<Rightarrow> (ds1, validate_signer_state (cy_sha256 (vc_crypto V)) sm m ss)) ds signers)
           (\<lambda>ds _. (ds, if length signers = 1 then validate_round_in_allowed_spread m V else Ok ()))))"

definition validate_qbft_message_by_duty_logic ::
    "('k, 'pk) validation_context \<Rightarrow> qbft_message \<Rightarrow> duty_state \<Rightarrow> 'pk duties_provider \<Rightarrow> duty_state \<times> unit verdict" where
  "validate_qbft_message_by_duty_logic V m ds dp =
     (let signers = vc_signers V in
      and_then
        (if \<not> is_committee_role (vc_role V) then
           for_each_s (\<lambda>ds signer.
             let (ds1, os) = get_or_create_operator ds signer in
             (ds1, if os_max_slot os > qm_height m
                   then Err (SlotAlreadyAdvanced (qm_height m) (os_max_slot os)) else Ok ())) ds signers
         else (ds, Ok ()))
        (\<lambda>ds _.
      and_then (ds, validate_beacon_duty V (qm_height m) False dp) (\<lambda>ds _.
      and_then (ds, validate_slot_time (qm_height m) V) (\<lambda>ds _.
      for_each_s (\<lambda>ds signer.
        let (ds1, os) = get_or_create_operator ds signer in
        (ds1, validate_duty_count V (qm_height m) os dp)) ds signers))))"

definition validate_consensus_message ::
    "('k, 'pk) validation_context \<Rightarrow> duty_state \<Rightarrow> 'pk duties_provider \<Rightarrow> duty_state \<times> validated_ssv_message verdict" where
  "validate_consensus_message V ds dp =
     (let cy = vc_crypto V; sm = vc_signed_ssv_message V in
      and_then (ds, map_err UndecodableMessageData (cd_qbft_from_ssz (cy_codec cy) (sm_data (vc_ssv V))))
        (\<lambda>ds m.
      and_then (ds, validate_role_for_fork (qm_height m) V) (\<lambda>ds _.
      and_then (ds, validate_consensus_message_semantics cy sm m (vc_committee_info V) (vc_operator_pub_keys V))
        (\<lambda>ds _.
      and_then (validate_qbft_logic V m ds) (\<lambda>ds _.
      and_then (validate_qbft_message_by_duty_logic V m ds dp) (\<lambda>ds _.
      and_then (ds, verify_message_signatures cy sm (vc_operator_pub_keys V)) (\<lambda>ds _.
      (update_for_consensus_message (cy_sha256 cy) ds sm m, Ok (ValidatedQbftMessage m)))))))))"

end
