(* ===== verification/Partial_Sig_Validator.thy ===== *)
theory Partial_Sig_Validator
  imports Message_Validator
begin

text \<open>
  The validation of partial-signature messages (\<open>message_validator/src/partial_signature.rs\<close>).
  Entry counts are list lengths, which the code multiplies by at most five.
\<close>

section \<open>Semantics\<close>

definition MAX_SIGNATURES_IN_SYNC_COMMITTEE :: nat where "MAX_SIGNATURES_IN_SYNC_COMMITTEE = 13"

fun partial_signature_type_matches_role :: "partial_signature_kind \<Rightarrow> role \<Rightarrow> bool" where
  "partial_signature_type_matches_role kind Committee = (kind = PostConsensus)"
| "partial_signature_type_matches_role kind PTCAttester = (kind = KindPTCAttester)"
| "partial_signature_type_matches_role kind ProposerPreferences =
     (kind = KindProposerPreferences \<or> kind = RequestAuth)"
| "partial_signature_type_matches_role kind Aggregator =
     (kind = PostConsensus \<or> kind = SelectionProofPartialSig)"
| "partial_signature_type_matches_role kind Proposer = (kind = PostConsensus \<or> kind = RandaoPartialSig)"
| "partial_signature_type_matches_role kind SyncCommittee =
     (kind = PostConsensus \<or> kind = ContributionProofs)"
| "partial_signature_type_matches_role kind ValidatorRegistration = (kind = KindValidatorRegistration)"
| "partial_signature_type_matches_role kind VoluntaryExit = (kind = KindVoluntaryExit)"
| "partial_signature_type_matches_role kind AggregatorCommittee =
     (kind = PostConsensus \<or> kind = AggregatorCommitteePartialSig)"

definition is_request_auth_batch_role_kind :: "role \<Rightarrow> partial_signature_kind \<Rightarrow> bool" where
  "is_request_auth_batch_role_kind r kind = (r = ProposerPreferences \<and> kind = RequestAuth)"

definition is_gloas_proposer_post :: "('k, 'pk) validation_context \<Rightarrow> partial_signature_messages \<Rightarrow> bool" where
  "is_gloas_proposer_post V p =
     (vc_role V = Proposer \<and> ps_kind p = PostConsensus
      \<and> ch_gloas_enabled (vc_chain V) (ch_epoch (vc_chain V) (ps_slot p) (vc_slots_per_epoch V)))"

fun failure_of_partial_error :: "partial_signature_messages_error \<Rightarrow> validation_failure" where
  "failure_of_partial_error PsEmpty = NoPartialSignatureMessages"
| "failure_of_partial_error PsInconsistentSigners = InconsistentSigners"
| "failure_of_partial_error PsZeroSigner = VfZeroSigner"

definition validate_partial_signature_message_semantics ::
    "('k, 'pk) validation_context \<Rightarrow> partial_signature_messages \<Rightarrow> operator_id verdict" where
  "validate_partial_signature_message_semantics V p =
     (case vc_signers V of
        [signer] \<Rightarrow>
          if sg_full_data (vc_signed_ssv_message V) \<noteq> [] then Err FullDataNotInConsensusMessage
          else if \<not> partial_signature_type_matches_role (ps_kind p) (vc_role V)
          then Err PartialSignatureTypeRoleMismatch
          else
            bindO (map_err failure_of_partial_error (partial_signature_messages_validate p)) (\<lambda>inner_signer.
            if inner_signer \<noteq> signer then Err InconsistentSigners
            else
              let same_validator = (is_request_auth_batch_role_kind (vc_role V) (ps_kind p)
                                    \<or> is_gloas_proposer_post V p);
                  indices = ci_validator_indices (vc_committee_info V)
              in if same_validator
                    \<and> (\<exists>m \<in> set (ps_messages p).
                         psm_validator_index m \<noteq> psm_validator_index (ps_messages p ! 0))
                 then Err InconsistentValidatorIndices
                 else
                   bindO (for_each_o (\<lambda>m.
                            if \<not> is_committee_role (vc_role V) \<and> indices \<noteq> []
                               \<and> psm_validator_index m \<notin> set indices
                            then Err ValidatorIndexMismatch else Ok ()) (ps_messages p)) (\<lambda>_.
                   Ok signer))
      | _ \<Rightarrow> Err PartialSigOneSigner)"

section \<open>Entry limits\<close>

text \<open>The counting loop over the entries: an index beyond its limit stops it.\<close>

fun check_index_occurrences :: "nat \<Rightarrow> (validator_index \<Rightarrow> nat) \<Rightarrow> validator_index list \<Rightarrow> unit verdict" where
  "check_index_occurrences limit counts [] = Ok ()"
| "check_index_occurrences limit counts (index # rest) =
     (if counts index + 1 > limit
      then Err (TooManyValidatorIndexOccurrences index (counts index + 1) limit)
      else check_index_occurrences limit (counts(index := counts index + 1)) rest)"

definition check_entry_count :: "nat \<Rightarrow> nat \<Rightarrow> unit verdict" where
  "check_entry_count message_count limit =
     (if message_count > limit then Err (TooManyPartialSignatureMessages message_count limit) else Ok ())"

definition validate_entry_limits ::
    "('k, 'pk) validation_context \<Rightarrow> partial_signature_messages \<Rightarrow> unit verdict" where
  "validate_entry_limits V p =
     (let validator_count = length (ci_validator_indices (vc_committee_info V));
          message_count = length (ps_messages p);
          indices = map psm_validator_index (ps_messages p);
          count_only = check_entry_count message_count
      in case vc_role V of
           Committee \<Rightarrow>
             bindO (count_only (min (2 * validator_count) (validator_count + vc_sync_committee_size V))) (\<lambda>_.
             check_index_occurrences 2 (\<lambda>_. 0) indices)
         | SyncCommittee \<Rightarrow> count_only MAX_SIGNATURES_IN_SYNC_COMMITTEE
         | AggregatorCommittee \<Rightarrow>
             bindO (count_only (min (5 * validator_count)
                      (validator_count + ch_sync_committee_subnet_count (vc_chain V) * vc_sync_committee_size V))) (\<lambda>_.
             check_index_occurrences 5 (\<lambda>_. 0) indices)
         | ProposerPreferences \<Rightarrow>
             count_only (if is_request_auth_batch_role_kind (vc_role V) (ps_kind p)
                         then MAX_REQUEST_AUTH_DISTINCT_ROOTS else 1)
         | Proposer \<Rightarrow> count_only (if is_gloas_proposer_post V p then 2 else 1)
         | _ \<Rightarrow> count_only 1)"

section \<open>Duty logic\<close>

text \<open>The signer's operator state is created before the first check that reads it.\<close>

definition validate_partial_sig_messages_by_duty_logic ::
    "('k, 'pk) validation_context \<Rightarrow> partial_signature_messages \<Rightarrow> duty_state \<Rightarrow> 'pk duties_provider
     \<Rightarrow> duty_state \<times> unit verdict" where
  "validate_partial_sig_messages_by_duty_logic V p ds dp =
     (case vc_signers V of
        [] \<Rightarrow> (ds, Err VfNoSigners)
      | signer # _ \<Rightarrow>
          let (ds1, os) = get_or_create_operator ds signer; sl = ps_slot p in
          (ds1,
           if monotonic_slot_role (vc_role V) \<and> os_max_slot os \<noteq> 0 \<and> os_max_slot os > sl
           then Err (SlotAlreadyAdvanced sl (os_max_slot os))
           else
             bindO (validate_beacon_duty V sl (ps_kind p = RandaoPartialSig) dp) (\<lambda>_.
             bindO (case get_signer_state os sl of
                      None \<Rightarrow> Ok ()
                    | Some ss \<Rightarrow>
                        map_err (\<lambda>e. e) (counts_validate_partial_signature_message (ss_message_counts ss) p)) (\<lambda>_.
             bindO (validate_slot_time sl V) (\<lambda>_.
             bindO (validate_duty_count V sl os dp) (\<lambda>_.
             validate_entry_limits V p))))))"

section \<open>The whole check\<close>

definition registration_retired :: "('k, 'pk) validation_context \<Rightarrow> bool" where
  "registration_retired V =
     (vc_role V = ValidatorRegistration
      \<and> (case (ch_gloas_fork_epoch (vc_chain V), sc_now (vc_slot_clock V)) of
           (Some gloas_epoch, Some current_slot) \<Rightarrow>
             ch_epoch (vc_chain V) current_slot (vc_slots_per_epoch V) > gloas_epoch
         | _ \<Rightarrow> False))"

definition validate_partial_signature_message ::
    "('k, 'pk) validation_context \<Rightarrow> duty_state \<Rightarrow> 'pk duties_provider \<Rightarrow> duty_state \<times> validated_ssv_message verdict" where
  "validate_partial_signature_message V ds dp =
     and_then (ds, map_err UndecodableMessageData
                     (cd_partial_from_ssz (cy_codec (vc_crypto V)) (sm_data (vc_ssv V)))) (\<lambda>ds p.
     and_then (ds, validate_role_for_fork (ps_slot p) V) (\<lambda>ds _.
     and_then (ds, validate_partial_signature_message_semantics V p) (\<lambda>ds signer.
     if registration_retired V then (ds, Err ValidatorRegistrationRetired)
     else
       and_then (validate_partial_sig_messages_by_duty_logic V p ds dp) (\<lambda>ds _.
       and_then (ds, verify_single_signer V signer) (\<lambda>ds _.
       case vc_signers V of
         [] \<Rightarrow> (ds, Err VfNoSigners)
       | first # _ \<Rightarrow>
           and_then (update_for_partial_signature ds p first) (\<lambda>ds _.
           (ds, Ok (ValidatedPartialSignatureMessages p))))))))"

end
