(* ===== verification/Subnet_Routing.thy ===== *)
theory Subnet_Routing
  imports Fork_Schedule
begin

text \<open>
  The \<open>subnet_service\<close> crate where it is pure: the subnet of a committee (\<open>subnet.rs\<close>), the
  fork-aware router (\<open>routing.rs\<close>, the slot-based queries of \<open>service.rs\<close>) and the creation and
  parsing of topic names (\<open>topic.rs\<close>). SHA-256 is an argument.
\<close>

section \<open>Subnets (subnet.rs)\<close>

definition SUBNET_COUNT :: u64 where "SUBNET_COUNT = 128"

datatype subnet_calculation_error = EmptyOperatorList | InvalidSubnetCount | SubnetIdOutOfRange

type_synonym subnet_id = u64

text \<open>\<open>U256::from_be_bytes\<close>: the value of a big-endian byte string.\<close>

definition be_value :: "bytes \<Rightarrow> nat" where
  "be_value bs = le_value (rev bs)"

definition from_committee_alan :: "committee_id \<Rightarrow> u64 \<Rightarrow> subnet_id option" where
  "from_committee_alan committee_id subnet_count =
     (if subnet_count = 0 then None else Some (of_nat (be_value committee_id mod unat subnet_count)))"

text \<open>\<open>min\<close> of byte arrays is lexicographic.\<close>

fun bytes_le :: "bytes \<Rightarrow> bytes \<Rightarrow> bool" where
  "bytes_le [] _ = True"
| "bytes_le (_ # _) [] = False"
| "bytes_le (a # as) (b # bs) = (a < b \<or> (a = b \<and> bytes_le as bs))"

fun min_bytes :: "bytes list \<Rightarrow> bytes option" where
  "min_bytes [] = None"
| "min_bytes (x # xs) =
     (case min_bytes xs of None \<Rightarrow> Some x | Some y \<Rightarrow> if bytes_le x y then Some x else Some y)"

definition from_operators ::
    "(bytes \<Rightarrow> bytes) \<Rightarrow> operator_id list \<Rightarrow> u64 \<Rightarrow> subnet_calculation_error + subnet_id" where
  "from_operators sha256 operator_ids subnet_count =
     bindR (option_to_result EmptyOperatorList
              (min_bytes (map (\<lambda>op. sha256 (u64_to_le_bytes op)) operator_ids))) (\<lambda>min_hash.
     let r = be_value min_hash mod unat subnet_count in
     if r < 2 ^ 64 then Inr (of_nat r) else Inl SubnetIdOutOfRange)"

definition from_operators_for_fork ::
    "(bytes \<Rightarrow> bytes) \<Rightarrow> operator_id list \<Rightarrow> fork \<Rightarrow> subnet_calculation_error + subnet_id" where
  "from_operators_for_fork sha256 operator_ids f =
     (case f of
        Alan \<Rightarrow> option_to_result InvalidSubnetCount
                  (from_committee_alan (committee_id_of_slice sha256 operator_ids) SUBNET_COUNT)
      | Boole \<Rightarrow> from_operators sha256 operator_ids SUBNET_COUNT)"

section \<open>Router (routing.rs, service.rs)\<close>

record topic_router =
  tr_fork_schedule :: fork_schedule
  tr_slots_per_epoch :: u64

definition router_active_fork :: "topic_router \<Rightarrow> epoch \<Rightarrow> fork option" where
  "router_active_fork r e = active_fork (tr_fork_schedule r) e"

definition active_fork_at_slot :: "chain \<Rightarrow> topic_router \<Rightarrow> slot \<Rightarrow> fork option" where
  "active_fork_at_slot C r sl = active_fork (tr_fork_schedule r) (ch_epoch C sl (tr_slots_per_epoch r))"

text \<open>The outer option is the panic of \<open>active_fork\<close>.\<close>

definition domain_type_for_epoch :: "topic_router \<Rightarrow> epoch \<Rightarrow> domain_type option option" where
  "domain_type_for_epoch r e =
     (case active_fork (tr_fork_schedule r) e of
        None \<Rightarrow> None
      | Some f \<Rightarrow> Some (schedule_domain_type (tr_fork_schedule r) f))"

definition subnet_for_committee_with_operators_at_slot ::
    "(bytes \<Rightarrow> bytes) \<Rightarrow> chain \<Rightarrow> topic_router \<Rightarrow> committee_id \<Rightarrow> operator_id list \<Rightarrow> slot
     \<Rightarrow> (subnet_id, subnet_calculation_error) outcome" where
  "subnet_for_committee_with_operators_at_slot sha256 C r committee_id operator_ids sl =
     bindO (expect (active_fork_at_slot C r sl)) (\<lambda>f.
     case f of
       Alan \<Rightarrow> expect (from_committee_alan committee_id SUBNET_COUNT)
     | Boole \<Rightarrow> map_err (\<lambda>e. e) (from_operators sha256 operator_ids SUBNET_COUNT))"

section \<open>Topics (topic.rs)\<close>

text \<open>\<open>Display\<close> and \<open>FromStr\<close> of \<open>u64\<close>: decimal digits, the parser also taking a leading plus
  sign and leading zeros.\<close>

definition digit_char :: "nat \<Rightarrow> char" where
  "digit_char d = char_of (48 + d)"

fun nat_to_string :: "nat \<Rightarrow> string" where
  "nat_to_string n = (if n < 10 then [digit_char n] else nat_to_string (n div 10) @ [digit_char (n mod 10)])"

declare nat_to_string.simps [simp del]

definition digit_value :: "char \<Rightarrow> nat option" where
  "digit_value c = (let n = of_char c in if 48 \<le> n \<and> n < 58 then Some (n - 48) else None)"

fun digits_value :: "nat \<Rightarrow> string \<Rightarrow> nat option" where
  "digits_value acc [] = Some acc"
| "digits_value acc (c # cs) =
     (case digit_value c of None \<Rightarrow> None | Some d \<Rightarrow> digits_value (acc * 10 + d) cs)"

definition parse_u64 :: "string \<Rightarrow> u64 option" where
  "parse_u64 s =
     (let ds = (case s of CHR ''+'' # rest \<Rightarrow> rest | _ \<Rightarrow> s) in
      if ds = [] then None
      else case digits_value 0 ds of None \<Rightarrow> None | Some n \<Rightarrow> if n < 2 ^ 64 then Some (of_nat n) else None)"

definition create_topic :: "string \<Rightarrow> subnet_id \<Rightarrow> string" where
  "create_topic prefix subnet = prefix @ nat_to_string (unat subnet)"

definition topic_for_subnet_at_epoch :: "topic_router \<Rightarrow> subnet_id \<Rightarrow> epoch \<Rightarrow> string option" where
  "topic_for_subnet_at_epoch r subnet e =
     map_option (\<lambda>c. create_topic (fork_topic_prefix (fc_fork c) (fs_network_name (tr_fork_schedule r))) subnet)
       (active_fork_config (tr_fork_schedule r) e)"

definition topic_for_subnet_at_slot :: "chain \<Rightarrow> topic_router \<Rightarrow> subnet_id \<Rightarrow> slot \<Rightarrow> string option" where
  "topic_for_subnet_at_slot C r subnet sl =
     topic_for_subnet_at_epoch r subnet (ch_epoch C sl (tr_slots_per_epoch r))"

text \<open>The topics a node may be subscribed to, before hashing.\<close>

definition whitelist_topics :: "fork_schedule \<Rightarrow> string set" where
  "whitelist_topics s =
     set (concat (map (\<lambda>f.
       if schedule_config s f = None then []
       else map (\<lambda>n. create_topic (fork_topic_prefix f (fs_network_name s)) (of_nat n))
              [0..<unat SUBNET_COUNT]) fork_all))"

record parsed_topic =
  pt_subnet_id :: subnet_id
  pt_fork :: fork
  pt_network :: "string option"

fun strip_prefix :: "string \<Rightarrow> string \<Rightarrow> string option" where
  "strip_prefix [] s = Some s"
| "strip_prefix (p # ps) [] = None"
| "strip_prefix (p # ps) (c # cs) = (if p = c then strip_prefix ps cs else None)"

fun split_on :: "char \<Rightarrow> string \<Rightarrow> string list" where
  "split_on d [] = [[]]"
| "split_on d (c # cs) =
     (if c = d then [] # split_on d cs
      else case split_on d cs of [] \<Rightarrow> [[c]] | w # ws \<Rightarrow> (c # w) # ws)"

definition ascii_lower :: "char \<Rightarrow> char" where
  "ascii_lower c = (let n = of_char c :: nat in if 65 \<le> n \<and> n < 91 then char_of (n + 32) else c)"

definition fork_from_str :: "string \<Rightarrow> fork option" where
  "fork_from_str s =
     (let l = map ascii_lower s in
      if l = ''alan'' then Some Alan else if l = ''boole'' then Some Boole else None)"

definition parse_and_validate_subnet :: "u64 \<Rightarrow> subnet_id option" where
  "parse_and_validate_subnet subnet_num = (if subnet_num < SUBNET_COUNT then Some subnet_num else None)"

definition parse_topic_str :: "string \<Rightarrow> parsed_topic option" where
  "parse_topic_str s =
     (case strip_prefix ''ssv.v2.'' s of
        Some suffix \<Rightarrow>
          (case parse_u64 suffix of
             None \<Rightarrow> None
           | Some subnet_num \<Rightarrow>
               map_option (\<lambda>sn. \<lparr>pt_subnet_id = sn, pt_fork = Alan, pt_network = None\<rparr>)
                 (parse_and_validate_subnet subnet_num))
      | None \<Rightarrow>
          (case split_on CHR ''/'' s of
             [first, ssv, network, name, subnet_str] \<Rightarrow>
               if first = [] \<and> ssv = ''ssv'' then
                 (case fork_from_str name of
                    None \<Rightarrow> None
                  | Some f \<Rightarrow>
                      if f = Alan then None
                      else
                        (case parse_u64 subnet_str of
                           None \<Rightarrow> None
                         | Some subnet_num \<Rightarrow>
                             map_option (\<lambda>sn. \<lparr>pt_subnet_id = sn, pt_fork = f, pt_network = Some network\<rparr>)
                               (parse_and_validate_subnet subnet_num)))
               else None
           | _ \<Rightarrow> None))"

section \<open>Subnets are in range\<close>

lemma of_nat_mod_less:
  fixes n :: u64
  assumes "n \<noteq> 0"
  shows "(of_nat (x mod unat n) :: u64) < n"
proof -
  have lt: "x mod unat n < unat n" using assms by (simp add: unat_gt_0)
  moreover have "unat n < 2 ^ LENGTH(64)" by (rule unsigned_less)
  ultimately have "unat (of_nat (x mod unat n) :: u64) = x mod unat n"
    by (simp add: unat_of_nat)
  then show ?thesis using lt by (simp add: word_less_nat_alt)
qed

lemma from_operators_range:
  assumes "n \<noteq> 0" "from_operators sha256 ops n = Inr sn"
  shows "sn < n"
  using assms of_nat_mod_less [OF assms(1)]
  by (auto simp: from_operators_def bindR_Inr_iff Let_def split: if_splits)

lemma from_operators_total:
  assumes "n \<noteq> 0" "ops \<noteq> []"
  shows "\<exists>sn. from_operators sha256 ops n = Inr sn"
proof -
  have "\<exists>h. min_bytes (map (\<lambda>op. sha256 (u64_to_le_bytes op)) ops) = Some h"
    using assms(2) by (cases ops) (auto split: option.splits)
  moreover have "be_value h mod unat n < 2 ^ 64" for h
  proof -
    have "be_value h mod unat n < unat n" using assms(1) by (simp add: unat_gt_0)
    moreover have "unat n < 2 ^ LENGTH(64)" by (rule unsigned_less)
    ultimately show ?thesis by simp
  qed
  ultimately show ?thesis by (auto simp: from_operators_def)
qed

section \<open>Topic round trip\<close>

lemma digit_value_char [simp]: "d < 10 \<Longrightarrow> digit_value (digit_char d) = Some d"
  by (simp add: digit_value_def digit_char_def Let_def)

lemma digits_value_append:
  "digits_value acc (xs @ ys) = (case digits_value acc xs of None \<Rightarrow> None | Some v \<Rightarrow> digits_value v ys)"
  by (induction xs arbitrary: acc) (auto split: option.splits)

lemma digits_value_nat: "digits_value 0 (nat_to_string n) = Some n"
proof (induction n rule: nat_to_string.induct)
  case (1 n)
  then show ?case
    by (subst nat_to_string.simps) (auto simp: digits_value_append)
qed

lemma nat_to_string_nonempty: "nat_to_string n \<noteq> []"
  by (subst nat_to_string.simps) simp

lemma nat_to_string_digits: "c \<in> set (nat_to_string n) \<Longrightarrow> digit_value c \<noteq> None"
proof (induction n rule: nat_to_string.induct)
  case (1 n)
  show ?case
  proof (cases "n < 10")
    case True
    then show ?thesis using 1(2) by (subst (asm) nat_to_string.simps) simp
  next
    case False
    then have "c \<in> set (nat_to_string (n div 10)) \<or> c = digit_char (n mod 10)"
      using 1(2) by (subst (asm) nat_to_string.simps) auto
    then show ?thesis using 1(1) [OF False] by auto
  qed
qed

lemma parse_u64_to_string: "parse_u64 (nat_to_string (unat w)) = Some w"
proof -
  have "hd (nat_to_string (unat w)) \<in> set (nat_to_string (unat w))"
    using nat_to_string_nonempty by (rule hd_in_set)
  then have "hd (nat_to_string (unat w)) \<noteq> CHR ''+''"
    using nat_to_string_digits by (fastforce simp: digit_value_def)
  then have plus: "(case nat_to_string (unat w) of CHR ''+'' # rest \<Rightarrow> rest | _ \<Rightarrow> nat_to_string (unat w))
      = nat_to_string (unat w)"
    by (cases "nat_to_string (unat w)") (auto split: char.splits bool.splits)
  have "unat w < 2 ^ 64" using unsigned_less [of w] by simp
  then show ?thesis
    unfolding parse_u64_def Let_def plus by (simp add: nat_to_string_nonempty digits_value_nat)
qed

lemma split_on_no_sep: "d \<notin> set w \<Longrightarrow> split_on d w = [w]"
  by (induction w) auto

lemma split_on_append: "d \<notin> set w \<Longrightarrow> split_on d (w @ d # rest) = w # split_on d rest"
  by (induction w) auto

lemma strip_prefix_append: "strip_prefix p (p @ s) = Some s"
  by (induction p) auto

text \<open>A topic made for a scheduled subnet parses back to it; the network name of later forks must
  not contain the separator.\<close>

lemma topic_roundtrip_alan:
  assumes "sn < SUBNET_COUNT"
  shows "parse_topic_str (create_topic (fork_topic_prefix Alan name) sn) =
    Some \<lparr>pt_subnet_id = sn, pt_fork = Alan, pt_network = None\<rparr>"
  using assms
  by (simp add: parse_topic_str_def create_topic_def fork_topic_prefix_def ALAN_TOPIC_PREFIX_def
      parse_and_validate_subnet_def parse_u64_to_string strip_prefix_append [of "''ssv.v2.''", simplified])

lemma topic_roundtrip_boole:
  assumes "sn < SUBNET_COUNT" "CHR ''/'' \<notin> set name"
  shows "parse_topic_str (create_topic (fork_topic_prefix Boole name) sn) =
    Some \<lparr>pt_subnet_id = sn, pt_fork = Boole, pt_network = Some name\<rparr>"
proof -
  let ?n = "nat_to_string (unat sn)"
  have nosep: "CHR ''/'' \<notin> set ?n"
    using nat_to_string_digits [of "CHR ''/''"] by (auto simp: digit_value_def)
  have "split_on CHR ''/'' (''/ssv/'' @ name @ ''/boole/'' @ ?n) = [[], ''ssv'', name, ''boole'', ?n]"
    using split_on_append [OF assms(2), of "''boole/'' @ ?n"] split_on_no_sep [OF nosep] by simp
  then show ?thesis
    using assms(1)
    by (simp add: parse_topic_str_def create_topic_def fork_topic_prefix_def parse_u64_to_string
        parse_and_validate_subnet_def fork_from_str_def ascii_lower_def Let_def)
qed

end
