(* ===== verification/Validator_Service.thy ===== *)
theory Validator_Service
  imports Partial_Sig_Validator Subnet_Routing
begin

text \<open>
  The validator service (\<open>message_validator/src/lib.rs\<close>, \<open>struct Validator\<close>): finding the committee
  of a message, the topic and domain check, the dispatch to the two message kinds, the map of duty
  states and its cleaner. The clock reading, the time of receipt, the duty provider, the codecs and
  the iteration orders of hash sets are arguments.
\<close>

section \<open>Results\<close>

record validated_message =
  vm_signed_ssv_message :: signed_ssv_message
  vm_ssv_message :: validated_ssv_message

datatype validation_result =
    ValidationSuccess validated_message
  | PreDecodeFailure validation_failure
  | PostDecodeFailure validation_failure signed_ssv_message

fun as_result :: "validation_result \<Rightarrow> validation_failure + validated_message" where
  "as_result (ValidationSuccess message) = Inr message"
| "as_result (PreDecodeFailure failure) = Inl failure"
| "as_result (PostDecodeFailure failure _) = Inl failure"

fun result_signed_ssv_message :: "validation_result \<Rightarrow> signed_ssv_message option" where
  "result_signed_ssv_message (ValidationSuccess message) = Some (vm_signed_ssv_message message)"
| "result_signed_ssv_message (PreDecodeFailure _) = None"
| "result_signed_ssv_message (PostDecodeFailure _ message) = Some message"

definition result_acceptance :: "validation_result \<Rightarrow> message_acceptance" where
  "result_acceptance r = (case as_result r of Inr _ \<Rightarrow> Accept | Inl failure \<Rightarrow> failure_acceptance failure)"

datatype topic_context = SkipValidation | Validate parsed_topic

section \<open>State\<close>

record 'k validator =
  va_network_state :: "'k network_state"
  va_duty_state_map :: "message_id \<rightharpoonup> duty_state"
  va_slots_per_epoch :: u64
  va_epochs_per_sync_committee_period :: u64
  va_sync_committee_size :: nat
  va_router :: topic_router
  va_fork_schedule :: fork_schedule
  va_chain :: chain

text \<open>What a call reads from outside: the clock, the time of receipt and the libraries.\<close>

record 'k validator_env =
  ve_crypto :: "'k crypto"
  ve_pk_deserialize :: "bytes \<Rightarrow> pubkey option"
  ve_slot_clock :: slot_clock
  ve_received_at :: nat
  ve_duties_provider :: "pubkey duties_provider"
  ve_cluster_order :: "cluster_id set \<Rightarrow> cluster_id list"
  ve_pubkey_order :: "pubkey set \<Rightarrow> pubkey list"

definition validator_new ::
    "'k network_state \<Rightarrow> u64 \<Rightarrow> u64 \<Rightarrow> nat \<Rightarrow> topic_router \<Rightarrow> fork_schedule \<Rightarrow> chain \<Rightarrow> 'k validator" where
  "validator_new ns slots_per_epoch epochs_per_period sync_committee_size router schedule C =
     \<lparr>va_network_state = ns, va_duty_state_map = Map.empty, va_slots_per_epoch = slots_per_epoch,
      va_epochs_per_sync_committee_period = epochs_per_period,
      va_sync_committee_size = sync_committee_size, va_router = router, va_fork_schedule = schedule,
      va_chain = C\<rparr>"

section \<open>Committee, keys, topic and domain\<close>

definition get_operator_pub_keys :: "'k network_state \<Rightarrow> operator_id list \<Rightarrow> operator_id \<rightharpoonup> 'k" where
  "get_operator_pub_keys ns operator_ids =
     (\<lambda>i. if i \<in> set operator_ids then map_option op_rsa_pubkey (get_operator ns i) else None)"

definition message_committee_id :: "'k validator_env \<Rightarrow> message_id \<Rightarrow> committee_id option" where
  "message_committee_id X msg_id =
     (case msgid_duty_executor (ve_pk_deserialize X) msg_id of
        Some (CommitteeExecutor i) \<Rightarrow> Some i | _ \<Rightarrow> None)"

definition message_committee_info ::
    "'k validator_env \<Rightarrow> 'k network_state \<Rightarrow> role \<Rightarrow> message_id \<Rightarrow> committee_info verdict" where
  "message_committee_info X ns r msg_id =
     (if is_committee_role r then
        bindO (ok_or NonExistentCommitteeID (message_committee_id X msg_id)) (\<lambda>committee_id.
        ok_or NonExistentCommitteeID
          (get_committee_info_by_committee_id (ve_cluster_order X) (ve_pubkey_order X) ns committee_id))
      else
        (case msgid_duty_executor (ve_pk_deserialize X) msg_id of
           Some (ValidatorExecutor validator_pk) \<Rightarrow>
             ok_or UnknownValidator (get_committee_info_by_validator_pk ns validator_pk)
         | _ \<Rightarrow> Err UnknownValidator))"

definition topic_error_is_incorrect :: "('a, 'e) outcome \<Rightarrow> 'a verdict" where
  "topic_error_is_incorrect r = (case r of Ok a \<Rightarrow> Ok a | Err _ \<Rightarrow> Err IncorrectTopic | Panic \<Rightarrow> Panic)"

definition validate_topic_and_domain ::
    "'k validator_env \<Rightarrow> 'k validator \<Rightarrow> topic_context \<Rightarrow> committee_id option \<Rightarrow> operator_id list
     \<Rightarrow> ssv_message \<Rightarrow> unit verdict" where
  "validate_topic_and_domain X va context committee_id operator_ids m =
     (case context of
        SkipValidation \<Rightarrow> Ok ()
      | Validate parsed \<Rightarrow>
          let sha256 = cy_sha256 (ve_crypto X) in
          bindO (ok_or UnknownMessageSlot (extract_slot (cy_codec (ve_crypto X)) m)) (\<lambda>message_slot.
          let cid = (case committee_id of Some i \<Rightarrow> i | None \<Rightarrow> committee_id_of_vec sha256 operator_ids) in
          bindO (topic_error_is_incorrect
                   (subnet_for_committee_with_operators_at_slot sha256 (va_chain va) (va_router va)
                      cid operator_ids message_slot)) (\<lambda>expected_subnet.
          if pt_subnet_id parsed \<noteq> expected_subnet then Err IncorrectTopic
          else
            let message_epoch = ch_epoch (va_chain va) message_slot (va_slots_per_epoch va) in
            bindO (expect (router_active_fork (va_router va) message_epoch)) (\<lambda>expected_fork.
            if pt_fork parsed \<noteq> expected_fork then Err TopicForkMismatch
            else
              bindO (expect (domain_type_for_epoch (va_router va) message_epoch)) (\<lambda>domain.
              bindO (ok_or VfWrongDomain domain) (\<lambda>expected_domain.
              if msgid_domain (sm_msg_id m) \<noteq> expected_domain then Err VfWrongDomain else Ok ()))))))"

section \<open>Dispatch\<close>

definition validate_ssv_message ::
    "('k, 'pk) validation_context \<Rightarrow> duty_state \<Rightarrow> 'pk duties_provider \<Rightarrow> duty_state \<times> validated_ssv_message verdict" where
  "validate_ssv_message V ds dp =
     (if \<exists>signer \<in> set (vc_signers V). signer \<notin> set (ci_committee_members (vc_committee_info V))
      then (ds, Err VfSignerNotInCommittee)
      else
        (case sm_msg_type (vc_ssv V) of
           SSVConsensusMsgType \<Rightarrow> validate_consensus_message V ds dp
         | SSVPartialSignatureMsgType \<Rightarrow> validate_partial_signature_message V ds dp))"

definition get_duty_state :: "'k validator \<Rightarrow> message_id \<Rightarrow> role \<Rightarrow> duty_state" where
  "get_duty_state va msg_id r =
     (case va_duty_state_map va msg_id of
        Some ds \<Rightarrow> ds
      | None \<Rightarrow> duty_state_new (stored_slot_count (va_chain va) r (va_slots_per_epoch va)))"

definition context_of ::
    "'k validator_env \<Rightarrow> 'k validator \<Rightarrow> signed_ssv_message \<Rightarrow> role \<Rightarrow> committee_info
     \<Rightarrow> ('k, pubkey) validation_context" where
  "context_of X va sm r ci =
     \<lparr>vc_signed_ssv_message = sm, vc_role = r, vc_committee_info = ci,
      vc_received_at = ve_received_at X, vc_slots_per_epoch = va_slots_per_epoch va,
      vc_epochs_per_sync_committee_period = va_epochs_per_sync_committee_period va,
      vc_sync_committee_size = va_sync_committee_size va, vc_slot_clock = ve_slot_clock X,
      vc_operator_pub_keys = get_operator_pub_keys (va_network_state va) (ci_committee_members ci),
      vc_fork_schedule = va_fork_schedule va, vc_chain = va_chain va, vc_crypto = ve_crypto X,
      vc_pk_deserialize = ve_pk_deserialize X\<rparr>"

text \<open>The duty state is written back through the map entry, whatever the verdict.\<close>

definition validate_decoded_message ::
    "'k validator_env \<Rightarrow> 'k validator \<Rightarrow> signed_ssv_message \<Rightarrow> topic_context \<Rightarrow> 'k validator \<times> validated_message verdict" where
  "validate_decoded_message X va sm context =
     (let m = sg_ssv_message sm; msg_id = sm_msg_id m in
      and_then (va, validate_structure_and_role sm) (\<lambda>va r.
      and_then (va, message_committee_info X (va_network_state va) r msg_id) (\<lambda>va ci.
      and_then (va, validate_topic_and_domain X va context (message_committee_id X msg_id)
                      (ci_committee_members ci) m) (\<lambda>va _.
      let (ds, verdict) = validate_ssv_message (context_of X va sm r ci) (get_duty_state va msg_id r)
                            (ve_duties_provider X);
          va1 = va\<lparr>va_duty_state_map := (va_duty_state_map va)(msg_id \<mapsto> ds)\<rparr>
      in and_then (va1, verdict) (\<lambda>va validated.
         (va, Ok \<lparr>vm_signed_ssv_message = sm, vm_ssv_message = validated\<rparr>))))))"

definition validate ::
    "'k validator_env \<Rightarrow> 'k validator \<Rightarrow> bytes \<Rightarrow> topic_context \<Rightarrow> 'k validator \<times> validation_result option" where
  "validate X va message_data context =
     (case cd_signed_from_ssz (cy_codec (ve_crypto X)) message_data of
        Inl e \<Rightarrow> (va, Some (PreDecodeFailure (UndecodableMessageData e)))
      | Inr sm \<Rightarrow>
          (case validate_decoded_message X va sm context of
             (va', Ok validated) \<Rightarrow> (va', Some (ValidationSuccess validated))
           | (va', Err failure) \<Rightarrow> (va', Some (PostDecodeFailure failure sm))
           | (va', Panic) \<Rightarrow> (va', None)))"

section \<open>Cleaner\<close>

text \<open>One pass of the cleaner task, with the clock reading it makes after its sleep.\<close>

definition cleaner_step :: "'k validator \<Rightarrow> slot option \<Rightarrow> 'k validator" where
  "cleaner_step va now =
     (case now of
        None \<Rightarrow> va
      | Some now \<Rightarrow>
          va\<lparr>va_duty_state_map := (\<lambda>i.
             case va_duty_state_map va i of
               None \<Rightarrow> None
             | Some ds \<Rightarrow> if duty_state_outdated (va_chain va) ds now then None else Some ds)\<rparr>)"

end
