(* ===== verification/Validator_Proofs.thy ===== *)
theory Validator_Proofs
  imports Validator_Service Qbft_Manager
begin

text \<open>
  What passing the message validator means: the checks of an accepted message, what a rejected one
  leaves behind, and the link to the QBFT instances, whose assumptions on received messages are
  facts about accepted ones.
\<close>

section \<open>Loops over the signers\<close>

text \<open>Looking an operator up may create its entry; that is all the checks change.\<close>

definition same_operators :: "duty_state \<Rightarrow> duty_state \<Rightarrow> bool" where
  "same_operators ds ds' \<longleftrightarrow>
     ds_stored_slot_count ds' = ds_stored_slot_count ds
     \<and> (\<forall>op. operator_or_new ds' op = operator_or_new ds op)"

lemma same_operators_refl [simp]: "same_operators ds ds"
  by (simp add: same_operators_def)

lemma same_operators_trans: "same_operators a b \<Longrightarrow> same_operators b c \<Longrightarrow> same_operators a c"
  by (simp add: same_operators_def)

lemma operator_or_new_eq: "same_operators ds ds' \<Longrightarrow> operator_or_new ds' op = operator_or_new ds op"
  by (simp add: same_operators_def)

lemma get_or_create_operator_eq:
  "get_or_create_operator ds s = (put_operator ds s (operator_or_new ds s), operator_or_new ds s)"
  by (simp add: get_or_create_operator_def Let_def)

lemma operator_or_new_put [simp]:
  "operator_or_new (put_operator ds s os) op = (if op = s then os else operator_or_new ds op)"
  by (simp add: operator_or_new_def put_operator_def split: option.split)

lemma stored_slot_count_put [simp]: "ds_stored_slot_count (put_operator ds s os) = ds_stored_slot_count ds"
  by (simp add: put_operator_def)

lemma same_operators_put [simp]: "same_operators ds (put_operator ds s (operator_or_new ds s))"
  by (simp add: same_operators_def)

lemma for_each_operator:
  assumes "\<And>ds s. body ds s = (put_operator ds s (operator_or_new ds s), g s (operator_or_new ds s))"
  shows "same_operators ds (fst (for_each_s body ds ss))
    \<and> snd (for_each_s body ds ss) = for_each_o (\<lambda>s. g s (operator_or_new ds s)) ss"
proof (induction ss arbitrary: ds)
  case (Cons s ss)
  let ?ds = "put_operator ds s (operator_or_new ds s)"
  have same: "operator_or_new ?ds = operator_or_new ds" by (simp add: fun_eq_iff)
  show ?case
    using Cons [of ?ds] same_operators_trans [of ds ?ds]
    by (cases "g s (operator_or_new ds s)") (simp_all add: assms same)
qed simp

lemma for_each_operatorD:
  assumes "for_each_s body ds ss = (ds', r)"
    and "\<And>ds s. body ds s = (put_operator ds s (operator_or_new ds s), g s (operator_or_new ds s))"
  shows "same_operators ds ds'" and "r = for_each_o (\<lambda>s. g s (operator_or_new ds s)) ss"
  using for_each_operator [OF assms(2), of ds ss] assms(1) by simp_all

lemma and_then_cases:
  assumes "and_then r f = (s', v)"
  obtains (ok) s a where "r = (s, Ok a)" "f s a = (s', v)"
    | (err) e where "r = (s', Err e)" "v = Err e"
    | (panic) "r = (s', Panic)" "v = Panic"
  using assms by (cases r; cases "snd r") auto

section \<open>An accepted consensus message\<close>

definition leader_ok :: "('k, 'pk) validation_context \<Rightarrow> qbft_message \<Rightarrow> bool" where
  "leader_ok V m \<longleftrightarrow>
     qm_type m = Proposal \<longrightarrow>
       (\<exists>leader rest. vc_signers V = leader # rest
          \<and> round_robin_proposer (vc_chain V) (qm_height m) (qm_round m)
              (ci_committee_members (vc_committee_info V)) (vc_slots_per_epoch V) (vc_fork_schedule V) = Ok leader)"

definition signer_ok ::
    "('k, 'pk) validation_context \<Rightarrow> qbft_message \<Rightarrow> operator_state \<Rightarrow> bool" where
  "signer_ok V m os \<longleftrightarrow>
     (case get_signer_state os (qm_height m) of
        None \<Rightarrow> True
      | Some ss \<Rightarrow> validate_signer_state (cy_sha256 (vc_crypto V)) (vc_signed_ssv_message V) m ss = Ok ())"

lemma validate_qbft_logic_D:
  assumes "validate_qbft_logic V m ds = (ds', r)"
  shows "same_operators ds ds'"
    and "r = Ok u \<Longrightarrow> leader_ok V m"
    and "r = Ok u \<Longrightarrow> s \<in> set (vc_signers V) \<Longrightarrow> signer_ok V m (operator_or_new ds s)"
    and "r = Ok u \<Longrightarrow> length (vc_signers V) = 1 \<Longrightarrow> validate_round_in_allowed_spread m V = Ok ()"
proof -
  let ?g = "\<lambda>s os. case get_signer_state os (qm_height m) of
      None \<Rightarrow> Ok ()
    | Some ss \<Rightarrow> validate_signer_state (cy_sha256 (vc_crypto V)) (vc_signed_ssv_message V) m ss"
  let ?loop = "for_each_s (\<lambda>ds signer.
                     let (ds1, os) = get_or_create_operator ds signer in
                     case get_signer_state os (qm_height m) of
                       None \<Rightarrow> (ds1, Ok ())
                     | Some ss \<Rightarrow> (ds1, validate_signer_state (cy_sha256 (vc_crypto V)) (vc_signed_ssv_message V) m ss))
       ds (vc_signers V)"
  obtain ds1 r1 where loop: "?loop = (ds1, r1)" by (cases ?loop)
  have l: "same_operators ds ds1" "r1 = for_each_o (\<lambda>s. ?g s (operator_or_new ds s)) (vc_signers V)"
    by (rule for_each_operatorD [where g = ?g, OF loop],
        simp add: get_or_create_operator_eq split: option.split)+
  let ?lead = "if qm_type m = Proposal then
               case vc_signers V of
                 [] \<Rightarrow> Err VfNoSigners
               | signer # _ \<Rightarrow>
                   bindO (expect (round_from_u64 (qm_round m))) (\<lambda>r.
                   bindO (round_robin_proposer (vc_chain V) (qm_height m) r
                            (ci_committee_members (vc_committee_info V)) (vc_slots_per_epoch V)
                            (vc_fork_schedule V)) (\<lambda>leader.
                   if signer \<noteq> leader then Err (SignerNotLeader signer leader) else Ok ()))
             else Ok ()"
  have eq: "validate_qbft_logic V m ds = and_then (ds, ?lead) (\<lambda>ds _. and_then ?loop
     (\<lambda>ds _. (ds, if length (vc_signers V) = 1 then validate_round_in_allowed_spread m V else Ok ())))"
    unfolding validate_qbft_logic_def Let_def by (cases ?lead) simp_all
  show "same_operators ds ds'"
    using assms l(1) unfolding eq loop by (cases ?lead; cases r1) auto
  assume r: "r = Ok u"
  have lead: "?lead = Ok ()" and r1: "r1 = Ok ()"
    and spread: "length (vc_signers V) = 1 \<Longrightarrow> validate_round_in_allowed_spread m V = Ok ()"
    using assms r unfolding eq loop by (cases ?lead; cases r1; auto split: if_splits)+
  show "leader_ok V m"
    using lead by (auto simp: leader_ok_def bindO_Ok_iff round_from_u64_def split: if_splits list.splits)
  have "for_each_o (\<lambda>s. ?g s (operator_or_new ds s)) (vc_signers V) = Ok ()" using l(2) r1 by simp
  then have "\<forall>s \<in> set (vc_signers V). ?g s (operator_or_new ds s) = Ok ()" by (simp only: for_each_o_Ok_iff)
  then show "signer_ok V m (operator_or_new ds s)" if "s \<in> set (vc_signers V)"
    using that by (auto simp: signer_ok_def split: option.splits)
  show "validate_round_in_allowed_spread m V = Ok ()" if "length (vc_signers V) = 1"
    using spread [OF that] .
qed

lemma duty_logic_D:
  assumes "validate_qbft_message_by_duty_logic V m ds dp = (ds', r)"
  shows "same_operators ds ds'"
    and "r = Ok u \<Longrightarrow> validate_slot_time (qm_height m) V = Ok ()"
    and "r = Ok u \<Longrightarrow> validate_beacon_duty V (qm_height m) False dp = Ok ()"
    and "r = Ok u \<Longrightarrow> s \<in> set (vc_signers V) \<Longrightarrow> \<not> is_committee_role (vc_role V) \<Longrightarrow>
      os_max_slot (operator_or_new ds s) \<le> qm_height m"
    and "r = Ok u \<Longrightarrow> s \<in> set (vc_signers V) \<Longrightarrow>
      validate_duty_count V (qm_height m) (operator_or_new ds s) dp = Ok ()"
proof -
  let ?g1 = "\<lambda>(s :: operator_id) os. if os_max_slot os > qm_height m
                   then Err (SlotAlreadyAdvanced (qm_height m) (os_max_slot os)) else Ok ()"
  let ?g2 = "\<lambda>(s :: operator_id) os. validate_duty_count V (qm_height m) os dp"
  let ?b1 = "\<lambda>ds signer. let (ds1, os) = get_or_create_operator ds signer in
             (ds1, if os_max_slot os > qm_height m
                   then Err (SlotAlreadyAdvanced (qm_height m) (os_max_slot os)) else Ok ())"
  let ?b2 = "\<lambda>ds signer. let (ds1, os) = get_or_create_operator ds signer in
        (ds1, validate_duty_count V (qm_height m) os dp)"
  let ?l1 = "if \<not> is_committee_role (vc_role V) then for_each_s ?b1 ds (vc_signers V) else (ds, Ok ())"
  obtain ds1 r1 where l1: "?l1 = (ds1, r1)" by (cases ?l1)
  have s1: "same_operators ds ds1"
    and o1: "\<not> is_committee_role (vc_role V) \<Longrightarrow> r1 = for_each_o (\<lambda>s. ?g1 s (operator_or_new ds s)) (vc_signers V)"
    using for_each_operator [where body = ?b1 and g = ?g1 and ds = ds and ss = "vc_signers V"] l1
    by (auto simp: get_or_create_operator_eq split: if_splits)
  obtain ds2 r2 where l2: "for_each_s ?b2 ds1 (vc_signers V) = (ds2, r2)"
    by (cases "for_each_s ?b2 ds1 (vc_signers V)")
  have s2: "same_operators ds1 ds2"
    and o2: "r2 = for_each_o (\<lambda>s. ?g2 s (operator_or_new ds1 s)) (vc_signers V)"
    using for_each_operator [where body = ?b2 and g = ?g2 and ds = ds1 and ss = "vc_signers V"] l2
    by (auto simp: get_or_create_operator_eq)
  have eq: "validate_qbft_message_by_duty_logic V m ds dp =
    and_then (ds1, r1) (\<lambda>ds _. and_then (ds, validate_beacon_duty V (qm_height m) False dp) (\<lambda>ds _.
      and_then (ds, validate_slot_time (qm_height m) V) (\<lambda>ds _. for_each_s ?b2 ds (vc_signers V))))"
    unfolding validate_qbft_message_by_duty_logic_def Let_def l1 [unfolded Let_def] by simp
  show "same_operators ds ds'"
    using assms s1 s2 same_operators_trans [OF s1 s2] l2 unfolding eq
    by (auto elim!: and_then_cases)
  assume r: "r = Ok u"
  then have r1: "r1 = Ok ()" and bd: "validate_beacon_duty V (qm_height m) False dp = Ok ()"
    and st: "validate_slot_time (qm_height m) V = Ok ()" and r2: "r2 = Ok ()"
    using assms l2 unfolding eq by (auto elim!: and_then_cases)
  show "validate_slot_time (qm_height m) V = Ok ()" by (rule st)
  show "validate_beacon_duty V (qm_height m) False dp = Ok ()" by (rule bd)
  show "os_max_slot (operator_or_new ds s) \<le> qm_height m"
    if "s \<in> set (vc_signers V)" "\<not> is_committee_role (vc_role V)"
  proof -
    have "for_each_o (\<lambda>s. ?g1 s (operator_or_new ds s)) (vc_signers V) = Ok ()" using o1 [OF that(2)] r1 by simp
    then show ?thesis using that(1) by (force simp: for_each_o_Ok_iff split: if_splits)
  qed
  show "validate_duty_count V (qm_height m) (operator_or_new ds s) dp = Ok ()" if "s \<in> set (vc_signers V)"
  proof -
    have "for_each_o (\<lambda>s. ?g2 s (operator_or_new ds1 s)) (vc_signers V) = Ok ()" using o2 r2 by simp
    then show ?thesis using that operator_or_new_eq [OF s1] by (simp add: for_each_o_Ok_iff)
  qed
qed

text \<open>Everything an accepted consensus message has passed, against the duty state it arrived at.\<close>

definition consensus_accepted ::
    "('k, 'pk) validation_context \<Rightarrow> duty_state \<Rightarrow> 'pk duties_provider \<Rightarrow> qbft_message \<Rightarrow> bool" where
  "consensus_accepted V ds dp m \<longleftrightarrow>
     cd_qbft_from_ssz (cy_codec (vc_crypto V)) (sm_data (vc_ssv V)) = Inr m
     \<and> validate_role_for_fork (qm_height m) V = Ok ()
     \<and> validate_consensus_message_semantics (vc_crypto V) (vc_signed_ssv_message V) m (vc_committee_info V)
          (vc_operator_pub_keys V) = Ok ()
     \<and> leader_ok V m
     \<and> (\<forall>s \<in> set (vc_signers V). signer_ok V m (operator_or_new ds s))
     \<and> (length (vc_signers V) = 1 \<longrightarrow> validate_round_in_allowed_spread m V = Ok ())
     \<and> validate_beacon_duty V (qm_height m) False dp = Ok ()
     \<and> validate_slot_time (qm_height m) V = Ok ()
     \<and> (\<forall>s \<in> set (vc_signers V). validate_duty_count V (qm_height m) (operator_or_new ds s) dp = Ok ())
     \<and> (\<not> is_committee_role (vc_role V) \<longrightarrow>
          (\<forall>s \<in> set (vc_signers V). os_max_slot (operator_or_new ds s) \<le> qm_height m))
     \<and> verify_message_signatures (vc_crypto V) (vc_signed_ssv_message V) (vc_operator_pub_keys V) = Ok ()"

lemma validate_consensus_message_D:
  assumes "validate_consensus_message V ds dp = (ds', r)"
  shows "r = Ok v \<Longrightarrow> \<exists>m ds1. v = ValidatedQbftMessage m \<and> consensus_accepted V ds dp m \<and> same_operators ds ds1
      \<and> ds' = update_for_consensus_message (cy_sha256 (vc_crypto V)) ds1 (vc_signed_ssv_message V) m"
    and "\<nexists>v. r = Ok v \<Longrightarrow> same_operators ds ds'"
proof -
  have "(\<exists>m ds1. r = Ok (ValidatedQbftMessage m) \<and> consensus_accepted V ds dp m \<and> same_operators ds ds1
      \<and> ds' = update_for_consensus_message (cy_sha256 (vc_crypto V)) ds1 (vc_signed_ssv_message V) m)
    \<or> ((\<nexists>v. r = Ok v) \<and> same_operators ds ds')"
    using assms unfolding validate_consensus_message_def Let_def
  proof (elim and_then_cases, goal_cases)
    case (1 s1 m s2 a2 s3 a3 s4 a4 s5 a5 s6 a6)
    then have eqs: "s1 = ds" "s2 = ds" "s3 = ds" "s6 = s5" by simp_all
    have q: "validate_qbft_logic V m ds = (s4, Ok a4)" and d: "validate_qbft_message_by_duty_logic V m s4 dp = (s5, Ok a5)"
      using 1 eqs by simp_all
    have same: "same_operators ds s4" "same_operators s4 s5"
      by (rule validate_qbft_logic_D(1) [OF q], rule duty_logic_D(1) [OF d])
    have "consensus_accepted V ds dp m"
      unfolding consensus_accepted_def
      using 1 eqs validate_qbft_logic_D(2-4) [OF q refl] duty_logic_D(2-5) [OF d refl] operator_or_new_eq [OF same(1)]
      by simp
    then show ?case using 1 eqs same_operators_trans [OF same] by auto
  qed (auto dest: validate_qbft_logic_D(1) duty_logic_D(1) intro: same_operators_trans)
  then show "r = Ok v \<Longrightarrow> \<exists>m ds1. v = ValidatedQbftMessage m \<and> consensus_accepted V ds dp m \<and> same_operators ds ds1
      \<and> ds' = update_for_consensus_message (cy_sha256 (vc_crypto V)) ds1 (vc_signed_ssv_message V) m"
    and "\<nexists>v. r = Ok v \<Longrightarrow> same_operators ds ds'"
    by auto
qed

section \<open>Authenticity\<close>

text \<open>Operator \<open>s\<close> has signed the statement \<open>m\<close>, by the key registered for it.\<close>

definition signed_statement ::
    "'k crypto \<Rightarrow> (operator_id \<rightharpoonup> 'k) \<Rightarrow> operator_id \<Rightarrow> qbft_message \<Rightarrow> bool" where
  "signed_statement cy keys s m \<longleftrightarrow>
     (\<exists>k ssv sig. keys s = Some k \<and> cd_qbft_from_ssz (cy_codec cy) (sm_data ssv) = Inr m
        \<and> cy_rsa_verify cy k (cy_ssv_as_ssz cy ssv) sig = Inr True)"

lemma verify_message_signature_Ok:
  "verify_message_signature cy sm k sig = Ok u \<longleftrightarrow> cy_rsa_verify cy k (cy_ssv_as_ssz cy (sg_ssv_message sm)) sig = Inr True"
  by (auto simp: verify_message_signature_def split: sum.splits bool.splits)

lemma verify_message_signatures_Ok:
  assumes "verify_message_signatures cy sm keys = Ok u" and "s \<in> set (sg_operator_ids sm)"
  shows "\<exists>k sig. keys s = Some k \<and> sig \<in> set (sg_signatures sm)
    \<and> cy_rsa_verify cy k (cy_ssv_as_ssz cy (sg_ssv_message sm)) sig = Inr True"
proof -
  obtain pks where pks: "list_all2 (\<lambda>op pk. keys op = Some pk) (sg_operator_ids sm) pks"
    and len: "length (sg_signatures sm) = length pks"
    and ok: "\<forall>(sig, pk) \<in> set (zip (sg_signatures sm) pks). verify_message_signature cy sm pk sig = Ok ()"
    using assms(1)
    by (auto simp: verify_message_signatures_def bindO_Ok_iff collect_results_Inr_iff for_each_o_Ok_iff
        case_prod_beta split: if_splits)
  obtain i where i: "i < length (sg_operator_ids sm)" "sg_operator_ids sm ! i = s"
    using assms(2) by (auto simp: in_set_conv_nth)
  have n: "length pks = length (sg_operator_ids sm)" using pks by (simp add: list_all2_lengthD)
  have "(sg_signatures sm ! i, pks ! i) \<in> set (zip (sg_signatures sm) pks)"
    using i(1) n len by (auto simp: in_set_zip)
  moreover have "keys s = Some (pks ! i)" using pks i n by (auto simp: list_all2_conv_all_nth)
  moreover have "sg_signatures sm ! i \<in> set (sg_signatures sm)" using i(1) n len by simp
  ultimately show ?thesis using ok by (auto simp: verify_message_signature_Ok)
qed

lemma signed_attests_authentic:
  assumes "verify_message_signatures cy sm keys = Ok u" and "(s, m) \<in> set (signed_attests (cy_codec cy) sm)"
  shows "signed_statement cy keys s m"
  using assms(2) verify_message_signatures_Ok [OF assms(1), of s]
  by (cases "cd_qbft_from_ssz (cy_codec cy) (sm_data (sg_ssv_message sm))")
     (auto simp: signed_attests_def signed_statement_def)

lemma justification_list_D:
  assumes "validate_justification_list cy keys inner bs = Ok u"
  shows "(s, m) \<in> set (list_attests (cy_codec cy) bs) \<Longrightarrow> signed_statement cy keys s m"
    and "(s, m) \<in> set (list_attests (cy_codec cy) bs) \<Longrightarrow> inner = Some f \<Longrightarrow> f m = Ok ()"
proof -
  have each: "\<exists>sm. cd_signed_from_ssz (cy_codec cy) b = Inr sm \<and> verify_message_signatures cy sm keys = Ok ()
      \<and> (\<forall>f. inner = Some f \<longrightarrow> (\<exists>m. cd_qbft_from_ssz (cy_codec cy) (sm_data (sg_ssv_message sm)) = Inr m \<and> f m = Ok ()))"
    if "b \<in> set bs" for b
  proof -
    have "bindO (map_err (\<lambda>_. MalformedJustifications) (cd_signed_from_ssz (cy_codec cy) b))
         (\<lambda>signed_message.
       bindO (verify_message_signatures cy signed_message keys) (\<lambda>_.
       case inner of
         None \<Rightarrow> Ok ()
       | Some validate_inner \<Rightarrow>
           bindO (map_err (\<lambda>_. MalformedJustifications)
                    (cd_qbft_from_ssz (cy_codec cy) (sm_data (sg_ssv_message signed_message))))
             validate_inner)) = Ok ()"
      using assms that by (simp add: validate_justification_list_def for_each_o_Ok_iff)
    then show ?thesis by (cases inner) (auto simp: bindO_Ok_iff)
  qed
  assume "(s, m) \<in> set (list_attests (cy_codec cy) bs)"
  then obtain b sm where b: "b \<in> set bs" "cd_signed_from_ssz (cy_codec cy) b = Inr sm"
    "(s, m) \<in> set (signed_attests (cy_codec cy) sm)"
    by (auto simp: list_attests_def split: sum.splits) metis
  from each [OF b(1)] b(2) have v: "verify_message_signatures cy sm keys = Ok ()"
    and i: "\<And>f. inner = Some f \<Longrightarrow> \<exists>m. cd_qbft_from_ssz (cy_codec cy) (sm_data (sg_ssv_message sm)) = Inr m \<and> f m = Ok ()"
    by auto
  show "signed_statement cy keys s m" by (rule signed_attests_authentic [OF v b(3)])
  show "inner = Some f \<Longrightarrow> f m = Ok ()"
    using i b(3) by (auto simp: signed_attests_def split: sum.splits)
qed

lemma validate_justifications_with_D:
  assumes "validate_justifications_with cy keys inner m = Ok u"
    and "x \<in> set (list_attests (cy_codec cy) (qm_round_change_justification m))
           \<union> set (list_attests (cy_codec cy) (qm_prepare_justification m))"
  shows "signed_statement cy keys (fst x) (snd x)" and "inner = Some f \<Longrightarrow> f (snd x) = Ok ()"
proof -
  have "validate_justification_list cy keys inner (qm_round_change_justification m) = Ok ()"
    "validate_justification_list cy keys inner (qm_prepare_justification m) = Ok ()"
    using assms(1) by (auto simp: validate_justifications_with_def bindO_Ok_iff split: if_splits)
  note D = justification_list_D [OF this(1), of "fst x" "snd x"] justification_list_D [OF this(2), of "fst x" "snd x"]
  show "signed_statement cy keys (fst x) (snd x)" using D(1,3) assms(2) by auto
  show "inner = Some f \<Longrightarrow> f (snd x) = Ok ()" using D(2,4) assms(2) by auto
qed

lemma validate_justifications_attests:
  assumes "validate_justifications cy keys True m = Ok u"
    and "(s, m') \<in> set (attests (cy_codec cy) \<lparr>wq_signed_message = sm, wq_qbft_message = m\<rparr>)"
    and "\<And>s. s \<in> set (sg_operator_ids sm) \<Longrightarrow> signed_statement cy keys s m"
  shows "signed_statement cy keys s m'"
proof -
  let ?rcs = "list_attests (cy_codec cy) (qm_round_change_justification m)"
  have v: "validate_justifications_with cy keys (Some (validate_justifications_with cy keys None)) m = Ok u"
    using assms(1) by (simp add: validate_justifications_def)
  consider (own) "m' = m" "s \<in> set (sg_operator_ids sm)"
    | (listed) "(s, m') \<in> set ?rcs \<union> set (list_attests (cy_codec cy) (qm_prepare_justification m))"
    | (nested) s1 m1 where "(s1, m1) \<in> set ?rcs"
        "(s, m') \<in> set (list_attests (cy_codec cy) (qm_round_change_justification m1))"
    using assms(2) by (auto simp: attests_def Let_def)
  then show ?thesis
  proof cases
    case own
    then show ?thesis using assms(3) by simp
  next
    case listed
    then show ?thesis using validate_justifications_with_D(1) [OF v] by fastforce
  next
    case nested
    have "validate_justifications_with cy keys None m1 = Ok ()"
      using validate_justifications_with_D(2) [OF v, of "(s1, m1)"] nested(1) by simp
    then show ?thesis using validate_justifications_with_D(1) [of cy keys None m1 "()" "(s, m')"] nested(2) by simp
  qed
qed

lemma semantics_D:
  assumes "validate_consensus_message_semantics cy sm m ci keys = Ok u"
  shows "qm_round m \<noteq> 0" and "length (sg_operator_ids sm) > 1 \<Longrightarrow> qm_type m = Commit"
    and "length (sg_operator_ids sm) > 1 \<Longrightarrow>
      quorum_size (length (ci_committee_members ci)) \<le> length (sg_operator_ids sm)"
    and "sg_full_data sm \<noteq> [] \<Longrightarrow> cy_sha256 cy (sg_full_data sm) = qm_root m"
    and "\<exists>r n. msgid_role (sm_msg_id (sg_ssv_message sm)) = Some r \<and> max_round r = Some n \<and> qm_round m \<le> n"
    and "qm_identifier m = sm_msg_id (sg_ssv_message sm)"
    and "validate_justifications cy keys True m = Ok ()"
  using assms
  by (auto simp: validate_consensus_message_semantics_def Let_def bindO_Ok_iff split: if_splits option.splits)

lemma accepted_statements:
  assumes "consensus_accepted V ds dp m"
    and "(s, m') \<in> set (attests (cy_codec (vc_crypto V))
      \<lparr>wq_signed_message = vc_signed_ssv_message V, wq_qbft_message = m\<rparr>)"
  shows "signed_statement (vc_crypto V) (vc_operator_pub_keys V) s m'"
proof (rule validate_justifications_attests [OF _ assms(2)])
  show "validate_justifications (vc_crypto V) (vc_operator_pub_keys V) True m = Ok ()"
    using assms(1) semantics_D(7) unfolding consensus_accepted_def by blast
  show "signed_statement (vc_crypto V) (vc_operator_pub_keys V) s m" if "s \<in> set (vc_signers V)" for s
    using assms(1) that verify_message_signatures_Ok [of "vc_crypto V" "vc_signed_ssv_message V" "vc_operator_pub_keys V"]
    unfolding consensus_accepted_def signed_statement_def by blast
qed

lemma accepted_prevalidated:
  assumes "consensus_accepted V ds dp m"
  shows "prevalidated \<lparr>wq_signed_message = vc_signed_ssv_message V, wq_qbft_message = m\<rparr>"
  using assms semantics_D(1,2) unfolding consensus_accepted_def prevalidated_def by fastforce

text \<open>The values of the instances hash to the SHA-256 of their encoding.\<close>

lemma accepted_full_data_bound:
  assumes "consensus_accepted V ds dp m"
    and "\<And>bs d. qe_data_from_ssz E bs = Inr d \<Longrightarrow> bs \<noteq> [] \<and> qe_data_as_ssz E d = bs"
    and "\<And>d. qe_hash E d = cy_sha256 (vc_crypto V) (qe_data_as_ssz E d)"
  shows "full_data_bound E \<lparr>wq_signed_message = vc_signed_ssv_message V, wq_qbft_message = m\<rparr>"
proof -
  have "sg_full_data (vc_signed_ssv_message V) \<noteq> [] \<Longrightarrow>
      cy_sha256 (vc_crypto V) (sg_full_data (vc_signed_ssv_message V)) = qm_root m"
    using assms(1) semantics_D(4) unfolding consensus_accepted_def by blast
  then show ?thesis
    using assms(2,3) by (auto simp: full_data_bound_def split: sum.splits)
qed

end
