(* ===== verification/Duty_State_Inv.thy ===== *)
theory Duty_State_Inv
  imports Validator_Proofs
begin

text \<open>
  The validator's own state: the ring laws of the per-operator signer states, and the invariant that
  every message the validator accepts is counted at most once per signer, round and kind, and that
  the distinct signing roots stay within their budgets.
\<close>

section \<open>The ring\<close>

definition counts_ok :: "message_counts \<Rightarrow> bool" where
  "counts_ok c \<longleftrightarrow>
     ct_pre_consensus c \<le> 1 \<and> ct_proposal c \<le> 1 \<and> ct_prepare c \<le> 1 \<and> ct_commit c \<le> 1
     \<and> ct_round_change c \<le> 1 \<and> ct_post_consensus c \<le> 1"

definition budgets_ok :: "signer_state \<Rightarrow> bool" where
  "budgets_ok ss \<longleftrightarrow>
     finite (rb_preferences (budgets_of ss))
     \<and> card (rb_preferences (budgets_of ss)) \<le> MAX_PROPOSER_PREFERENCES_DISTINCT_ROOTS
     \<and> finite (rb_request_auth (budgets_of ss))
     \<and> card (rb_request_auth (budgets_of ss)) \<le> MAX_REQUEST_AUTH_DISTINCT_ROOTS"

definition signer_state_ok :: "signer_state \<Rightarrow> bool" where
  "signer_state_ok ss \<longleftrightarrow> counts_ok (ss_message_counts ss) \<and> budgets_ok ss"

text \<open>An entry of the ring sits at its slot's index and below the highest slot.\<close>

definition operator_state_ok :: "nat \<Rightarrow> operator_state \<Rightarrow> bool" where
  "operator_state_ok n os \<longleftrightarrow>
     length (os_state os) = n
     \<and> (\<forall>i < n. \<forall>ss. os_state os ! i = Some ss \<longrightarrow>
          signer_state_ok ss \<and> unat (ss_slot ss) mod n = i \<and> ss_slot ss \<le> os_max_slot os)"

definition duty_state_ok :: "duty_state \<Rightarrow> bool" where
  "duty_state_ok ds \<longleftrightarrow> 0 < ds_stored_slot_count ds
     \<and> (\<forall>op. operator_state_ok (ds_stored_slot_count ds) (operator_or_new ds op))"

lemma ring_index_less: "0 < length (os_state os) \<Longrightarrow> ring_index os sl < length (os_state os)"
  by (simp add: ring_index_def)

lemma operator_state_new_ok: "operator_state_ok n (operator_state_new n)"
  by (simp add: operator_state_ok_def operator_state_new_def)

lemma duty_state_new_ok: "0 < n \<Longrightarrow> duty_state_ok (duty_state_new n)"
  by (simp add: duty_state_ok_def duty_state_new_def operator_or_new_def operator_state_new_ok)

lemma signer_state_new_ok [simp]: "signer_state_ok (signer_state_new sl r)"
  by (simp add: signer_state_ok_def signer_state_new_def counts_ok_def message_counts_default_def budgets_ok_def
      budgets_of_def signing_root_budgets_default_def)

lemma signer_state_new_slot [simp]: "ss_slot (signer_state_new sl r) = sl" "ss_round (signer_state_new sl r) = r"
  by (simp_all add: signer_state_new_def)

lemma length_set_signer_state [simp]:
  "length (os_state (set_signer_state os sl ss)) = length (os_state os)"
  "length (os_state (put_signer_state os sl ss)) = length (os_state os)"
  by (simp_all add: set_signer_state_def put_signer_state_def)

lemma ring_index_set [simp]:
  "ring_index (set_signer_state os sl ss) sl' = ring_index os sl'"
  "ring_index (put_signer_state os sl ss) sl' = ring_index os sl'"
  by (simp_all add: ring_index_def)

text \<open>What a lookup returns after a write: the slot written, nothing for the slot it displaced, and
  every other slot as before.\<close>

lemma get_set_signer_state:
  assumes "0 < length (os_state os)" "ss_slot ss = sl"
  shows "get_signer_state (set_signer_state os sl ss) sl' =
    (if sl' = sl then Some ss
     else if ring_index os sl' = ring_index os sl then None else get_signer_state os sl')"
  using assms ring_index_less [OF assms(1), of sl]
  by (auto simp: get_signer_state_def set_signer_state_def ring_index_def)

lemma get_put_signer_state:
  assumes "0 < length (os_state os)" "ss_slot ss = sl"
  shows "get_signer_state (put_signer_state os sl ss) sl' =
    (if sl' = sl then Some ss
     else if ring_index os sl' = ring_index os sl then None else get_signer_state os sl')"
  using assms ring_index_less [OF assms(1), of sl]
  by (auto simp: get_signer_state_def put_signer_state_def ring_index_def)

lemma get_signer_state_slot: "get_signer_state os sl = Some ss \<Longrightarrow> ss_slot ss = sl"
  by (simp add: get_signer_state_def split: option.splits if_splits)

lemma get_signer_state_ok:
  assumes "operator_state_ok n os" "0 < n" "get_signer_state os sl = Some ss"
  shows "signer_state_ok ss"
proof -
  have "ring_index os sl < n" using assms ring_index_less by (auto simp: operator_state_ok_def)
  then show ?thesis
    using assms by (auto simp: operator_state_ok_def get_signer_state_def split: option.splits if_splits)
qed

lemma set_signer_state_ok:
  assumes "operator_state_ok n os" "0 < n" "signer_state_ok ss" "ss_slot ss = sl"
  shows "operator_state_ok n (set_signer_state os sl ss)"
proof -
  have "sl' \<le> (if sl > os_max_slot os then sl else os_max_slot os)" if "sl' \<le> os_max_slot os" for sl'
    using that by auto
  then show ?thesis
    using assms by (auto simp: operator_state_ok_def set_signer_state_def ring_index_def nth_list_update)
qed

lemma put_signer_state_ok:
  assumes "operator_state_ok n os" "0 < n" "signer_state_ok ss" "ss_slot ss = sl" "sl \<le> os_max_slot os"
  shows "operator_state_ok n (put_signer_state os sl ss)"
  using assms by (auto simp: operator_state_ok_def put_signer_state_def ring_index_def nth_list_update)

lemma get_signer_state_max:
  assumes "operator_state_ok n os" "0 < n" "get_signer_state os sl = Some ss"
  shows "sl \<le> os_max_slot os"
proof -
  have "ring_index os sl < n" using assms ring_index_less by (auto simp: operator_state_ok_def)
  then show ?thesis
    using assms by (auto simp: operator_state_ok_def get_signer_state_def split: option.splits if_splits)
qed

lemma set_signer_state_max: "sl \<le> os_max_slot (set_signer_state os sl ss)"
  by (auto simp: set_signer_state_def)

section \<open>Recording a message\<close>

lemma byte_less_1: "x < (1 :: byte) \<longleftrightarrow> x = 0"
  by (simp add: word_less_nat_alt unat_eq_zero)

lemma byte_le_1: "x \<le> (1 :: byte) \<longleftrightarrow> x = 0 \<or> x = 1"
  using byte_less_1 [of x] by (auto simp: le_less)

lemma byte_not_ge_1: "\<not> (1 :: byte) \<le> x \<longleftrightarrow> x = 0"
  by (simp add: not_le byte_less_1)

lemma record_consensus_message_ok:
  assumes "counts_ok c"
    and "validate_consensus_message_limits c sm t = Inr ()"
    and "length (sg_operator_ids sm) = k"
  shows "counts_ok (record_consensus_message c t k)"
  using assms
  by (cases t) (auto simp: counts_ok_def record_consensus_message_def validate_consensus_message_limits_def
      MAX_MESSAGES_PER_ROUND_def byte_not_ge_1 byte_le_1 split: if_splits)

lemma record_decided_ok: "counts_ok c \<Longrightarrow> k \<noteq> 1 \<Longrightarrow> counts_ok (record_consensus_message c Commit k)"
  by (simp add: record_consensus_message_def)

lemma limits_fresh: "validate_consensus_message_limits message_counts_default sm t = Inr ()"
  by (cases t) (simp_all add: validate_consensus_message_limits_def message_counts_default_def
      MAX_MESSAGES_PER_ROUND_def)

lemma budgets_of_cong: "ss_root_budgets a = ss_root_budgets b \<Longrightarrow> budgets_of a = budgets_of b"
  by (simp add: budgets_of_def)

lemma signer_state_update_fields [simp]:
  "ss_slot (signer_state_update sha256 ss sm m) = ss_slot ss"
  "ss_round (signer_state_update sha256 ss sm m) = ss_round ss"
  "ss_root_budgets (signer_state_update sha256 ss sm m) = ss_root_budgets ss"
  "ss_message_counts (signer_state_update sha256 ss sm m) =
     record_consensus_message (ss_message_counts ss) (qm_type m) (length (sg_operator_ids sm))"
  by (simp_all add: signer_state_update_def Let_def)

lemma signer_state_update_ok:
  assumes "signer_state_ok ss"
    and "validate_consensus_message_limits (ss_message_counts ss) sm (qm_type m) = Inr ()
      \<or> (length (sg_operator_ids sm) \<noteq> 1 \<and> qm_type m = Commit)"
  shows "signer_state_ok (signer_state_update sha256 ss sm m)"
proof -
  have "budgets_of (signer_state_update sha256 ss sm m) = budgets_of ss" by (rule budgets_of_cong) simp
  then have "budgets_ok (signer_state_update sha256 ss sm m)"
    using assms(1) by (simp add: signer_state_ok_def budgets_ok_def)
  moreover have "counts_ok (record_consensus_message (ss_message_counts ss) (qm_type m) (length (sg_operator_ids sm)))"
    using assms record_consensus_message_ok record_decided_ok by (auto simp: signer_state_ok_def)
  ultimately show ?thesis by (simp add: signer_state_ok_def)
qed

lemma signer_state_update_new_ok: "signer_state_ok (signer_state_update sha256 (signer_state_new sl r) sm m)"
  by (rule signer_state_update_ok) (simp_all add: signer_state_new_def [of sl r] limits_fresh,
      simp add: signer_state_new_def [symmetric])

lemma operator_state_update_ok:
  assumes ok: "operator_state_ok n os" and n: "0 < n"
    and check: "\<And>ss. get_signer_state os sl = Some ss \<Longrightarrow> \<not> qm_round m > ss_round ss \<Longrightarrow>
      signer_state_ok (signer_state_update sha256 ss sm m)"
  shows "operator_state_ok n (operator_state_update sha256 os sm m sl)"
proof -
  let ?new = "signer_state_new sl (qm_round m)"
  have fresh: "operator_state_ok n (put_signer_state (set_signer_state os sl ?new) sl (signer_state_update sha256 ?new sm m))"
    by (rule put_signer_state_ok [OF set_signer_state_ok [OF ok n]])
       (simp_all add: n signer_state_update_new_ok set_signer_state_max)
  show ?thesis
  proof (cases "get_signer_state os sl")
    case None
    then show ?thesis using fresh by (simp add: operator_state_update_def)
  next
    case (Some ss)
    then show ?thesis
      using fresh check [OF Some] put_signer_state_ok [OF ok n _ _ get_signer_state_max [OF ok n Some]]
        get_signer_state_slot [OF Some]
      by (auto simp: operator_state_update_def)
  qed
qed

lemma signer_ok_update:
  assumes "signer_ok V m os" "get_signer_state os (qm_height m) = Some ss" "\<not> qm_round m > ss_round ss"
    and "signer_state_ok ss"
    and "length (vc_signers V) \<noteq> 1 \<longrightarrow> qm_type m = Commit"
  shows "signer_state_ok (signer_state_update (cy_sha256 (vc_crypto V)) ss (vc_signed_ssv_message V) m)"
proof (rule signer_state_update_ok [OF assms(4)])
  show "validate_consensus_message_limits (ss_message_counts ss) (vc_signed_ssv_message V) (qm_type m) = Inr ()
      \<or> (length (vc_signers V) \<noteq> 1 \<and> qm_type m = Commit)"
    using assms(1-3,5) by (auto simp: signer_ok_def validate_signer_state_def Let_def split: if_splits)
qed

lemma update_for_consensus_message_foldl:
  "ds_stored_slot_count (foldl (\<lambda>ds signer.
       let (ds1, os) = get_or_create_operator ds signer in
       put_operator ds1 signer (f os)) ds ss) = ds_stored_slot_count ds"
  "distinct ss \<Longrightarrow> operator_or_new (foldl (\<lambda>ds signer.
       let (ds1, os) = get_or_create_operator ds signer in
       put_operator ds1 signer (f os)) ds ss) op =
     (if op \<in> set ss then f (operator_or_new ds op) else operator_or_new ds op)"
  by (induction ss arbitrary: ds) (auto simp: get_or_create_operator_eq)

lemma update_for_consensus_message_operator:
  assumes "distinct (sg_operator_ids sm)"
  shows "operator_or_new (update_for_consensus_message sha256 ds sm m) op =
    (if op \<in> set (sg_operator_ids sm)
     then operator_state_update sha256 (operator_or_new ds op) sm m (qm_height m) else operator_or_new ds op)"
  unfolding update_for_consensus_message_def by (rule update_for_consensus_message_foldl(2) [OF assms])

lemma stored_slot_count_update [simp]:
  "ds_stored_slot_count (update_for_consensus_message sha256 ds sm m) = ds_stored_slot_count ds"
  unfolding update_for_consensus_message_def by (rule update_for_consensus_message_foldl(1))

lemma duty_state_ok_same: "duty_state_ok ds \<Longrightarrow> same_operators ds ds' \<Longrightarrow> duty_state_ok ds'"
  by (simp add: duty_state_ok_def same_operators_def)

lemma consensus_message_keeps_ok:
  assumes "duty_state_ok ds" "distinct (vc_signers V)" "vc_signers V \<noteq> []"
    and "validate_consensus_message V ds dp = (ds', r)"
  shows "duty_state_ok ds'"
proof (cases "\<exists>v. r = Ok v")
  case False
  then have "same_operators ds ds'" using validate_consensus_message_D(2) [OF assms(4)] by blast
  then show ?thesis by (rule duty_state_ok_same [OF assms(1)])
next
  case True
  then obtain m ds1 where acc: "consensus_accepted V ds dp m" and same: "same_operators ds ds1"
    and ds': "ds' = update_for_consensus_message (cy_sha256 (vc_crypto V)) ds1 (vc_signed_ssv_message V) m"
    using validate_consensus_message_D(1) [OF assms(4)] by blast
  have n: "0 < ds_stored_slot_count ds" using assms(1) by (simp add: duty_state_ok_def)
  have multi: "length (vc_signers V) \<noteq> 1 \<longrightarrow> qm_type m = Commit"
  proof
    assume "length (vc_signers V) \<noteq> 1"
    then have "length (vc_signers V) > 1" using assms(3) by (cases "vc_signers V") auto
    then show "qm_type m = Commit" using acc semantics_D(2) unfolding consensus_accepted_def by blast
  qed
  have "operator_state_ok (ds_stored_slot_count ds) (operator_or_new ds' op)" for op
  proof (cases "op \<in> set (vc_signers V)")
    case True
    have os: "operator_state_ok (ds_stored_slot_count ds) (operator_or_new ds op)"
      using assms(1) by (simp add: duty_state_ok_def)
    have "signer_ok V m (operator_or_new ds op)" using acc True by (simp add: consensus_accepted_def)
    then have "operator_state_ok (ds_stored_slot_count ds)
        (operator_state_update (cy_sha256 (vc_crypto V)) (operator_or_new ds op) (vc_signed_ssv_message V) m (qm_height m))"
      using operator_state_update_ok [OF os n] signer_ok_update multi get_signer_state_ok [OF os n] by blast
    then show ?thesis
      using True operator_or_new_eq [OF same] by (simp add: ds' update_for_consensus_message_operator [OF assms(2)])
  next
    case False
    then show ?thesis
      using assms(1) operator_or_new_eq [OF same]
      by (simp add: ds' update_for_consensus_message_operator [OF assms(2)] duty_state_ok_def)
  qed
  then show ?thesis using n same by (simp add: duty_state_ok_def ds' same_operators_def)
qed

section \<open>Partial signatures\<close>

lemma duty_state_ok_put:
  "duty_state_ok ds \<Longrightarrow> operator_state_ok (ds_stored_slot_count ds) os \<Longrightarrow> duty_state_ok (put_operator ds s os)"
  by (simp add: duty_state_ok_def)

lemma record_partial_signature_ok:
  assumes "counts_ok c" "counts_validate_partial_signature_message c p = Inr ()"
  shows "counts_ok (record_partial_signature c (ps_kind p))"
  using assms
  by (auto simp: counts_ok_def record_partial_signature_def counts_validate_partial_signature_message_def
      MAX_MESSAGES_PER_ROUND_def byte_not_ge_1 byte_le_1 split: if_splits)

lemma root_budget_write_same:
  "root_budget ss kind = Some (seen, cap) \<Longrightarrow>
     budgets_of (root_budget_write ss kind seen) = budgets_of ss
     \<and> ss_message_counts (root_budget_write ss kind seen) = ss_message_counts ss"
  by (cases kind) (auto simp: budgets_of_def)

lemma root_budget_write_fields [simp]:
  "ss_message_counts (root_budget_write ss kind roots) = ss_message_counts ss"
  "ss_slot (root_budget_write ss kind roots) = ss_slot ss"
  by (cases kind; simp)+

lemma root_budget_write_ok:
  assumes "budgets_ok ss" "root_budget ss kind = Some (seen, cap)" "finite roots" "card roots \<le> cap"
  shows "budgets_ok (root_budget_write ss kind roots)"
  using assms by (cases kind) (auto simp: budgets_ok_def budgets_of_def split: option.splits)

lemma root_budget_finite: "budgets_ok ss \<Longrightarrow> root_budget ss kind = Some (seen, cap) \<Longrightarrow> finite seen \<and> card seen \<le> cap"
  by (cases kind) (auto simp: budgets_ok_def)

lemma budgets_ok_counts [simp]: "budgets_ok (ss\<lparr>ss_message_counts := c\<rparr>) = budgets_ok ss"
  by (simp add: budgets_ok_def budgets_of_def)

text \<open>The state a partial signature is recorded in: the slot's entry, or a fresh one.\<close>

definition partial_entry :: "operator_state \<Rightarrow> slot \<Rightarrow> operator_state \<times> signer_state" where
  "partial_entry os sl =
     (case get_signer_state os sl of
        Some existing \<Rightarrow> (os, existing)
      | None \<Rightarrow> (set_signer_state os sl (signer_state_new sl FIRST_ROUND), signer_state_new sl FIRST_ROUND))"

lemma partial_entry_ok:
  assumes "operator_state_ok n os" "0 < n" "partial_entry os sl = (os1, ss)"
  shows "operator_state_ok n os1" "signer_state_ok ss" "ss_slot ss = sl" "sl \<le> os_max_slot os1"
  using assms get_signer_state_ok [OF assms(1,2)] get_signer_state_slot [of os sl] get_signer_state_max [OF assms(1,2)]
    set_signer_state_ok [OF assms(1,2)] set_signer_state_max [of sl os]
  by (auto simp: partial_entry_def split: option.splits)

lemma update_for_partial_signature_eq:
  "update_for_partial_signature ds p signer =
     (let (os1, ss) = partial_entry (operator_or_new ds signer) (ps_slot p);
          store = (\<lambda>ss. put_operator (put_operator ds signer (operator_or_new ds signer)) signer
            (put_signer_state os1 (ps_slot p) ss));
          finish = (\<lambda>ss. (store (ss\<lparr>ss_message_counts :=
                              record_partial_signature (ss_message_counts ss) (ps_kind p)\<rparr>), Ok ()))
      in case root_budget ss (ps_kind p) of
           None \<Rightarrow> finish ss
         | Some (seen_roots, cap) \<Rightarrow>
             let touched = store (root_budget_write ss (ps_kind p) seen_roots);
                 new_roots = set (map psm_signing_root (ps_messages p)) - seen_roots
             in if ps_messages p = [] then (touched, Err NoPartialSignatureMessages)
                else if new_roots = {} then (touched, Err (RelayedDuplicateMessage (ps_kind p)))
                else if card seen_roots + card new_roots > cap
                then (touched, Err (TooManyDistinctSigningRoots (card seen_roots) (card new_roots) cap))
                else finish (root_budget_write ss (ps_kind p) (seen_roots \<union> new_roots)))"
  by (simp add: update_for_partial_signature_def get_or_create_operator_eq partial_entry_def Let_def)

lemma update_for_partial_signature_ok:
  assumes ds: "duty_state_ok ds"
    and check: "\<And>ss. get_signer_state (operator_or_new ds signer) (ps_slot p) = Some ss \<Longrightarrow>
      counts_validate_partial_signature_message (ss_message_counts ss) p = Inr ()"
  shows "duty_state_ok (fst (update_for_partial_signature ds p signer))"
proof -
  let ?n = "ds_stored_slot_count ds" and ?os = "operator_or_new ds signer"
  have n: "0 < ?n" and os: "operator_state_ok ?n ?os" using ds by (simp_all add: duty_state_ok_def)
  obtain os1 ss where e: "partial_entry ?os (ps_slot p) = (os1, ss)" by (cases "partial_entry ?os (ps_slot p)")
  note ok = partial_entry_ok [OF os n e]
  have cnt: "counts_ok (record_partial_signature (ss_message_counts ss) (ps_kind p))"
  proof (rule record_partial_signature_ok)
    show "counts_ok (ss_message_counts ss)" using ok(2) by (simp add: signer_state_ok_def)
    show "counts_validate_partial_signature_message (ss_message_counts ss) p = Inr ()"
      using e check
      by (auto simp: partial_entry_def signer_state_new_def counts_validate_partial_signature_message_def
          message_counts_default_def MAX_MESSAGES_PER_ROUND_def split: option.splits)
  qed
  have store: "duty_state_ok (put_operator (put_operator ds signer ?os) signer (put_signer_state os1 (ps_slot p) s))"
    if "signer_state_ok s" "ss_slot s = ps_slot p" for s
    by (intro duty_state_ok_put) (use ds os put_signer_state_ok [OF ok(1) n that ok(4)] in simp_all)
  have finish: "duty_state_ok (put_operator (put_operator ds signer ?os) signer (put_signer_state os1 (ps_slot p)
      (s\<lparr>ss_message_counts := record_partial_signature (ss_message_counts s) (ps_kind p)\<rparr>)))"
    if "budgets_ok s" "ss_slot s = ps_slot p" "ss_message_counts s = ss_message_counts ss" for s
    by (rule store) (use that cnt in \<open>simp_all add: signer_state_ok_def\<close>)
  show ?thesis
  proof (cases "root_budget ss (ps_kind p)")
    case None
    then show ?thesis
      using finish [of ss] ok(2,3) by (simp add: update_for_partial_signature_eq e signer_state_ok_def)
  next
    case (Some sc)
    obtain seen cap where b: "root_budget ss (ps_kind p) = Some (seen, cap)" using Some by (cases sc) auto
    let ?new = "set (map psm_signing_root (ps_messages p)) - seen"
    have bo: "budgets_ok ss" and co: "counts_ok (ss_message_counts ss)" using ok(2) by (simp_all add: signer_state_ok_def)
    have fin: "finite seen" "card seen \<le> cap" using root_budget_finite [OF bo b] by simp_all
    have "signer_state_ok (root_budget_write ss (ps_kind p) seen)"
      using root_budget_write_ok [OF bo b fin] co by (simp add: signer_state_ok_def)
    moreover have "budgets_ok (root_budget_write ss (ps_kind p) (seen \<union> ?new))" if "card seen + card ?new \<le> cap"
      by (rule root_budget_write_ok [OF bo b]) (use that fin card_Un_le [of seen ?new] in auto)
    ultimately show ?thesis
      using store [of "root_budget_write ss (ps_kind p) seen"] finish [of "root_budget_write ss (ps_kind p) (seen \<union> ?new)"] ok(3)
      by (simp add: update_for_partial_signature_eq e b Let_def)
  qed
qed

lemma partial_duty_logic_D:
  assumes "validate_partial_sig_messages_by_duty_logic V p ds dp = (ds', r)"
  shows "same_operators ds ds'"
    and "r = Ok u \<Longrightarrow> vc_signers V = s # rest \<Longrightarrow> get_signer_state (operator_or_new ds s) (ps_slot p) = Some ss \<Longrightarrow>
      counts_validate_partial_signature_message (ss_message_counts ss) p = Inr ()"
    and "r = Ok u \<Longrightarrow> validate_entry_limits V p = Ok ()"
    and "r = Ok u \<Longrightarrow> validate_slot_time (ps_slot p) V = Ok ()"
  using assms
  by (auto simp: validate_partial_sig_messages_by_duty_logic_def get_or_create_operator_eq bindO_Ok_iff Let_def
      split: list.splits if_splits option.splits)

lemma partial_message_keeps_ok:
  assumes ok: "duty_state_ok ds" and v: "validate_partial_signature_message V ds dp = (ds', r)"
  shows "duty_state_ok ds'"
  using v unfolding validate_partial_signature_message_def
proof (elim and_then_cases, goal_cases)
  case (1 s1 p s2 a2 s3 signer)
  then have eqs: "s1 = ds" "s2 = ds" "s3 = ds" by simp_all
  show ?case
  proof (cases "registration_retired V")
    case True
    then show ?thesis using 1 eqs ok by simp
  next
    case False
    obtain ds1 r1 where d: "validate_partial_sig_messages_by_duty_logic V p ds dp = (ds1, r1)"
      by (cases "validate_partial_sig_messages_by_duty_logic V p ds dp")
    note D = partial_duty_logic_D [OF d]
    have ok1: "duty_state_ok ds1" by (rule duty_state_ok_same [OF ok D(1)])
    have "duty_state_ok (fst (update_for_partial_signature ds1 p s))" if "r1 = Ok ()" "vc_signers V = s # rest" for s rest
      by (rule update_for_partial_signature_ok [OF ok1])
         (use D(2) [OF that] operator_or_new_eq [OF D(1)] in simp)
    then have "duty_state_ok (fst (update_for_partial_signature ds1 p s))" if "r1 = Ok ()" "vc_signers V = s # rest" for s rest
      using that by blast
    moreover have "and_then (ds1, r1) (\<lambda>ds _.
       and_then (ds, verify_single_signer V signer) (\<lambda>ds _.
       case vc_signers V of
         [] \<Rightarrow> (ds, Err VfNoSigners)
       | first # _ \<Rightarrow>
           and_then (update_for_partial_signature ds p first) (\<lambda>ds _.
           (ds, Ok (ValidatedPartialSignatureMessages p))))) = (ds', r)"
      using 1(4) False by (simp add: eqs d)
    ultimately show ?thesis
      using ok1
      by (cases r1; cases "verify_single_signer V signer"; cases "vc_signers V")
         (auto elim: and_then_cases)
  qed
qed (use ok in auto)

section \<open>The validator\<close>

definition validator_ok :: "'k validator \<Rightarrow> bool" where
  "validator_ok va \<longleftrightarrow>
     (\<forall>r. 0 < stored_slot_count (va_chain va) r (va_slots_per_epoch va))
     \<and> (\<forall>i ds. va_duty_state_map va i = Some ds \<longrightarrow> duty_state_ok ds)"

text \<open>What happens to a validator: a message arrives, its cleaner wakes up, or the network state it
  watches changes.\<close>

datatype 'k validator_event =
    Incoming "'k validator_env" bytes topic_context
  | CleanerTick "slot option"
  | NetworkStateChange "'k network_state"

fun validator_step :: "'k validator \<Rightarrow> 'k validator_event \<Rightarrow> 'k validator" where
  "validator_step va (Incoming X message_data context) = fst (validate X va message_data context)"
| "validator_step va (CleanerTick now) = cleaner_step va now"
| "validator_step va (NetworkStateChange ns) = va\<lparr>va_network_state := ns\<rparr>"

lemma structure_ok:
  assumes "validate_structure_and_role sm = Ok r"
  shows "signed_wf sm" and "msgid_role (sm_msg_id (sg_ssv_message sm)) = Some r"
  using assms by (auto simp: validate_structure_and_role_def bindO_Ok_iff signed_validate_iff)

lemma get_duty_state_ok: "validator_ok va \<Longrightarrow> duty_state_ok (get_duty_state va i r)"
  by (auto simp: get_duty_state_def validator_ok_def duty_state_new_ok split: option.split)

lemma ssv_message_keeps_ok:
  assumes "duty_state_ok ds" "signed_wf (vc_signed_ssv_message V)" "validate_ssv_message V ds dp = (ds', r)"
  shows "duty_state_ok ds'"
  using assms consensus_message_keeps_ok partial_message_keeps_ok
  by (auto simp: validate_ssv_message_def signed_wf_def split: if_splits msg_type.splits)

text \<open>A decoded message: either a check before the duty state fails, and nothing is written, or the
  duty state of its identifier takes the verdict.\<close>

lemma validate_decoded_message_cases:
  assumes "validate_decoded_message X va sm context = (va', res)"
  shows "(va' = va \<and> (\<nexists>vm. res = Ok vm))
    \<or> (\<exists>r ci ds' verdict.
        validate_structure_and_role sm = Ok r
        \<and> message_committee_info X (va_network_state va) r (sm_msg_id (sg_ssv_message sm)) = Ok ci
        \<and> validate_topic_and_domain X va context (message_committee_id X (sm_msg_id (sg_ssv_message sm)))
            (ci_committee_members ci) (sg_ssv_message sm) = Ok ()
        \<and> validate_ssv_message (context_of X va sm r ci) (get_duty_state va (sm_msg_id (sg_ssv_message sm)) r)
            (ve_duties_provider X) = (ds', verdict)
        \<and> va' = va\<lparr>va_duty_state_map := (va_duty_state_map va)(sm_msg_id (sg_ssv_message sm) \<mapsto> ds')\<rparr>
        \<and> (\<forall>vm. res = Ok vm \<longrightarrow> vm_signed_ssv_message vm = sm \<and> verdict = Ok (vm_ssv_message vm)))"
proof -
  let ?id = "sm_msg_id (sg_ssv_message sm)"
  show ?thesis
  proof (cases "\<exists>r ci. validate_structure_and_role sm = Ok r \<and> message_committee_info X (va_network_state va) r ?id = Ok ci
      \<and> validate_topic_and_domain X va context (message_committee_id X ?id) (ci_committee_members ci) (sg_ssv_message sm) = Ok ()")
    case True
    then obtain r ci where ok: "validate_structure_and_role sm = Ok r"
      "message_committee_info X (va_network_state va) r ?id = Ok ci"
      "validate_topic_and_domain X va context (message_committee_id X ?id) (ci_committee_members ci) (sg_ssv_message sm) = Ok ()"
      by blast
    obtain ds' verdict where v: "validate_ssv_message (context_of X va sm r ci) (get_duty_state va ?id r)
        (ve_duties_provider X) = (ds', verdict)"
      by (cases "validate_ssv_message (context_of X va sm r ci) (get_duty_state va ?id r) (ve_duties_provider X)")
    have "va' = va\<lparr>va_duty_state_map := (va_duty_state_map va)(?id \<mapsto> ds')\<rparr>
        \<and> (\<forall>vm. res = Ok vm \<longrightarrow> vm_signed_ssv_message vm = sm \<and> verdict = Ok (vm_ssv_message vm))"
      using assms by (cases verdict) (auto simp: validate_decoded_message_def Let_def ok v)
    then show ?thesis using ok v by blast
  next
    case False
    then have "va' = va \<and> (\<nexists>vm. res = Ok vm)"
      using assms
      by (auto simp: validate_decoded_message_def Let_def elim!: and_then_cases split: prod.splits)
    then show ?thesis by blast
  qed
qed

lemma validate_keeps_ok:
  assumes "validator_ok va"
  shows "validator_ok (fst (validate X va message_data context))"
proof (cases "cd_signed_from_ssz (cy_codec (ve_crypto X)) message_data")
  case (Inr sm)
  obtain va' res where d: "validate_decoded_message X va sm context = (va', res)"
    by (cases "validate_decoded_message X va sm context")
  have eq: "fst (validate X va message_data context) = va'"
    by (simp add: validate_def Inr d split: outcome.split)
  show ?thesis
    using validate_decoded_message_cases [OF d]
  proof
    assume "va' = va \<and> (\<nexists>vm. res = Ok vm)"
    then show ?thesis using assms eq by simp
  next
    assume "\<exists>r ci ds' verdict.
        validate_structure_and_role sm = Ok r
        \<and> message_committee_info X (va_network_state va) r (sm_msg_id (sg_ssv_message sm)) = Ok ci
        \<and> validate_topic_and_domain X va context (message_committee_id X (sm_msg_id (sg_ssv_message sm)))
            (ci_committee_members ci) (sg_ssv_message sm) = Ok ()
        \<and> validate_ssv_message (context_of X va sm r ci) (get_duty_state va (sm_msg_id (sg_ssv_message sm)) r)
            (ve_duties_provider X) = (ds', verdict)
        \<and> va' = va\<lparr>va_duty_state_map := (va_duty_state_map va)(sm_msg_id (sg_ssv_message sm) \<mapsto> ds')\<rparr>
        \<and> (\<forall>vm. res = Ok vm \<longrightarrow> vm_signed_ssv_message vm = sm \<and> verdict = Ok (vm_ssv_message vm))"
    then obtain r ci ds' verdict where c: "validate_structure_and_role sm = Ok r"
      "validate_ssv_message (context_of X va sm r ci) (get_duty_state va (sm_msg_id (sg_ssv_message sm)) r)
            (ve_duties_provider X) = (ds', verdict)"
      "va' = va\<lparr>va_duty_state_map := (va_duty_state_map va)(sm_msg_id (sg_ssv_message sm) \<mapsto> ds')\<rparr>"
      by blast
    have "vc_signed_ssv_message (context_of X va sm r ci) = sm" by (simp add: context_of_def)
    then have "duty_state_ok ds'"
      using ssv_message_keeps_ok [OF get_duty_state_ok [OF assms] _ c(2)] structure_ok(1) [OF c(1)] by simp
    then show ?thesis using assms by (auto simp: eq c(3) validator_ok_def)
  qed
qed (use assms in \<open>simp add: validate_def\<close>)

lemma cleaner_keeps_ok: "validator_ok va \<Longrightarrow> validator_ok (cleaner_step va now)"
  by (auto simp: validator_ok_def cleaner_step_def split: option.splits if_splits)

lemma validator_ok_step: "validator_ok va \<Longrightarrow> validator_ok (validator_step va e)"
  by (cases e) (simp_all add: validate_keeps_ok cleaner_keeps_ok, simp add: validator_ok_def)

interpretation validator_safe: step_invariant validator_step validator_ok "\<lambda>_. True"
  by unfold_locales (rule validator_ok_step)

lemma validator_ok_new:
  "(\<And>r. 0 < stored_slot_count C r slots_per_epoch) \<Longrightarrow>
     validator_ok (validator_new ns slots_per_epoch epochs_per_period sync_size router schedule C)"
  by (simp add: validator_ok_def validator_new_def)

lemma validator_run_ok:
  assumes "\<And>r. 0 < stored_slot_count C r slots_per_epoch"
  shows "validator_ok (foldl validator_step
    (validator_new ns slots_per_epoch epochs_per_period sync_size router schedule C) es)"
  by (rule validator_safe.inv_run) (simp_all add: validator_ok_new assms)

lemma validator_ok_counts:
  assumes "validator_ok va" "va_duty_state_map va i = Some ds" "get_signer_state (operator_or_new ds op) sl = Some ss"
  shows "signer_state_ok ss"
proof -
  have "duty_state_ok ds" using assms(1,2) by (auto simp: validator_ok_def)
  then show ?thesis using get_signer_state_ok [OF _ _ assms(3)] by (auto simp: duty_state_ok_def)
qed

section \<open>Replays\<close>

text \<open>After a single-signer message is recorded, its signer's entry is at that round or a later one
  and its kind has been counted.\<close>

lemma operator_state_update_entry:
  assumes "0 < length (os_state os)"
  shows "\<exists>ss. get_signer_state (operator_state_update sha256 os sm m sl) sl = Some (signer_state_update sha256 ss sm m)
    \<and> (ss = signer_state_new sl (qm_round m)
       \<or> (get_signer_state os sl = Some ss \<and> \<not> qm_round m > ss_round ss))"
proof -
  have new: "get_signer_state (put_signer_state (set_signer_state os sl (signer_state_new sl (qm_round m))) sl
      (signer_state_update sha256 (signer_state_new sl (qm_round m)) sm m)) sl =
        Some (signer_state_update sha256 (signer_state_new sl (qm_round m)) sm m)"
    using assms by (simp add: get_put_signer_state)
  show ?thesis
  proof (cases "get_signer_state os sl")
    case None
    then show ?thesis using new by (auto simp: operator_state_update_def)
  next
    case (Some ss)
    have "get_signer_state (put_signer_state os sl (signer_state_update sha256 ss sm m)) sl =
        Some (signer_state_update sha256 ss sm m)"
      using assms get_signer_state_slot [OF Some] by (simp add: get_put_signer_state)
    then show ?thesis using new Some by (auto simp: operator_state_update_def)
  qed
qed

lemma limits_after_record:
  assumes "length (sg_operator_ids sm) = 1" "length (sg_operator_ids sm') = 1" "counts_ok c"
    and "validate_consensus_message_limits c sm t = Inr ()"
  shows "validate_consensus_message_limits (record_consensus_message c t (length (sg_operator_ids sm))) sm' t \<noteq> Inr ()"
  using assms
  by (cases t) (auto simp: validate_consensus_message_limits_def record_consensus_message_def counts_ok_def
      MAX_MESSAGES_PER_ROUND_def byte_not_ge_1 byte_le_1 split: if_splits)

lemma accepted_then_blocked:
  assumes ok: "duty_state_ok ds"
    and V: "validate_consensus_message V ds dp = (ds', Ok (ValidatedQbftMessage m))" "vc_signers V = [s]"
    and V': "vc_signers V' = [s]" "qm_height m' = qm_height m" "qm_type m' = qm_type m" "qm_round m' \<le> qm_round m"
  shows "\<not> signer_ok V' m' (operator_or_new ds' s)"
proof -
  obtain ds1 where acc: "consensus_accepted V ds dp m" and same: "same_operators ds ds1"
    and ds': "ds' = update_for_consensus_message (cy_sha256 (vc_crypto V)) ds1 (vc_signed_ssv_message V) m"
    using validate_consensus_message_D(1) [OF V(1) refl] by blast
  let ?os = "operator_or_new ds s" and ?up = "signer_state_update (cy_sha256 (vc_crypto V))"
  have n: "0 < ds_stored_slot_count ds" and os: "operator_state_ok (ds_stored_slot_count ds) ?os"
    using ok by (simp_all add: duty_state_ok_def)
  then have len: "0 < length (os_state ?os)" by (simp add: operator_state_ok_def)
  have s_ok: "signer_ok V m ?os" using acc V(2) by (simp add: consensus_accepted_def)
  have os': "operator_or_new ds' s =
      operator_state_update (cy_sha256 (vc_crypto V)) ?os (vc_signed_ssv_message V) m (qm_height m)"
    using V(2) operator_or_new_eq [OF same] by (simp add: ds' update_for_consensus_message_operator)
  obtain ss where ss: "get_signer_state (operator_or_new ds' s) (qm_height m) = Some (?up ss (vc_signed_ssv_message V) m)"
    and c: "ss = signer_state_new (qm_height m) (qm_round m)
      \<or> (get_signer_state ?os (qm_height m) = Some ss \<and> \<not> qm_round m > ss_round ss)"
    using operator_state_update_entry [OF len, of "cy_sha256 (vc_crypto V)" "vc_signed_ssv_message V" m "qm_height m"]
    unfolding os' by blast
  have cs: "ss_round ss = qm_round m \<and> counts_ok (ss_message_counts ss)
      \<and> validate_consensus_message_limits (ss_message_counts ss) (vc_signed_ssv_message V) (qm_type m) = Inr ()"
    using c
  proof
    assume "ss = signer_state_new (qm_height m) (qm_round m)"
    then show ?thesis using limits_fresh signer_state_new_ok [of "qm_height m" "qm_round m"]
      by (simp add: signer_state_ok_def) (simp add: signer_state_new_def)
  next
    assume "get_signer_state ?os (qm_height m) = Some ss \<and> \<not> qm_round m > ss_round ss"
    then show ?thesis
      using s_ok V(2) get_signer_state_ok [OF os n, of "qm_height m" ss]
      by (auto simp: signer_ok_def validate_signer_state_def signer_state_ok_def split: if_splits)
  qed
  have "validate_consensus_message_limits (ss_message_counts (?up ss (vc_signed_ssv_message V) m))
      (vc_signed_ssv_message V') (qm_type m') \<noteq> Inr ()"
    using limits_after_record [of "vc_signed_ssv_message V" "vc_signed_ssv_message V'" "ss_message_counts ss" "qm_type m"]
      cs V(2) V'(1,3) by simp
  then show ?thesis
    using ss V' cs by (auto simp: signer_ok_def validate_signer_state_def split: if_splits)
qed

lemma replay_rejected:
  assumes ok: "duty_state_ok ds"
    and V: "validate_consensus_message V ds dp = (ds', Ok (ValidatedQbftMessage m))" "vc_signers V = [s]"
    and V': "vc_signers V' = [s]" "cd_qbft_from_ssz (cy_codec (vc_crypto V')) (sm_data (vc_ssv V')) = Inr m'"
      "qm_height m' = qm_height m" "qm_type m' = qm_type m" "qm_round m' \<le> qm_round m"
  shows "snd (validate_consensus_message V' ds' dp') \<noteq> Ok v"
proof
  assume "snd (validate_consensus_message V' ds' dp') = Ok v"
  then obtain ds'' where "validate_consensus_message V' ds' dp' = (ds'', Ok v)"
    by (cases "validate_consensus_message V' ds' dp'") simp
  then obtain m'' where "consensus_accepted V' ds' dp' m''"
    using validate_consensus_message_D(1) [OF _ refl] by blast
  then have "signer_ok V' m' (operator_or_new ds' s)"
    using V'(1,2) by (simp add: consensus_accepted_def)
  then show False using accepted_then_blocked [OF ok V V'(1,3-5)] by blast
qed

section \<open>From accepted messages to instances\<close>

lemma validate_success:
  assumes "validate X va message_data context = (va', Some (ValidationSuccess vm))"
  obtains sm r ci ds' where "cd_signed_from_ssz (cy_codec (ve_crypto X)) message_data = Inr sm"
    and "vm_signed_ssv_message vm = sm" and "signed_wf sm"
    and "message_committee_info X (va_network_state va) r (sm_msg_id (sg_ssv_message sm)) = Ok ci"
    and "set (sg_operator_ids sm) \<subseteq> set (ci_committee_members ci)"
    and "validate_ssv_message (context_of X va sm r ci) (get_duty_state va (sm_msg_id (sg_ssv_message sm)) r)
            (ve_duties_provider X) = (ds', Ok (vm_ssv_message vm))"
proof -
  obtain sm where sm: "cd_signed_from_ssz (cy_codec (ve_crypto X)) message_data = Inr sm"
    and d: "validate_decoded_message X va sm context = (va', Ok vm)"
    using assms by (auto simp: validate_def split: sum.splits prod.splits outcome.splits)
  obtain r ci ds' verdict where c: "validate_structure_and_role sm = Ok r"
    "message_committee_info X (va_network_state va) r (sm_msg_id (sg_ssv_message sm)) = Ok ci"
    "validate_ssv_message (context_of X va sm r ci) (get_duty_state va (sm_msg_id (sg_ssv_message sm)) r)
            (ve_duties_provider X) = (ds', verdict)"
    "vm_signed_ssv_message vm = sm" "verdict = Ok (vm_ssv_message vm)"
    using validate_decoded_message_cases [OF d] by blast
  have "set (sg_operator_ids sm) \<subseteq> set (ci_committee_members ci)"
    using c(3,5) by (auto simp: validate_ssv_message_def context_of_def split: if_splits)
  then show ?thesis using that [OF sm c(4) structure_ok(1) [OF c(1)] c(2)] c(3,5) by simp
qed

definition registered_keys :: "'k network_state \<Rightarrow> operator_id \<rightharpoonup> 'k" where
  "registered_keys ns i = map_option op_rsa_pubkey (get_operator ns i)"

lemma signed_statement_registered:
  "signed_statement cy (get_operator_pub_keys ns members) s m \<Longrightarrow> signed_statement cy (registered_keys ns) s m"
  by (auto simp: signed_statement_def get_operator_pub_keys_def registered_keys_def split: if_splits)

text \<open>A consensus message comes out of the validator only through the consensus checks.\<close>

lemma validated_consensus:
  assumes "validate X va message_data context = (va', Some (ValidationSuccess vm))"
    and "vm_ssv_message vm = ValidatedQbftMessage m"
  obtains V ds where "consensus_accepted V ds (ve_duties_provider X) m" and "vc_signed_ssv_message V = vm_signed_ssv_message vm"
    and "vc_crypto V = ve_crypto X" and "\<And>s m. signed_statement (vc_crypto V) (vc_operator_pub_keys V) s m \<Longrightarrow>
      signed_statement (ve_crypto X) (registered_keys (va_network_state va)) s m"
proof -
  obtain sm r ci ds' where s: "vm_signed_ssv_message vm = sm"
    "validate_ssv_message (context_of X va sm r ci) (get_duty_state va (sm_msg_id (sg_ssv_message sm)) r)
            (ve_duties_provider X) = (ds', Ok (ValidatedQbftMessage m))"
    using validate_success [OF assms(1)] assms(2) by metis
  let ?V = "context_of X va sm r ci" and ?ds = "get_duty_state va (sm_msg_id (sg_ssv_message sm)) r"
  have "validate_partial_signature_message ?V ?ds (ve_duties_provider X) \<noteq> (ds', Ok (ValidatedQbftMessage m))"
    by (auto simp: validate_partial_signature_message_def and_then_Ok_iff split: list.splits if_splits)
  then have "validate_consensus_message ?V ?ds (ve_duties_provider X) = (ds', Ok (ValidatedQbftMessage m))"
    using s(2) by (auto simp: validate_ssv_message_def split: if_splits msg_type.splits)
  then have "consensus_accepted ?V ?ds (ve_duties_provider X) m"
    using validate_consensus_message_D(1) [OF _ refl] by blast
  moreover have "signed_statement (ve_crypto X) (registered_keys (va_network_state va)) s m"
    if "signed_statement (vc_crypto ?V) (vc_operator_pub_keys ?V) s m" for s m
    using that signed_statement_registered by (auto simp: context_of_def)
  ultimately show ?thesis using that [of ?V ?ds] s(1) by (auto simp: context_of_def)
qed

lemma validated_statements:
  assumes "validate X va message_data context = (va', Some (ValidationSuccess vm))"
    and "vm_ssv_message vm = ValidatedQbftMessage m"
    and "(s, m') \<in> set (attests (cy_codec (ve_crypto X))
      \<lparr>wq_signed_message = vm_signed_ssv_message vm, wq_qbft_message = m\<rparr>)"
  shows "signed_statement (ve_crypto X) (registered_keys (va_network_state va)) s m'"
  using validated_consensus [OF assms(1,2)] accepted_statements assms(3) by metis

lemma validated_admissible:
  assumes "validate X va message_data context = (va', Some (ValidationSuccess vm))"
    and "vm_ssv_message vm = ValidatedQbftMessage m"
    and "\<And>s m'. s \<in> H \<Longrightarrow> signed_statement (ve_crypto X) (registered_keys (va_network_state va)) s m' \<Longrightarrow>
      m' \<in> set (sent_msgs (node_state (nodes s)))"
  shows "event_admissible (unforged (cy_codec (ve_crypto X)) nodes H)
    (Receive \<lparr>wq_signed_message = vm_signed_ssv_message vm, wq_qbft_message = m\<rparr>)"
proof -
  let ?w = "\<lparr>wq_signed_message = vm_signed_ssv_message vm, wq_qbft_message = m\<rparr>"
  have "prevalidated ?w" using validated_consensus [OF assms(1,2)] accepted_prevalidated by metis
  moreover have "unforged (cy_codec (ve_crypto X)) nodes H ?w"
    using validated_statements [OF assms(1,2)] assms(3) unfolding unforged_def by blast
  ultimately show ?thesis by simp
qed

lemma validated_bound:
  assumes "validate X va message_data context = (va', Some (ValidationSuccess vm))"
    and "vm_ssv_message vm = ValidatedQbftMessage m"
    and "\<And>bs d. qe_data_from_ssz E bs = Inr d \<Longrightarrow> bs \<noteq> [] \<and> qe_data_as_ssz E d = bs"
    and "\<And>d. qe_hash E d = cy_sha256 (ve_crypto X) (qe_data_as_ssz E d)"
  shows "full_data_bound E \<lparr>wq_signed_message = vm_signed_ssv_message vm, wq_qbft_message = m\<rparr>"
  using validated_consensus [OF assms(1,2)] accepted_full_data_bound [OF _ assms(3)] assms(4) by metis

end
