(* ===== verification/Validator_Timing.thy ===== *)
theory Validator_Timing
  imports Validator_Proofs
begin

text \<open>
  Where the validator and the QBFT manager must agree: the round the validator estimates from the
  clock against the deadlines of the instance task, and the proposer it expects against the leader
  function of the instance.
\<close>

section \<open>The estimated round\<close>

lemma deadline_secs_mono: "m \<le> n \<Longrightarrow> deadline_secs m \<le> deadline_secs n"
  by (auto simp: deadline_secs_def)

lemma unat_div_u64: "unat (a div b :: u64) = unat a div unat b"
  by (rule unat_div)

lemma unat_of_nat_u64: "k < 2 ^ 64 \<Longrightarrow> unat (of_nat k :: u64) = k"
  by (simp add: unat_of_nat take_bit_eq_mod)

lemma unat_Suc_u64: "unat (a :: u64) + unat b < 2 ^ 64 \<Longrightarrow> unat (a + b) = unat a + unat b"
  by (simp add: unat_word_ariths)

lemma estimated_round_secs:
  assumes "t div 10 ^ 9 < 2 ^ 64"
  shows "unat (current_estimated_round t) =
    (if t div 10 ^ 9 < 16 then 1 + t div 10 ^ 9 div 2 else 9 + (t div 10 ^ 9 - 16) div 120)"
proof -
  let ?s = "t div 10 ^ 9" and ?w = "of_nat (t div 10 ^ 9) :: u64"
  have s: "unat ?w = ?s" by (rule unat_of_nat_u64 [OF assms])
  have q: "unat (?w div 2) = ?s div 2" by (simp only: unat_div_u64 s) simp
  have half: "?s div 2 < 2 ^ 63" using assms by simp
  have quick: "unat (1 + ?w div 2) = 1 + ?s div 2"
    using unat_Suc_u64 [of 1 "?w div 2"] q half by simp
  have small: "1 + ?w div 2 \<le> 8 \<longleftrightarrow> ?s < 16"
    using quick by (auto simp: word_le_nat_alt)
  have sub: "(t - 16 * 10 ^ 9) div 10 ^ 9 = ?s - 16" by simp
  have d: "unat (of_nat (?s - 16) div 120 :: u64) = (?s - 16) div 120"
    using assms by (simp only: unat_div_u64 unat_of_nat_u64) simp
  have slow: "unat (9 + of_nat (?s - 16) div 120 :: u64) = 9 + (?s - 16) div 120"
    using unat_Suc_u64 [of 9 "of_nat (?s - 16) div 120"] d assms by simp
  show ?thesis
  proof (cases "?s < 16")
    case True
    then show ?thesis
      using quick small
      by (simp add: current_estimated_round_def Let_def QUICK_TIMEOUT_SECS_def QUICK_TIMEOUT_THRESHOLD_def FIRST_ROUND_def)
  next
    case False
    then show ?thesis
      using slow small sub
      by (simp add: current_estimated_round_def Let_def QUICK_TIMEOUT_SECS_def QUICK_TIMEOUT_THRESHOLD_def
          SLOW_TIMEOUT_SECS_def FIRST_ROUND_def)
  qed
qed

text \<open>The estimate is the round whose deadline, counted from the slot start, comes next.\<close>

lemma estimated_round_deadlines:
  assumes "t div 10 ^ 9 < 2 ^ 64"
  shows "1 \<le> unat (current_estimated_round t)"
    and "deadline_secs (unat (current_estimated_round t) - 1) \<le> t div 10 ^ 9"
    and "t div 10 ^ 9 < deadline_secs (unat (current_estimated_round t))"
proof -
  let ?s = "t div 10 ^ 9"
  show "1 \<le> unat (current_estimated_round t)" by (simp add: estimated_round_secs [OF assms])
  show "deadline_secs (unat (current_estimated_round t) - 1) \<le> ?s"
  proof (cases "?s < 16")
    case False
    then show ?thesis
      by (cases "(?s - 16) div 120 = 0") (auto simp: estimated_round_secs [OF assms] deadline_secs_def)
  qed (simp add: estimated_round_secs [OF assms] deadline_secs_def)
  show "?s < deadline_secs (unat (current_estimated_round t))"
    by (auto simp: estimated_round_secs [OF assms] deadline_secs_def)
qed

lemma estimated_round_bound:
  assumes "t div 10 ^ 9 < 2 ^ 63"
  shows "unat (current_estimated_round t) < 2 ^ 62"
proof -
  define k where "k = t div 10 ^ 9"
  have k: "k < 2 ^ 63" using assms by (simp add: k_def)
  have "unat (current_estimated_round t) = (if k < 16 then 1 + k div 2 else 9 + (k - 16) div 120)"
    unfolding k_def by (rule estimated_round_secs) (use assms in simp)
  moreover have "(if k < 16 then 1 + k div 2 else 9 + (k - 16) div 120) < 2 ^ 62" using k by auto
  ultimately show ?thesis by simp
qed

text \<open>A round that timers started no earlier than the slot have led to is within the spread.\<close>

lemma timely_round_allowed:
  assumes start: "sc_start_of (vc_slot_clock V) (qm_height m) = Some start" and small: "vc_received_at V div 10 ^ 9 < 2 ^ 63"
    and r: "qm_round m \<noteq> 0"
    and timely: "start + deadline_secs (unat (qm_round m) - 1) * 10 ^ 9 \<le> vc_received_at V"
  shows "validate_round_in_allowed_spread m V = Ok ()"
proof -
  let ?n = "unat (qm_round m)" and ?t = "vc_received_at V - start"
  have n: "1 \<le> ?n" using r by (simp add: Suc_le_eq unat_gt_0)
  have le: "start \<le> vc_received_at V" using timely by simp
  have "start div 10 ^ 9 \<le> vc_received_at V div 10 ^ 9" by (rule div_le_mono [OF le])
  then have st: "slot_start_time (vc_slot_clock V) (qm_height m) = Ok start"
    using small by (simp add: slot_start_time_def start system_time_add_def ok_or_def expect_def)
  have ts: "?t div 10 ^ 9 < 2 ^ 63" using small by (meson div_le_mono diff_le_self le_less_trans)
  define est where "est = (if vc_received_at V > start then current_estimated_round ?t else FIRST_ROUND)"
  have secs: "deadline_secs (?n - 1) \<le> ?t div 10 ^ 9"
  proof -
    have "deadline_secs (?n - 1) * 10 ^ 9 \<le> ?t" using timely by simp
    then show ?thesis by (simp add: less_eq_div_iff_mult_less_eq)
  qed
  have est: "?n \<le> unat est \<and> unat est < 2 ^ 62 \<and> 1 \<le> unat est"
  proof (cases "vc_received_at V > start")
    case True
    have t64: "?t div 10 ^ 9 < 2 ^ 64" using ts by simp
    have "deadline_secs (?n - 1) < deadline_secs (unat (current_estimated_round ?t))"
      using secs estimated_round_deadlines(3) [OF t64] by simp
    then have "?n - 1 < unat (current_estimated_round ?t)"
      using deadline_secs_mono leD not_le by metis
    then show ?thesis
      using True n estimated_round_bound [OF ts] estimated_round_deadlines(1) [OF t64] by (simp add: est_def)
  next
    case False
    then have "?t = 0" by simp
    then have "deadline_secs (?n - 1) = 0" using secs by simp
    then have "?n = 1" using n by (auto simp: deadline_secs_def split: if_splits)
    then show ?thesis using False by (simp add: est_def FIRST_ROUND_def)
  qed
  have "est \<noteq> 0" using est by auto
  then have e: "round_from_u64 est = Some est" by (simp add: round_from_u64_def)
  have sum: "unat (est + 3) = unat est + 3"
    using unat_Suc_u64 [of est 3] est by simp
  then have "est + 3 \<noteq> 0" by (metis add_eq_0_iff_both_eq_0 unat_0 zero_neq_numeral)
  then have add: "round_add est 3 = Some (est + 3)"
    using est by (simp add: round_add_def checked_add_def)
  have "qm_round m \<le> est + 3" using est sum by (simp add: word_le_nat_alt)
  moreover have "FIRST_ROUND \<le> qm_round m" using n by (simp add: word_le_nat_alt FIRST_ROUND_def)
  ultimately show ?thesis
    using st e add
    by (auto simp: validate_round_in_allowed_spread_def start_time_or_def est_def [symmetric] expect_def ok_or_def
        MAX_ALLOWED_ROUNDS_FUTURE_def)
qed

section \<open>The proposer\<close>

lemma u64_mod_add_mod: "unat (a :: u64) + unat b < 2 ^ 64 \<Longrightarrow> (a mod n + b) mod n = (a + b) mod n"
proof -
  assume s: "unat a + unat b < 2 ^ 64"
  have "unat (a mod n) \<le> unat a" by (simp add: unat_mod)
  then have "unat (a mod n) + unat b < 2 ^ 64" using s by simp
  then have "unat ((a mod n + b) mod n) = unat ((a + b) mod n)"
    using s by (simp add: unat_mod unat_Suc_u64 mod_add_left_eq)
  then show ?thesis by (simp only: word_unat_eq_iff)
qed

lemma round_robin_is_leader:
  assumes "com \<noteq> []" "slots \<noteq> 0" "r \<noteq> 0" and "active_fork schedule (height div slots) = Some f"
    and small: "unat height + unat r + unat (height div slots) < 2 ^ 64"
  shows "round_robin_proposer C height r com slots schedule = Ok op \<longleftrightarrow>
    leader_function (default_leader_function_new slots (f \<ge> Boole)) op r height com"
proof -
  let ?n = "of_nat (length com) :: u64" and ?e = "if f \<ge> Boole then height div slots else 0"
  have r1: "unat (r - 1) = unat r - 1" using assms(3) by (simp add: unat_minus_one)
  have e: "unat ?e \<le> unat (height div slots)" by simp
  have s1: "unat (r - 1) + unat ?e < 2 ^ 64" using small r1 e by linarith
  have "unat (r - 1 + ?e) = unat (r - 1) + unat ?e" by (rule unat_Suc_u64 [OF s1])
  then have "unat height + unat (r - 1 + ?e) < 2 ^ 64" using small r1 e by linarith
  then have "(height mod ?n + (r - 1 + ?e)) mod ?n = (height + (r - 1 + ?e)) mod ?n"
    by (rule u64_mod_add_mod)
  moreover have "height mod ?n + (r - 1 + ?e) = height mod ?n + r - 1 + ?e"
    "height + (r - 1 + ?e) = r - 1 + height + ?e" by (simp_all add: algebra_simps)
  ultimately have "(height mod ?n + r - 1 + ?e) mod ?n = (r - 1 + height + ?e) mod ?n" by simp
  then show ?thesis
    using assms(1,2,4)
    by (auto simp: round_robin_proposer_def leader_function_def leader_of_def Let_def expect_def
        default_leader_function_new_def round_default_def FIRST_ROUND_def)
qed

lemma validator_leader_is_instance_leader:
  assumes "instance_leader_fn mg height = Some dl" "mg_slots_per_epoch mg = slots" "mg_fork_schedule mg = schedule"
    and "com \<noteq> []" "slots \<noteq> 0" "r \<noteq> 0" "unat height + unat r + unat (height div slots) < 2 ^ 64"
  shows "round_robin_proposer C height r com slots schedule = Ok op \<longleftrightarrow> leader_function dl op r height com"
  using assms round_robin_is_leader [OF assms(4-6) _ assms(7)]
  by (auto simp: instance_leader_fn_def)

end
