(* ===== verification/Validator_Total.thy ===== *)
theory Validator_Total
  imports Validator_Timing
begin

text \<open>
  The validator does not panic on any input: with well-formed fork schedules, a positive number of
  slots per epoch and a clock within range, every \<open>expect\<close> on its path succeeds.
\<close>

section \<open>The environment\<close>

definition clock_in_range :: "slot_clock \<Rightarrow> bool" where
  "clock_in_range clock \<longleftrightarrow> (\<forall>s d. sc_start_of clock s = Some d \<longrightarrow> d div 10 ^ 9 < 2 ^ 63)"

definition validator_configured :: "'k validator \<Rightarrow> bool" where
  "validator_configured va \<longleftrightarrow>
     schedule_wf (va_fork_schedule va) \<and> schedule_wf (tr_fork_schedule (va_router va)) \<and> va_slots_per_epoch va \<noteq> 0"

definition context_configured :: "('k, 'pk) validation_context \<Rightarrow> bool" where
  "context_configured V \<longleftrightarrow>
     schedule_wf (vc_fork_schedule V) \<and> vc_slots_per_epoch V \<noteq> 0 \<and> clock_in_range (vc_slot_clock V)
     \<and> msgid_role (sm_msg_id (vc_ssv V)) \<noteq> None"

lemma slot_start_time_no_panic [no_panic]: "clock_in_range clock \<Longrightarrow> slot_start_time clock sl \<noteq> Panic"
  by (auto simp: slot_start_time_def clock_in_range_def ok_or_def expect_def system_time_add_def split: option.splits)

lemma start_time_or_no_panic [no_panic]: "clock_in_range clock \<Longrightarrow> start_time_or e (slot_start_time clock sl) \<noteq> Panic"
  using slot_start_time_no_panic [of clock sl]
  by (cases "slot_start_time clock sl") (simp_all add: start_time_or_def)

lemma slot_time_no_panic [no_panic]: "clock_in_range (vc_slot_clock V) \<Longrightarrow> validate_slot_time sl V \<noteq> Panic"
  by (auto simp: validate_slot_time_def message_earliness_def message_lateness_def Let_def bindO_Panic_iff
      no_panic)

lemma estimated_round_not_zero [no_panic]: "current_estimated_round t \<noteq> 0"
proof -
  let ?s = "of_nat (t div 10 ^ 9) :: u64" and ?d = "of_nat ((t - 16 * 10 ^ 9) div 10 ^ 9) :: u64"
  have lt: "unat (w :: u64) < 2 ^ 64" for w
    proof -
    have "unat w < 2 ^ LENGTH(64)" by (rule unsigned_less)
    then show ?thesis by simp
  qed
  have "unat (1 + ?s div 2) = 1 + unat ?s div 2"
    using unat_Suc_u64 [of 1 "?s div 2"] lt [of ?s] by (simp add: unat_div)
  then have "1 + ?s div 2 \<noteq> 0" by (metis One_nat_def add_is_0 unat_0 nat.simps(3))
  moreover have "unat (9 + ?d div 120) = 9 + unat ?d div 120"
    using unat_Suc_u64 [of 9 "?d div 120"] lt [of ?d] by (simp add: unat_div)
  then have "9 + ?d div 120 \<noteq> 0" by (metis add_is_0 unat_0 zero_neq_numeral)
  ultimately show ?thesis
    by (simp add: current_estimated_round_def Let_def QUICK_TIMEOUT_SECS_def QUICK_TIMEOUT_THRESHOLD_def
        SLOW_TIMEOUT_SECS_def FIRST_ROUND_def)
qed

lemma spread_no_panic [no_panic]:
  assumes "clock_in_range (vc_slot_clock V)"
  shows "validate_round_in_allowed_spread m V \<noteq> Panic"
  using assms
  by (auto simp: no_panic validate_round_in_allowed_spread_def bindO_Panic_iff round_from_u64_def FIRST_ROUND_def)

lemma role_for_fork_no_panic [no_panic]: "schedule_wf (vc_fork_schedule V) \<Longrightarrow> validate_role_for_fork sl V \<noteq> Panic"
  by (auto simp: validate_role_for_fork_def Let_def bindO_Panic_iff active_fork_eq)

lemma round_robin_no_panic [no_panic]: "schedule_wf s \<Longrightarrow> n \<noteq> 0 \<Longrightarrow> round_robin_proposer C h r com n s \<noteq> Panic"
  by (auto simp: round_robin_proposer_def Let_def bindO_Panic_iff active_fork_eq)

lemma verify_signatures_no_panic [no_panic]: "verify_message_signatures cy sm keys \<noteq> Panic"
  by (auto simp: verify_message_signatures_def bindO_Panic_iff verify_message_signature_def
      dest!: for_each_o_Panic split: sum.splits bool.splits)

lemma justifications_no_panic [no_panic]: "validate_justifications cy keys b m \<noteq> Panic"
proof -
  have list: "validate_justification_list cy keys inner bs \<noteq> Panic"
    if "\<And>f m. inner = Some f \<Longrightarrow> f m \<noteq> Panic" for inner bs
    using that
    by (auto simp: no_panic validate_justification_list_def bindO_Panic_iff dest!: for_each_o_Panic split: option.splits)
  have step: "validate_justifications_with cy keys inner m \<noteq> Panic"
    if "\<And>bs. validate_justification_list cy keys inner bs \<noteq> Panic" for inner m
    using that by (auto simp: validate_justifications_with_def bindO_Panic_iff)
  have none: "validate_justifications_with cy keys None m \<noteq> Panic" for m
    by (rule step, rule list) simp
  have "validate_justifications_with cy keys (Some (validate_justifications_with cy keys None)) m \<noteq> Panic"
    by (rule step, rule list) (use none in blast)
  then show ?thesis using none by (simp add: validate_justifications_def)
qed

lemma semantics_no_panic [no_panic]:
  "msgid_role (sm_msg_id (sg_ssv_message sm)) \<noteq> None \<Longrightarrow> validate_consensus_message_semantics cy sm m ci keys \<noteq> Panic"
  by (auto simp: no_panic validate_consensus_message_semantics_def Let_def bindO_Panic_iff split: option.splits)

lemma beacon_duty_no_panic [no_panic]: "validate_beacon_duty V sl b dp \<noteq> Panic"
  by (auto simp: validate_beacon_duty_def Let_def bindO_Panic_iff single_validator_index_def sync_committee_period_def
      split: option.splits duty_executor.splits list.splits if_splits)

lemma duty_count_no_panic [no_panic]: "validate_duty_count V sl os dp \<noteq> Panic"
  by (auto simp: validate_duty_count_def duty_limit_def Let_def bindO_Panic_iff sync_committee_period_def
      split: option.splits duty_executor.splits if_splits role.splits)

lemma qbft_logic_no_panic [no_panic]:
  assumes "context_configured V" "qm_round m \<noteq> 0"
  shows "snd (validate_qbft_logic V m ds) \<noteq> Panic"
proof -
  have "validate_signer_state sha sm m ss \<noteq> Panic" for sha sm ss
    by (simp add: validate_signer_state_def Let_def)
  then have "snd (for_each_s (\<lambda>ds signer.
                     let (ds1, os) = get_or_create_operator ds signer in
                     case get_signer_state os (qm_height m) of
                       None \<Rightarrow> (ds1, Ok ())
                     | Some ss \<Rightarrow> (ds1, validate_signer_state (cy_sha256 (vc_crypto V)) (vc_signed_ssv_message V) m ss))
       ds' ss') \<noteq> Panic" for ds' ss'
    by (auto dest!: for_each_s_Panic simp: get_or_create_operator_eq split: option.splits)
  then show ?thesis
    using assms
    by (auto simp: no_panic validate_qbft_logic_def Let_def and_then_Panic bindO_Panic_iff context_configured_def
        round_from_u64_def split: list.splits if_splits)
qed

lemma duty_logic_no_panic [no_panic]:
  assumes "context_configured V"
  shows "snd (validate_qbft_message_by_duty_logic V m ds dp) \<noteq> Panic"
  using assms
  by (auto simp: no_panic validate_qbft_message_by_duty_logic_def Let_def and_then_Panic context_configured_def
      get_or_create_operator_eq dest!: for_each_s_Panic split: if_splits)

lemma consensus_no_panic [no_panic]:
  assumes "context_configured V"
  shows "snd (validate_consensus_message V ds dp) \<noteq> Panic"
proof -
  have "schedule_wf (vc_fork_schedule V)" "msgid_role (sm_msg_id (vc_ssv V)) \<noteq> None"
    using assms by (simp_all add: context_configured_def)
  then show ?thesis
    using assms
    by (auto simp: no_panic validate_consensus_message_def Let_def and_then_Panic dest!: semantics_D(1))
qed

lemma entry_limits_no_panic [no_panic]: "validate_entry_limits V p \<noteq> Panic"
proof -
  have "check_index_occurrences n c xs \<noteq> Panic" for n c xs by (induction xs arbitrary: c) auto
  then show ?thesis
    by (auto simp: validate_entry_limits_def check_entry_count_def Let_def bindO_Panic_iff split: role.splits if_splits)
qed

lemma partial_semantics_no_panic [no_panic]: "validate_partial_signature_message_semantics V p \<noteq> Panic"
  by (auto simp: validate_partial_signature_message_semantics_def Let_def bindO_Panic_iff
      dest!: for_each_o_Panic split: list.splits if_splits)

lemma partial_no_panic [no_panic]:
  assumes "context_configured V"
  shows "snd (validate_partial_signature_message V ds dp) \<noteq> Panic"
proof -
  have "snd (validate_partial_sig_messages_by_duty_logic V p ds dp) \<noteq> Panic" for p ds
    using assms
    by (auto simp: no_panic validate_partial_sig_messages_by_duty_logic_def get_or_create_operator_eq Let_def bindO_Panic_iff
        context_configured_def split: list.splits option.splits)
  moreover have "snd (update_for_partial_signature ds p s) \<noteq> Panic" for ds p s
    by (auto simp: update_for_partial_signature_def Let_def split: prod.splits option.splits)
  moreover have "verify_single_signer V s \<noteq> Panic" for s
    by (auto simp: verify_single_signer_def bindO_Panic_iff verify_message_signature_def
        split: list.splits sum.splits bool.splits)
  moreover have "schedule_wf (vc_fork_schedule V)" using assms by (simp add: context_configured_def)
  ultimately show ?thesis
    by (auto simp: no_panic validate_partial_signature_message_def and_then_Panic split: list.splits)
qed

section \<open>The entry point\<close>

lemma topic_no_panic [no_panic]:
  assumes "validator_configured va"
  shows "validate_topic_and_domain X va context cid ops m \<noteq> Panic"
proof -
  have wf: "schedule_wf (tr_fork_schedule (va_router va))" using assms by (simp add: validator_configured_def)
  have "from_committee_alan c SUBNET_COUNT \<noteq> None" for c
    by (simp add: from_committee_alan_def SUBNET_COUNT_def)
  then have "subnet_for_committee_with_operators_at_slot sha C (va_router va) c ops sl \<noteq> Panic" for sha C c ops sl
    using wf by (auto simp: subnet_for_committee_with_operators_at_slot_def bindO_Panic_iff active_fork_at_slot_def
        active_fork_eq split: fork.splits)
  then show ?thesis
    using wf
    by (auto simp: validate_topic_and_domain_def Let_def bindO_Panic_iff topic_error_is_incorrect_def
        router_active_fork_def domain_type_for_epoch_def active_fork_eq
        split: topic_context.splits outcome.splits)
qed

lemma decoded_no_panic [no_panic]:
  assumes "validator_configured va" "clock_in_range (ve_slot_clock X)"
  shows "snd (validate_decoded_message X va sm context) \<noteq> Panic"
proof -
  have "validate_structure_and_role sm \<noteq> Panic"
    by (auto simp: validate_structure_and_role_def bindO_Panic_iff)
  moreover have "message_committee_info X ns r i \<noteq> Panic" for ns r i
    by (auto simp: message_committee_info_def bindO_Panic_iff split: option.splits duty_executor.splits)
  moreover have "snd (validate_ssv_message (context_of X va sm r ci) ds dp) \<noteq> Panic"
    if "validate_structure_and_role sm = Ok r" for r ci ds dp
  proof -
    have "msgid_role (sm_msg_id (sg_ssv_message sm)) = Some r"
      using that by (auto simp: validate_structure_and_role_def bindO_Ok_iff)
    then have "context_configured (context_of X va sm r ci)"
      using assms by (simp add: context_configured_def context_of_def validator_configured_def)
    then show ?thesis
      by (auto simp: no_panic validate_ssv_message_def split: msg_type.splits)
  qed
  ultimately show ?thesis
    using assms(1)
    by (auto simp: no_panic validate_decoded_message_def Let_def and_then_Panic split: prod.splits) (metis snd_conv)
qed

lemma validate_no_panic:
  assumes "validator_configured va" "clock_in_range (ve_slot_clock X)"
  shows "\<exists>result. snd (validate X va message_data context) = Some result"
  using decoded_no_panic [OF assms]
  by (auto simp: validate_def split: sum.splits prod.splits outcome.splits) (metis snd_conv)

end
