(* ===== verification/Validator_Demo.thy ===== *)
theory Validator_Demo
  imports Manager_Demo Duty_State_Inv Validator_Total
begin

text \<open>
  A validator of the demo committee and one proposal it accepts: the concrete input on which the
  theorems on the message validator are evaluated.
\<close>

definition vd_sha256 :: "bytes \<Rightarrow> bytes" where
  "vd_sha256 b = (if b = [7] then [7] else replicate 32 5)"

definition vd_signed :: signed_ssv_message where
  "vd_signed =
     \<lparr>sg_signatures = [replicate 256 0], sg_operator_ids = [2],
      sg_ssv_message = \<lparr>sm_msg_type = SSVConsensusMsgType, sm_msg_id = demo_id, sm_data = [1]\<rparr>,
      sg_full_data = [7]\<rparr>"

definition vd_codec :: codec where
  "vd_codec = demo_codec\<lparr>cd_signed_from_ssz := (\<lambda>_. Inr vd_signed),
     cd_qbft_from_ssz := (\<lambda>_. Inr (demo_message Proposal))\<rparr>"

text \<open>A key is the number of its operator; its signatures are accepted on everything.\<close>

definition vd_crypto :: "nat crypto" where
  "vd_crypto = \<lparr>cy_codec = vd_codec, cy_ssv_as_ssz = (\<lambda>_. [1]), cy_sha256 = vd_sha256,
     cy_rsa_verify = (\<lambda>_ _ _. Inr True)\<rparr>"

definition vd_cluster_id :: cluster_id where "vd_cluster_id = [3]"

definition vd_cluster :: cluster where
  "vd_cluster = \<lparr>cl_cluster_id = vd_cluster_id, cl_owner = [4], cl_fee_recipient = [4],
     cl_liquidated = False, cl_cluster_members = demo_committee\<rparr>"

definition vd_metadata :: validator_metadata where
  "vd_metadata = \<lparr>vm_public_key = [6], vm_cluster_id = vd_cluster_id, vm_index = Some 11, vm_graffiti = []\<rparr>"

definition vd_empty_state :: "nat network_state" where
  "vd_empty_state =
     \<lparr>ns_shares = mi_new, ns_validator_metadata = mi_new, ns_clusters = mi_new, ns_id = None,
      ns_last_processed_block = 0, ns_operators = Map.empty, ns_own_clusters = {}, ns_nonces = Map.empty,
      ns_max_operator_id_seen = None\<rparr>"

definition vd_operators :: "operator_id \<rightharpoonup> nat operator" where
  "vd_operators i = (if i \<in> set demo_committee then Some \<lparr>op_id = i, op_rsa_pubkey = unat i, op_owner = [4]\<rparr> else None)"

definition vd_state :: "nat network_state" where
  "vd_state = (apply_insert_validator vd_sha256 vd_cluster vd_metadata None vd_empty_state)
     \<lparr>ns_operators := vd_operators\<rparr>"

definition vd_clock :: slot_clock where
  "vd_clock = \<lparr>sc_now = Some 5, sc_start_of = (\<lambda>s. if s < 1000 then Some (unat s * 12 * 10 ^ 9) else None)\<rparr>"

definition vd_duties :: "pubkey duties_provider" where
  "vd_duties = \<lparr>dp_is_epoch_known_for_proposers = (\<lambda>_. True), dp_is_validator_proposer_at_slot = (\<lambda>_ _. True),
     dp_proposer_assignment_at_slot = (\<lambda>_ _. Assigned), dp_local_proposer_assignment_at_slot = (\<lambda>_ _. True),
     dp_ptc_assignment_at_slot = (\<lambda>_ _. Assigned), dp_is_validator_in_sync_committee = (\<lambda>_ _. False),
     dp_get_voluntary_exit_duty_count = (\<lambda>_ _. 0)\<rparr>"

definition vd_env :: "nat validator_env" where
  "vd_env = \<lparr>ve_crypto = vd_crypto, ve_pk_deserialize = Some, ve_slot_clock = vd_clock,
     ve_received_at = 60 * 10 ^ 9 + 1, ve_duties_provider = vd_duties,
     ve_cluster_order = (\<lambda>S. if S = {} then [] else [vd_cluster_id]),
     ve_pubkey_order = (\<lambda>S. if S = {} then [] else [[6]])\<rparr>"

definition vd_router :: topic_router where
  "vd_router = \<lparr>tr_fork_schedule = demo_schedule, tr_slots_per_epoch = 32\<rparr>"

definition vd_validator :: "nat validator" where
  "vd_validator = validator_new vd_state 32 256 512 vd_router demo_schedule demo_chain"

definition vd_info :: committee_info where
  "vd_info = \<lparr>ci_committee_members = demo_committee, ci_validator_indices = [11]\<rparr>"

definition vd_context :: "(nat, pubkey) validation_context" where
  "vd_context = context_of vd_env vd_validator vd_signed Committee vd_info"

definition vd_duty_state :: duty_state where
  "vd_duty_state = duty_state_new 67"

section \<open>The checks\<close>

lemma vd_role: "msgid_role demo_id = Some Committee"
  by (simp add: demo_id_def)

lemma vd_signed_wf: "signed_wf vd_signed"
  by (simp add: signed_wf_def vd_signed_def RSA_SIGNATURE_SIZE_def ssv_message_validate_def
      SSV_MESSAGE_DATA_LEN_def MAX_CONSENSUS_MSG_SIZE_def)

lemma vd_structure: "validate_structure_and_role vd_signed = Ok Committee"
proof -
  have "signed_validate vd_signed = Inr ()" using vd_signed_wf signed_validate_iff by blast
  then show ?thesis by (simp add: validate_structure_and_role_def ok_or_def map_err_def vd_signed_def vd_role)
qed

lemma vd_executor: "msgid_duty_executor Some demo_id = Some (CommitteeExecutor (replicate 32 5))"
  unfolding demo_id_def by (rule msgid_executor_committee) (simp_all add: COMMITTEE_ID_LEN_def)

lemma vd_sha256_ids: "length ids = 4 \<Longrightarrow> committee_id_of_slice vd_sha256 ids = replicate 32 5"
proof -
  assume "length ids = 4"
  then have "length (concat (map (\<lambda>op. le_bytes 4 (unat op mod 2 ^ 32)) ids)) = 16"
    by (simp add: length_concat comp_def sum_list_triv)
  then have "concat (map (\<lambda>op. le_bytes 4 (unat op mod 2 ^ 32)) ids) \<noteq> [7]" by (metis length_Cons list.size(3) One_nat_def num.distinct(1) one_eq_numeral_iff)
  then show ?thesis by (simp add: committee_id_of_slice_def vd_sha256_def)
qed

lemma vd_committee_id: "cluster_committee_id vd_sha256 vd_cluster = replicate 32 5"
  unfolding cluster_committee_id_def committee_id_of_vec_def
  by (rule vd_sha256_ids) (simp add: vd_cluster_def demo_committee_def)

lemma vd_clusters:
  "get_all_by_quaternary (\<lambda>S. if S = {} then [] else [vd_cluster_id]) (ns_clusters vd_state) (replicate 32 5) = [vd_cluster]"
  "get_all_by_quaternary (\<lambda>S. if S = {} then [] else [[6]]) (ns_validator_metadata vd_state) (replicate 32 5) = [vd_metadata]"
proof -
  have "cl_cluster_id vd_cluster = vd_cluster_id" "vm_public_key vd_metadata = [6]"
    by (simp_all add: vd_cluster_def vd_metadata_def)
  then show
    "get_all_by_quaternary (\<lambda>S. if S = {} then [] else [vd_cluster_id]) (ns_clusters vd_state) (replicate 32 5) = [vd_cluster]"
    "get_all_by_quaternary (\<lambda>S. if S = {} then [] else [[6]]) (ns_validator_metadata vd_state) (replicate 32 5) = [vd_metadata]"
    by (simp_all add: vd_state_def apply_insert_validator_def vd_committee_id Let_def vd_empty_state_def
        get_all_by_quaternary_def values_of_def insert_or_update_def cluster_tags_def metadata_tags_def mi_new_def
        multi_insert_def unique_insert_def keys_of_def List.map_filter_simps)
qed

lemma vd_committee_info:
  "message_committee_info vd_env vd_state Committee demo_id = Ok vd_info"
  by (simp add: message_committee_info_def message_committee_id_def vd_env_def vd_executor ok_or_def
      get_committee_info_by_committee_id_def get_cluster_members_def get_validator_indices_def vd_clusters
      vd_info_def vd_cluster_def vd_metadata_def List.map_filter_simps)

lemmas vd_fields = vd_context_def context_of_def vd_env_def vd_validator_def validator_new_def vd_crypto_def

lemma vd_context_fields:
  "vc_signed_ssv_message vd_context = vd_signed" "vc_role vd_context = Committee"
  "vc_committee_info vd_context = vd_info" "vc_received_at vd_context = 60 * 10 ^ 9 + 1"
  "vc_slots_per_epoch vd_context = 32" "vc_epochs_per_sync_committee_period vd_context = 256"
  "vc_slot_clock vd_context = vd_clock" "vc_fork_schedule vd_context = demo_schedule"
  "vc_chain vd_context = demo_chain" "vc_crypto vd_context = vd_crypto"
  "vc_operator_pub_keys vd_context = get_operator_pub_keys vd_state demo_committee"
  by (simp_all add: vd_context_def context_of_def vd_env_def vd_validator_def validator_new_def vd_info_def)

lemma vd_crypto_fields:
  "cy_codec vd_crypto = vd_codec" "cy_sha256 vd_crypto = vd_sha256"
  by (simp_all add: vd_crypto_def)

lemma vd_active_fork: "active_fork demo_schedule e = Some Alan"
  by (simp add: active_fork_def active_fork_config_def demo_schedule_def fork_config_new_def)

lemma vd_keys: "s \<in> set demo_committee \<Longrightarrow> get_operator_pub_keys vd_state demo_committee s = Some (unat s)"
  by (simp add: get_operator_pub_keys_def get_operator_def vd_state_def vd_operators_def)

lemma vd_verify: "verify_message_signatures vd_crypto vd_signed (get_operator_pub_keys vd_state demo_committee) = Ok ()"
proof -
  have "(2 :: operator_id) \<in> set demo_committee" by (simp add: demo_committee_def)
  from vd_keys [OF this] show ?thesis
    by (simp add: verify_message_signatures_def vd_signed_def verify_message_signature_def vd_crypto_def map_err_def
        option_to_result_def)
qed

lemma vd_role_for_fork: "validate_role_for_fork 5 vd_context = Ok ()"
  by (simp add: validate_role_for_fork_def Let_def vd_context_fields vd_active_fork expect_def demo_chain_def)

lemma vd_semantics:
  "validate_consensus_message_semantics vd_crypto vd_signed (demo_message Proposal) vd_info keys = Ok ()"
  by (simp add: validate_consensus_message_semantics_def Let_def vd_signed_def demo_message_def vd_crypto_def
      vd_sha256_def vd_role is_qbft_role_def expect_def validate_justifications_def validate_justifications_with_def
      validate_justification_list_def)

lemma vd_new_operator: "operator_or_new (duty_state_new n) s = operator_state_new n"
  by (simp add: operator_or_new_def duty_state_new_def)

lemma vd_no_entry: "0 < n \<Longrightarrow> get_signer_state (operator_state_new n) sl = None"
  by (simp add: get_signer_state_def operator_state_new_def ring_index_def)

lemma vd_start: "sl < 1000 \<Longrightarrow> slot_start_time vd_clock sl = Ok (unat sl * 12 * 10 ^ 9)"
  by (simp add: slot_start_time_def vd_clock_def ok_or_def expect_def system_time_add_def word_less_nat_alt)

lemma vd_spread: "validate_round_in_allowed_spread (demo_message Proposal) vd_context = Ok ()"
  by (rule timely_round_allowed [where start = "60 * 10 ^ 9"])
     (simp_all add: vd_context_fields vd_clock_def demo_message_def deadline_secs_def)

lemma vd_leader: "round_robin_proposer demo_chain 5 1 demo_committee 32 demo_schedule = Ok 2"
  by (simp add: round_robin_proposer_def demo_committee_def vd_active_fork expect_def FIRST_ROUND_def Let_def)

lemma vd_qbft_logic:
  "validate_qbft_logic vd_context (demo_message Proposal) vd_duty_state =
     (put_operator vd_duty_state 2 (operator_state_new 67), Ok ())"
  using vd_spread
  by (simp add: validate_qbft_logic_def Let_def vd_context_fields vd_info_def vd_signed_def demo_message_def
      round_from_u64_def expect_def vd_leader get_or_create_operator_eq vd_duty_state_def vd_new_operator vd_no_entry)

lemma vd_slot_time: "validate_slot_time 5 vd_context = Ok ()"
  by (simp add: validate_slot_time_def message_earliness_def message_lateness_def Let_def vd_context_fields vd_start
      start_time_or_def demo_chain_def LATE_SLOT_ALLOWANCE_def ok_or_def system_time_add_def LATE_MESSAGE_MARGIN_def
      CLOCK_ERROR_TOLERANCE_def EARLY_MESSAGE_MARGIN_def)

lemma vd_duty_count: "validate_duty_count vd_context 5 (operator_state_new 67) vd_duties = Ok ()"
proof -
  have "duty_limit vd_context 5 [11] vd_duties = Ok (Some 2)"
    by (simp add: duty_limit_def Let_def vd_context_fields demo_chain_def sync_committee_period_def ok_or_def
        vd_duties_def min_def)
  then show ?thesis
    by (simp add: validate_duty_count_def vd_context_fields vd_info_def is_first_message_for_duty_def vd_no_entry
        get_duty_count_def Let_def)
qed

lemma vd_duty_logic:
  "validate_qbft_message_by_duty_logic vd_context (demo_message Proposal) (put_operator vd_duty_state 2 (operator_state_new 67))
     vd_duties = (put_operator (put_operator vd_duty_state 2 (operator_state_new 67)) 2 (operator_state_new 67), Ok ())"
proof -
  have "validate_beacon_duty vd_context 5 False vd_duties = Ok ()"
    by (simp add: validate_beacon_duty_def Let_def vd_context_fields vd_info_def)
  then show ?thesis
    by (simp add: validate_qbft_message_by_duty_logic_def Let_def vd_context_fields vd_signed_def demo_message_def
        vd_slot_time get_or_create_operator_eq vd_duty_count)
qed

definition vd_after :: duty_state where
  "vd_after = update_for_consensus_message vd_sha256
     (put_operator (put_operator vd_duty_state 2 (operator_state_new 67)) 2 (operator_state_new 67))
     vd_signed (demo_message Proposal)"

lemma vd_consensus:
  "validate_consensus_message vd_context vd_duty_state vd_duties = (vd_after, Ok (ValidatedQbftMessage (demo_message Proposal)))"
proof -
  have "cd_qbft_from_ssz (cy_codec vd_crypto) bs = Inr (demo_message Proposal)" for bs
    by (simp add: vd_crypto_def vd_codec_def)
  moreover have "qm_height (demo_message Proposal) = 5" by (simp add: demo_message_def)
  ultimately show ?thesis
    by (simp add: validate_consensus_message_def Let_def vd_context_fields map_err_def vd_role_for_fork vd_semantics
        vd_qbft_logic vd_duty_logic vd_verify vd_after_def vd_crypto_fields)
qed

lemma vd_ssv: "validate_ssv_message vd_context vd_duty_state vd_duties = (vd_after, Ok (ValidatedQbftMessage (demo_message Proposal)))"
  using vd_consensus
  by (simp add: validate_ssv_message_def vd_context_fields vd_signed_def vd_info_def demo_committee_def)

lemma vd_validate:
  "validate vd_env vd_validator [] SkipValidation =
     (vd_validator\<lparr>va_duty_state_map := [demo_id \<mapsto> vd_after]\<rparr>,
      Some (ValidationSuccess \<lparr>vm_signed_ssv_message = vd_signed, vm_ssv_message = ValidatedQbftMessage (demo_message Proposal)\<rparr>))"
proof -
  have "cd_signed_from_ssz (cy_codec (ve_crypto vd_env)) [] = Inr vd_signed"
    by (simp add: vd_env_def vd_crypto_def vd_codec_def)
  moreover have "sm_msg_id (sg_ssv_message vd_signed) = demo_id" by (simp add: vd_signed_def)
  moreover have "va_network_state vd_validator = vd_state" "va_duty_state_map vd_validator = Map.empty"
    by (simp_all add: vd_validator_def validator_new_def)
  moreover have "get_duty_state vd_validator demo_id Committee = vd_duty_state"
    by (simp add: get_duty_state_def vd_validator_def validator_new_def vd_duty_state_def LATE_SLOT_ALLOWANCE_def)
  moreover have "ve_duties_provider vd_env = vd_duties" by (simp add: vd_env_def)
  ultimately show ?thesis
    by (simp add: validate_def validate_decoded_message_def Let_def vd_structure vd_committee_info
        validate_topic_and_domain_def vd_context_def [symmetric] vd_ssv)
qed

lemma vd_entry:
  "get_signer_state (operator_or_new vd_after 2) 5 =
     Some (signer_state_update vd_sha256 (signer_state_new 5 1) vd_signed (demo_message Proposal))"
proof -
  have f: "sg_operator_ids vd_signed = [2]" "qm_height (demo_message Proposal) = 5" "qm_round (demo_message Proposal) = 1"
    by (simp_all add: vd_signed_def demo_message_def)
  have "operator_or_new vd_after 2 = operator_state_update vd_sha256 (operator_state_new 67) vd_signed (demo_message Proposal) 5"
    by (simp add: vd_after_def update_for_consensus_message_operator f)
  moreover have "length (os_state (operator_state_new 67)) = 67" by (simp add: operator_state_new_def)
  ultimately show ?thesis
    by (simp add: operator_state_update_def vd_no_entry f get_put_signer_state)
qed

end
