(* ===== verification/Bls_Lagrange.thy ===== *)
theory Bls_Lagrange
  imports Ssv_Types
begin

text \<open>
  Threshold keys (\<open>bls_lagrange/src/blst.rs\<close>): a validator key is split into shares, the values of
  a random polynomial at the operator ids, and signatures or public keys of the shares are
  combined by interpolation at zero. The check of the share public keys of a new validator
  (\<open>ssv_types/src/share.rs\<close>) rests on it.

  The scalars of the curve are a field \<open>'f\<close> and a group of the curve is \<open>'g\<close>. The multiplication
  \<open>smul\<close> of a point by a scalar and the parser \<open>key_validate\<close> belong to the \<open>blst\<close> library and are
  arguments; that they form a vector space, and that the ids below \<open>2\<^sup>6\<^sup>4\<close> are distinct scalars, are
  hypotheses of the theorems. The operations \<open>blst_sk_*_n_check\<close> report whether their result is
  zero.
\<close>

definition map_err_o :: "('e \<Rightarrow> 'f) \<Rightarrow> ('a, 'e) outcome \<Rightarrow> ('a, 'f) outcome" where
  "map_err_o g r = (case r of Ok a \<Rightarrow> Ok a | Err e \<Rightarrow> Err (g e) | Panic \<Rightarrow> Panic)"

lemma map_err_o_iff [simp]:
  "map_err_o g r = Ok a \<longleftrightarrow> r = Ok a" "map_err_o g r = Panic \<longleftrightarrow> r = Panic"
  "map_err_o g r = Err e' \<longleftrightarrow> (\<exists>e. r = Err e \<and> e' = g e)"
  by (cases r; auto simp: map_err_o_def)+

section \<open>Data\<close>

datatype lagrange_error =
    InternalError | InvalidThreshold | LessThanTwoSignatures | NotOneIdPerSignature | ZeroId | ZeroKey
  | RepeatedId | InvalidSignature

record 'f key_id =
  ki_num :: u64
  ki_scalar :: 'f

definition scalar_of :: "u64 \<Rightarrow> 'f::field" where
  "scalar_of n = of_nat (unat n)"

definition key_id_try_from :: "u64 \<Rightarrow> lagrange_error + ('f::field) key_id" where
  "key_id_try_from value = (if value \<noteq> 0 then Inr \<lparr>ki_num = value, ki_scalar = scalar_of value\<rparr> else Inl ZeroId)"

section \<open>Splitting a key\<close>

text \<open>Horner's scheme from the highest coefficient down; the running value is never zero.\<close>

fun split_eval :: "'f::field \<Rightarrow> 'f \<Rightarrow> 'f list \<Rightarrow> ('f, lagrange_error) outcome" where
  "split_eval x y [] = Ok y"
| "split_eval x y (c # cs) =
     (if y * x = 0 then Err ZeroId
      else if y * x + c = 0 then Panic
      else split_eval x (y * x + c) cs)"

fun collect_o :: "('a \<Rightarrow> ('b, 'e) outcome) \<Rightarrow> 'a list \<Rightarrow> ('b list, 'e) outcome" where
  "collect_o f [] = Ok []"
| "collect_o f (x # xs) = bindO (f x) (\<lambda>y. bindO (collect_o f xs) (\<lambda>ys. Ok (y # ys)))"

text \<open>The random coefficients are an argument: the first \<open>threshold - 1\<close> of them are used.\<close>

definition split_with_rng ::
    "'f::field \<Rightarrow> u64 \<Rightarrow> 'f key_id list \<Rightarrow> 'f list \<Rightarrow> (('f key_id \<times> 'f) list, lagrange_error) outcome" where
  "split_with_rng key threshold ids random =
     (if threshold \<le> 1 then Err InvalidThreshold
      else
        let coefficients = key # take (unat threshold - 1) random in
        if hd coefficients = 0 then Err ZeroKey
        else collect_o (\<lambda>i. bindO (split_eval (ki_scalar i) (last coefficients) (rev (butlast coefficients)))
                              (\<lambda>y. Ok (i, y))) ids)"

section \<open>Interpolation at zero\<close>

fun id_product :: "'f::field \<Rightarrow> 'f list \<Rightarrow> ('f, lagrange_error) outcome" where
  "id_product numerator [] = Ok numerator"
| "id_product numerator (x # xs) =
     (if numerator * x = 0 then Err ZeroId else id_product (numerator * x) xs)"

text \<open>The loop over the other ids, found by their position: \<open>j\<close> counts on from the current one.\<close>

fun id_denominator :: "nat \<Rightarrow> 'f::field \<Rightarrow> nat \<Rightarrow> 'f \<Rightarrow> 'f list \<Rightarrow> ('f, lagrange_error) outcome" where
  "id_denominator i x j denominator [] = Ok denominator"
| "id_denominator i x j denominator (y # ys) =
     (if i = j then id_denominator i x (Suc j) denominator ys
      else if y - x = 0 then Err RepeatedId
      else if denominator * (y - x) = 0 then Panic
      else id_denominator i x (Suc j) (denominator * (y - x)) ys)"

definition lagrange_coefficients :: "'f::field key_id list \<Rightarrow> ('f list, lagrange_error) outcome" where
  "lagrange_coefficients ids =
     (case map ki_scalar ids of
        [] \<Rightarrow> Err InternalError
      | first # rest \<Rightarrow>
          bindO (id_product first rest) (\<lambda>numerator.
          collect_o (\<lambda>(i, x).
            bindO (id_denominator i x 0 x (first # rest)) (\<lambda>denominator.
              let intermediate = inverse denominator * numerator in
              if intermediate = 0 then Panic else Ok intermediate))
            (enumerate 0 (first # rest))))"

text \<open>The multi-scalar multiplication of \<open>blst\<close>.\<close>

definition mult_points :: "('f \<Rightarrow> 'g \<Rightarrow> 'g::ab_group_add) \<Rightarrow> 'g list \<Rightarrow> 'f list \<Rightarrow> 'g" where
  "mult_points smul points d = sum_list (map2 smul d points)"

definition combine_signatures ::
    "('f::field \<Rightarrow> 'g \<Rightarrow> 'g::ab_group_add) \<Rightarrow> 'g option list \<Rightarrow> 'f key_id list \<Rightarrow> ('g, lagrange_error) outcome" where
  "combine_signatures smul signatures ids =
     (if length signatures < 2 then Err LessThanTwoSignatures
      else if length signatures \<noteq> length ids then Err NotOneIdPerSignature
      else bindO (collect_o (ok_or InvalidSignature) signatures) (\<lambda>points.
           bindO (lagrange_coefficients ids) (\<lambda>d. Ok (mult_points smul points d))))"

definition interpolate_public_key ::
    "('f::field \<Rightarrow> 'g \<Rightarrow> 'g::ab_group_add) \<Rightarrow> 'g list \<Rightarrow> 'f key_id list \<Rightarrow> ('g, lagrange_error) outcome" where
  "interpolate_public_key smul pubkeys ids =
     bindO (lagrange_coefficients ids) (\<lambda>d. Ok (mult_points smul pubkeys d))"

section \<open>Checking share public keys\<close>

datatype share_public_key_error =
    SkInvalidThreshold nat nat | InvalidValidatorPublicKey | InvalidSharePublicKey u64 | SkIds lagrange_error
  | DegreeBelowThreshold | NotReconstructed u64

definition lagrange_validate_share_public_keys ::
    "('f::field \<Rightarrow> 'g \<Rightarrow> 'g::ab_group_add) \<Rightarrow> (bytes \<Rightarrow> 'g option) \<Rightarrow> bytes \<Rightarrow> ('f key_id \<times> bytes) list \<Rightarrow> nat
     \<Rightarrow> (unit, share_public_key_error) outcome" where
  "lagrange_validate_share_public_keys smul key_validate validator_pubkey shares threshold =
     (if threshold < 2 \<or> threshold > length shares then Err (SkInvalidThreshold threshold (length shares))
      else
        bindO (ok_or InvalidValidatorPublicKey (key_validate validator_pubkey)) (\<lambda>expected.
        bindO (collect_o (\<lambda>(i, pk). ok_or (InvalidSharePublicKey (ki_num i)) (key_validate pk)) shares) (\<lambda>pubkeys.
        let ids = map fst shares; base = threshold - 1 in
        bindO (map_err_o SkIds (interpolate_public_key smul (take base pubkeys) (take base ids))) (\<lambda>p.
        if p = expected then Err DegreeBelowThreshold
        else for_each_o (\<lambda>(i, pk).
               bindO (map_err_o SkIds (interpolate_public_key smul (take base pubkeys @ [pk]) (take base ids @ [i]))) (\<lambda>recovered.
               guardO (recovered = expected) (NotReconstructed (ki_num i))))
               (zip (drop base ids) (drop base pubkeys))))))"

datatype share_validation_error =
    InvalidCommitteeSize nat | InvalidOperatorId u64 | PublicKeys share_public_key_error

definition validate_share_public_keys ::
    "('f::field \<Rightarrow> 'g \<Rightarrow> 'g::ab_group_add) \<Rightarrow> (bytes \<Rightarrow> 'g option) \<Rightarrow> bytes \<Rightarrow> (operator_id \<times> bytes) list
     \<Rightarrow> (unit, share_validation_error) outcome" where
  "validate_share_public_keys smul key_validate validator_pubkey shares =
     (if \<not> is_valid_committee_size (length shares) then Err (InvalidCommitteeSize (length shares))
      else
        bindO (collect_o (\<lambda>(i, pk). map_err (\<lambda>_. InvalidOperatorId i)
                            (map_sum id (\<lambda>k. (k, pk)) (key_id_try_from i))) shares) (\<lambda>keyed.
        map_err_o PublicKeys (lagrange_validate_share_public_keys smul key_validate validator_pubkey
          (sort_key (\<lambda>(k, _). ki_num k) keyed) (quorum_size (length shares)))))"

section \<open>Polynomials with coefficients in a group\<close>

text \<open>A polynomial is its list of coefficients, the constant one first.\<close>

fun peval :: "('f \<Rightarrow> 'g \<Rightarrow> 'g) \<Rightarrow> 'g list \<Rightarrow> 'f \<Rightarrow> 'g::ab_group_add" where
  "peval smul [] x = 0"
| "peval smul (c # cs) x = c + smul x (peval smul cs x)"

text \<open>The Lagrange coefficient of \<open>x\<close> at zero for the interpolation points \<open>S\<close>.\<close>

definition lam :: "'f::field set \<Rightarrow> 'f \<Rightarrow> 'f" where
  "lam S x = (\<Prod>y \<in> S - {x}. y / (y - x))"

lemma lam_single [simp]: "lam {x} x = 1"
  by (simp add: lam_def)

lemma lam_remove:
  assumes "finite S" "a \<in> S" "x \<in> S - {a}"
  shows "lam S x = a / (a - x) * lam (S - {a}) x"
proof -
  have "S - {x} = insert a (S - {a} - {x})" using assms by auto
  then show ?thesis using assms by (simp add: lam_def)
qed

lemma lam_nonzero: "finite S \<Longrightarrow> 0 \<notin> S \<Longrightarrow> lam S x \<noteq> 0"
  by (auto simp: lam_def)

locale curve_group =
  fixes smul :: "'f::field \<Rightarrow> 'g::ab_group_add \<Rightarrow> 'g"
  assumes smul_add_right: "smul a (g + h) = smul a g + smul a h"
    and smul_add_left: "smul (a + b) g = smul a g + smul b g"
    and smul_smul: "smul a (smul b g) = smul (a * b) g"
    and smul_one: "smul 1 g = g"
begin

lemma smul_zero_right [simp]: "smul a 0 = 0"
  using smul_add_right [of a 0 0] by simp

lemma smul_zero_left [simp]: "smul 0 g = 0"
  using smul_add_left [of 0 0 g] by simp

lemma smul_minus_left: "smul (- a) g = - smul a g"
  using smul_add_left [of "- a" a g] by (simp add: eq_neg_iff_add_eq_0)

lemma smul_diff_left: "smul (a - b) g = smul a g - smul b g"
  using smul_add_left [of a "- b" g] by (simp add: smul_minus_left)

lemma smul_minus_right: "smul a (- g) = - smul a g"
  using smul_add_right [of a "- g" g] by (simp add: eq_neg_iff_add_eq_0)

lemma smul_diff_right: "smul a (g - h) = smul a g - smul a h"
  using smul_add_right [of a g "- h"] by (simp add: smul_minus_right)

lemma smul_eq_0_iff: "smul a g = 0 \<longleftrightarrow> a = 0 \<or> g = 0"
proof
  assume "smul a g = 0"
  then have "smul (inverse a * a) g = 0" by (simp add: smul_smul [symmetric])
  then show "a = 0 \<or> g = 0" by (cases "a = 0") (auto simp: smul_one)
qed auto

lemma smul_sum_right: "smul a (\<Sum>x\<in>S. f x) = (\<Sum>x\<in>S. smul a (f x))"
  by (induction S rule: infinite_finite_induct) (auto simp: smul_add_right)

lemma smul_sum_left: "smul (\<Sum>x\<in>S. f x) g = (\<Sum>x\<in>S. smul (f x) g)"
  by (induction S rule: infinite_finite_induct) (auto simp: smul_add_left)

lemmas smul_simps = smul_add_right smul_add_left smul_diff_left smul_diff_right smul_minus_left
  smul_minus_right smul_smul

lemma peval_zero: "peval smul cs 0 = (case cs of [] \<Rightarrow> 0 | c # _ \<Rightarrow> c)"
  by (cases cs) auto

lemma peval_divide:
  "\<exists>q. length q = length p - 1 \<and> (\<forall>x. peval smul p x = peval smul p a + smul (x - a) (peval smul q x))"
proof (induction p)
  case (Cons c cs)
  then obtain q where q: "length q = length cs - 1"
      "\<And>x. peval smul cs x = peval smul cs a + smul (x - a) (peval smul q x)" by blast
  show ?case
  proof (cases "cs = []")
    case False
    have "peval smul (c # cs) x = peval smul (c # cs) a + smul (x - a) (peval smul (peval smul cs a # q) x)" for x
    proof -
      have "smul x (peval smul cs x) = smul x (peval smul cs a) + smul (x * (x - a)) (peval smul q x)"
        by (subst q(2)) (simp only: smul_add_right smul_smul)
      then show ?thesis by (simp add: smul_simps algebra_simps)
    qed
    moreover have "length (peval smul cs a # q) = length (c # cs) - 1" using False q(1) by (cases cs) auto
    ultimately show ?thesis by blast
  qed simp
qed simp

text \<open>Taking one point out of the interpolation of a multiple of \<open>x - a\<close>.\<close>

lemma interp_factor:
  assumes "finite S" "a \<in> S"
  shows "(\<Sum>x\<in>S. smul (lam S x) (smul (x - a) (f x))) =
         smul (- a) (\<Sum>x\<in>S - {a}. smul (lam (S - {a}) x) (f x))"
proof -
  have "smul (lam S x) (smul (x - a) (f x)) = smul (- a) (smul (lam (S - {a}) x) (f x))"
    if x: "x \<in> S - {a}" for x
  proof -
    have "a / (a - x) * (x - a) = - a" using x by (auto simp: divide_simps algebra_simps)
    moreover have "lam S x * (x - a) = a / (a - x) * (x - a) * lam (S - {a}) x"
      by (simp only: lam_remove [OF assms x] mult.assoc mult.commute [of "lam (S - {a}) x"])
    ultimately have "lam S x * (x - a) = - a * lam (S - {a}) x" by simp
    then show ?thesis by (simp add: smul_smul)
  qed
  then show ?thesis
    by (simp add: sum.remove [OF assms] smul_sum_right)
qed

end

text \<open>The field acts on itself: the shares of a secret key are such a case.\<close>

interpretation field_scalar: curve_group "(*) :: 'f::field \<Rightarrow> 'f \<Rightarrow> 'f"
  by unfold_locales (simp_all add: algebra_simps)

lemma sum_lam:
  assumes "finite S" "S \<noteq> {}"
  shows "(\<Sum>x\<in>S. lam S x) = (1::'f::field)"
  using assms
proof (induction "card S" arbitrary: S rule: less_induct)
  case less
  then obtain a where a: "a \<in> S" by blast
  show ?case
  proof (cases "S = {a}")
    case False
    then obtain b where b: "b \<in> S" "b \<noteq> a" using a by blast
    have one: "(\<Sum>x\<in>S. lam S x * (x - c)) = - c" if c: "c \<in> S" "S - {c} \<noteq> {}" for c
    proof -
      have "(\<Sum>x\<in>S - {c}. lam (S - {c}) x) = 1"
        using c less.prems by (intro less.hyps card_Diff1_less) auto
      with field_scalar.interp_factor [OF less.prems(1) c(1), of "\<lambda>_. 1"] show ?thesis by simp
    qed
    have "(\<Sum>x\<in>S. lam S x) * (b - a) = (\<Sum>x\<in>S. lam S x * (x - a) - lam S x * (x - b))"
      unfolding sum_distrib_right by (rule sum.cong) (simp_all add: algebra_simps)
    also have "\<dots> = (\<Sum>x\<in>S. lam S x * (x - a)) - (\<Sum>x\<in>S. lam S x * (x - b))"
      by (rule sum_subtractf)
    also have "\<dots> = b - a"
    proof -
      have "S - {a} \<noteq> {}" "S - {b} \<noteq> {}" using a b by blast+
      then show ?thesis using one a b by simp
    qed
    finally show ?thesis using b by simp
  qed (use less.prems in simp)
qed

context curve_group
begin

text \<open>Interpolation at zero is exact for a polynomial with no more coefficients than points.\<close>

lemma interp_zero:
  assumes "finite S" "S \<noteq> {}" "length p \<le> card S"
  shows "(\<Sum>x\<in>S. smul (lam S x) (peval smul p x)) = peval smul p 0"
  using assms
proof (induction "card S" arbitrary: S p rule: less_induct)
  case less
  then obtain a where a: "a \<in> S" by blast
  obtain q where q: "length q = length p - 1"
    "\<And>x. peval smul p x = peval smul p a + smul (x - a) (peval smul q x)"
    using peval_divide [of p a] by blast
  have rest: "(\<Sum>x\<in>S - {a}. smul (lam (S - {a}) x) (peval smul q x)) = peval smul q 0"
  proof (cases "S - {a} = {}")
    case True
    then have "card S = 1" using card.remove [OF less.prems(1) a] by (simp only: card.empty One_nat_def)
    then have "q = []" using less.prems(3) q(1) by simp
    then show ?thesis using True by simp
  next
    case False
    then show ?thesis
      using a q(1) less.prems by (intro less.hyps card_Diff1_less) auto
  qed
  have "(\<Sum>x\<in>S. smul (lam S x) (peval smul p x)) =
        smul (\<Sum>x\<in>S. lam S x) (peval smul p a) + (\<Sum>x\<in>S. smul (lam S x) (smul (x - a) (peval smul q x)))"
    by (subst q(2)) (simp only: smul_add_right sum.distrib smul_sum_left)
  also have "\<dots> = peval smul p a + smul (- a) (peval smul q 0)"
    by (simp only: sum_lam [OF less.prems(1,2)] smul_one interp_factor [OF less.prems(1) a] rest)
  also have "\<dots> = peval smul p 0" using q(2) [of 0] by simp
  finally show ?case .
qed

end

section \<open>What the loops compute\<close>

lemma collect_o_Ok_iff: "collect_o f xs = Ok ys \<longleftrightarrow> list_all2 (\<lambda>x y. f x = Ok y) xs ys"
proof (induction xs arbitrary: ys)
  case (Cons x xs)
  then show ?case by (cases ys) (auto simp: bindO_Ok_iff)
qed auto

lemma collect_o_map: "(\<And>x. x \<in> set xs \<Longrightarrow> f x = Ok (g x)) \<Longrightarrow> collect_o f xs = Ok (map g xs)"
  by (simp add: collect_o_Ok_iff list_all2_map2 list_all2_same)

lemma id_product_eq:
  "id_product n xs = (if xs \<noteq> [] \<and> n * prod_list xs = 0 then Err ZeroId else Ok (n * prod_list xs))"
  by (induction xs arbitrary: n) (auto simp: mult.assoc)

lemma id_denominator_eq:
  assumes "d \<noteq> 0"
  shows "id_denominator i x j d ys =
     (if \<forall>k < length ys. j + k \<noteq> i \<longrightarrow> ys ! k \<noteq> x
      then Ok (d * (\<Prod>k \<in> {k. k < length ys \<and> j + k \<noteq> i}. ys ! k - x)) else Err RepeatedId)"
  using assms
proof (induction ys arbitrary: j d)
  case (Cons y ys)
  have split: "{k. k < length (y # ys) \<and> j + k \<noteq> i} =
      (if i = j then {} else {0}) \<union> Suc ` {k. k < length ys \<and> Suc j + k \<noteq> i}" (is "?A = _ \<union> Suc ` ?B")
  proof (rule set_eqI)
    fix k show "(k \<in> ?A) = (k \<in> (if i = j then {} else {0}) \<union> Suc ` ?B)" by (cases k) auto
  qed
  have "(\<Prod>k \<in> Suc ` ?B. (y # ys) ! k - x) = (\<Prod>k \<in> ?B. ys ! k - x)"
    by (simp add: prod.reindex)
  then have prod: "(\<Prod>k \<in> ?A. (y # ys) ! k - x) =
      (if i = j then 1 else y - x) * (\<Prod>k \<in> ?B. ys ! k - x)"
    by (subst split) (auto simp: prod.union_disjoint)
  have all: "(\<forall>k < length (y # ys). j + k \<noteq> i \<longrightarrow> (y # ys) ! k \<noteq> x) \<longleftrightarrow>
      (i \<noteq> j \<longrightarrow> y \<noteq> x) \<and> (\<forall>k < length ys. Suc j + k \<noteq> i \<longrightarrow> ys ! k \<noteq> x)"
    by (auto simp: less_Suc_eq_0_disj)
  show ?case
  proof (cases "i = j")
    case True
    then show ?thesis unfolding prod all using Cons by simp
  next
    case False
    then show ?thesis
      unfolding prod all using Cons.IH [of "d * (y - x)" "Suc j"] Cons.prems
      by (cases "y = x") (auto simp: mult.assoc)
  qed
qed simp

text \<open>Over distinct ids the position of an id is the id itself, and the coefficient is Lagrange's.\<close>

lemma other_positions:
  assumes "distinct xs" "i < length xs"
  shows "(\<Prod>k \<in> {k. k < length xs \<and> k \<noteq> i}. f (xs ! k)) = (\<Prod>y \<in> set xs - {xs ! i}. f y)"
proof -
  have "inj_on ((!) xs) {k. k < length xs \<and> k \<noteq> i}"
    using assms by (auto simp: inj_on_def nth_eq_iff_index_eq)
  moreover have "(!) xs ` {k. k < length xs \<and> k \<noteq> i} = set xs - {xs ! i}"
    using assms by (auto simp: in_set_conv_nth nth_eq_iff_index_eq)
  ultimately show ?thesis by (metis (no_types, lifting) prod.reindex_cong)
qed

lemma lam_from_product:
  fixes xs :: "'f::field list"
  assumes "distinct xs" "0 \<notin> set xs" "x \<in> set xs"
  shows "inverse (x * (\<Prod>y \<in> set xs - {x}. y - x)) * prod_list xs = lam (set xs) x"
proof -
  have "prod_list xs = x * \<Prod>(set xs - {x})"
    using prod.remove [of "set xs" x id] prod.distinct_set_conv_list [OF assms(1), of id] assms(3) by simp
  then show ?thesis using assms by (auto simp: lam_def prod_dividef field_simps)
qed

lemma distinct_positions:
  "distinct xs \<longleftrightarrow> (\<forall>i < length xs. \<forall>k < length xs. k \<noteq> i \<longrightarrow> xs ! k \<noteq> xs ! i)"
  by (auto simp: distinct_conv_nth)

text \<open>One turn of the loop over the ids.\<close>

definition coefficient_at :: "'f::field list \<Rightarrow> nat \<times> 'f \<Rightarrow> ('f, lagrange_error) outcome" where
  "coefficient_at xs p =
     bindO (id_denominator (fst p) (snd p) 0 (snd p) xs) (\<lambda>denominator.
       let intermediate = inverse denominator * prod_list xs in
       if intermediate = 0 then Panic else Ok intermediate)"

lemma coefficient_at_eq:
  fixes xs :: "'f::field list"
  assumes "0 \<notin> set xs" "i < length xs"
  shows "coefficient_at xs (i, xs ! i) =
     (if \<forall>k < length xs. k \<noteq> i \<longrightarrow> xs ! k \<noteq> xs ! i
      then Ok (inverse (xs ! i * (\<Prod>k \<in> {k. k < length xs \<and> k \<noteq> i}. xs ! k - xs ! i)) * prod_list xs)
      else Err RepeatedId)"
proof -
  have nz: "xs ! i \<noteq> 0" "prod_list xs \<noteq> 0" using assms nth_mem [OF assms(2)] by (auto simp: prod_list_zero_iff simp del: nth_mem)
  show ?thesis
    using id_denominator_eq [OF nz(1), of i "xs ! i" 0 xs] nz by (auto simp: coefficient_at_def)
qed

lemma lagrange_coefficients_loop:
  assumes "0 \<notin> set (map ki_scalar ids)" "ids \<noteq> []"
  shows "lagrange_coefficients ids =
     collect_o (coefficient_at (map ki_scalar ids)) (enumerate 0 (map ki_scalar ids))"
proof -
  obtain x xs where xs: "map ki_scalar ids = x # xs" using assms(2) by (cases ids) auto
  with assms(1) have "x * prod_list xs \<noteq> 0" by (auto simp: prod_list_zero_iff)
  then show ?thesis
    unfolding lagrange_coefficients_def xs coefficient_at_def [abs_def]
    by (simp only: list.case id_product_eq bindO_simps case_prod_unfold prod_list.Cons simp_thms if_False)
qed

lemma lagrange_coefficients_iff:
  "lagrange_coefficients ids = Ok d \<longleftrightarrow>
     ids \<noteq> [] \<and> distinct (map ki_scalar ids) \<and> 0 \<notin> set (map ki_scalar ids)
     \<and> d = map (lam (set (map ki_scalar ids))) (map ki_scalar ids)"
proof (cases "ids = [] \<or> 0 \<in> set (map ki_scalar ids)")
  case True
  show ?thesis
  proof (cases "map ki_scalar ids")
    case (Cons x xs)
    with True have "x * prod_list xs = 0" by (auto simp: prod_list_zero_iff)
    moreover have "x = 0" if "xs = []" using that Cons True by auto
    ultimately have "lagrange_coefficients ids \<noteq> Ok d"
      unfolding lagrange_coefficients_def Cons by (cases "xs = []") (auto simp: id_product_eq)
    with True show ?thesis by blast
  qed (auto simp: lagrange_coefficients_def)
next
  case False
  define xs where "xs = map ki_scalar ids"
  have nz: "0 \<notin> set xs" "xs \<noteq> []" using False by (auto simp: xs_def)
  have loop: "lagrange_coefficients ids = collect_o (coefficient_at xs) (enumerate 0 xs)"
    using lagrange_coefficients_loop [of ids] False by (simp add: xs_def)
  show ?thesis
  proof (cases "distinct xs")
    case True
    have "coefficient_at xs p = Ok (lam (set xs) (snd p))" if p: "p \<in> set (enumerate 0 xs)" for p
    proof -
      obtain i where i: "p = (i, xs ! i)" "i < length xs" 
        using p that [of "fst p"] by (simp add: in_set_enumerate_eq prod_eq_iff)
      then show ?thesis
        using coefficient_at_eq [OF nz(1) i(2)] True other_positions [OF True i(2), of "\<lambda>y. y - xs ! i"]
          lam_from_product [OF True nz(1), of "xs ! i"]
        by (auto simp: nth_eq_iff_index_eq)
    qed
    then have "lagrange_coefficients ids = Ok (map (\<lambda>p. lam (set xs) (snd p)) (enumerate 0 xs))"
      unfolding loop by (rule collect_o_map)
    also have "map (\<lambda>p. lam (set xs) (snd p)) (enumerate 0 xs) = map (lam (set xs)) xs"
      by (rule nth_equalityI) (simp_all add: nth_enumerate_eq)
    finally show ?thesis using True False by (auto simp: xs_def)
  next
    case rep: False
    then obtain i k where ik: "i < length xs" "k < length xs" "k \<noteq> i" "xs ! k = xs ! i"
      unfolding distinct_positions by blast
    then have "coefficient_at xs (i, xs ! i) = Err RepeatedId"
      using coefficient_at_eq [OF nz(1) ik(1)] by auto
    moreover have "enumerate 0 xs ! i = (i, xs ! i)" using ik by (simp add: nth_enumerate_eq)
    ultimately have "lagrange_coefficients ids \<noteq> Ok d"
      using ik(1) unfolding loop collect_o_Ok_iff by (auto simp: list_all2_conv_all_nth dest!: spec [of _ i])
    with rep show ?thesis by (simp add: xs_def)
  qed
qed

section \<open>Polynomials through given points\<close>

context curve_group
begin

lemma peval_append: "peval smul (cs @ [c]) x = peval smul cs x + smul (x ^ length cs) c"
  by (induction cs) (auto simp: smul_simps smul_one)

lemma peval_add:
  "length ps = length qs \<Longrightarrow> peval smul (map2 (+) ps qs) x = peval smul ps x + peval smul qs x"
  by (induction ps qs rule: list_induct2) (auto simp: smul_simps)

lemma peval_scaled: "peval smul (map (smul a) cs) x = smul a (peval smul cs x)"
  by (induction cs) (auto simp: smul_simps mult.commute)

text \<open>The multiple of \<open>g\<close> that vanishes at the given points, its leading coefficient taken out.\<close>

lemma vanishing:
  "\<exists>w. length w = length xs \<and>
       (\<forall>y. smul (prod_list (map (\<lambda>x. y - x) xs)) g = peval smul w y + smul (y ^ length xs) g)"
proof (induction xs)
  case (Cons a xs)
  then obtain w where w: "length w = length xs"
    "\<And>y. smul (prod_list (map (\<lambda>x. y - x) xs)) g = peval smul w y + smul (y ^ length xs) g" by blast
  define w' where "w' = map2 (+) (0 # w) (map (smul (- a)) w @ [smul (- a) g])"
  have "smul (prod_list (map (\<lambda>x. y - x) (a # xs))) g = peval smul w' y + smul (y ^ length (a # xs)) g" for y
  proof -
    have "smul (prod_list (map (\<lambda>x. y - x) (a # xs))) g =
          smul (y - a) (smul (prod_list (map (\<lambda>x. y - x) xs)) g)" by (simp add: smul_smul)
    also have "\<dots> = smul (y - a) (peval smul w y) + smul ((y - a) * y ^ length xs) g"
      by (simp only: w(2) smul_add_right smul_smul)
    also have "\<dots> = peval smul w' y + smul (y ^ length (a # xs)) g"
      unfolding w'_def using w(1)
      by (subst peval_add) (auto simp: peval_append peval_scaled smul_simps algebra_simps)
    finally show ?thesis .
  qed
  moreover have "length w' = length (a # xs)" using w(1) by (simp add: w'_def)
  ultimately show ?case by blast
qed (auto intro: exI [of _ "[]"])

lemma interpolating_polynomial:
  "distinct xs \<Longrightarrow> \<exists>p. length p = length xs \<and> (\<forall>x \<in> set xs. peval smul p x = v x)"
proof (induction xs)
  case (Cons a xs)
  then obtain p where p: "length p = length xs" "\<And>x. x \<in> set xs \<Longrightarrow> peval smul p x = v x" by auto
  define n where "n = (\<lambda>y. prod_list (map (\<lambda>x. y - x) xs))"
  define g where "g = smul (inverse (n a)) (v a - peval smul p a)"
  have na: "n a \<noteq> 0" using Cons.prems by (auto simp: n_def prod_list_zero_iff)
  obtain w where w: "length w = length xs" "\<And>y. smul (n y) g = peval smul w y + smul (y ^ length xs) g"
    using vanishing [of xs g] unfolding n_def by blast
  have eval: "peval smul (map2 (+) (p @ [0]) (w @ [g])) y = peval smul p y + smul (n y) g" for y
    using p(1) w(1) by (subst peval_add) (auto simp: peval_append w(2) simp del: zip_append)
  have "n x = 0" if "x \<in> set xs" for x using that by (auto simp: n_def prod_list_zero_iff)
  moreover have "smul (n a) g = v a - peval smul p a" using na by (simp add: g_def smul_smul smul_one)
  ultimately have "\<forall>x \<in> set (a # xs). peval smul (map2 (+) (p @ [0]) (w @ [g])) x = v x"
    using p(2) by (auto simp: eval)
  moreover have "length (map2 (+) (p @ [0]) (w @ [g])) = length (a # xs)" using p(1) w(1) by simp
  ultimately show ?case by blast
qed simp

text \<open>
  With one point fewer than coefficients the interpolation misses the constant coefficient, unless
  the leading one is zero.
\<close>

lemma interp_short:
  assumes "distinct xs" "xs \<noteq> []" "0 \<notin> set xs" "length cs = length xs" "c \<noteq> 0"
  shows "(\<Sum>x\<in>set xs. smul (lam (set xs) x) (peval smul (cs @ [c]) x)) \<noteq> peval smul (cs @ [c]) 0"
proof -
  obtain w where w: "length w = length xs"
    "\<And>y. smul (prod_list (map (\<lambda>x. y - x) xs)) c = peval smul w y + smul (y ^ length xs) c"
    using vanishing [of xs c] by blast
  define r where "r = map2 (+) cs (map (smul (- 1)) w)"
  have r: "peval smul r x = peval smul cs x - peval smul w x" for x
    unfolding r_def using w(1) assms(4)
    by (subst peval_add) (simp_all add: peval_scaled smul_minus_left smul_one)
  have len: "length r \<le> card (set xs)" using w(1) assms by (simp add: r_def distinct_card)
  have on: "peval smul (cs @ [c]) x = peval smul r x" if "x \<in> set xs" for x
  proof -
    have "prod_list (map (\<lambda>y. x - y) xs) = 0" using that by (auto simp: prod_list_zero_iff)
    then have "peval smul w x + smul (x ^ length xs) c = 0" using w(2) [of x] by simp
    then show ?thesis
      using assms(4) unfolding r peval_append by (simp add: eq_neg_iff_add_eq_0 [symmetric])
  qed
  have "(\<Sum>x\<in>set xs. smul (lam (set xs) x) (peval smul (cs @ [c]) x)) = peval smul r 0"
    using interp_zero [OF _ _ len] assms(2) on by simp
  moreover have "peval smul (cs @ [c]) 0 - peval smul r 0 = smul (prod_list (map (\<lambda>x. 0 - x) xs)) c"
  proof -
    have "(0::'f) ^ length xs = 0" using assms(2) by simp
    then show ?thesis unfolding r peval_append w(2) assms(4) by simp
  qed
  moreover have "smul (prod_list (map (\<lambda>x. 0 - x) xs)) c \<noteq> 0"
    using assms by (auto simp: smul_eq_0_iff prod_list_zero_iff)
  ultimately show ?thesis by (metis diff_self)
qed

end

section \<open>What the operations guarantee\<close>

lemma mult_points_sum:
  assumes "distinct xs"
  shows "mult_points smul (map v xs) (map (lam (set xs)) xs) = (\<Sum>x\<in>set xs. smul (lam (set xs) x) (v x))"
  using assms by (simp add: mult_points_def sum_list_distinct_conv_sum_set map2_map_map)

definition ids_ok :: "'f::field key_id list \<Rightarrow> bool" where
  "ids_ok ids \<longleftrightarrow> ids \<noteq> [] \<and> distinct (map ki_scalar ids) \<and> 0 \<notin> set (map ki_scalar ids)"

lemma interpolate_values:
  assumes "ids_ok ids"
  shows "interpolate_public_key smul (map (\<lambda>i. v (ki_scalar i)) ids) ids =
     Ok (\<Sum>x\<in>set (map ki_scalar ids). smul (lam (set (map ki_scalar ids)) x) (v x))"
proof -
  have "lagrange_coefficients ids = Ok (map (lam (set (map ki_scalar ids))) (map ki_scalar ids))"
    unfolding lagrange_coefficients_iff using assms by (simp add: ids_ok_def)
  then show ?thesis
    using assms mult_points_sum [of "map ki_scalar ids" smul v]
    by (simp add: interpolate_public_key_def ids_ok_def comp_def)
qed

lemma interpolate_ids_ok: "interpolate_public_key smul pks ids = Ok g \<Longrightarrow> ids_ok ids"
  by (auto simp: interpolate_public_key_def ids_ok_def bindO_Ok_iff lagrange_coefficients_iff)

lemma combine_is_interpolate:
  assumes "2 \<le> length ids"
  shows "combine_signatures smul (map (\<lambda>i. Some (v i)) ids) ids = interpolate_public_key smul (map v ids) ids"
proof -
  have "collect_o (ok_or InvalidSignature) (map (\<lambda>i. Some (v i)) ids) = Ok (map v ids)"
    by (simp add: collect_o_Ok_iff list_all2_map1 list_all2_map2 list_all2_same)
  then show ?thesis using assms by (simp add: combine_signatures_def interpolate_public_key_def)
qed

lemma split_eval_horner: "split_eval x (peval (*) ys x) cs = Ok z \<Longrightarrow> z = peval (*) (rev cs @ ys) x"
proof (induction cs arbitrary: ys)
  case (Cons c cs)
  from Cons.prems have "split_eval x (peval (*) (c # ys) x) cs = Ok z"
    by (simp add: mult.commute add.commute split: if_splits)
  from Cons.IH [OF this] show ?case by simp
qed simp

lemma split_shares:
  assumes "split_with_rng key threshold ids random = Ok shares"
  shows "shares = map (\<lambda>i. (i, peval (*) (key # take (unat threshold - 1) random) (ki_scalar i))) ids"
    and "1 < threshold"
proof -
  define cs where "cs = key # take (unat threshold - 1) random"
  from assms show "1 < threshold" by (simp add: split_with_rng_def split: if_splits)
  have val: "y = peval (*) cs x" if "split_eval x (last cs) (rev (butlast cs)) = Ok y" for x y
    using split_eval_horner [of x "[last cs]" "rev (butlast cs)" y] that by (simp add: cs_def)
  have "list_all2 (\<lambda>i s. bindO (split_eval (ki_scalar i) (last cs) (rev (butlast cs))) (\<lambda>y. Ok (i, y)) = Ok s) ids shares"
    using assms unfolding split_with_rng_def Let_def collect_o_Ok_iff [symmetric] cs_def [symmetric]
    by (simp split: if_splits)
  then have "list_all2 (\<lambda>i s. s = (i, peval (*) cs (ki_scalar i))) ids shares"
    by (rule list_all2_mono) (auto simp: bindO_Ok_iff dest: val)
  then show "shares = map (\<lambda>i. (i, peval (*) (key # take (unat threshold - 1) random) (ki_scalar i))) ids"
    by (auto simp: list_all2_conv_all_nth cs_def intro: nth_equalityI)
qed

lemma ids_ok_card: "ids_ok ids \<Longrightarrow> card (set (map ki_scalar ids)) = length ids"
  by (metis distinct_card ids_ok_def length_map)

context curve_group
begin

lemma peval_point: "smul (peval (*) cs x) h = peval smul (map (\<lambda>c. smul c h) cs) x"
  by (induction cs) (auto simp: smul_add_left smul_smul [symmetric])

lemma interpolate_polynomial:
  assumes "ids_ok ids" "length p \<le> length ids"
  shows "interpolate_public_key smul (map (\<lambda>i. peval smul p (ki_scalar i)) ids) ids = Ok (peval smul p 0)"
proof -
  have "set (map ki_scalar ids) \<noteq> {}" using assms(1) by (auto simp: ids_ok_def)
  then show ?thesis
    using interpolate_values [OF assms(1), of smul "peval smul p"] interp_zero [of "set (map ki_scalar ids)" p]
      ids_ok_card [OF assms(1)] assms(2)
    by simp
qed

text \<open>Enough shares of a split key sign for the key.\<close>

lemma split_combine:
  assumes "split_with_rng key threshold ids random = Ok shares"
    and "set chosen \<subseteq> set shares" "ids_ok (map fst chosen)" "unat threshold \<le> length chosen"
  shows "combine_signatures smul (map (\<lambda>s. Some (smul (snd s) h)) chosen) (map fst chosen) = Ok (smul key h)"
proof -
  note split = split_shares [OF assms(1)]
  define p where "p = map (\<lambda>c. smul c h) (key # take (unat threshold - 1) random)"
  have "smul (snd s) h = peval smul p (ki_scalar (fst s))" if "s \<in> set chosen" for s
    using assms(2) that split(1) by (auto simp: p_def peval_point simp del: peval.simps)
  then have sigs: "map (\<lambda>s. Some (smul (snd s) h)) chosen =
      map (\<lambda>i. Some (peval smul p (ki_scalar i))) (map fst chosen)" by simp
  have two: "2 \<le> unat threshold" using split(2) by (simp add: word_less_nat_alt)
  have "length p \<le> length (map fst chosen)" using assms(4) two by (simp add: p_def)
  from interpolate_polynomial [OF assms(3) this] show ?thesis
    unfolding sigs using assms(4) two by (subst combine_is_interpolate) (auto simp: p_def)
qed

end

section \<open>What an accepted set of shares guarantees\<close>

definition share_point :: "(bytes \<Rightarrow> 'g option) \<Rightarrow> 'i \<times> bytes \<Rightarrow> 'g" where
  "share_point key_validate s = the (key_validate (snd s))"

definition share_scalar :: "'f key_id \<times> bytes \<Rightarrow> 'f" where
  "share_scalar s = ki_scalar (fst s)"

lemma share_keys_valid:
  assumes "collect_o (\<lambda>(i, pk). ok_or (e i) (key_validate pk)) shares = Ok pubkeys"
  shows "pubkeys = map (share_point key_validate) shares"
    and "\<forall>s \<in> set shares. key_validate (snd s) = Some (share_point key_validate s)"
proof -
  have "list_all2 (\<lambda>s p. key_validate (snd s) = Some p) shares pubkeys"
    using assms unfolding collect_o_Ok_iff by (rule list_all2_mono) auto
  then have len: "length shares = length pubkeys"
    and at: "\<And>i. i < length pubkeys \<Longrightarrow> key_validate (snd (shares ! i)) = Some (pubkeys ! i)"
    by (auto simp: list_all2_conv_all_nth)
  show "pubkeys = map (share_point key_validate) shares"
    using len at by (auto simp: share_point_def intro!: nth_equalityI)
  show "\<forall>s \<in> set shares. key_validate (snd s) = Some (share_point key_validate s)"
    using len at by (metis in_set_conv_nth option.sel share_point_def)
qed

lemma lagrange_validate_D:
  assumes "lagrange_validate_share_public_keys smul key_validate vpk shares threshold = Ok u"
  defines "pt \<equiv> share_point key_validate" and "base \<equiv> take (threshold - 1) shares"
  obtains E b where "2 \<le> threshold" "threshold \<le> length shares" "key_validate vpk = Some E"
    "\<forall>s \<in> set shares. key_validate (snd s) = Some (pt s)"
    "interpolate_public_key smul (map pt base) (map fst base) = Ok b" "b \<noteq> E"
    "\<forall>s \<in> set (drop (threshold - 1) shares).
       interpolate_public_key smul (map pt (base @ [s])) (map fst (base @ [s])) = Ok E"
proof -
  from assms(1) obtain E pubkeys b where
    th: "2 \<le> threshold" "threshold \<le> length shares" and E: "key_validate vpk = Some E"
    and keys: "collect_o (\<lambda>(i, pk). ok_or (InvalidSharePublicKey (ki_num i)) (key_validate pk)) shares = Ok pubkeys"
    and b: "interpolate_public_key smul (take (threshold - 1) pubkeys) (take (threshold - 1) (map fst shares)) = Ok b"
      "b \<noteq> E"
    and rest: "\<forall>(i, pk) \<in> set (zip (drop (threshold - 1) (map fst shares)) (drop (threshold - 1) pubkeys)).
      interpolate_public_key smul (take (threshold - 1) pubkeys @ [pk]) (take (threshold - 1) (map fst shares) @ [i]) = Ok E"
    unfolding lagrange_validate_share_public_keys_def Let_def
    by (auto simp: bindO_Ok_iff for_each_o_Ok_iff case_prod_unfold split: if_splits)
  note pk = share_keys_valid [OF keys, folded pt_def]
  have "zip (drop (threshold - 1) (map fst shares)) (drop (threshold - 1) pubkeys) =
      map (\<lambda>s. (fst s, pt s)) (drop (threshold - 1) shares)"
    by (simp add: pk(1) drop_map zip_map_map zip_same_conv_map comp_def)
  with rest have "\<forall>s \<in> set (drop (threshold - 1) shares).
       interpolate_public_key smul (map pt (base @ [s])) (map fst (base @ [s])) = Ok E"
    by (simp add: pk(1) take_map base_def)
  with th E pk(2) b show ?thesis
    by (intro that [of E b]) (simp_all add: pk(1) take_map base_def)
qed

context curve_group
begin

text \<open>A share whose interpolation with the base hits the polynomial's value at zero lies on it.\<close>

lemma on_polynomial:
  assumes ok: "ids_ok (map fst (base @ [s]))" and len: "length p \<le> Suc (length base)"
    and base: "\<And>t. t \<in> set base \<Longrightarrow> pt t = peval smul p (share_scalar t)"
    and hit: "interpolate_public_key smul (map pt (base @ [s])) (map fst (base @ [s])) = Ok (peval smul p 0)"
  shows "pt s = peval smul p (share_scalar s)"
proof -
  define x where "x = share_scalar s"
  define S where "S = set (map ki_scalar (map fst (base @ [s])))"
  define v where "v = (\<lambda>y. if y = x then pt s else peval smul p y)"
  have x: "x \<in> S" "finite S" by (auto simp: S_def x_def share_scalar_def)
  have other: "share_scalar t \<noteq> x" if "t \<in> set base" for t
    using ok that by (auto simp: ids_ok_def x_def share_scalar_def image_iff)
  have vals: "map pt (base @ [s]) = map (\<lambda>i. v (ki_scalar i)) (map fst (base @ [s]))"
    using base other by (auto simp: v_def x_def share_scalar_def)
  from hit have sum_v: "(\<Sum>y\<in>S. smul (lam S y) (v y)) = peval smul p 0"
    unfolding vals interpolate_values [OF ok] S_def [symmetric] by simp
  have "length p \<le> length (map fst (base @ [s]))" using len by simp
  from interpolate_polynomial [OF ok this] have sum_p: "(\<Sum>y\<in>S. smul (lam S y) (peval smul p y)) = peval smul p 0"
    unfolding interpolate_values [OF ok] S_def [symmetric] by simp
  have "(\<Sum>y\<in>S - {x}. smul (lam S y) (v y)) = (\<Sum>y\<in>S - {x}. smul (lam S y) (peval smul p y))"
    by (rule sum.cong) (auto simp: v_def)
  with sum_v sum_p have "smul (lam S x) (pt s) = smul (lam S x) (peval smul p x)"
    by (simp add: sum.remove [OF x(2,1)] v_def) (metis add_right_cancel)
  moreover have "lam S x \<noteq> 0" using ok x(2) by (intro lam_nonzero) (auto simp: S_def ids_ok_def)
  ultimately have "smul (lam S x) (pt s - peval smul p x) = 0" "lam S x \<noteq> 0"
    by (simp_all add: smul_diff_right)
  then show ?thesis by (simp add: smul_eq_0_iff x_def)
qed

lemma accepted_polynomial:
  assumes "lagrange_validate_share_public_keys smul key_validate vpk shares threshold = Ok u"
  obtains cs c where "length cs = threshold - 1" "c \<noteq> 0" "2 \<le> threshold"
    "key_validate vpk = Some (peval smul (cs @ [c]) 0)"
    "\<forall>s \<in> set shares. key_validate (snd s) = Some (peval smul (cs @ [c]) (share_scalar s))"
proof -
  define pt :: "'f key_id \<times> bytes \<Rightarrow> 'g" where "pt = share_point key_validate"
  define base where "base = take (threshold - 1) shares"
  obtain E b where E: "2 \<le> threshold" "threshold \<le> length shares" "key_validate vpk = Some E"
    "\<forall>s \<in> set shares. key_validate (snd s) = Some (pt s)"
    and b: "interpolate_public_key smul (map pt base) (map fst base) = Ok b" "b \<noteq> E"
    and rest: "\<forall>s \<in> set (drop (threshold - 1) shares).
       interpolate_public_key smul (map pt (base @ [s])) (map fst (base @ [s])) = Ok E"
    using lagrange_validate_D [OF assms] unfolding pt_def base_def by blast
  have ok: "ids_ok (map fst base)" using b(1) by (rule interpolate_ids_ok)
  have len: "length base = threshold - 1" using E(2) by (simp add: base_def)
  define v where "v = (\<lambda>y. if y = 0 then E else the (map_of (map (\<lambda>s. (share_scalar s, pt s)) base) y))"
  have dist: "distinct (0 # map share_scalar base)"
    using ok by (auto simp: ids_ok_def share_scalar_def [abs_def] comp_def)
  obtain p where p: "length p = Suc (length base)" "\<forall>y \<in> set (0 # map share_scalar base). peval smul p y = v y"
    using interpolating_polynomial [OF dist, of v] by auto
  have vE: "peval smul p 0 = E" using p(2) by (simp add: v_def)
  have vb: "pt s = peval smul p (share_scalar s)" if s: "s \<in> set base" for s
  proof -
    have "map_of (map (\<lambda>s. (share_scalar s, pt s)) base) (share_scalar s) = Some (pt s)"
      using dist s by (intro map_of_is_SomeI) (auto simp: comp_def)
    moreover have "share_scalar s \<noteq> 0" using dist s by auto
    ultimately show ?thesis using p(2) s by (auto simp: v_def)
  qed
  have all: "pt s = peval smul p (share_scalar s)" if s: "s \<in> set shares" for s
  proof (cases "s \<in> set base")
    case False
    then have "s \<in> set (drop (threshold - 1) shares)"
      using s unfolding base_def by (metis Un_iff append_take_drop_id set_append)
    then have hit: "interpolate_public_key smul (map pt (base @ [s])) (map fst (base @ [s])) = Ok (peval smul p 0)"
      using rest vE by blast
    show ?thesis using on_polynomial [OF interpolate_ids_ok [OF hit] _ vb hit] p(1) by simp
  qed (rule vb)
  obtain cs c where cs: "p = cs @ [c]" using p(1) by (cases p rule: rev_cases) auto
  have "c \<noteq> 0"
  proof
    assume "c = 0"
    then have ev: "peval smul p x = peval smul cs x" for x by (simp add: cs peval_append)
    have vals: "map pt base = map (\<lambda>i. peval smul cs (ki_scalar i)) (map fst base)"
      using vb by (simp add: ev share_scalar_def)
    have "length cs \<le> length (map fst base)" using p(1) cs by simp
    then have "interpolate_public_key smul (map pt base) (map fst base) = Ok (peval smul cs 0)"
      unfolding vals by (rule interpolate_polynomial [OF ok])
    with b vE ev show False by simp
  qed
  with E all vE len p(1) cs show ?thesis by (intro that [of cs c]) auto
qed

end

section \<open>Accepted shares of a validator\<close>

definition key_id_of :: "u64 \<Rightarrow> 'f::field key_id" where
  "key_id_of i = \<lparr>ki_num = i, ki_scalar = scalar_of i\<rparr>"

lemma key_id_of_simps [simp]: "ki_num (key_id_of i) = i" "ki_scalar (key_id_of i) = scalar_of i"
  by (simp_all add: key_id_of_def)

lemma scalar_of_0 [simp]: "scalar_of 0 = 0"
  by (simp add: scalar_of_def)

lemma keyed_shares:
  assumes "collect_o (\<lambda>(i, pk). map_err (\<lambda>_. InvalidOperatorId i) (map_sum id (\<lambda>k. (k, pk)) (key_id_try_from i)))
             shares = Ok keyed"
  shows "keyed = map (\<lambda>s. (key_id_of (fst s), snd s)) shares" "\<forall>s \<in> set shares. fst s \<noteq> 0"
proof -
  have "list_all2 (\<lambda>s k. fst s \<noteq> 0 \<and> k = (key_id_of (fst s), snd s)) shares keyed"
    using assms unfolding collect_o_Ok_iff
    by (rule list_all2_mono) (auto simp: key_id_try_from_def key_id_of_def split: if_splits)
  then have len: "length shares = length keyed"
    and at: "\<And>i. i < length keyed \<Longrightarrow> fst (shares ! i) \<noteq> 0 \<and> keyed ! i = (key_id_of (fst (shares ! i)), snd (shares ! i))"
    by (auto simp: list_all2_conv_all_nth)
  show "keyed = map (\<lambda>s. (key_id_of (fst s), snd s)) shares"
    using len at by (intro nth_equalityI) auto
  show "\<forall>s \<in> set shares. fst s \<noteq> 0" using len at by (metis in_set_conv_nth)
qed

lemma validated_shares_polynomial:
  fixes smul :: "'f::field \<Rightarrow> 'g::ab_group_add \<Rightarrow> 'g"
  assumes "curve_group smul" "validate_share_public_keys smul key_validate vpk shares = Ok u"
  obtains cs c where "length cs = quorum_size (length shares) - 1" "c \<noteq> 0" "2 \<le> quorum_size (length shares)"
    "key_validate vpk = Some (peval smul (cs @ [c]) 0)"
    "\<forall>s \<in> set shares. fst s \<noteq> 0 \<and> key_validate (snd s) = Some (peval smul (cs @ [c]) (scalar_of (fst s)))"
proof -
  from assms(2) obtain keyed :: "('f key_id \<times> bytes) list" where keyed:
    "collect_o (\<lambda>(i, pk). map_err (\<lambda>_. InvalidOperatorId i) (map_sum id (\<lambda>k. (k, pk)) (key_id_try_from i)))
       shares = Ok keyed"
    and valid: "lagrange_validate_share_public_keys smul key_validate vpk
      (sort_key (\<lambda>(k, _). ki_num k) keyed) (quorum_size (length shares)) = Ok u"
    by (auto simp: validate_share_public_keys_def bindO_Ok_iff split: if_splits outcome.splits)
  note k = keyed_shares [OF keyed]
  obtain cs c where p: "length cs = quorum_size (length shares) - 1" "c \<noteq> 0" "2 \<le> quorum_size (length shares)"
    "key_validate vpk = Some (peval smul (cs @ [c]) 0)"
    "\<forall>s \<in> set keyed. key_validate (snd s) = Some (peval smul (cs @ [c]) (share_scalar s))"
    using curve_group.accepted_polynomial [OF assms(1) valid] by auto
  show ?thesis
    using p k(2) by (intro that [of cs c]) (auto simp: k(1) share_scalar_def)
qed

lemma chosen_ids_ok:
  assumes "inj (scalar_of :: u64 \<Rightarrow> 'f::field)" "distinct (map fst chosen)" "chosen \<noteq> []" "\<forall>s \<in> set chosen. fst s \<noteq> 0"
  shows "ids_ok (map (\<lambda>s. key_id_of (fst s) :: 'f key_id) chosen)"
proof -
  have "distinct (map scalar_of (map fst chosen) :: 'f list)"
    using assms(1,2) by (subst distinct_map) (auto intro: inj_on_subset)
  moreover have "(scalar_of i :: 'f) \<noteq> 0" if "i \<noteq> 0" for i
    using injD [OF assms(1), of i 0] that by auto
  ultimately show ?thesis using assms(3,4) by (force simp: ids_ok_def comp_def)
qed

lemma quorum_signs:
  fixes smul1 :: "'f::field \<Rightarrow> 'p::ab_group_add \<Rightarrow> 'p" and smul2 :: "'f \<Rightarrow> 's::ab_group_add \<Rightarrow> 's"
  assumes groups: "curve_group smul1" "curve_group smul2"
    and inj: "inj (scalar_of :: u64 \<Rightarrow> 'f)"
    and valid: "validate_share_public_keys smul1 key_validate vpk shares = Ok u"
    and chosen: "set chosen \<subseteq> set shares" "distinct (map fst chosen)" "quorum_size (length shares) \<le> length chosen"
    and key: "key_validate vpk = Some (smul1 key G)" "G \<noteq> 0"
    and secrets: "\<forall>s \<in> set chosen. key_validate (snd s) = Some (smul1 (secret (fst s)) G)"
  shows "combine_signatures smul2 (map (\<lambda>s. Some (smul2 (secret (fst s)) h)) chosen)
           (map (\<lambda>s. key_id_of (fst s)) chosen) = Ok (smul2 key h)"
proof -
  obtain cs c where p: "length cs = quorum_size (length shares) - 1" "2 \<le> quorum_size (length shares)"
    "key_validate vpk = Some (peval smul1 (cs @ [c]) 0)"
    "\<forall>s \<in> set shares. fst s \<noteq> 0 \<and> key_validate (snd s) = Some (peval smul1 (cs @ [c]) (scalar_of (fst s)))"
    using validated_shares_polynomial [OF groups(1) valid] by metis
  define ids :: "'f key_id list" where "ids = map (\<lambda>s. key_id_of (fst s)) chosen"
  define S where "S = set (map ki_scalar ids)"
  define sv where "sv = (\<lambda>x :: 'f. secret (inv scalar_of x))"
  have sv [simp]: "sv (scalar_of i) = secret i" for i by (simp add: sv_def inj)
  have "chosen \<noteq> []" "\<forall>s \<in> set chosen. fst s \<noteq> 0" using chosen p by auto
  then have ok: "ids_ok ids" unfolding ids_def by (rule chosen_ids_ok [OF inj chosen(2)])
  have on: "peval smul1 (cs @ [c]) x = smul1 (sv x) G" if "x \<in> S" for x
    using that chosen(1) p(4) secrets by (fastforce simp: S_def ids_def)
  have "length (cs @ [c]) \<le> length ids" using p(1,2) chosen(3) by (simp add: ids_def)
  from curve_group.interpolate_polynomial [OF groups(1) ok this]
  have "(\<Sum>x\<in>S. smul1 (lam S x) (peval smul1 (cs @ [c]) x)) = peval smul1 (cs @ [c]) 0"
    unfolding interpolate_values [OF ok] S_def [symmetric] by simp
  then have "smul1 (\<Sum>x\<in>S. lam S x * sv x) G = smul1 key G"
    using p(3) key(1) on
    by (simp add: curve_group.smul_sum_left [OF groups(1)] curve_group.smul_smul [OF groups(1), symmetric])
  then have "smul1 ((\<Sum>x\<in>S. lam S x * sv x) - key) G = 0"
    by (simp add: curve_group.smul_diff_left [OF groups(1)])
  then have sum: "(\<Sum>x\<in>S. lam S x * sv x) = key"
    using key(2) by (simp add: curve_group.smul_eq_0_iff [OF groups(1)])
  have sigs: "map (\<lambda>s. Some (smul2 (secret (fst s)) h)) chosen = map (\<lambda>i. Some (smul2 (sv (ki_scalar i)) h)) ids"
    by (simp add: ids_def)
  have two: "2 \<le> length ids" using p(2) chosen(3) by (simp add: ids_def)
  have "combine_signatures smul2 (map (\<lambda>i. Some (smul2 (sv (ki_scalar i)) h)) ids) ids =
      Ok (\<Sum>x\<in>S. smul2 (lam S x) (smul2 (sv x) h))"
    unfolding combine_is_interpolate [OF two] S_def
    by (rule interpolate_values [OF ok])
  also have "(\<Sum>x\<in>S. smul2 (lam S x) (smul2 (sv x) h)) = smul2 key h"
    by (simp add: curve_group.smul_smul [OF groups(2)] curve_group.smul_sum_left [OF groups(2), symmetric] sum)
  finally show ?thesis unfolding sigs by (simp add: ids_def)
qed

lemma one_below_quorum:
  fixes smul :: "'f::field \<Rightarrow> 'g::ab_group_add \<Rightarrow> 'g"
  assumes "curve_group smul" and inj: "inj (scalar_of :: u64 \<Rightarrow> 'f)"
    and valid: "validate_share_public_keys smul key_validate vpk shares = Ok u"
    and chosen: "set chosen \<subseteq> set shares" "distinct (map fst chosen)" "Suc (length chosen) = quorum_size (length shares)"
  shows "\<exists>g. interpolate_public_key smul (map (share_point key_validate) chosen)
               (map (\<lambda>s. key_id_of (fst s)) chosen) = Ok g \<and> key_validate vpk \<noteq> Some g"
proof -
  obtain cs c where p: "length cs = quorum_size (length shares) - 1" "c \<noteq> 0" "2 \<le> quorum_size (length shares)"
    "key_validate vpk = Some (peval smul (cs @ [c]) 0)"
    "\<forall>s \<in> set shares. fst s \<noteq> 0 \<and> key_validate (snd s) = Some (peval smul (cs @ [c]) (scalar_of (fst s)))"
    using validated_shares_polynomial [OF assms(1) valid] by metis
  define ids :: "'f key_id list" where "ids = map (\<lambda>s. key_id_of (fst s)) chosen"
  have "chosen \<noteq> []" "\<forall>s \<in> set chosen. fst s \<noteq> 0" using chosen p by auto
  then have ok: "ids_ok ids" unfolding ids_def by (rule chosen_ids_ok [OF inj chosen(2)])
  have vals: "map (share_point key_validate) chosen = map (\<lambda>i. peval smul (cs @ [c]) (ki_scalar i)) ids"
    using chosen(1) p(5) by (fastforce simp: ids_def share_point_def)
  have "length cs = length (map ki_scalar ids)" using p(1) chosen(3) by (simp add: ids_def)
  from curve_group.interp_short [OF assms(1) _ _ _ this p(2)] ok
  show ?thesis
    unfolding vals ids_def [symmetric] interpolate_values [OF ok] p(4) by (auto simp: ids_ok_def)
qed

section \<open>No panic\<close>

lemma collect_o_Panic: "collect_o f xs = Panic \<Longrightarrow> \<exists>x \<in> set xs. f x = Panic"
  by (induction xs) (auto simp: bindO_Panic_iff)

lemma lagrange_coefficients_no_panic: "2 \<le> length ids \<Longrightarrow> lagrange_coefficients ids \<noteq> Panic"
proof (cases "0 \<in> set (map ki_scalar ids)")
  case True
  assume len: "2 \<le> length ids"
  then obtain x y ys where "map ki_scalar ids = x # y # ys" by (cases "map ki_scalar ids" rule: remdups_adj.cases) auto
  moreover from this True have "x * prod_list (y # ys) = 0" by (auto simp: prod_list_zero_iff)
  ultimately show ?thesis by (simp add: lagrange_coefficients_def id_product_eq)
next
  case False
  assume len: "2 \<le> length ids"
  define xs where "xs = map ki_scalar ids"
  have "coefficient_at xs p \<noteq> Panic" if "p \<in> set (enumerate 0 xs)" for p
    using that coefficient_at_eq [of xs "fst p"] False by (auto simp: in_set_enumerate_eq xs_def)
  then have "collect_o (coefficient_at xs) (enumerate 0 xs) \<noteq> Panic" using collect_o_Panic by blast
  moreover have "ids \<noteq> []" using len by auto
  ultimately show ?thesis using lagrange_coefficients_loop [OF False] by (simp add: xs_def)
qed

lemma interpolate_no_panic: "2 \<le> length ids \<Longrightarrow> interpolate_public_key smul pks ids \<noteq> Panic"
  by (auto simp: interpolate_public_key_def bindO_Panic_iff lagrange_coefficients_no_panic)

lemma lagrange_validate_no_panic:
  assumes "3 \<le> threshold"
  shows "lagrange_validate_share_public_keys smul kv pk shares threshold \<noteq> Panic"
proof -
  have len: "2 \<le> length (take (threshold - 1) xs @ ys)" if "threshold \<le> length xs" for xs ys :: "'a key_id list"
    using that assms by simp
  have "interpolate_public_key smul pks (take (threshold - 1) (map fst shares) @ ys) \<noteq> Panic"
    if "threshold \<le> length shares" for pks ys
    by (rule interpolate_no_panic) (use that len [of "map fst shares"] in simp)
  note this [of _ "[]"] this
  then show ?thesis
    by (auto simp: lagrange_validate_share_public_keys_def Let_def bindO_Panic_iff case_prod_unfold not_less
        split: if_splits dest!: collect_o_Panic for_each_o_Panic)
qed

lemma validate_share_public_keys_no_panic [no_panic]: "validate_share_public_keys smul kv pk shares \<noteq> Panic"
proof -
  have "3 \<le> quorum_size (length shares)" if "is_valid_committee_size (length shares)"
    using that by (auto simp: is_valid_committee_size_def quorum_size_def Let_def)
  then have "lagrange_validate_share_public_keys smul kv pk keyed (quorum_size (length shares)) \<noteq> Panic"
    if "is_valid_committee_size (length shares)" for keyed
    using that by (simp add: lagrange_validate_no_panic)
  then show ?thesis
    by (auto simp: validate_share_public_keys_def bindO_Panic_iff dest!: collect_o_Panic)
qed

end
