(* ===== verification/Network_Db.thy ===== *)
theory Network_Db
  imports Network_State Bls_Lagrange "HOL-Library.AList"
begin

text \<open>
  The SQL side of the \<open>database\<close> crate: the tables (\<open>migrations/*.sql\<close>), the statements
  (\<open>sql_operations.rs\<close>) with the constraints, cascades and triggers of the schema, the operations
  on a transaction (\<open>cluster_operations.rs\<close>, \<open>validator_operations.rs\<close>, \<open>operator_operations.rs\<close>,
  \<open>share_operations.rs\<close>, \<open>lib.rs\<close>), each of which writes rows and queues the matching update of the
  in-memory state, and the loading of that state at start-up (\<open>state.rs\<close>).

  A table is the list of its rows in insertion order, keyed by the primary key. A statement that
  violates a constraint fails and changes nothing. Parsing what was stored before (keys,
  addresses) and the connection itself are taken not to fail.
\<close>

section \<open>Tables\<close>

record 'k operator_row =
  or_public_key :: 'k
  or_owner :: address
  or_removed :: bool

record owner_row =
  ow_fee_recipient :: "address option"
  ow_nonce :: "nat option"

record cluster_row =
  cr_owner :: address
  cr_liquidated :: bool

record validator_row =
  vr_cluster_id :: cluster_id
  vr_index :: "validator_index option"
  vr_graffiti :: bytes

record share_row =
  sr_cluster_id :: cluster_id
  sr_share_pubkey :: pubkey
  sr_encrypted_key :: bytes

record 'k sql_db =
  db_block_number :: u64
  db_max_operator_id_seen :: "u64 option"
  db_operators :: "(operator_id \<times> 'k operator_row) list"
  db_skipped_operator_adds :: "(operator_id \<times> string) list"
  db_owners :: "(address \<times> owner_row) list"
  db_clusters :: "(cluster_id \<times> cluster_row) list"
  db_cluster_members :: "(cluster_id \<times> operator_id) list"
  db_validators :: "(pubkey \<times> validator_row) list"
  db_shares :: "((pubkey \<times> operator_id) \<times> share_row) list"

definition initial_db :: "'k sql_db" where
  "initial_db = \<lparr>db_block_number = 0, db_max_operator_id_seen = Some 0, db_operators = [],
     db_skipped_operator_adds = [], db_owners = [], db_clusters = [], db_cluster_members = [],
     db_validators = [], db_shares = []\<rparr>"

datatype database_error =
    NotFound string | AlreadyPresent string | DbIOError | OpenSSLError string | MigrationError string
  | SQLError string | SQLPoolError string

type_synonym 'k statement = "'k sql_db \<Rightarrow> ('k sql_db, database_error) outcome"

text \<open>An unsigned integer is stored as a signed one of the same width: the upper half does not fit.\<close>

definition sql_u64 :: "u64 \<Rightarrow> (unit, database_error) outcome" where
  "sql_u64 n = guardO (unat n < 2 ^ 63) (SQLError ''integer'')"

section \<open>Statements (sql\_operations.rs)\<close>

definition INSERT_OPERATOR :: "operator_id \<Rightarrow> 'k \<Rightarrow> address \<Rightarrow> 'k statement" where
  "INSERT_OPERATOR i public_key owner db =
     (if i \<in> fst ` set (db_operators db) \<or> public_key \<in> or_public_key ` snd ` set (db_operators db)
      then Err (SQLError ''constraint'')
      else Ok (db\<lparr>db_operators := db_operators db
                    @ [(i, \<lparr>or_public_key = public_key, or_owner = owner, or_removed = False\<rparr>)]\<rparr>))"

definition INSERT_SKIPPED_OPERATOR_ADD :: "operator_id \<Rightarrow> string \<Rightarrow> 'k statement" where
  "INSERT_SKIPPED_OPERATOR_ADD i reason db =
     Ok (db\<lparr>db_skipped_operator_adds := AList.update i reason (db_skipped_operator_adds db)\<rparr>)"

definition DELETE_SKIPPED_OPERATOR_ADD :: "operator_id \<Rightarrow> 'k statement" where
  "DELETE_SKIPPED_OPERATOR_ADD i db =
     Ok (db\<lparr>db_skipped_operator_adds := filter (\<lambda>(j, _). j \<noteq> i) (db_skipped_operator_adds db)\<rparr>)"

definition MARK_OPERATOR_REMOVED :: "operator_id \<Rightarrow> 'k statement" where
  "MARK_OPERATOR_REMOVED i db =
     Ok (db\<lparr>db_operators := AList.map_entry i (\<lambda>r. r\<lparr>or_removed := True\<rparr>) (db_operators db)\<rparr>)"

text \<open>An operator that is still a member of a cluster is protected by \<open>ON DELETE RESTRICT\<close>.\<close>

definition DELETE_OPERATOR :: "operator_id \<Rightarrow> 'k statement" where
  "DELETE_OPERATOR i db =
     (if i \<in> snd ` set (db_cluster_members db) then Err (SQLError ''constraint'')
      else Ok (db\<lparr>db_operators := filter (\<lambda>(j, _). j \<noteq> i) (db_operators db)\<rparr>))"

definition GET_OPERATOR_STATUS :: "operator_id \<Rightarrow> 'k sql_db \<Rightarrow> bool option" where
  "GET_OPERATOR_STATUS i db = map_option or_removed (map_of (db_operators db) i)"

definition GET_OPERATOR_ID :: "'k \<Rightarrow> 'k sql_db \<Rightarrow> operator_id option" where
  "GET_OPERATOR_ID public_key db =
     map_option fst (find (\<lambda>(_, r). or_public_key r = public_key \<and> \<not> or_removed r) (db_operators db))"

definition GET_ANY_OPERATOR_ID :: "'k \<Rightarrow> 'k sql_db \<Rightarrow> operator_id option" where
  "GET_ANY_OPERATOR_ID public_key db =
     map_option fst (find (\<lambda>(_, r). or_public_key r = public_key) (db_operators db))"

definition INSERT_CLUSTER :: "cluster_id \<Rightarrow> address \<Rightarrow> 'k statement" where
  "INSERT_CLUSTER cid owner db =
     (if cid \<in> fst ` set (db_clusters db) then Ok db
      else Ok (db\<lparr>db_clusters := db_clusters db @ [(cid, \<lparr>cr_owner = owner, cr_liquidated = False\<rparr>)]\<rparr>))"

text \<open>\<open>OR IGNORE\<close> skips a row that is already there, not one without its cluster or operator.\<close>

definition INSERT_CLUSTER_MEMBER :: "cluster_id \<Rightarrow> operator_id \<Rightarrow> 'k statement" where
  "INSERT_CLUSTER_MEMBER cid i db =
     (if (cid, i) \<in> set (db_cluster_members db) then Ok db
      else if cid \<notin> fst ` set (db_clusters db) \<or> i \<notin> fst ` set (db_operators db)
      then Err (SQLError ''constraint'')
      else Ok (db\<lparr>db_cluster_members := db_cluster_members db @ [(cid, i)]\<rparr>))"

definition UPDATE_CLUSTER_STATUS :: "bool \<Rightarrow> cluster_id \<Rightarrow> 'k statement" where
  "UPDATE_CLUSTER_STATUS liquidated cid db =
     Ok (db\<lparr>db_clusters := AList.map_entry cid (\<lambda>r. r\<lparr>cr_liquidated := liquidated\<rparr>) (db_clusters db)\<rparr>)"

definition GET_CLUSTER_MEMBERS :: "cluster_id \<Rightarrow> 'k sql_db \<Rightarrow> operator_id list" where
  "GET_CLUSTER_MEMBERS cid db = map snd (filter (\<lambda>(c, _). c = cid) (db_cluster_members db))"

definition INSERT_VALIDATOR :: "pubkey \<Rightarrow> cluster_id \<Rightarrow> validator_index option \<Rightarrow> bytes \<Rightarrow> 'k statement" where
  "INSERT_VALIDATOR pk cid index graffiti db =
     (if pk \<in> fst ` set (db_validators db) \<or> cid \<notin> fst ` set (db_clusters db)
      then Err (SQLError ''constraint'')
      else Ok (db\<lparr>db_validators := db_validators db
                    @ [(pk, \<lparr>vr_cluster_id = cid, vr_index = index, vr_graffiti = graffiti\<rparr>)]\<rparr>))"

text \<open>
  Deleting a cluster cascades to its members; a deleted member takes its shares with it, and the
  trigger on members drops an operator marked as removed once its last membership is gone.
\<close>

definition delete_cluster_rows :: "cluster_id \<Rightarrow> 'k sql_db \<Rightarrow> 'k sql_db" where
  "delete_cluster_rows cid db =
     (let gone = set (GET_CLUSTER_MEMBERS cid db);
          members = filter (\<lambda>(c, _). c \<noteq> cid) (db_cluster_members db)
      in db\<lparr>db_clusters := filter (\<lambda>(c, _). c \<noteq> cid) (db_clusters db),
            db_cluster_members := members,
            db_shares := filter (\<lambda>((_, i), r). \<not> (sr_cluster_id r = cid \<and> i \<in> gone)) (db_shares db),
            db_operators :=
              filter (\<lambda>(i, r). \<not> (i \<in> gone \<and> i \<notin> snd ` set members \<and> or_removed r)) (db_operators db)\<rparr>)"

text \<open>
  Deleting a validator cascades to its shares; the trigger on validators deletes its cluster when
  no validator of the cluster is left.
\<close>

definition DELETE_VALIDATOR :: "pubkey \<Rightarrow> 'k statement" where
  "DELETE_VALIDATOR pk db =
     (case map_of (db_validators db) pk of
        None \<Rightarrow> Ok db
      | Some row \<Rightarrow>
          let db' = db\<lparr>db_validators := filter (\<lambda>(v, _). v \<noteq> pk) (db_validators db),
                       db_shares := filter (\<lambda>((v, _), _). v \<noteq> pk) (db_shares db)\<rparr>
          in if \<exists>(_, r) \<in> set (db_validators db'). vr_cluster_id r = vr_cluster_id row then Ok db'
             else Ok (delete_cluster_rows (vr_cluster_id row) db'))"

definition INSERT_SHARE :: "pubkey \<Rightarrow> cluster_id \<Rightarrow> operator_id \<Rightarrow> pubkey \<Rightarrow> bytes \<Rightarrow> 'k statement" where
  "INSERT_SHARE pk cid i share_pubkey encrypted_key db =
     (if (pk, i) \<in> fst ` set (db_shares db) \<or> (cid, i) \<notin> set (db_cluster_members db)
         \<or> pk \<notin> fst ` set (db_validators db)
      then Err (SQLError ''constraint'')
      else Ok (db\<lparr>db_shares := db_shares db
                    @ [((pk, i), \<lparr>sr_cluster_id = cid, sr_share_pubkey = share_pubkey,
                                  sr_encrypted_key = encrypted_key\<rparr>)]\<rparr>))"

definition INSERT_OR_UPDATE_OWNER_FEE_RECIPIENT :: "address \<Rightarrow> address \<Rightarrow> 'k statement" where
  "INSERT_OR_UPDATE_OWNER_FEE_RECIPIENT owner fee_recipient db =
     Ok (db\<lparr>db_owners :=
              (if owner \<in> fst ` set (db_owners db)
               then AList.map_entry owner (\<lambda>r. r\<lparr>ow_fee_recipient := Some fee_recipient\<rparr>) (db_owners db)
               else db_owners db @ [(owner, \<lparr>ow_fee_recipient = Some fee_recipient, ow_nonce = None\<rparr>)])\<rparr>)"

text \<open>The statement \<open>insert_validator_tx\<close> writes out: an owner that is new gets itself as recipient.\<close>

definition INSERT_OWNER_IF_NEW :: "address \<Rightarrow> 'k statement" where
  "INSERT_OWNER_IF_NEW owner db =
     (if owner \<in> fst ` set (db_owners db) then Ok db
      else Ok (db\<lparr>db_owners := db_owners db
                    @ [(owner, \<lparr>ow_fee_recipient = Some owner, ow_nonce = None\<rparr>)]\<rparr>))"

definition SET_GRAFFITI :: "bytes \<Rightarrow> pubkey \<Rightarrow> 'k statement" where
  "SET_GRAFFITI graffiti pk db =
     Ok (db\<lparr>db_validators := AList.map_entry pk (\<lambda>r. r\<lparr>vr_graffiti := graffiti\<rparr>) (db_validators db)\<rparr>)"

definition SET_INDEX :: "validator_index \<Rightarrow> pubkey \<Rightarrow> 'k statement" where
  "SET_INDEX index pk db =
     Ok (db\<lparr>db_validators := AList.map_entry pk (\<lambda>r. r\<lparr>vr_index := Some index\<rparr>) (db_validators db)\<rparr>)"

definition UPDATE_BLOCK_NUMBER :: "u64 \<Rightarrow> 'k statement" where
  "UPDATE_BLOCK_NUMBER n db = Ok (db\<lparr>db_block_number := n\<rparr>)"

definition SET_MAX_OPERATOR_ID_SEEN :: "u64 \<Rightarrow> 'k statement" where
  "SET_MAX_OPERATOR_ID_SEEN n db = Ok (db\<lparr>db_max_operator_id_seen := Some n\<rparr>)"

definition BUMP_NONCE :: "address \<Rightarrow> 'k statement" where
  "BUMP_NONCE owner db =
     Ok (db\<lparr>db_owners :=
              (if owner \<in> fst ` set (db_owners db)
               then AList.map_entry owner
                      (\<lambda>r. r\<lparr>ow_nonce := Some (case ow_nonce r of None \<Rightarrow> 0 | Some n \<Rightarrow> n + 1)\<rparr>) (db_owners db)
               else db_owners db @ [(owner, \<lparr>ow_fee_recipient = None, ow_nonce = Some 0\<rparr>)])\<rparr>)"

section \<open>The database and its transactions (lib.rs)\<close>

datatype 'k pubkey_or_id = Pubkey 'k | OwnId operator_id

record 'k network_database =
  nd_operator :: "'k pubkey_or_id"
  nd_state :: "'k network_state"
  nd_db :: "'k sql_db"

text \<open>An open transaction: its view of the tables and the updates queued beside it.\<close>

record 'k txn =
  tx_db :: "'k sql_db"
  tx_updates :: "'k state_update list"

type_synonym ('k, 'a) tx_result = "'k txn \<times> ('a, database_error) outcome"

definition execute :: "'k statement \<Rightarrow> 'k txn \<Rightarrow> ('k, unit) tx_result" where
  "execute stmt tx = (case stmt (tx_db tx) of
      Ok db \<Rightarrow> (tx\<lparr>tx_db := db\<rparr>, Ok ()) | Err e \<Rightarrow> (tx, Err e) | Panic \<Rightarrow> (tx, Panic))"

definition queue_update :: "'k state_update \<Rightarrow> 'k txn \<Rightarrow> ('k, unit) tx_result" where
  "queue_update u tx = (tx\<lparr>tx_updates := tx_updates tx @ [u]\<rparr>, Ok ())"

definition own_operator_id_db :: "'k pubkey_or_id \<Rightarrow> 'k sql_db \<Rightarrow> operator_id option" where
  "own_operator_id_db operator db =
     (case operator of OwnId i \<Rightarrow> Some i | Pubkey pubkey \<Rightarrow> GET_OPERATOR_ID pubkey db)"

definition get_own_operator_id_tx :: "'k network_database \<Rightarrow> 'k txn \<Rightarrow> operator_id option" where
  "get_own_operator_id_tx nd tx =
     (case get_own_id (nd_state nd) of
        Some i \<Rightarrow> Some i
      | None \<Rightarrow> own_operator_id_db (nd_operator nd) (tx_db tx))"

definition processed_block_tx :: "u64 \<Rightarrow> 'k txn \<Rightarrow> ('k, unit) tx_result" where
  "processed_block_tx block_number tx =
     and_then (tx, sql_u64 block_number) (\<lambda>tx _.
     and_then (execute (UPDATE_BLOCK_NUMBER block_number) tx) (\<lambda>tx _.
     queue_update (SetLastProcessedBlock block_number) tx))"

definition set_max_operator_id_seen_tx :: "u64 \<Rightarrow> 'k txn \<Rightarrow> ('k, unit) tx_result" where
  "set_max_operator_id_seen_tx i tx =
     and_then (tx, sql_u64 i) (\<lambda>tx _.
     and_then (execute (SET_MAX_OPERATOR_ID_SEEN i) tx) (\<lambda>tx _.
     queue_update (SetMaxOperatorIdSeen i) tx))"

section \<open>Operators (operator\_operations.rs)\<close>

datatype operator_status = OpActive | OpSoftDeleted | OpNotFound

definition get_operator_status :: "operator_id \<Rightarrow> 'k txn \<Rightarrow> (operator_status, database_error) outcome" where
  "get_operator_status i tx =
     bindO (sql_u64 i) (\<lambda>_.
       Ok (case GET_OPERATOR_STATUS i (tx_db tx) of
             Some removed \<Rightarrow> if removed then OpSoftDeleted else OpActive
           | None \<Rightarrow> OpNotFound))"

definition is_operator_soft_deleted :: "operator_id \<Rightarrow> 'k txn \<Rightarrow> (bool, database_error) outcome" where
  "is_operator_soft_deleted i tx = bindO (get_operator_status i tx) (\<lambda>st. Ok (st = OpSoftDeleted))"

definition operator_exists_tx :: "operator_id \<Rightarrow> 'k txn \<Rightarrow> (bool, database_error) outcome" where
  "operator_exists_tx i tx = bindO (get_operator_status i tx) (\<lambda>st. Ok (st = OpActive))"

definition does_operator_exist :: "operator_id \<Rightarrow> 'k txn \<Rightarrow> (bool, database_error) outcome" where
  "does_operator_exist i tx = bindO (get_operator_status i tx) (\<lambda>st. Ok (st \<noteq> OpNotFound))"

definition insert_operator_tx :: "'k network_database \<Rightarrow> 'k operator \<Rightarrow> 'k txn \<Rightarrow> ('k, unit) tx_result" where
  "insert_operator_tx nd operator tx =
     and_then (tx, operator_exists_tx (op_id operator) tx) (\<lambda>tx exists.
     if exists then (tx, Err (NotFound ''already in database''))
     else
       let is_own_operator = (case nd_operator nd of
                                Pubkey pubkey \<Rightarrow> op_rsa_pubkey operator = pubkey
                              | OwnId i \<Rightarrow> i = op_id operator)
       in and_then (execute (INSERT_OPERATOR (op_id operator) (op_rsa_pubkey operator) (op_owner operator)) tx)
            (\<lambda>tx _. queue_update (InsertOperator operator is_own_operator) tx))"

definition insert_skipped_operator_add_tx :: "operator_id \<Rightarrow> string \<Rightarrow> 'k txn \<Rightarrow> ('k, unit) tx_result" where
  "insert_skipped_operator_add_tx i reason tx =
     and_then (tx, sql_u64 i) (\<lambda>tx _. execute (INSERT_SKIPPED_OPERATOR_ADD i reason) tx)"

definition delete_skipped_operator_add_tx :: "operator_id \<Rightarrow> 'k txn \<Rightarrow> ('k, bool) tx_result" where
  "delete_skipped_operator_add_tx i tx =
     and_then (tx, sql_u64 i) (\<lambda>tx _.
       let found = (i \<in> fst ` set (db_skipped_operator_adds (tx_db tx)))
       in and_then (execute (DELETE_SKIPPED_OPERATOR_ADD i) tx) (\<lambda>tx _. (tx, Ok found)))"

definition get_any_operator_id_by_public_key_tx :: "'k \<Rightarrow> 'k txn \<Rightarrow> operator_id option" where
  "get_any_operator_id_by_public_key_tx public_key tx = GET_ANY_OPERATOR_ID public_key (tx_db tx)"

definition delete_operator_tx :: "operator_id \<Rightarrow> 'k txn \<Rightarrow> ('k, unit) tx_result" where
  "delete_operator_tx i tx =
     and_then (tx, operator_exists_tx i tx) (\<lambda>tx exists.
     if \<not> exists then (tx, Err (NotFound ''not in database''))
     else and_then (case execute (DELETE_OPERATOR i) tx of
                      (tx, Err _) \<Rightarrow> execute (MARK_OPERATOR_REMOVED i) tx
                    | r \<Rightarrow> r)
            (\<lambda>tx _. queue_update (DeleteOperator i) tx))"

section \<open>Shares and clusters (share\_operations.rs, cluster\_operations.rs)\<close>

definition insert_share :: "share \<Rightarrow> pubkey \<Rightarrow> 'k txn \<Rightarrow> ('k, unit) tx_result" where
  "insert_share share validator_pubkey tx =
     and_then (tx, sql_u64 (sh_operator_id share)) (\<lambda>tx _.
       execute (INSERT_SHARE validator_pubkey (sh_cluster_id share) (sh_operator_id share)
                  (sh_share_pubkey share) (sh_encrypted_private_key share)) tx)"

text \<open>One turn of the loop over the shares: remember our share, insert the member and the share.\<close>

definition insert_member_share ::
    "operator_id option \<Rightarrow> pubkey \<Rightarrow> 'k txn \<times> share option \<Rightarrow> share
     \<Rightarrow> ('k txn \<times> share option) \<times> (unit, database_error) outcome" where
  "insert_member_share own_id pk s share =
     (let our_share = (if own_id = Some (sh_operator_id share) then Some share else snd s);
          (tx, r) =
            and_then (fst s, sql_u64 (sh_operator_id share)) (\<lambda>tx _.
            and_then (execute (INSERT_CLUSTER_MEMBER (sh_cluster_id share) (sh_operator_id share)) tx) (\<lambda>tx _.
            insert_share share pk tx))
      in ((tx, our_share), r))"

definition insert_validator_tx ::
    "'k network_database \<Rightarrow> cluster \<Rightarrow> validator_metadata \<Rightarrow> share list \<Rightarrow> 'k txn \<Rightarrow> ('k, unit) tx_result" where
  "insert_validator_tx nd cluster validator shares tx =
     and_then (execute (INSERT_CLUSTER (cl_cluster_id cluster) (cl_owner cluster)) tx) (\<lambda>tx _.
     and_then (execute (INSERT_VALIDATOR (vm_public_key validator) (cl_cluster_id cluster)
                          (vm_index validator) (vm_graffiti validator)) tx) (\<lambda>tx _.
     and_then (execute (INSERT_OWNER_IF_NEW (cl_owner cluster)) tx) (\<lambda>tx _.
     let own_id = get_own_operator_id_tx nd tx in
     case for_each_s (insert_member_share own_id (vm_public_key validator)) (tx, None) shares of
       ((tx, our_share), Ok _) \<Rightarrow> queue_update (InsertValidator cluster validator our_share) tx
     | ((tx, _), Err e) \<Rightarrow> (tx, Err e)
     | ((tx, _), Panic) \<Rightarrow> (tx, Panic))))"

definition update_status_tx :: "cluster_id \<Rightarrow> bool \<Rightarrow> 'k txn \<Rightarrow> ('k, unit) tx_result" where
  "update_status_tx cid liquidated tx =
     and_then (execute (UPDATE_CLUSTER_STATUS liquidated cid) tx) (\<lambda>tx _.
     queue_update (UpdateClusterStatus cid liquidated) tx)"

definition delete_validator_tx :: "pubkey \<Rightarrow> 'k txn \<Rightarrow> ('k, unit) tx_result" where
  "delete_validator_tx pk tx =
     and_then (execute (DELETE_VALIDATOR pk) tx) (\<lambda>tx _. queue_update (DeleteValidator pk) tx)"

text \<open>A row of \<open>clusters\<close>, joined with its owner and its members; no recipient on record is the owner.\<close>

definition owner_fee_recipient :: "address \<Rightarrow> 'k sql_db \<Rightarrow> address option" where
  "owner_fee_recipient owner db = Option.bind (map_of (db_owners db) owner) ow_fee_recipient"

definition cluster_from_row :: "'k sql_db \<Rightarrow> cluster_id \<Rightarrow> cluster_row \<Rightarrow> cluster" where
  "cluster_from_row db cid row =
     \<lparr>cl_cluster_id = cid, cl_owner = cr_owner row,
      cl_fee_recipient = (case owner_fee_recipient (cr_owner row) db of Some a \<Rightarrow> a | None \<Rightarrow> cr_owner row),
      cl_liquidated = cr_liquidated row, cl_cluster_members = GET_CLUSTER_MEMBERS cid db\<rparr>"

definition get_cluster_by_validator_tx :: "pubkey \<Rightarrow> 'k txn \<Rightarrow> cluster option" where
  "get_cluster_by_validator_tx pk tx =
     Option.bind (map_of (db_validators (tx_db tx)) pk) (\<lambda>v.
       map_option (cluster_from_row (tx_db tx) (vr_cluster_id v))
         (map_of (db_clusters (tx_db tx)) (vr_cluster_id v)))"

text \<open>The nonce is read back as \<open>u16\<close>: a larger one is a conversion error.\<close>

definition GET_NONCE :: "address \<Rightarrow> 'k sql_db \<Rightarrow> (16 word, database_error) outcome" where
  "GET_NONCE owner db =
     (case Option.bind (map_of (db_owners db) owner) ow_nonce of
        None \<Rightarrow> Err (SQLError ''nonce'')
      | Some n \<Rightarrow> if n < 2 ^ 16 then Ok (of_nat n) else Err (SQLError ''nonce''))"

definition bump_and_get_nonce_tx :: "address \<Rightarrow> 'k txn \<Rightarrow> ('k, 16 word) tx_result" where
  "bump_and_get_nonce_tx owner tx =
     and_then (execute (BUMP_NONCE owner) tx) (\<lambda>tx _.
     and_then (tx, GET_NONCE owner (tx_db tx)) (\<lambda>tx nonce.
     and_then (queue_update (SetOwnerNonce owner nonce) tx) (\<lambda>tx _. (tx, Ok nonce))))"

section \<open>Validators (validator\_operations.rs)\<close>

definition update_fee_recipient_tx :: "address \<Rightarrow> address \<Rightarrow> 'k txn \<Rightarrow> ('k, unit) tx_result" where
  "update_fee_recipient_tx owner fee_recipient tx =
     and_then (execute (INSERT_OR_UPDATE_OWNER_FEE_RECIPIENT owner fee_recipient) tx) (\<lambda>tx _.
     queue_update (UpdateFeeRecipient owner fee_recipient) tx)"

definition fee_recipient_for_owner :: "address \<Rightarrow> 'k txn \<Rightarrow> address option" where
  "fee_recipient_for_owner owner tx = owner_fee_recipient owner (tx_db tx)"

definition metadata_from_row :: "pubkey \<Rightarrow> validator_row \<Rightarrow> validator_metadata" where
  "metadata_from_row pk row = \<lparr>vm_public_key = pk, vm_cluster_id = vr_cluster_id row,
     vm_index = vr_index row, vm_graffiti = vr_graffiti row\<rparr>"

definition get_validator_metadata_tx :: "pubkey \<Rightarrow> 'k txn \<Rightarrow> validator_metadata option" where
  "get_validator_metadata_tx pk tx = map_option (metadata_from_row pk) (map_of (db_validators (tx_db tx)) pk)"

definition has_own_share_tx :: "'k network_database \<Rightarrow> pubkey \<Rightarrow> 'k txn \<Rightarrow> (bool, database_error) outcome" where
  "has_own_share_tx nd pk tx =
     (case get_own_operator_id_tx nd tx of
        None \<Rightarrow> Ok False
      | Some i \<Rightarrow> bindO (sql_u64 i) (\<lambda>_. Ok ((pk, i) \<in> fst ` set (db_shares (tx_db tx)))))"

definition update_graffiti_tx :: "pubkey \<Rightarrow> bytes \<Rightarrow> 'k txn \<Rightarrow> ('k, unit) tx_result" where
  "update_graffiti_tx pk graffiti tx =
     and_then (execute (SET_GRAFFITI graffiti pk) tx) (\<lambda>tx _. queue_update (UpdateGraffiti pk graffiti) tx)"

text \<open>\<open>set_validator_indices\<close> has a transaction of its own and writes through to the state.\<close>

definition set_validator_indices ::
    "(pubkey \<times> validator_index) list \<Rightarrow> 'k network_database \<Rightarrow> 'k network_database \<times> (unit, database_error) outcome" where
  "set_validator_indices entries nd =
     (case for_each_s (\<lambda>tx (pk, index). and_then (tx, sql_u64 index) (\<lambda>tx _. execute (SET_INDEX index pk) tx))
             \<lparr>tx_db = nd_db nd, tx_updates = []\<rparr> entries of
        (tx, Ok _) \<Rightarrow>
          (nd\<lparr>nd_db := tx_db tx,
              nd_state := (nd_state nd)\<lparr>ns_validator_metadata :=
                fold (\<lambda>(pk, index) m. modify_by_primary m pk (\<lambda>v. v\<lparr>vm_index := Some index\<rparr>))
                  entries (ns_validator_metadata (nd_state nd))\<rparr>\<rparr>, Ok ())
      | (_, Err e) \<Rightarrow> (nd, Err e)
      | (_, Panic) \<Rightarrow> (nd, Panic))"

section \<open>Loading the state (state.rs)\<close>

text \<open>What the curve library provides: the multiplication of a point and the parsing of a key.\<close>

record ('f, 'g) curve =
  cv_smul :: "'f \<Rightarrow> 'g \<Rightarrow> 'g"
  cv_key_validate :: "bytes \<Rightarrow> 'g option"

definition fetch_operators :: "'k sql_db \<Rightarrow> operator_id \<rightharpoonup> 'k operator" where
  "fetch_operators db i =
     (case map_of (db_operators db) i of
        None \<Rightarrow> None
      | Some r \<Rightarrow> if or_removed r then None
                  else Some \<lparr>op_id = i, op_rsa_pubkey = or_public_key r, op_owner = or_owner r\<rparr>)"

definition fetch_clusters :: "'k sql_db \<Rightarrow> (cluster_id \<times> cluster) list" where
  "fetch_clusters db =
     map (\<lambda>(cid, row). (cid, cluster_from_row db cid row))
       (filter (\<lambda>(cid, _). GET_CLUSTER_MEMBERS cid db \<noteq> []) (db_clusters db))"

definition fetch_validators :: "'k sql_db \<Rightarrow> cluster_id \<Rightarrow> validator_metadata list" where
  "fetch_validators db cid =
     map (\<lambda>(pk, row). metadata_from_row pk row) (filter (\<lambda>(_, row). vr_cluster_id row = cid) (db_validators db))"

definition share_from_row :: "pubkey \<Rightarrow> operator_id \<Rightarrow> share_row \<Rightarrow> share" where
  "share_from_row pk i row = \<lparr>sh_validator_pubkey = pk, sh_operator_id = i, sh_cluster_id = sr_cluster_id row,
     sh_share_pubkey = sr_share_pubkey row, sh_encrypted_private_key = sr_encrypted_key row\<rparr>"

definition fetch_shares :: "'k sql_db \<Rightarrow> operator_id \<Rightarrow> share list" where
  "fetch_shares db i = map (\<lambda>((pk, j), row). share_from_row pk j row) (filter (\<lambda>((_, j), _). j = i) (db_shares db))"

definition fetch_committee_share_pubkeys :: "'k sql_db \<Rightarrow> operator_id \<Rightarrow> pubkey \<Rightarrow> (operator_id \<times> pubkey) list" where
  "fetch_committee_share_pubkeys db i pk =
     map (\<lambda>((_, j), row). (j, sr_share_pubkey row))
       (filter (\<lambda>((v, _), row). v = pk \<and> (sr_cluster_id row, i) \<in> set (db_cluster_members db)) (db_shares db))"

definition fetch_nonces :: "'k sql_db \<Rightarrow> (address \<rightharpoonup> 16 word, database_error) outcome" where
  "fetch_nonces db =
     (if \<exists>(_, r) \<in> set (db_owners db). (case ow_nonce r of None \<Rightarrow> False | Some n \<Rightarrow> 2 ^ 16 \<le> n)
      then Err (SQLError ''nonce'')
      else Ok (\<lambda>owner. map_option of_nat (Option.bind (map_of (db_owners db) owner) ow_nonce)))"

text \<open>One validator of a cluster; own shares of it are kept if the whole committee's keys interpolate.\<close>

definition load_validator ::
    "(bytes \<Rightarrow> bytes) \<Rightarrow> ('f::field, 'g::ab_group_add) curve \<Rightarrow> 'k sql_db \<Rightarrow> operator_id option \<Rightarrow> cluster
     \<Rightarrow> validator_metadata \<Rightarrow> 'k network_state \<Rightarrow> 'k network_state" where
  "load_validator sha256 cv db own_id cluster validator s =
     (let cid = cl_cluster_id cluster; pk = vm_public_key validator; owner = cl_owner cluster;
          committee_id = cluster_committee_id sha256 cluster;
          own_shares = (case own_id of
                          None \<Rightarrow> []
                        | Some i \<Rightarrow> filter (\<lambda>sh. sh_cluster_id sh = cid \<and> sh_validator_pubkey sh = pk
                            \<and> validate_share_public_keys (cv_smul cv) (cv_key_validate cv) pk
                                (fetch_committee_share_pubkeys db i pk) = Ok ()) (fetch_shares db i))
      in s\<lparr>ns_clusters := insert_or_update cluster_tags (ns_clusters s) cid pk owner committee_id cluster,
           ns_validator_metadata :=
             insert_or_update metadata_tags (ns_validator_metadata s) pk cid owner committee_id validator,
           ns_shares := fold (\<lambda>sh m. insert_or_update share_tags m pk cid owner committee_id sh)
                          own_shares (ns_shares s)\<rparr>)"

text \<open>A cluster without a validator is a failed \<open>expect\<close>.\<close>

fun load_clusters ::
    "(bytes \<Rightarrow> bytes) \<Rightarrow> ('f::field, 'g::ab_group_add) curve \<Rightarrow> 'k sql_db \<Rightarrow> operator_id option
     \<Rightarrow> (cluster_id \<times> cluster) list \<Rightarrow> 'k network_state \<Rightarrow> ('k network_state, database_error) outcome" where
  "load_clusters sha256 cv db own_id [] s = Ok s"
| "load_clusters sha256 cv db own_id ((cid, cluster) # cs) s =
     (if fetch_validators db cid = [] then Panic
      else load_clusters sha256 cv db own_id cs
             (fold (load_validator sha256 cv db own_id cluster) (fetch_validators db cid) s))"

text \<open>The clusters sit in a hash map: \<open>order\<close> is its iteration order.\<close>

definition new_with_state ::
    "(bytes \<Rightarrow> bytes) \<Rightarrow> ('f::field, 'g::ab_group_add) curve \<Rightarrow> ((cluster_id \<times> cluster) list \<Rightarrow> (cluster_id \<times> cluster) list)
     \<Rightarrow> 'k pubkey_or_id \<Rightarrow> 'k sql_db \<Rightarrow> ('k network_state, database_error) outcome" where
  "new_with_state sha256 cv order operator db =
     (let own_id = own_operator_id_db operator db;
          own_clusters = (case own_id of None \<Rightarrow> {} | Some i \<Rightarrow> sh_cluster_id ` set (fetch_shares db i))
      in bindO (case own_id of None \<Rightarrow> Ok () | Some i \<Rightarrow> sql_u64 i) (\<lambda>_.
         bindO (fetch_nonces db) (\<lambda>nonces.
         load_clusters sha256 cv db own_id (order (fetch_clusters db))
           \<lparr>ns_shares = mi_new, ns_validator_metadata = mi_new, ns_clusters = mi_new, ns_id = own_id,
            ns_last_processed_block = db_block_number db, ns_operators = fetch_operators db,
            ns_own_clusters = own_clusters, ns_nonces = nonces,
            ns_max_operator_id_seen = db_max_operator_id_seen db\<rparr>)))"

end
