(* ===== verification/Event_Processor.thy ===== *)
theory Event_Processor
  imports Network_Db Subnet_Routing
begin

text \<open>
  The processing of contract events (\<open>eth/src/event_processor.rs\<close>, \<open>util.rs\<close>, \<open>error.rs\<close>): logs are
  grouped by block, every block is one database transaction, each log runs the handler of its
  event, and after the commit the queued updates are published to the in-memory state and the
  follow-up actions are sent.

  Decoding a log, hashing, keys and signatures belong to libraries and are arguments, collected
  in a record, and so are the slashing database and whether the commit of a block succeeds. Counters that only feed log lines are left out.
\<close>

section \<open>Environment\<close>

record ('k, 'f, 'g) eth_env =
  en_keccak256 :: "bytes \<Rightarrow> bytes"
  en_sha256 :: "bytes \<Rightarrow> bytes"
  en_pubkey_deserialize :: "bytes \<Rightarrow> pubkey option"
  en_pubkey_decompress :: "pubkey \<Rightarrow> bytes option"
  en_signature_deserialize :: "bytes \<Rightarrow> bytes option"
  en_bls_verify :: "bytes \<Rightarrow> bytes \<Rightarrow> bytes \<Rightarrow> bool"
  en_address_display :: "address \<Rightarrow> string"
  en_base64_encode :: "bytes \<Rightarrow> bytes"
  en_base64_decode :: "bytes \<Rightarrow> bytes option"
  en_utf8_valid :: "bytes \<Rightarrow> bool"
  en_rsa_from_pem :: "bytes \<Rightarrow> 'k option"
  en_curve :: "('f, 'g) curve"
  en_register_validator :: "pubkey \<Rightarrow> bool"
  en_commit :: "u64 \<Rightarrow> bool"

definition ascii :: "string \<Rightarrow> bytes" where
  "ascii s = map of_char s"

section \<open>Errors (error.rs)\<close>

text \<open>The formatted messages keep their leading words, a database error is kept whole.\<close>

datatype execution_error =
    SyncError string | InvalidEvent string | MissingCommittedState string | RpcError string | WsError string
  | EthDecodeError | SkippedEvent string | Duplicate string | Database database_error

datatype log_error_disposition = SkipMalformed | SkipExpected | SkipAmbiguous | AbortBatch

definition log_disposition :: "execution_error \<Rightarrow> log_error_disposition" where
  "log_disposition e =
     (case e of
        InvalidEvent _ \<Rightarrow> SkipMalformed
      | EthDecodeError \<Rightarrow> SkipMalformed
      | Duplicate _ \<Rightarrow> SkipMalformed
      | SkippedEvent _ \<Rightarrow> SkipExpected
      | MissingCommittedState _ \<Rightarrow> SkipAmbiguous
      | SyncError _ \<Rightarrow> AbortBatch
      | RpcError _ \<Rightarrow> AbortBatch
      | WsError _ \<Rightarrow> AbortBatch
      | Database _ \<Rightarrow> AbortBatch)"

section \<open>Parsing (util.rs)\<close>

definition BLS_SIGNATURE_LENGTH :: nat where "BLS_SIGNATURE_LENGTH = 96"
definition BLS_PUBLIC_KEY_LENGTH :: nat where "BLS_PUBLIC_KEY_LENGTH = 48"
definition MAX_OPERATORS :: nat where "MAX_OPERATORS = 13"

function chunks :: "nat \<Rightarrow> 'a list \<Rightarrow> 'a list list" where
  "chunks n xs = (if xs = [] \<or> n = 0 then [] else take n xs # chunks n (drop n xs))"
  by auto
termination by (relation "measure (\<lambda>(n, xs). length xs)") auto

declare chunks.simps [simp del]

definition parse_share ::
    "(bytes \<Rightarrow> pubkey option) \<Rightarrow> cluster_id \<Rightarrow> pubkey \<Rightarrow> (bytes \<times> bytes) \<times> operator_id \<Rightarrow> (share, string) outcome" where
  "parse_share deserialize cid validator_pubkey p =
     (case p of ((public, encrypted), i) \<Rightarrow>
        bindO (ok_or ''Failed to create public key'' (deserialize public)) (\<lambda>share_pubkey.
        if length encrypted \<noteq> ENCRYPTED_KEY_LENGTH then Err ''Encrypted key has wrong length''
        else Ok \<lparr>sh_validator_pubkey = validator_pubkey, sh_operator_id = i, sh_cluster_id = cid,
                 sh_share_pubkey = share_pubkey, sh_encrypted_private_key = encrypted\<rparr>))"

definition parse_shares ::
    "(bytes \<Rightarrow> pubkey option) \<Rightarrow> bytes \<Rightarrow> operator_id list \<Rightarrow> cluster_id \<Rightarrow> pubkey
     \<Rightarrow> (bytes \<times> share list, string) outcome" where
  "parse_shares deserialize shares operator_ids cid validator_pubkey =
     (let operator_count = length operator_ids;
          signature_offset = BLS_SIGNATURE_LENGTH;
          pub_keys_offset = BLS_PUBLIC_KEY_LENGTH * operator_count + signature_offset;
          shares_expected_length = ENCRYPTED_KEY_LENGTH * operator_count + pub_keys_offset
      in if shares_expected_length \<noteq> length shares then Err ''Share data has invalid length''
         else
           let signature = take signature_offset shares;
               share_public_keys = chunks BLS_PUBLIC_KEY_LENGTH
                 (take (pub_keys_offset - signature_offset) (drop signature_offset shares));
               encrypted_keys = chunks ENCRYPTED_KEY_LENGTH (drop pub_keys_offset shares)
           in bindO (collect_o (parse_share deserialize cid validator_pubkey)
                       (zip (zip share_public_keys encrypted_keys) operator_ids))
                (\<lambda>parsed. Ok (signature, parsed)))"

definition construct_validator_metadata :: "pubkey \<Rightarrow> cluster_id \<Rightarrow> validator_metadata" where
  "construct_validator_metadata pk cid =
     \<lparr>vm_public_key = pk, vm_cluster_id = cid, vm_index = None,
      vm_graffiti = ascii ''Anchor-SSV'' @ replicate 22 0\<rparr>"

definition verify_signature :: "('k, 'f, 'g) eth_env \<Rightarrow> bytes \<Rightarrow> 16 word \<Rightarrow> address \<Rightarrow> pubkey \<Rightarrow> bool" where
  "verify_signature env signature nonce owner public_key =
     (let data = ascii (en_address_display env owner @ '':'' @ nat_to_string (unat nonce));
          hash = en_keccak256 env data
      in case en_signature_deserialize env signature of
           None \<Rightarrow> False
         | Some sig \<Rightarrow>
             (case en_pubkey_decompress env public_key of
                None \<Rightarrow> False
              | Some pk \<Rightarrow> en_bls_verify env sig pk hash))"

definition parse_validator_pubkey :: "('k, 'f, 'g) eth_env \<Rightarrow> bytes \<Rightarrow> (pubkey, execution_error) outcome" where
  "parse_validator_pubkey env bs = ok_or (InvalidEvent ''Failed to parse validator public key'') (en_pubkey_deserialize env bs)"

definition u64_to_be_bytes :: "u64 \<Rightarrow> bytes" where
  "u64_to_be_bytes w = rev (u64_to_le_bytes w)"

definition compute_cluster_id :: "(bytes \<Rightarrow> bytes) \<Rightarrow> address \<Rightarrow> u64 list \<Rightarrow> cluster_id" where
  "compute_cluster_id keccak256 owner operator_ids =
     (let ids = (if sorted operator_ids then operator_ids else sort operator_ids)
      in keccak256 (owner @ concat (map (\<lambda>i. replicate 24 0 @ u64_to_be_bytes i) ids)))"

section \<open>Handlers (event\_processor.rs)\<close>

datatype contract_event =
    OperatorAdded u64 address bytes
  | OperatorRemoved u64
  | ValidatorAdded address "u64 list" bytes bytes
  | ValidatorRemoved address "u64 list" bytes
  | ClusterLiquidated address "u64 list"
  | ClusterReactivated address "u64 list"
  | FeeRecipientAddressUpdated address address
  | ValidatorExited address "u64 list" bytes

datatype event_topic =
    OperatorAddedTopic | OperatorRemovedTopic | ValidatorAddedTopic | ValidatorRemovedTopic
  | ClusterLiquidatedTopic | ClusterReactivatedTopic | FeeRecipientAddressUpdatedTopic
  | ValidatorExitedTopic | UnknownTopic

text \<open>A log: its block, its first topic, and what the decoder of that topic makes of it.\<close>

record log =
  lg_block_number :: "u64 option"
  lg_block_timestamp :: "u64 option"
  lg_topic0 :: "event_topic option"
  lg_decoded :: "contract_event option"

datatype mode = Node | KeySplit

record exit_request =
  er_validator_pubkey :: pubkey
  er_validator_index :: validator_index
  er_block_timestamp :: u64
  er_is_our_validator :: bool

datatype post_commit_action = IndexSync pubkey | ValidatorExit exit_request

text \<open>
  What a block works on: its transaction, the actions to run after the commit, and the keys known
  to the slashing database, which is written outside of the transaction.
\<close>

record 'k block_state =
  bs_tx :: "'k txn"
  bs_actions :: "post_commit_action list"
  bs_registered :: "pubkey list"

type_synonym 'k handler_result = "'k block_state \<times> (unit, execution_error) outcome"

definition on_tx ::
    "('k txn \<Rightarrow> ('k, 'a) tx_result) \<Rightarrow> 'k block_state \<Rightarrow> 'k block_state \<times> ('a, execution_error) outcome" where
  "on_tx f s = (case f (bs_tx s) of (tx, r) \<Rightarrow> (s\<lparr>bs_tx := tx\<rparr>, map_err_o Database r))"

definition push_action :: "post_commit_action \<Rightarrow> 'k block_state \<Rightarrow> 'k handler_result" where
  "push_action a s = (s\<lparr>bs_actions := bs_actions s @ [a]\<rparr>, Ok ())"

definition validate_operators :: "operator_id list \<Rightarrow> 'k txn \<Rightarrow> (unit, execution_error) outcome" where
  "validate_operators operator_ids tx =
     (if length operator_ids > MAX_OPERATORS then Err (InvalidEvent ''too many operators'')
      else if length operator_ids = 0 then Err (InvalidEvent ''no operators'')
      else if \<not> is_valid_committee_size (length operator_ids) then Err (InvalidEvent ''Cannot build a 3f+1 quorum'')
      else if \<not> distinct operator_ids then Err (InvalidEvent ''Operator IDs contain duplicates'')
      else for_each_o (\<lambda>i.
             bindO (map_err_o Database (operator_exists_tx i tx)) (\<lambda>exists.
             guardO exists (MissingCommittedState ''Operator does not exist''))) operator_ids)"

subsection \<open>Operator keys (event\_processor.rs, operator\_key/src/public.rs)\<close>

definition be_value :: "bytes \<Rightarrow> nat" where
  "be_value bs = le_value (rev bs)"

definition abi_word_to_usize :: "bytes \<Rightarrow> nat option" where
  "abi_word_to_usize word =
     (if length word \<noteq> 32 \<or> (\<exists>b \<in> set (take 24 word). b \<noteq> 0) then None else Some (be_value (drop 24 word)))"

text \<open>The checked arithmetic on \<open>usize\<close>, 64 bits wide.\<close>

definition checked_usize :: "nat \<Rightarrow> nat option" where
  "checked_usize n = (if n < 2 ^ 64 then Some n else None)"

definition abi_decode_single_dynamic_bytes :: "bytes \<Rightarrow> bytes option" where
  "abi_decode_single_dynamic_bytes data =
     (if length data < 64 \<or> length data mod 32 \<noteq> 0 then None
      else
        Option.bind (abi_word_to_usize (take 32 data)) (\<lambda>offset.
        if offset \<noteq> 32 then None
        else
          Option.bind (abi_word_to_usize (take 32 (drop 32 data))) (\<lambda>len.
          Option.bind (checked_usize (len + 31)) (\<lambda>rounded.
          Option.bind (checked_usize (rounded div 32 * 32)) (\<lambda>padded_len.
          Option.bind (checked_usize (64 + len)) (\<lambda>end_pos.
          if length data \<noteq> 64 + padded_len \<or> end_pos > length data then None
          else Some (take len (drop 64 data))))))))"

definition unwrap_operator_public_key :: "bytes \<Rightarrow> bytes" where
  "unwrap_operator_public_key data =
     (case abi_decode_single_dynamic_bytes data of Some bs \<Rightarrow> bs | None \<Rightarrow> data)"

definition hex_value :: "8 word \<Rightarrow> nat option" where
  "hex_value b = (let n = unat b in
     if 48 \<le> n \<and> n \<le> 57 then Some (n - 48)
     else if 97 \<le> n \<and> n \<le> 102 then Some (n - 87)
     else if 65 \<le> n \<and> n \<le> 70 then Some (n - 55)
     else None)"

fun hex_decode :: "bytes \<Rightarrow> bytes option" where
  "hex_decode [] = Some []"
| "hex_decode [_] = None"
| "hex_decode (a # b # bs) =
     Option.bind (hex_value a) (\<lambda>x. Option.bind (hex_value b) (\<lambda>y.
       map_option (\<lambda>rest. of_nat (16 * x + y) # rest) (hex_decode bs)))"

definition starts_with :: "bytes \<Rightarrow> bytes \<Rightarrow> bool" where
  "starts_with p bs = (take (length p) bs = p)"

text \<open>Data that is not UTF-8 has a byte that is not a hexadecimal digit: it takes the third exit.\<close>

definition decode_hex_encoded_operator_pem :: "('k, 'f, 'g) eth_env \<Rightarrow> bytes \<Rightarrow> (bytes option, string) outcome" where
  "decode_hex_encoded_operator_pem env data =
     (let text = (if starts_with (ascii ''0x'') data then drop 2 data else data)
      in if text = [] \<or> length text mod 2 \<noteq> 0 then Ok None
         else if \<not> (\<forall>b \<in> set text. hex_value b \<noteq> None) then Ok None
         else case hex_decode text of
                None \<Rightarrow> Err ''Failed to decode hex-encoded operator public key''
              | Some pem \<Rightarrow>
                  if \<not> starts_with (ascii ''-----BEGIN'') pem
                  then Err ''Hex-encoded operator public key did not decode to PEM''
                  else Ok (Some (en_base64_encode env pem)))"

definition normalize_operator_public_key_bytes :: "('k, 'f, 'g) eth_env \<Rightarrow> bytes \<Rightarrow> (bytes, string) outcome" where
  "normalize_operator_public_key_bytes env data =
     bindO (decode_hex_encoded_operator_pem env data) (\<lambda>r.
       Ok (case r of Some pem_base64 \<Rightarrow> pem_base64 | None \<Rightarrow> data))"

text \<open>\<open>str::replace\<close>: the occurrences from left to right that do not overlap.\<close>

function replace_bytes :: "bytes \<Rightarrow> bytes \<Rightarrow> bytes \<Rightarrow> bytes" where
  "replace_bytes from to bs =
     (if from = [] \<or> bs = [] then bs
      else if starts_with from bs then to @ replace_bytes from to (drop (length from) bs)
      else hd bs # replace_bytes from to (tl bs))"
  by auto
termination by (relation "measure (\<lambda>(from, to, bs). length bs)") auto

declare replace_bytes.simps [simp del]

definition from_base64 :: "('k, 'f, 'g) eth_env \<Rightarrow> bytes \<Rightarrow> 'k option" where
  "from_base64 env pem_data =
     Option.bind (en_base64_decode env pem_data) (\<lambda>pem_decoded.
       if \<not> en_utf8_valid env pem_decoded then None
       else
         let pem_string = replace_bytes (ascii ''-----END RSA PUBLIC KEY-----'') (ascii ''-----END PUBLIC KEY-----'')
               (replace_bytes (ascii ''-----BEGIN RSA PUBLIC KEY-----'') (ascii ''-----BEGIN PUBLIC KEY-----'') pem_decoded)
         in en_rsa_from_pem env pem_string)"

definition operator_new :: "('k, 'f, 'g) eth_env \<Rightarrow> bytes \<Rightarrow> operator_id \<Rightarrow> address \<Rightarrow> 'k operator option" where
  "operator_new env pem_data i owner =
     map_option (\<lambda>rsa_pubkey. \<lparr>op_id = i, op_rsa_pubkey = rsa_pubkey, op_owner = owner\<rparr>) (from_base64 env pem_data)"

definition parse_operator_public_key ::
    "('k, 'f, 'g) eth_env \<Rightarrow> bytes \<Rightarrow> operator_id \<Rightarrow> address \<Rightarrow> ('k operator, string) outcome" where
  "parse_operator_public_key env data i owner =
     bindO (normalize_operator_public_key_bytes env (unwrap_operator_public_key data)) (\<lambda>data.
     ok_or ''Failed to construct operator'' (operator_new env data i owner))"

subsection \<open>Operators\<close>

definition process_operator_added ::
    "('k, 'f, 'g) eth_env \<Rightarrow> 'k network_database \<Rightarrow> log \<Rightarrow> 'k block_state \<Rightarrow> 'k handler_result" where
  "process_operator_added env nd log s =
     (case lg_decoded log of
        Some (OperatorAdded operatorId owner publicKey) \<Rightarrow>
          and_then (s, map_err_o Database (operator_exists_tx operatorId (bs_tx s))) (\<lambda>s exists.
          if exists then (s, Err (Duplicate ''Operator already exists in database''))
          else if (case db_max_operator_id_seen (tx_db (bs_tx s)) of
                     None \<Rightarrow> False | Some max_seen \<Rightarrow> max_seen \<noteq> operatorId - 1)
          then (s, Err (InvalidEvent ''Missing OperatorAdded events''))
          else
            and_then (on_tx (set_max_operator_id_seen_tx operatorId) s) (\<lambda>s _.
            case parse_operator_public_key env publicKey operatorId owner of
              Err reason \<Rightarrow>
                and_then (on_tx (insert_skipped_operator_add_tx operatorId reason) s) (\<lambda>s _.
                (s, Err (InvalidEvent reason)))
            | Panic \<Rightarrow> (s, Panic)
            | Ok operator \<Rightarrow>
                (case get_any_operator_id_by_public_key_tx (op_rsa_pubkey operator) (bs_tx s) of
                   Some _ \<Rightarrow>
                     let reason = ''Operator public key already exists'' in
                     and_then (on_tx (insert_skipped_operator_add_tx operatorId reason) s) (\<lambda>s _.
                     (s, Err (InvalidEvent reason)))
                 | None \<Rightarrow> on_tx (insert_operator_tx nd operator) s)))
      | _ \<Rightarrow> (s, Err EthDecodeError))"

definition process_operator_removed :: "log \<Rightarrow> 'k block_state \<Rightarrow> 'k handler_result" where
  "process_operator_removed log s =
     (case lg_decoded log of
        Some (OperatorRemoved operatorId) \<Rightarrow>
          and_then (on_tx (delete_skipped_operator_add_tx operatorId) s) (\<lambda>s skipped.
          if skipped then (s, Err (SkippedEvent ''Operator was previously skipped during registration''))
          else on_tx (delete_operator_tx operatorId) s)
      | _ \<Rightarrow> (s, Err EthDecodeError))"

subsection \<open>Validators\<close>

definition validate_validator_added_conflict ::
    "address \<Rightarrow> pubkey \<Rightarrow> cluster_id \<Rightarrow> 'k txn \<Rightarrow> (unit, execution_error) outcome" where
  "validate_validator_added_conflict owner pk computed_cluster_id tx =
     (case get_validator_metadata_tx pk tx of
        None \<Rightarrow> Ok ()
      | Some _ \<Rightarrow>
          (case get_cluster_by_validator_tx pk tx of
             None \<Rightarrow> Err (MissingCommittedState ''Failed to fetch cluster for existing validator metadata'')
           | Some existing \<Rightarrow>
               if cl_owner existing \<noteq> owner
               then Err (InvalidEvent ''Validator already exists with different owner address'')
               else if cl_cluster_id existing \<noteq> computed_cluster_id
               then Err (InvalidEvent ''Validator already exists with different cluster id'')
               else Err (Duplicate ''Validator already exists for owner and cluster'')))"

text \<open>\<open>IndexSet::from_iter\<close> keeps the first occurrence of every element.\<close>

definition index_set :: "'a list \<Rightarrow> 'a list" where
  "index_set xs = rev (remdups (rev xs))"

lemma index_set_distinct [simp]: "distinct xs \<Longrightarrow> index_set xs = xs"
  by (simp add: index_set_def distinct_remdups_id)

text \<open>The slashing database is written at once; its failure is fatal for the batch.\<close>

definition register_validator :: "('k, 'f, 'g) eth_env \<Rightarrow> pubkey \<Rightarrow> 'k block_state \<Rightarrow> 'k handler_result" where
  "register_validator env pk s =
     (if en_register_validator env pk
      then (s\<lparr>bs_registered := pk # bs_registered s\<rparr>, Ok ())
      else (s, Err (Database (SQLError ''slashing db''))))"

definition process_validator_added ::
    "('k, 'f::field, 'g::ab_group_add) eth_env \<Rightarrow> mode \<Rightarrow> 'k network_database \<Rightarrow> log \<Rightarrow> 'k block_state \<Rightarrow> 'k handler_result" where
  "process_validator_added env mode nd log s =
     (case lg_decoded log of
        Some (ValidatorAdded owner operatorIds publicKey shares) \<Rightarrow>
          and_then (on_tx (bump_and_get_nonce_tx owner) s) (\<lambda>s nonce.
          if mode = KeySplit then (s, Ok ())
          else
            and_then (s, parse_validator_pubkey env publicKey) (\<lambda>s validator_pubkey.
            let cid = compute_cluster_id (en_keccak256 env) owner operatorIds in
            and_then (s, validate_operators operatorIds (bs_tx s)) (\<lambda>s _.
            and_then (s, map_err_o InvalidEvent
                (parse_shares (en_pubkey_deserialize env) shares operatorIds cid validator_pubkey)) (\<lambda>s (signature, shares).
            if \<not> verify_signature env signature nonce owner validator_pubkey
            then (s, Err (InvalidEvent ''Signature verification failed''))
            else
              and_then (s, map_err_o (\<lambda>_. InvalidEvent ''Invalid share public keys'')
                 (validate_share_public_keys (cv_smul (en_curve env)) (cv_key_validate (en_curve env)) validator_pubkey
                    (map (\<lambda>sh. (sh_operator_id sh, sh_share_pubkey sh)) shares))) (\<lambda>s _.
              and_then (s, validate_validator_added_conflict owner validator_pubkey cid (bs_tx s)) (\<lambda>s _.
              let metadata = construct_validator_metadata validator_pubkey cid;
                  fee_recipient = (case fee_recipient_for_owner owner (bs_tx s) of Some a \<Rightarrow> a | None \<Rightarrow> owner);
                  cluster = \<lparr>cl_cluster_id = cid, cl_owner = owner, cl_fee_recipient = fee_recipient,
                             cl_liquidated = False, cl_cluster_members = index_set operatorIds\<rparr>
              in and_then (register_validator env validator_pubkey s) (\<lambda>s _.
                 and_then (on_tx (insert_validator_tx nd cluster metadata shares) s) (\<lambda>s _.
                 push_action (IndexSync validator_pubkey) s))))))))
      | _ \<Rightarrow> (s, Err EthDecodeError))"

definition process_validator_removed ::
    "('k, 'f, 'g) eth_env \<Rightarrow> log \<Rightarrow> 'k block_state \<Rightarrow> 'k handler_result" where
  "process_validator_removed env log s =
     (case lg_decoded log of
        Some (ValidatorRemoved owner operatorIds publicKey) \<Rightarrow>
          and_then (s, parse_validator_pubkey env publicKey) (\<lambda>s validator_pubkey.
          case get_validator_metadata_tx validator_pubkey (bs_tx s) of
            None \<Rightarrow> (s, Err (MissingCommittedState ''Failed to fetch validator metadata from database''))
          | Some metadata \<Rightarrow>
              (case get_cluster_by_validator_tx validator_pubkey (bs_tx s) of
                 None \<Rightarrow> (s, Err (MissingCommittedState ''Failed to fetch cluster from database''))
               | Some cluster \<Rightarrow>
                   if owner \<noteq> cl_owner cluster
                   then (s, Err (InvalidEvent ''Cluster already exists with a different owner address''))
                   else if validator_pubkey \<noteq> vm_public_key metadata
                   then (s, Err (InvalidEvent ''Validator does not match''))
                   else on_tx (delete_validator_tx validator_pubkey) s))
      | _ \<Rightarrow> (s, Err EthDecodeError))"

subsection \<open>Clusters, fee recipients, exits\<close>

definition process_cluster_liquidated ::
    "('k, 'f, 'g) eth_env \<Rightarrow> log \<Rightarrow> 'k block_state \<Rightarrow> 'k handler_result" where
  "process_cluster_liquidated env log s =
     (case lg_decoded log of
        Some (ClusterLiquidated owner operator_ids) \<Rightarrow>
          on_tx (update_status_tx (compute_cluster_id (en_keccak256 env) owner operator_ids) True) s
      | _ \<Rightarrow> (s, Err EthDecodeError))"

definition process_cluster_reactivated ::
    "('k, 'f, 'g) eth_env \<Rightarrow> log \<Rightarrow> 'k block_state \<Rightarrow> 'k handler_result" where
  "process_cluster_reactivated env log s =
     (case lg_decoded log of
        Some (ClusterReactivated owner operator_ids) \<Rightarrow>
          on_tx (update_status_tx (compute_cluster_id (en_keccak256 env) owner operator_ids) False) s
      | _ \<Rightarrow> (s, Err EthDecodeError))"

definition process_fee_recipient_updated :: "log \<Rightarrow> 'k block_state \<Rightarrow> 'k handler_result" where
  "process_fee_recipient_updated log s =
     (case lg_decoded log of
        Some (FeeRecipientAddressUpdated owner recipientAddress) \<Rightarrow>
          on_tx (update_fee_recipient_tx owner recipientAddress) s
      | _ \<Rightarrow> (s, Err EthDecodeError))"

definition verify_validator_owner ::
    "address \<Rightarrow> pubkey \<Rightarrow> cluster_id \<Rightarrow> 'k txn \<Rightarrow> (unit, execution_error) outcome" where
  "verify_validator_owner owner pk computed_cluster_id tx =
     (case get_cluster_by_validator_tx pk tx of
        None \<Rightarrow> Err (InvalidEvent ''Cluster not found for validator'')
      | Some cluster \<Rightarrow>
          if cl_cluster_id cluster \<noteq> computed_cluster_id
          then Err (InvalidEvent ''cluster id is not the same as the computed cluster id'')
          else if cl_liquidated cluster then Err (SkippedEvent ''Cluster is liquidated, skipping exit processing'')
          else if cl_owner cluster \<noteq> owner
          then Err (InvalidEvent ''owner does not match the registered owner'')
          else Ok ())"

definition get_validator_index :: "pubkey \<Rightarrow> 'k txn \<Rightarrow> (validator_index option, execution_error) outcome" where
  "get_validator_index pk tx =
     (case get_validator_metadata_tx pk tx of
        None \<Rightarrow> Err (InvalidEvent ''Validator metadata not found'')
      | Some metadata \<Rightarrow> Ok (vm_index metadata))"

definition is_our_validator :: "'k network_database \<Rightarrow> pubkey \<Rightarrow> 'k txn \<Rightarrow> (bool, execution_error) outcome" where
  "is_our_validator nd pk tx = map_err_o Database (has_own_share_tx nd pk tx)"

definition process_validator_exited ::
    "('k, 'f, 'g) eth_env \<Rightarrow> mode \<Rightarrow> 'k network_database \<Rightarrow> bool \<Rightarrow> log \<Rightarrow> 'k block_state \<Rightarrow> 'k handler_result" where
  "process_validator_exited env mode nd live log s =
     (if mode = KeySplit then (s, Ok ())
      else case lg_decoded log of
        Some (ValidatorExited owner operatorIds publicKey) \<Rightarrow>
          and_then (s, parse_validator_pubkey env publicKey) (\<lambda>s validator_pubkey.
          let computed_cluster_id = compute_cluster_id (en_keccak256 env) owner operatorIds in
          and_then (s, verify_validator_owner owner validator_pubkey computed_cluster_id (bs_tx s)) (\<lambda>s _.
          and_then (s, validate_operators operatorIds (bs_tx s)) (\<lambda>s _.
          and_then (s, ok_or (InvalidEvent ''Block timestamp not set'') (lg_block_timestamp log)) (\<lambda>s block_timestamp.
          and_then (s, get_validator_index validator_pubkey (bs_tx s)) (\<lambda>s index.
          case index of
            None \<Rightarrow> (s, Ok ())
          | Some validator_index \<Rightarrow>
              and_then (s, is_our_validator nd validator_pubkey (bs_tx s)) (\<lambda>s ours.
              if \<not> live then (s, Ok ())
              else push_action (ValidatorExit
                     \<lparr>er_validator_pubkey = validator_pubkey, er_validator_index = validator_index,
                      er_block_timestamp = block_timestamp, er_is_our_validator = ours\<rparr>) s))))))
      | _ \<Rightarrow> (s, Err EthDecodeError))"

section \<open>Blocks and batches\<close>

definition dispatch_log ::
    "('k, 'f::field, 'g::ab_group_add) eth_env \<Rightarrow> mode \<Rightarrow> 'k network_database \<Rightarrow> bool \<Rightarrow> log \<Rightarrow> 'k block_state \<Rightarrow> 'k handler_result" where
  "dispatch_log env mode nd live log s =
     (case lg_topic0 log of
        None \<Rightarrow> (s, Ok ())
      | Some topic0 \<Rightarrow>
          (case topic0 of
             OperatorAddedTopic \<Rightarrow> process_operator_added env nd log s
           | OperatorRemovedTopic \<Rightarrow> process_operator_removed log s
           | ValidatorAddedTopic \<Rightarrow> process_validator_added env mode nd log s
           | ValidatorRemovedTopic \<Rightarrow> process_validator_removed env log s
           | ClusterLiquidatedTopic \<Rightarrow> process_cluster_liquidated env log s
           | ClusterReactivatedTopic \<Rightarrow> process_cluster_reactivated env log s
           | FeeRecipientAddressUpdatedTopic \<Rightarrow> process_fee_recipient_updated log s
           | ValidatorExitedTopic \<Rightarrow> process_validator_exited env mode nd live log s
           | UnknownTopic \<Rightarrow> (s, Ok ())))"

text \<open>An error skips its log, keeping what the handler wrote, unless its disposition is to abort.\<close>

definition process_log ::
    "('k, 'f::field, 'g::ab_group_add) eth_env \<Rightarrow> mode \<Rightarrow> 'k network_database \<Rightarrow> bool \<Rightarrow> 'k block_state \<Rightarrow> log \<Rightarrow> 'k handler_result" where
  "process_log env mode nd live s log =
     (case dispatch_log env mode nd live log s of
        (s, Err e) \<Rightarrow> if log_disposition e = AbortBatch then (s, Err e) else (s, Ok ())
      | r \<Rightarrow> r)"

text \<open>The processor with what it has written outside: slashing registrations and sent actions.\<close>

record 'k processor =
  pr_database :: "'k network_database"
  pr_registered :: "pubkey list"
  pr_sent :: "post_commit_action list"

definition open_block :: "'k processor \<Rightarrow> 'k block_state" where
  "open_block p = \<lparr>bs_tx = \<lparr>tx_db = nd_db (pr_database p), tx_updates = []\<rparr>, bs_actions = [],
     bs_registered = pr_registered p\<rparr>"

definition execute_post_commit_actions :: "mode \<Rightarrow> post_commit_action list \<Rightarrow> 'k processor \<Rightarrow> 'k processor" where
  "execute_post_commit_actions mode actions p =
     (case mode of Node \<Rightarrow> p\<lparr>pr_sent := pr_sent p @ actions\<rparr> | KeySplit \<Rightarrow> p)"

definition process_block_logs ::
    "('k, 'f::field, 'g::ab_group_add) eth_env \<Rightarrow> mode \<Rightarrow> bool \<Rightarrow> log list \<Rightarrow> u64 \<Rightarrow> 'k processor
     \<Rightarrow> 'k processor \<times> (unit, execution_error) outcome" where
  "process_block_logs env mode live logs block_number p =
     (case and_then (for_each_s (process_log env mode (pr_database p) live) (open_block p) logs) (\<lambda>s _.
             on_tx (processed_block_tx block_number) s) of
        (s, Err e) \<Rightarrow> (p\<lparr>pr_registered := bs_registered s\<rparr>, Err e)
      | (s, Panic) \<Rightarrow> (p\<lparr>pr_registered := bs_registered s\<rparr>, Panic)
      | (s, Ok _) \<Rightarrow>
          let p1 = p\<lparr>pr_registered := bs_registered s\<rparr> in
          if \<not> en_commit env block_number then (p1, Err (Database (SQLError ''commit'')))
          else
            let p2 = p1\<lparr>pr_database := (pr_database p1)\<lparr>nd_db := tx_db (bs_tx s)\<rparr>\<rparr> in
            case publish_pending_state_updates (en_sha256 env) (tx_updates (bs_tx s)) (nd_state (pr_database p2)) of
              None \<Rightarrow> (p2, Panic)
            | Some st \<Rightarrow>
                (execute_post_commit_actions mode (bs_actions s)
                   (p2\<lparr>pr_database := (pr_database p2)\<lparr>nd_state := st\<rparr>\<rparr>), Ok ()))"

text \<open>The buffered block, if there is one, and its logs.\<close>

definition flush_current_block_if_any ::
    "('k, 'f::field, 'g::ab_group_add) eth_env \<Rightarrow> mode \<Rightarrow> bool \<Rightarrow> u64 option \<Rightarrow> log list \<Rightarrow> 'k processor
     \<Rightarrow> 'k processor \<times> (u64 option, execution_error) outcome" where
  "flush_current_block_if_any env mode live current_block block_logs p =
     (case current_block of
        None \<Rightarrow> (p, Ok None)
      | Some block_number \<Rightarrow>
          and_then (process_block_logs env mode live block_logs block_number p) (\<lambda>p _. (p, Ok (Some block_number))))"

fun process_logs_loop ::
    "('k, 'f::field, 'g::ab_group_add) eth_env \<Rightarrow> mode \<Rightarrow> bool \<Rightarrow> u64 \<Rightarrow> u64 option \<Rightarrow> log list \<Rightarrow> log list \<Rightarrow> 'k processor
     \<Rightarrow> 'k processor \<times> (u64 option, execution_error) outcome" where
  "process_logs_loop env mode live end_block current_block block_logs [] p =
     flush_current_block_if_any env mode live current_block block_logs p"
| "process_logs_loop env mode live end_block current_block block_logs (log # logs) p =
     (let block_number = (case lg_block_number log of Some n \<Rightarrow> n | None \<Rightarrow> end_block) in
      if current_block \<noteq> None \<and> current_block \<noteq> Some block_number
      then and_then (flush_current_block_if_any env mode live current_block block_logs p) (\<lambda>p _.
             process_logs_loop env mode live end_block (Some block_number) [log] logs p)
      else process_logs_loop env mode live end_block (Some block_number) (block_logs @ [log]) logs p)"

definition process_logs ::
    "('k, 'f::field, 'g::ab_group_add) eth_env \<Rightarrow> mode \<Rightarrow> log list \<Rightarrow> bool \<Rightarrow> u64 \<Rightarrow> 'k processor
     \<Rightarrow> 'k processor \<times> (unit, execution_error) outcome" where
  "process_logs env mode logs live end_block p =
     and_then (process_logs_loop env mode live end_block None [] logs p) (\<lambda>p last_flushed_block.
       if last_flushed_block \<noteq> Some end_block then process_block_logs env mode live [] end_block p
       else (p, Ok ()))"

end
