(* ===== verification/Db_Inv.thy ===== *)
theory Db_Inv
  imports Event_Processor
begin

text \<open>
  The invariant of the tables: keys are unique, every reference has its row, no cluster is left
  without a validator or a member, every validator has a share for each member of its cluster, and
  a cluster's id names its owner and members. Every operation on a transaction preserves it.
\<close>

section \<open>Tables as maps\<close>

named_theorems table_simps

lemma in_keys_iff: "k \<in> fst ` set t \<longleftrightarrow> map_of t k \<noteq> None"
  by (simp add: map_of_eq_None_iff)

lemma map_of_snoc [table_simps]: "map_of t k = None \<Longrightarrow> map_of (t @ [(k, v)]) = (map_of t)(k \<mapsto> v)"
  by (auto simp: map_add_def fun_eq_iff split: option.splits)

lemma distinct_keys_snoc [table_simps]:
  "distinct (map fst (t @ [(k, v)])) \<longleftrightarrow> distinct (map fst t) \<and> map_of t k = None"
  by (auto simp: map_of_eq_None_iff)

lemma map_of_delete_key [table_simps]: "map_of (filter (\<lambda>(j, _). j \<noteq> k) t) = (map_of t)(k := None)"
  by (induction t) (auto simp: fun_eq_iff)

lemma map_of_filter_rows:
  assumes "distinct (map fst t)"
  shows "map_of (filter (\<lambda>(k, r). P k r) t) k =
    (case map_of t k of None \<Rightarrow> None | Some r \<Rightarrow> if P k r then Some r else None)"
  using assms
proof (induction t)
  case (Cons kr t)
  obtain j r where kr: "kr = (j, r)" by (cases kr)
  have "map_of (filter (\<lambda>(k, r). P k r) t) j = None" if "j \<notin> fst ` set t"
    using that by (auto simp: map_of_eq_None_iff)
  with Cons kr show ?case by auto
qed simp

lemma distinct_keys_filter [simp]: "distinct (map fst t) \<Longrightarrow> distinct (map fst (filter P t))"
  by (rule distinct_map_filter)

lemma row_in_table: "distinct (map fst t) \<Longrightarrow> (k, r) \<in> set t \<longleftrightarrow> map_of t k = Some r"
  by (simp add: map_of_eq_Some_iff)

lemma ball_rows: "distinct (map fst t) \<Longrightarrow> (\<forall>(k, r) \<in> set t. P k r) \<longleftrightarrow> (\<forall>k r. map_of t k = Some r \<longrightarrow> P k r)"
  by (auto simp: map_of_eq_Some_iff)

lemma bex_rows: "distinct (map fst t) \<Longrightarrow> (\<exists>(k, r) \<in> set t. P k r) \<longleftrightarrow> (\<exists>k r. map_of t k = Some r \<and> P k r)"
  by (auto simp: map_of_eq_Some_iff)

lemma set_GET_CLUSTER_MEMBERS [simp]: "set (GET_CLUSTER_MEMBERS cid db) = {i. (cid, i) \<in> set (db_cluster_members db)}"
  by (force simp: GET_CLUSTER_MEMBERS_def)

lemma distinct_GET_CLUSTER_MEMBERS: "distinct (db_cluster_members db) \<Longrightarrow> distinct (GET_CLUSTER_MEMBERS cid db)"
  by (auto simp: GET_CLUSTER_MEMBERS_def distinct_map inj_on_def)

section \<open>Cluster ids\<close>

lemma length_u64_to_be_bytes [simp]: "length (u64_to_be_bytes w) = 8"
  by (simp add: u64_to_be_bytes_def u64_to_le_bytes_def)

lemma u64_to_be_bytes_inj: "u64_to_be_bytes v = u64_to_be_bytes w \<Longrightarrow> v = w"
  by (metis rev_rev_ident u64_le_roundtrip u64_to_be_bytes_def)

lemma concat_fixed_inj:
  assumes "\<And>x. length (f x) = Suc n" "inj f"
  shows "concat (map f xs) = concat (map f ys) \<Longrightarrow> xs = ys"
proof (induction xs arbitrary: ys)
  case Nil
  then show ?case using assms(1) [of "hd ys"] by (cases ys) auto
next
  case (Cons x xs)
  show ?case
  proof (cases ys)
    case Nil
    then show ?thesis using Cons.prems assms(1) [of x] by auto
  next
    case (Cons y zs)
    then have "f x @ concat (map f xs) = f y @ concat (map f zs)" using Cons.prems by simp
    then have "f x = f y" "concat (map f xs) = concat (map f zs)" using assms(1) by auto
    then show ?thesis using Cons.IH Cons assms(2) by (auto dest: injD)
  qed
qed

lemma concat_words_inj:
  "concat (map (\<lambda>i. replicate 24 0 @ u64_to_be_bytes i) xs) = concat (map (\<lambda>i. replicate 24 0 @ u64_to_be_bytes i) ys)
   \<Longrightarrow> xs = ys"
  by (rule concat_fixed_inj [where n = 31]) (auto simp: inj_on_def dest: u64_to_be_bytes_inj)

lemma compute_cluster_id_sort: "compute_cluster_id keccak256 owner ids =
    keccak256 (owner @ concat (map (\<lambda>i. replicate 24 0 @ u64_to_be_bytes i) (sort ids)))"
  by (simp add: compute_cluster_id_def sort_key_id_if_sorted Let_def)

lemma compute_cluster_id_inj:
  assumes "inj keccak256" "length owner = length owner'"
    and "compute_cluster_id keccak256 owner ids = compute_cluster_id keccak256 owner' ids'"
  shows "owner = owner'" "mset ids = mset ids'"
proof -
  have "owner @ concat (map (\<lambda>i. replicate 24 0 @ u64_to_be_bytes i) (sort ids)) =
        owner' @ concat (map (\<lambda>i. replicate 24 0 @ u64_to_be_bytes i) (sort ids'))"
    using assms(1,3) by (simp add: compute_cluster_id_sort inj_eq)
  with assms(2) have "owner = owner'" "sort ids = sort ids'" by (auto dest: concat_words_inj)
  then show "owner = owner'" "mset ids = mset ids'" by (simp, metis mset_sort)
qed

section \<open>The invariant\<close>

definition keys_ok :: "'k sql_db \<Rightarrow> bool" where
  "keys_ok db \<longleftrightarrow>
     distinct (map fst (db_operators db)) \<and> distinct (map fst (db_owners db)) \<and> distinct (map fst (db_clusters db))
     \<and> distinct (db_cluster_members db) \<and> distinct (map fst (db_validators db)) \<and> distinct (map fst (db_shares db))"

definition operators_ok :: "'k sql_db \<Rightarrow> bool" where
  "operators_ok db \<longleftrightarrow>
     (\<forall>i j r r'. map_of (db_operators db) i = Some r \<longrightarrow> map_of (db_operators db) j = Some r' \<longrightarrow>
        or_public_key r = or_public_key r' \<longrightarrow> i = j)
     \<and> (\<forall>i r. map_of (db_operators db) i = Some r \<longrightarrow> unat i < 2 ^ 63)"

definition owners_ok :: "'k sql_db \<Rightarrow> bool" where
  "owners_ok db \<longleftrightarrow>
     (\<forall>owner r n. map_of (db_owners db) owner = Some r \<longrightarrow> ow_nonce r = Some n \<longrightarrow> n < 2 ^ 16)"

text \<open>A cluster of the contract: its id is computed from the owner and the distinct operator ids.\<close>

definition names_cluster :: "(bytes \<Rightarrow> bytes) \<Rightarrow> cluster_id \<Rightarrow> address \<Rightarrow> operator_id set \<Rightarrow> bool" where
  "names_cluster keccak256 cid owner members \<longleftrightarrow>
     length owner = 20 \<and> (\<exists>ids. cid = compute_cluster_id keccak256 owner ids \<and> set ids = members \<and> ids \<noteq> [])"

lemma names_cluster_unique:
  assumes "inj keccak256" "names_cluster keccak256 cid owner members" "names_cluster keccak256 cid owner' members'"
  shows "owner = owner'" "members = members'"
  using assms compute_cluster_id_inj [OF assms(1)] unfolding names_cluster_def
  by (metis, metis set_mset_mset)

definition members_of :: "'k sql_db \<Rightarrow> cluster_id \<Rightarrow> operator_id set" where
  "members_of db cid = {i. (cid, i) \<in> set (db_cluster_members db)}"

definition clusters_ok :: "(bytes \<Rightarrow> bytes) \<Rightarrow> 'k sql_db \<Rightarrow> bool" where
  "clusters_ok keccak256 db \<longleftrightarrow>
     (\<forall>cid r. map_of (db_clusters db) cid = Some r \<longrightarrow>
        names_cluster keccak256 cid (cr_owner r) (members_of db cid)
        \<and> (\<exists>pk v. map_of (db_validators db) pk = Some v \<and> vr_cluster_id v = cid))
     \<and> (\<forall>cid i. (cid, i) \<in> set (db_cluster_members db) \<longrightarrow>
          map_of (db_clusters db) cid \<noteq> None \<and> map_of (db_operators db) i \<noteq> None)"

text \<open>The share public keys of a validator, in the order of their rows.\<close>

definition share_pubkeys_of :: "'k sql_db \<Rightarrow> pubkey \<Rightarrow> (operator_id \<times> pubkey) list" where
  "share_pubkeys_of db pk =
     map (\<lambda>((_, i), r). (i, sr_share_pubkey r)) (filter (\<lambda>((v, _), _). v = pk) (db_shares db))"

definition validators_ok :: "('f::field, 'g::ab_group_add) curve \<Rightarrow> 'k sql_db \<Rightarrow> bool" where
  "validators_ok cv db \<longleftrightarrow>
     (\<forall>pk v. map_of (db_validators db) pk = Some v \<longrightarrow>
        map_of (db_clusters db) (vr_cluster_id v) \<noteq> None
        \<and> (\<forall>i. map_of (db_shares db) (pk, i) \<noteq> None \<longleftrightarrow> i \<in> members_of db (vr_cluster_id v))
        \<and> validate_share_public_keys (cv_smul cv) (cv_key_validate cv) pk (share_pubkeys_of db pk) = Ok ())
     \<and> (\<forall>pk i s. map_of (db_shares db) (pk, i) = Some s \<longrightarrow>
          (\<exists>v. map_of (db_validators db) pk = Some v \<and> sr_cluster_id s = vr_cluster_id v))"

definition db_ok :: "(bytes \<Rightarrow> bytes) \<Rightarrow> ('f::field, 'g::ab_group_add) curve \<Rightarrow> 'k sql_db \<Rightarrow> bool" where
  "db_ok keccak256 cv db \<longleftrightarrow>
     keys_ok db \<and> operators_ok db \<and> owners_ok db \<and> clusters_ok keccak256 db \<and> validators_ok cv db"

lemma db_ok_initial: "db_ok keccak256 cv initial_db"
  unfolding db_ok_def
proof (intro conjI)
  show "keys_ok initial_db" by (simp add: keys_ok_def initial_db_def)
  show "operators_ok initial_db" by (simp add: operators_ok_def initial_db_def)
  show "owners_ok initial_db" by (simp add: owners_ok_def initial_db_def)
  show "clusters_ok keccak256 initial_db" by (simp add: clusters_ok_def initial_db_def)
  show "validators_ok cv initial_db" by (simp add: validators_ok_def initial_db_def)
qed

end
