(* ===== verification/Db_State.thy ===== *)
theory Db_State
  imports Db_Inv
begin

text \<open>
  The relation between the tables and the in-memory state, and that every update a transaction
  queues keeps it: whatever the transaction does to the rows, the queued updates do to the state.
  Members of a cluster are compared as sets, because the tables do not keep their order, and the
  secondary index of the clusters is compared at registered validators only, because the state
  keeps the entry of a removed validator while its cluster lives.
\<close>

section \<open>The view of the tables\<close>

definition cluster_key :: "'k sql_db \<Rightarrow> pubkey \<Rightarrow> cluster_id" where
  "cluster_key db pk = (case map_of (db_validators db) pk of Some v \<Rightarrow> vr_cluster_id v | None \<Rightarrow> [])"

definition owner_key :: "'k sql_db \<Rightarrow> cluster_id \<Rightarrow> address" where
  "owner_key db cid = (case map_of (db_clusters db) cid of Some r \<Rightarrow> cr_owner r | None \<Rightarrow> [])"

definition committee_key :: "(bytes \<Rightarrow> bytes) \<Rightarrow> 'k sql_db \<Rightarrow> cluster_id \<Rightarrow> committee_id" where
  "committee_key sha256 db cid = committee_id_of_vec sha256 (GET_CLUSTER_MEMBERS cid db)"

definition own_share :: "'k sql_db \<Rightarrow> operator_id option \<Rightarrow> pubkey \<rightharpoonup> share" where
  "own_share db own pk =
     (case own of None \<Rightarrow> None | Some i \<Rightarrow> map_option (share_from_row pk i) (map_of (db_shares db) (pk, i)))"

definition nonce_view :: "'k sql_db \<Rightarrow> address \<rightharpoonup> 16 word" where
  "nonce_view db owner = map_option of_nat (Option.bind (map_of (db_owners db) owner) ow_nonce)"

section \<open>Indices\<close>

text \<open>An index holds, for every stored key, the pair of its index key and itself.\<close>

definition index_is :: "('i \<times> 'p) set \<Rightarrow> ('p \<rightharpoonup> 'v) \<Rightarrow> ('p \<Rightarrow> 'i) \<Rightarrow> bool" where
  "index_is r m key \<longleftrightarrow> r = (\<lambda>p. (key p, p)) ` dom m"

lemma index_is_empty [simp]: "index_is {} Map.empty key"
  by (simp add: index_is_def)

lemma index_is_cong:
  assumes "index_is r m key" and "dom m' = dom m" and "\<And>q. m q \<noteq> None \<Longrightarrow> key' q = key q"
  shows "index_is r m' key'"
proof -
  have "(\<lambda>p. (key' p, p)) ` dom m = (\<lambda>p. (key p, p)) ` dom m"
    using assms(3) by (intro image_cong) auto
  then show ?thesis using assms(1,2) by (simp add: index_is_def)
qed

lemma index_is_insert:
  assumes "index_is r m key" and "\<And>q. m q \<noteq> None \<Longrightarrow> key' q = key q" and "key' p = i"
  shows "index_is (insert (i, p) r) (m(p \<mapsto> v)) key'"
proof -
  have "index_is r m key'" by (rule index_is_cong [OF assms(1) refl assms(2)])
  then show ?thesis using assms(3) by (simp add: index_is_def)
qed

lemma index_is_remove:
  assumes "index_is r m key" and "\<And>q. q \<noteq> p \<Longrightarrow> m q \<noteq> None \<Longrightarrow> key' q = key q"
  shows "index_is {(i, q) \<in> r. q \<noteq> p} (m(p := None)) key'"
proof -
  have "{(i, q) \<in> r. q \<noteq> p} = (\<lambda>q. (key q, q)) ` dom (m(p := None))"
    using assms(1) by (auto simp: index_is_def)
  then have "index_is {(i, q) \<in> r. q \<noteq> p} (m(p := None)) key" by (simp add: index_is_def)
  then show ?thesis by (rule index_is_cong) (use assms(2) in \<open>auto split: if_splits\<close>)
qed

lemma index_is_keys: "index_is (multi_rel r) m key \<Longrightarrow> keys_of r i = {p. m p \<noteq> None \<and> key p = i}"
  by (auto simp: index_is_def keys_of_rel)

section \<open>The relation\<close>

definition metadata_matches :: "(bytes \<Rightarrow> bytes) \<Rightarrow> 'k sql_db \<Rightarrow> metadata_map \<Rightarrow> bool" where
  "metadata_matches sha256 db m \<longleftrightarrow>
     mi_primary m = (\<lambda>pk. map_option (metadata_from_row pk) (map_of (db_validators db) pk))
     \<and> index_is (multi_rel (mi_secondary_multi m)) (mi_primary m) (cluster_key db)
     \<and> index_is (multi_rel (mi_tertiary_multi m)) (mi_primary m) (owner_key db \<circ> cluster_key db)
     \<and> index_is (multi_rel (mi_quaternary_multi m)) (mi_primary m) (committee_key sha256 db \<circ> cluster_key db)"

text \<open>Equal clusters but for the order of the members.\<close>

definition cluster_like :: "cluster \<Rightarrow> cluster \<Rightarrow> bool" where
  "cluster_like c d \<longleftrightarrow>
     c\<lparr>cl_cluster_members := []\<rparr> = d\<lparr>cl_cluster_members := []\<rparr>
     \<and> set (cl_cluster_members c) = set (cl_cluster_members d)
     \<and> distinct (cl_cluster_members c) \<and> distinct (cl_cluster_members d)"

definition clusters_match :: "(bytes \<Rightarrow> bytes) \<Rightarrow> 'k sql_db \<Rightarrow> cluster_map \<Rightarrow> bool" where
  "clusters_match sha256 db m \<longleftrightarrow>
     (\<forall>cid. rel_option cluster_like (mi_primary m cid) (map_option (cluster_from_row db cid) (map_of (db_clusters db) cid)))
     \<and> (\<forall>pk v. map_of (db_validators db) pk = Some v \<longrightarrow> mi_secondary_unique m pk = Some (vr_cluster_id v))
     \<and> index_is (multi_rel (mi_tertiary_multi m)) (mi_primary m) (owner_key db)
     \<and> index_is (multi_rel (mi_quaternary_multi m)) (mi_primary m) (committee_key sha256 db)"

definition shares_match :: "(bytes \<Rightarrow> bytes) \<Rightarrow> 'k sql_db \<Rightarrow> operator_id option \<Rightarrow> share_map \<Rightarrow> bool" where
  "shares_match sha256 db own m \<longleftrightarrow>
     mi_primary m = own_share db own
     \<and> index_is (multi_rel (mi_secondary_multi m)) (mi_primary m) (cluster_key db)
     \<and> index_is (multi_rel (mi_tertiary_multi m)) (mi_primary m) (owner_key db \<circ> cluster_key db)
     \<and> index_is (multi_rel (mi_quaternary_multi m)) (mi_primary m) (committee_key sha256 db \<circ> cluster_key db)"

definition own_clusters_of :: "'k sql_db \<Rightarrow> operator_id option \<Rightarrow> cluster_id set" where
  "own_clusters_of db own = cluster_key db ` dom (own_share db own)"

definition state_matches :: "(bytes \<Rightarrow> bytes) \<Rightarrow> 'k pubkey_or_id \<Rightarrow> 'k sql_db \<Rightarrow> 'k network_state \<Rightarrow> bool" where
  "state_matches sha256 operator db s \<longleftrightarrow>
     ns_last_processed_block s = db_block_number db \<and> ns_max_operator_id_seen s = db_max_operator_id_seen db
     \<and> ns_id s = own_operator_id_db operator db \<and> ns_operators s = fetch_operators db
     \<and> ns_nonces s = nonce_view db \<and> metadata_matches sha256 db (ns_validator_metadata s)
     \<and> clusters_match sha256 db (ns_clusters s) \<and> shares_match sha256 db (ns_id s) (ns_shares s)
     \<and> ns_own_clusters s = own_clusters_of db (ns_id s)"

text \<open>Two states that agree in everything a query can tell, the order of members apart.\<close>

definition same_view :: "'k network_state \<Rightarrow> 'k network_state \<Rightarrow> bool" where
  "same_view s t \<longleftrightarrow>
     ns_last_processed_block s = ns_last_processed_block t
     \<and> ns_max_operator_id_seen s = ns_max_operator_id_seen t
     \<and> ns_id s = ns_id t \<and> ns_operators s = ns_operators t \<and> ns_nonces s = ns_nonces t
     \<and> ns_own_clusters s = ns_own_clusters t
     \<and> mi_primary (ns_validator_metadata s) = mi_primary (ns_validator_metadata t)
     \<and> (\<forall>k. keys_of (mi_secondary_multi (ns_validator_metadata s)) k = keys_of (mi_secondary_multi (ns_validator_metadata t)) k)
     \<and> (\<forall>k. keys_of (mi_tertiary_multi (ns_validator_metadata s)) k = keys_of (mi_tertiary_multi (ns_validator_metadata t)) k)
     \<and> (\<forall>k. keys_of (mi_quaternary_multi (ns_validator_metadata s)) k = keys_of (mi_quaternary_multi (ns_validator_metadata t)) k)
     \<and> mi_primary (ns_shares s) = mi_primary (ns_shares t)
     \<and> (\<forall>k. keys_of (mi_secondary_multi (ns_shares s)) k = keys_of (mi_secondary_multi (ns_shares t)) k)
     \<and> (\<forall>k. keys_of (mi_tertiary_multi (ns_shares s)) k = keys_of (mi_tertiary_multi (ns_shares t)) k)
     \<and> (\<forall>k. keys_of (mi_quaternary_multi (ns_shares s)) k = keys_of (mi_quaternary_multi (ns_shares t)) k)
     \<and> (\<forall>cid. rel_option cluster_like (mi_primary (ns_clusters s) cid) (mi_primary (ns_clusters t) cid))
     \<and> (\<forall>pk \<in> dom (mi_primary (ns_validator_metadata s)).
          mi_secondary_unique (ns_clusters s) pk = mi_secondary_unique (ns_clusters t) pk)
     \<and> (\<forall>k. keys_of (mi_tertiary_multi (ns_clusters s)) k = keys_of (mi_tertiary_multi (ns_clusters t)) k)
     \<and> (\<forall>k. keys_of (mi_quaternary_multi (ns_clusters s)) k = keys_of (mi_quaternary_multi (ns_clusters t)) k)"

lemma cluster_like_sym: "cluster_like c d \<Longrightarrow> cluster_like d c"
  by (auto simp: cluster_like_def)

lemma cluster_like_join: "cluster_like a c \<Longrightarrow> cluster_like b c \<Longrightarrow> cluster_like a b"
  by (auto simp: cluster_like_def)

lemma clusters_match_same:
  assumes "clusters_match sha256 db m" "clusters_match sha256 db m'"
  shows "rel_option cluster_like (mi_primary m cid) (mi_primary m' cid)"
proof -
  have "rel_option cluster_like (mi_primary m cid) (map_option (cluster_from_row db cid) (map_of (db_clusters db) cid))"
    and "rel_option cluster_like (mi_primary m' cid) (map_option (cluster_from_row db cid) (map_of (db_clusters db) cid))"
    using assms unfolding clusters_match_def by blast+
  then show ?thesis
    by (auto simp: option_rel_Some2 elim!: option.rel_cases intro: cluster_like_join)
qed

lemma clusters_match_dom:
  assumes "clusters_match sha256 db m"
  shows "mi_primary m cid = None \<longleftrightarrow> map_of (db_clusters db) cid = None"
proof -
  have "rel_option cluster_like (mi_primary m cid) (map_option (cluster_from_row db cid) (map_of (db_clusters db) cid))"
    using assms unfolding clusters_match_def by blast
  then show ?thesis by (auto elim!: option.rel_cases)
qed

text \<open>The indices, read off the tables.\<close>

lemma metadata_keys:
  assumes "metadata_matches sha256 db m"
  shows "mi_primary m = (\<lambda>pk. map_option (metadata_from_row pk) (map_of (db_validators db) pk))"
    and "keys_of (mi_secondary_multi m) k = {pk. map_of (db_validators db) pk \<noteq> None \<and> cluster_key db pk = k}"
    and "keys_of (mi_tertiary_multi m) k' = {pk. map_of (db_validators db) pk \<noteq> None \<and> owner_key db (cluster_key db pk) = k'}"
    and "keys_of (mi_quaternary_multi m) k'' =
      {pk. map_of (db_validators db) pk \<noteq> None \<and> committee_key sha256 db (cluster_key db pk) = k''}"
proof -
  have p: "mi_primary m = (\<lambda>pk. map_option (metadata_from_row pk) (map_of (db_validators db) pk))"
    and i: "index_is (multi_rel (mi_secondary_multi m)) (mi_primary m) (cluster_key db)"
      "index_is (multi_rel (mi_tertiary_multi m)) (mi_primary m) (owner_key db \<circ> cluster_key db)"
      "index_is (multi_rel (mi_quaternary_multi m)) (mi_primary m) (committee_key sha256 db \<circ> cluster_key db)"
    using assms unfolding metadata_matches_def by blast+
  show "mi_primary m = (\<lambda>pk. map_option (metadata_from_row pk) (map_of (db_validators db) pk))" by (rule p)
  show "keys_of (mi_secondary_multi m) k = {pk. map_of (db_validators db) pk \<noteq> None \<and> cluster_key db pk = k}"
    "keys_of (mi_tertiary_multi m) k' = {pk. map_of (db_validators db) pk \<noteq> None \<and> owner_key db (cluster_key db pk) = k'}"
    "keys_of (mi_quaternary_multi m) k'' =
      {pk. map_of (db_validators db) pk \<noteq> None \<and> committee_key sha256 db (cluster_key db pk) = k''}"
    by (simp_all add: i [THEN index_is_keys] p)
qed

lemma share_keys:
  assumes "shares_match sha256 db own m"
  shows "mi_primary m = own_share db own"
    and "keys_of (mi_secondary_multi m) k = {pk. own_share db own pk \<noteq> None \<and> cluster_key db pk = k}"
    and "keys_of (mi_tertiary_multi m) k' = {pk. own_share db own pk \<noteq> None \<and> owner_key db (cluster_key db pk) = k'}"
    and "keys_of (mi_quaternary_multi m) k'' =
      {pk. own_share db own pk \<noteq> None \<and> committee_key sha256 db (cluster_key db pk) = k''}"
proof -
  have p: "mi_primary m = own_share db own"
    and i: "index_is (multi_rel (mi_secondary_multi m)) (mi_primary m) (cluster_key db)"
      "index_is (multi_rel (mi_tertiary_multi m)) (mi_primary m) (owner_key db \<circ> cluster_key db)"
      "index_is (multi_rel (mi_quaternary_multi m)) (mi_primary m) (committee_key sha256 db \<circ> cluster_key db)"
    using assms unfolding shares_match_def by blast+
  show "mi_primary m = own_share db own" by (rule p)
  show "keys_of (mi_secondary_multi m) k = {pk. own_share db own pk \<noteq> None \<and> cluster_key db pk = k}"
    "keys_of (mi_tertiary_multi m) k' = {pk. own_share db own pk \<noteq> None \<and> owner_key db (cluster_key db pk) = k'}"
    "keys_of (mi_quaternary_multi m) k'' =
      {pk. own_share db own pk \<noteq> None \<and> committee_key sha256 db (cluster_key db pk) = k''}"
    by (simp_all add: i [THEN index_is_keys] p)
qed

lemma cluster_keys:
  assumes "clusters_match sha256 db m"
  shows "keys_of (mi_tertiary_multi m) k = {cid. map_of (db_clusters db) cid \<noteq> None \<and> owner_key db cid = k}"
    and "keys_of (mi_quaternary_multi m) k' = {cid. map_of (db_clusters db) cid \<noteq> None \<and> committee_key sha256 db cid = k'}"
    and "map_of (db_validators db) pk = Some v \<Longrightarrow> mi_secondary_unique m pk = Some (vr_cluster_id v)"
proof -
  have *: "index_is (multi_rel (mi_tertiary_multi m)) (mi_primary m) (owner_key db)"
    "index_is (multi_rel (mi_quaternary_multi m)) (mi_primary m) (committee_key sha256 db)"
    using assms unfolding clusters_match_def by blast+
  show "keys_of (mi_tertiary_multi m) k = {cid. map_of (db_clusters db) cid \<noteq> None \<and> owner_key db cid = k}"
    "keys_of (mi_quaternary_multi m) k' = {cid. map_of (db_clusters db) cid \<noteq> None \<and> committee_key sha256 db cid = k'}"
    by (simp_all add: index_is_keys [OF *(1)] index_is_keys [OF *(2)] clusters_match_dom [OF assms])
  show "map_of (db_validators db) pk = Some v \<Longrightarrow> mi_secondary_unique m pk = Some (vr_cluster_id v)"
    using assms unfolding clusters_match_def by blast
qed

lemma state_matchesD:
  assumes "state_matches sha256 operator db s"
  shows "ns_last_processed_block s = db_block_number db" "ns_max_operator_id_seen s = db_max_operator_id_seen db"
    "ns_id s = own_operator_id_db operator db" "ns_operators s = fetch_operators db" "ns_nonces s = nonce_view db"
    "metadata_matches sha256 db (ns_validator_metadata s)" "clusters_match sha256 db (ns_clusters s)"
    "shares_match sha256 db (own_operator_id_db operator db) (ns_shares s)"
    "ns_own_clusters s = own_clusters_of db (own_operator_id_db operator db)"
  using assms by (auto simp: state_matches_def)

lemma matches_same_view:
  assumes s: "state_matches sha256 operator db s" and t: "state_matches sha256 operator db t"
  shows "same_view s t"
proof -
  note sd = state_matchesD [OF s] and td = state_matchesD [OF t]
  have "mi_secondary_unique (ns_clusters s) pk = mi_secondary_unique (ns_clusters t) pk"
    if pk: "pk \<in> dom (mi_primary (ns_validator_metadata s))" for pk
  proof -
    obtain v where "map_of (db_validators db) pk = Some v"
      using pk by (auto simp: metadata_keys(1) [OF sd(6)])
    then show ?thesis using cluster_keys(3) [OF sd(7)] cluster_keys(3) [OF td(7)] by simp
  qed
  then show ?thesis
    unfolding same_view_def metadata_keys [OF sd(6)] metadata_keys [OF td(6)] share_keys [OF sd(8)] share_keys [OF td(8)]
      cluster_keys(1,2) [OF sd(7)] cluster_keys(1,2) [OF td(7)] sd(1-5,9) td(1-5,9)
    using clusters_match_same [OF sd(7) td(7)] by simp
qed

end
