(* ===== verification/Db_Steps.thy ===== *)
theory Db_Steps
  imports Db_State
begin

text \<open>
  Every operation on a transaction keeps the tables well-formed and keeps the state, brought up to
  date with the queued updates, in step with them.
\<close>

section \<open>Views that an operation leaves alone\<close>

lemma cluster_key_cong: "db_validators db' = db_validators db \<Longrightarrow> cluster_key db' = cluster_key db"
  by (simp add: cluster_key_def fun_eq_iff)

lemma owner_key_cong: "db_clusters db' = db_clusters db \<Longrightarrow> owner_key db' = owner_key db"
  by (simp add: owner_key_def fun_eq_iff)

lemma members_cong: "db_cluster_members db' = db_cluster_members db \<Longrightarrow> GET_CLUSTER_MEMBERS cid db' = GET_CLUSTER_MEMBERS cid db"
  by (simp add: GET_CLUSTER_MEMBERS_def)

lemma committee_key_cong:
  "db_cluster_members db' = db_cluster_members db \<Longrightarrow> committee_key sha256 db' = committee_key sha256 db"
  by (simp add: committee_key_def GET_CLUSTER_MEMBERS_def fun_eq_iff)

lemma own_share_cong: "db_shares db' = db_shares db \<Longrightarrow> own_share db' own = own_share db own"
  by (cases own) (simp_all add: own_share_def fun_eq_iff)

lemma metadata_matches_cong:
  assumes "db_validators db' = db_validators db" "owner_key db' = owner_key db"
    "db_cluster_members db' = db_cluster_members db"
  shows "metadata_matches sha256 db' m = metadata_matches sha256 db m"
  unfolding metadata_matches_def cluster_key_cong [OF assms(1)] committee_key_cong [OF assms(3)] assms ..

lemma shares_match_cong:
  assumes "db_validators db' = db_validators db" "owner_key db' = owner_key db"
    "db_cluster_members db' = db_cluster_members db" "own_share db' own' = own_share db own"
  shows "shares_match sha256 db' own' m = shares_match sha256 db own m"
  unfolding shares_match_def cluster_key_cong [OF assms(1)] committee_key_cong [OF assms(3)] assms ..

lemma clusters_match_cong:
  assumes "db_validators db' = db_validators db" "db_clusters db' = db_clusters db"
    "db_cluster_members db' = db_cluster_members db"
    "\<And>cid r. map_of (db_clusters db) cid = Some r \<Longrightarrow> owner_fee_recipient (cr_owner r) db' = owner_fee_recipient (cr_owner r) db"
  shows "clusters_match sha256 db' m = clusters_match sha256 db m"
proof -
  have "map_option (cluster_from_row db' cid) (map_of (db_clusters db) cid) =
      map_option (cluster_from_row db cid) (map_of (db_clusters db) cid)" for cid
    using assms(4) by (cases "map_of (db_clusters db) cid") (auto simp: cluster_from_row_def members_cong [OF assms(3)])
  then show ?thesis
    by (simp add: clusters_match_def assms(1,2) owner_key_cong [OF assms(2)] committee_key_cong [OF assms(3)])
qed

lemma own_clusters_cong:
  assumes "db_validators db' = db_validators db" "own_share db' own' = own_share db own"
  shows "own_clusters_of db' own' = own_clusters_of db own"
  by (simp add: own_clusters_of_def assms(2) cluster_key_cong [OF assms(1)])

text \<open>The validators, clusters, members and shares stay as they are.\<close>

definition same_rows :: "'k sql_db \<Rightarrow> 'k sql_db \<Rightarrow> bool" where
  "same_rows db db' \<longleftrightarrow>
     db_validators db' = db_validators db \<and> db_clusters db' = db_clusters db
     \<and> db_cluster_members db' = db_cluster_members db \<and> db_shares db' = db_shares db"

lemma state_matches_same_rows:
  assumes "state_matches sha256 operator db s" "same_rows db db'"
    and "\<And>cid r. map_of (db_clusters db) cid = Some r \<Longrightarrow> owner_fee_recipient (cr_owner r) db' = owner_fee_recipient (cr_owner r) db"
    and "own_share db (own_operator_id_db operator db') = own_share db (own_operator_id_db operator db)"
    and "ns_validator_metadata s' = ns_validator_metadata s" "ns_clusters s' = ns_clusters s" "ns_shares s' = ns_shares s"
    and "ns_own_clusters s' = ns_own_clusters s" "ns_id s' = own_operator_id_db operator db'"
    and "ns_last_processed_block s' = db_block_number db'" "ns_max_operator_id_seen s' = db_max_operator_id_seen db'"
    and "ns_operators s' = fetch_operators db'" "ns_nonces s' = nonce_view db'"
  shows "state_matches sha256 operator db' s'"
proof -
  note d = state_matchesD [OF assms(1)]
  have rows: "db_validators db' = db_validators db" "db_clusters db' = db_clusters db"
    "db_cluster_members db' = db_cluster_members db" "db_shares db' = db_shares db"
    using assms(2) by (simp_all add: same_rows_def)
  have own: "own_share db' (own_operator_id_db operator db') = own_share db (own_operator_id_db operator db)"
    using assms(4) own_share_cong [OF rows(4)] by simp
  show ?thesis
    unfolding state_matches_def assms(5-13)
    using d metadata_matches_cong [OF rows(1) owner_key_cong [OF rows(2)] rows(3)]
      shares_match_cong [OF rows(1) owner_key_cong [OF rows(2)] rows(3) own]
      clusters_match_cong [OF rows(1,2,3) assms(3)] own_clusters_cong [OF rows(1) own]
    by simp
qed

section \<open>Transactions in step with the state\<close>

definition tx_ok ::
    "(bytes \<Rightarrow> bytes) \<Rightarrow> ('f::field, 'g::ab_group_add) curve \<Rightarrow> (bytes \<Rightarrow> bytes) \<Rightarrow> 'k pubkey_or_id \<Rightarrow> 'k network_state \<Rightarrow> 'k txn \<Rightarrow> bool" where
  "tx_ok keccak256 cv sha256 operator s0 tx \<longleftrightarrow>
     db_ok keccak256 cv (tx_db tx)
     \<and> (\<exists>s. apply_updates sha256 (tx_updates tx) s0 = Some s \<and> state_matches sha256 operator (tx_db tx) s)"

lemma tx_ok_quiet:
  assumes "tx_ok keccak256 cv sha256 operator s0 tx" "db_ok keccak256 cv db'"
    and "\<And>s. state_matches sha256 operator (tx_db tx) s \<Longrightarrow> state_matches sha256 operator db' s"
  shows "tx_ok keccak256 cv sha256 operator s0 (tx\<lparr>tx_db := db'\<rparr>)"
  using assms by (auto simp: tx_ok_def)

lemma tx_ok_queue:
  assumes "tx_ok keccak256 cv sha256 operator s0 tx" "db_ok keccak256 cv db'"
    and "\<And>s. state_matches sha256 operator (tx_db tx) s \<Longrightarrow>
           \<exists>s'. apply_update sha256 u s = Some s' \<and> state_matches sha256 operator db' s'"
  shows "tx_ok keccak256 cv sha256 operator s0 (tx\<lparr>tx_db := db', tx_updates := tx_updates tx @ [u]\<rparr>)"
proof -
  obtain s where s: "apply_updates sha256 (tx_updates tx) s0 = Some s" "state_matches sha256 operator (tx_db tx) s"
    using assms(1) by (auto simp: tx_ok_def)
  obtain s' where "apply_update sha256 u s = Some s'" "state_matches sha256 operator db' s'"
    using assms(3) [OF s(2)] by blast
  then show ?thesis using assms(2) s(1) by (auto simp: tx_ok_def apply_updates_append)
qed

text \<open>Publishing never forgets the own operator id.\<close>

lemma apply_update_id: "apply_update sha256 u s = Some s' \<Longrightarrow> ns_id s = Some i \<Longrightarrow> ns_id s' = Some i"
  by (cases u) (auto simp: Let_def apply_insert_validator_def apply_delete_validator_def
      split: if_splits option.splits prod.splits)

lemma apply_updates_id: "apply_updates sha256 us s = Some s' \<Longrightarrow> ns_id s = Some i \<Longrightarrow> ns_id s' = Some i"
  by (induction us arbitrary: s) (auto dest: apply_update_id split: option.splits)

lemma own_operator_id_tx:
  assumes "tx_ok keccak256 cv sha256 (nd_operator nd) (nd_state nd) tx"
  shows "get_own_operator_id_tx nd tx = own_operator_id_db (nd_operator nd) (tx_db tx)"
proof -
  obtain s where s: "apply_updates sha256 (tx_updates tx) (nd_state nd) = Some s"
    "state_matches sha256 (nd_operator nd) (tx_db tx) s"
    using assms by (auto simp: tx_ok_def)
  show ?thesis
    using apply_updates_id [OF s(1)] state_matchesD(3) [OF s(2)]
    by (auto simp: get_own_operator_id_tx_def get_own_id_def split: option.split)
qed

section \<open>Metadata, skipped operators, owners\<close>

lemma db_ok_same_rows:
  assumes "db_ok keccak256 cv db" "same_rows db db'" "db_operators db' = db_operators db"
    and "distinct (map fst (db_owners db'))" "owners_ok db'"
  shows "db_ok keccak256 cv db'"
proof -
  have rows: "db_validators db' = db_validators db" "db_clusters db' = db_clusters db"
    "db_cluster_members db' = db_cluster_members db" "db_shares db' = db_shares db"
    using assms(2) by (simp_all add: same_rows_def)
  have "operators_ok db' = operators_ok db" "clusters_ok keccak256 db' = clusters_ok keccak256 db"
    "validators_ok cv db' = validators_ok cv db"
    unfolding operators_ok_def clusters_ok_def validators_ok_def members_of_def share_pubkeys_of_def rows assms(3)
    by (rule refl)+
  then show ?thesis
    using assms(1,4,5) unfolding db_ok_def keys_ok_def rows assms(3) by blast
qed

lemma execute_Ok: "execute stmt tx = (tx', Ok u) \<longleftrightarrow> (\<exists>db. stmt (tx_db tx) = Ok db \<and> tx' = tx\<lparr>tx_db := db\<rparr>)"
  by (auto simp: execute_def split: outcome.splits)

lemma queue_update_Ok [simp]:
  "queue_update up tx = (tx', Ok u) \<longleftrightarrow> tx' = tx\<lparr>tx_updates := tx_updates tx @ [up]\<rparr>"
  by (auto simp: queue_update_def)

lemma sql_u64_Ok [simp]: "sql_u64 n = Ok u \<longleftrightarrow> unat n < 2 ^ 63"
  by (simp add: sql_u64_def)

lemmas tx_op_simps = and_then_Ok_iff execute_Ok

lemma operators_cong:
  assumes "db_operators db' = db_operators db"
  shows "own_operator_id_db operator db' = own_operator_id_db operator db" "fetch_operators db' = fetch_operators db"
  by (cases operator) (simp_all add: own_operator_id_db_def GET_OPERATOR_ID_def fetch_operators_def assms fun_eq_iff)

text \<open>An operation on the metadata row or an owner that leaves the fee recipients alone.\<close>

lemma tx_ok_small:
  assumes ok: "tx_ok keccak256 cv sha256 operator s0 tx" and same: "same_rows (tx_db tx) db'"
    and ops: "db_operators db' = db_operators (tx_db tx)" and owners: "distinct (map fst (db_owners db'))" "owners_ok db'"
    and fee: "\<And>owner. owner_fee_recipient owner db' = owner_fee_recipient owner (tx_db tx)"
    and upd: "\<And>s. apply_update sha256 u s = Some (f s)"
    and keep: "\<And>s. ns_validator_metadata (f s) = ns_validator_metadata s" "\<And>s. ns_clusters (f s) = ns_clusters s"
      "\<And>s. ns_shares (f s) = ns_shares s" "\<And>s. ns_own_clusters (f s) = ns_own_clusters s"
      "\<And>s. ns_id (f s) = ns_id s" "\<And>s. ns_operators (f s) = ns_operators s"
    and new: "\<And>s. state_matches sha256 operator (tx_db tx) s \<Longrightarrow>
      ns_last_processed_block (f s) = db_block_number db' \<and> ns_max_operator_id_seen (f s) = db_max_operator_id_seen db'
      \<and> ns_nonces (f s) = nonce_view db'"
  shows "tx_ok keccak256 cv sha256 operator s0 (tx\<lparr>tx_db := db', tx_updates := tx_updates tx @ [u]\<rparr>)"
proof (rule tx_ok_queue [OF ok])
  show "db_ok keccak256 cv db'"
    using ok db_ok_same_rows [OF _ same ops owners] by (auto simp: tx_ok_def)
  fix s assume s: "state_matches sha256 operator (tx_db tx) s"
  have "state_matches sha256 operator db' (f s)"
    using state_matchesD [OF s] new [OF s]
    by (intro state_matches_same_rows [OF s same]) (simp_all add: keep fee operators_cong [OF ops])
  then show "\<exists>s'. apply_update sha256 u s = Some s' \<and> state_matches sha256 operator db' s'" by (simp add: upd)
qed

lemma tx_ok_owners: "tx_ok keccak256 cv sha256 operator s0 tx \<Longrightarrow> distinct (map fst (db_owners (tx_db tx))) \<and> owners_ok (tx_db tx)"
  by (simp add: tx_ok_def db_ok_def keys_ok_def)

lemma processed_block_ok:
  assumes ok: "tx_ok keccak256 cv sha256 operator s0 tx" and run: "processed_block_tx n tx = (tx', Ok u)"
  shows "tx_ok keccak256 cv sha256 operator s0 tx'"
proof -
  have "tx' = tx\<lparr>tx_db := (tx_db tx)\<lparr>db_block_number := n\<rparr>, tx_updates := tx_updates tx @ [SetLastProcessedBlock n]\<rparr>"
    using run by (auto simp: processed_block_tx_def tx_op_simps UPDATE_BLOCK_NUMBER_def)
  then show ?thesis
    using tx_ok_owners [OF ok]
    by (simp, intro tx_ok_small [OF ok, where f = "\<lambda>s. s\<lparr>ns_last_processed_block := n\<rparr>"])
       (auto simp: same_rows_def owners_ok_def owner_fee_recipient_def nonce_view_def [abs_def] state_matchesD)
qed

lemma set_max_operator_id_seen_ok:
  assumes ok: "tx_ok keccak256 cv sha256 operator s0 tx" and run: "set_max_operator_id_seen_tx n tx = (tx', Ok u)"
  shows "tx_ok keccak256 cv sha256 operator s0 tx'"
proof -
  have "tx' = tx\<lparr>tx_db := (tx_db tx)\<lparr>db_max_operator_id_seen := Some n\<rparr>, tx_updates := tx_updates tx @ [SetMaxOperatorIdSeen n]\<rparr>"
    using run by (auto simp: set_max_operator_id_seen_tx_def tx_op_simps SET_MAX_OPERATOR_ID_SEEN_def)
  then show ?thesis
    using tx_ok_owners [OF ok]
    by (simp, intro tx_ok_small [OF ok, where f = "\<lambda>s. s\<lparr>ns_max_operator_id_seen := Some n\<rparr>"])
       (auto simp: same_rows_def owners_ok_def owner_fee_recipient_def nonce_view_def [abs_def] state_matchesD)
qed

text \<open>The rows of skipped operators have no part in the state.\<close>

lemma skipped_rows_ok:
  assumes ok: "tx_ok keccak256 cv sha256 operator s0 tx"
  shows "tx_ok keccak256 cv sha256 operator s0 (tx\<lparr>tx_db := (tx_db tx)\<lparr>db_skipped_operator_adds := rows\<rparr>\<rparr>)" (is "tx_ok _ _ _ _ _ (tx\<lparr>tx_db := ?db\<rparr>)")
proof (rule tx_ok_quiet [OF ok])
  have same: "same_rows (tx_db tx) ?db" by (simp add: same_rows_def)
  show "db_ok keccak256 cv ?db"
    using ok tx_ok_owners [OF ok] by (intro db_ok_same_rows [OF _ same]) (auto simp: tx_ok_def owners_ok_def)
  fix s assume s: "state_matches sha256 operator (tx_db tx) s"
  have ops: "db_operators ?db = db_operators (tx_db tx)" by simp
  show "state_matches sha256 operator ?db s"
    using state_matchesD [OF s]
    by (intro state_matches_same_rows [OF s same])
       (simp_all add: owner_fee_recipient_def nonce_view_def [abs_def] operators_cong [OF ops])
qed

lemma insert_skipped_ok:
  "tx_ok keccak256 cv sha256 operator s0 tx \<Longrightarrow> insert_skipped_operator_add_tx i reason tx = (tx', Ok u) \<Longrightarrow>
   tx_ok keccak256 cv sha256 operator s0 tx'"
  by (auto simp: insert_skipped_operator_add_tx_def tx_op_simps INSERT_SKIPPED_OPERATOR_ADD_def intro: skipped_rows_ok)

lemma delete_skipped_ok:
  "tx_ok keccak256 cv sha256 operator s0 tx \<Longrightarrow> delete_skipped_operator_add_tx i tx = (tx', Ok u) \<Longrightarrow>
   tx_ok keccak256 cv sha256 operator s0 tx'"
  by (auto simp: delete_skipped_operator_add_tx_def Let_def tx_op_simps DELETE_SKIPPED_OPERATOR_ADD_def intro: skipped_rows_ok)

section \<open>Owners\<close>

lemma map_of_map_entry: "map_of (AList.map_entry k f t) = (case map_of t k of None \<Rightarrow> map_of t | Some r \<Rightarrow> (map_of t)(k \<mapsto> f r))"
  by (induction t) (auto simp: fun_eq_iff split: option.splits)

lemma keys_map_entry [simp]: "map fst (AList.map_entry k f t) = map fst t"
  by (induction t) auto

text \<open>Writing the row of an owner: the row is changed if there is one, and made otherwise.\<close>

definition write_owner :: "address \<Rightarrow> (owner_row \<Rightarrow> owner_row) \<Rightarrow> owner_row \<Rightarrow> 'k sql_db \<Rightarrow> 'k sql_db" where
  "write_owner owner f new db =
     db\<lparr>db_owners := (if owner \<in> fst ` set (db_owners db) then AList.map_entry owner f (db_owners db)
                      else db_owners db @ [(owner, new)])\<rparr>"

lemma write_owner_rows:
  "map_of (db_owners (write_owner owner f new db)) =
     (map_of (db_owners db))(owner \<mapsto> (case map_of (db_owners db) owner of None \<Rightarrow> new | Some r \<Rightarrow> f r))"
  by (auto simp: write_owner_def in_keys_iff map_of_map_entry map_of_snoc simp del: map_of_append split: option.split)

lemma write_owner_others [simp]:
  "same_rows db (write_owner owner f new db)"
  "db_operators (write_owner owner f new db) = db_operators db"
  "db_block_number (write_owner owner f new db) = db_block_number db"
  "db_max_operator_id_seen (write_owner owner f new db) = db_max_operator_id_seen db"
  by (simp_all add: write_owner_def same_rows_def)

lemma write_owner_distinct [simp]:
  "distinct (map fst (db_owners db)) \<Longrightarrow> distinct (map fst (db_owners (write_owner owner f new db)))"
  by (auto simp: write_owner_def)

lemma bump_and_get_nonce_ok:
  assumes ok: "tx_ok keccak256 cv sha256 operator s0 tx" and run: "bump_and_get_nonce_tx owner tx = (tx', Ok nonce)"
  shows "tx_ok keccak256 cv sha256 operator s0 tx'"
proof -
  define db' where "db' = write_owner owner
    (\<lambda>r. r\<lparr>ow_nonce := Some (case ow_nonce r of None \<Rightarrow> 0 | Some n \<Rightarrow> n + 1)\<rparr>)
    \<lparr>ow_fee_recipient = None, ow_nonce = Some 0\<rparr> (tx_db tx)"
  have tx': "tx' = tx\<lparr>tx_db := db', tx_updates := tx_updates tx @ [SetOwnerNonce owner nonce]\<rparr>"
    and nonce: "GET_NONCE owner db' = Ok nonce"
    using run by (auto simp: bump_and_get_nonce_tx_def tx_op_simps BUMP_NONCE_def db'_def write_owner_def queue_update_def)
  obtain n where n: "Option.bind (map_of (db_owners db') owner) ow_nonce = Some n" "n < 2 ^ 16" "nonce = of_nat n"
    using nonce by (auto simp: GET_NONCE_def split: option.splits if_splits)
  have rows: "map_of (db_owners db') x = map_of (db_owners (tx_db tx)) x" if "x \<noteq> owner" for x
    using that by (simp add: db'_def write_owner_rows)
  have owners: "owners_ok db'"
    unfolding owners_ok_def
  proof (intro allI impI)
    fix x r m assume "map_of (db_owners db') x = Some r" "ow_nonce r = Some m"
    then show "m < 2 ^ 16"
      using tx_ok_owners [OF ok] n(1,2) rows by (cases "x = owner") (auto simp: owners_ok_def)
  qed
  have fee: "owner_fee_recipient x db' = owner_fee_recipient x (tx_db tx)" for x
    by (simp add: owner_fee_recipient_def db'_def write_owner_rows split: option.split)
  have view: "nonce_view db' = (nonce_view (tx_db tx))(owner \<mapsto> nonce)"
    using n rows by (auto simp: nonce_view_def fun_eq_iff)
  show ?thesis
    unfolding tx'
    by (rule tx_ok_small [OF ok, where f = "\<lambda>s. s\<lparr>ns_nonces := (ns_nonces s)(owner \<mapsto> nonce)\<rparr>"])
       (use tx_ok_owners [OF ok] in \<open>simp_all add: owners fee view state_matchesD\<close>, simp_all add: db'_def)
qed

section \<open>Clusters\<close>

lemma clusters_match_modify:
  assumes m: "clusters_match sha256 db m"
    and rows: "db_validators db' = db_validators db" "db_cluster_members db' = db_cluster_members db"
      "owner_key db' = owner_key db"
    and row: "\<And>cid. map_option (cluster_from_row db' cid) (map_of (db_clusters db') cid) =
      map_option (g cid \<circ> cluster_from_row db cid) (map_of (db_clusters db) cid)"
    and like: "\<And>cid c d. cluster_like c d \<Longrightarrow> cluster_like (g cid c) (g cid d)"
  shows "clusters_match sha256 db' (m\<lparr>mi_primary := \<lambda>cid. map_option (g cid) (mi_primary m cid)\<rparr>)"
proof -
  have "rel_option cluster_like (map_option (g cid) (mi_primary m cid))
      (map_option (g cid \<circ> cluster_from_row db cid) (map_of (db_clusters db) cid))" for cid
  proof -
    have "rel_option cluster_like (mi_primary m cid) (map_option (cluster_from_row db cid) (map_of (db_clusters db) cid))"
      using m unfolding clusters_match_def by blast
    then have "rel_option cluster_like (map_option (g cid) (mi_primary m cid))
        (map_option (g cid) (map_option (cluster_from_row db cid) (map_of (db_clusters db) cid)))"
      by (auto simp: option.rel_map intro: option.rel_mono_strong like)
    then show ?thesis by (simp add: option.map_comp)
  qed
  then have p: "\<forall>cid. rel_option cluster_like (map_option (g cid) (mi_primary m cid))
      (map_option (cluster_from_row db' cid) (map_of (db_clusters db') cid))"
    by (simp only: row) blast
  have "dom (\<lambda>cid. map_option (g cid) (mi_primary m cid)) = dom (mi_primary m)" by (auto simp: dom_def)
  then show ?thesis
    using m p unfolding clusters_match_def rows committee_key_cong [OF rows(2)] by (auto simp: index_is_def)
qed

lemma modify_by_primary_map:
  "modify_by_primary m k f = m\<lparr>mi_primary := \<lambda>j. map_option (\<lambda>v. if j = k then f v else v) (mi_primary m j)\<rparr>"
proof -
  have "(case mi_primary m k of None \<Rightarrow> mi_primary m | Some v \<Rightarrow> (mi_primary m)(k \<mapsto> f v)) =
      (\<lambda>j. map_option (\<lambda>v. if j = k then f v else v) (mi_primary m j))"
    (is "?l = ?r")
  proof
    fix j show "?l j = ?r j"
      by (cases "j = k"; cases "mi_primary m j"; cases "mi_primary m k") auto
  qed
  then show ?thesis by (cases m) (auto simp: modify_by_primary_def split: option.splits)
qed

lemma cluster_like_write:
  "cluster_like c d \<Longrightarrow> cluster_like (c\<lparr>cl_liquidated := l\<rparr>) (d\<lparr>cl_liquidated := l\<rparr>)"
  "cluster_like c d \<Longrightarrow> cluster_like (c\<lparr>cl_fee_recipient := a\<rparr>) (d\<lparr>cl_fee_recipient := a\<rparr>)"
  by (cases c; cases d; simp add: cluster_like_def)+

text \<open>An operation that writes fields of clusters, the owner apart, or of owners, the nonce apart.\<close>

lemma tx_ok_clusters:
  assumes ok: "tx_ok keccak256 cv sha256 operator s0 tx"
    and rows: "db_validators db' = db_validators (tx_db tx)" "db_cluster_members db' = db_cluster_members (tx_db tx)"
      "db_shares db' = db_shares (tx_db tx)" "db_operators db' = db_operators (tx_db tx)"
      "db_block_number db' = db_block_number (tx_db tx)" "db_max_operator_id_seen db' = db_max_operator_id_seen (tx_db tx)"
    and keys: "distinct (map fst (db_clusters db'))" "distinct (map fst (db_owners db'))" "owners_ok db'"
    and nonce: "nonce_view db' = nonce_view (tx_db tx)"
    and own: "\<And>cid. map_option cr_owner (map_of (db_clusters db') cid) = map_option cr_owner (map_of (db_clusters (tx_db tx)) cid)"
    and row: "\<And>cid. map_option (cluster_from_row db' cid) (map_of (db_clusters db') cid) =
      map_option (g cid \<circ> cluster_from_row (tx_db tx) cid) (map_of (db_clusters (tx_db tx)) cid)"
    and like: "\<And>cid c d. cluster_like c d \<Longrightarrow> cluster_like (g cid c) (g cid d)"
    and upd: "\<And>s. state_matches sha256 operator (tx_db tx) s \<Longrightarrow> apply_update sha256 u s =
      Some (s\<lparr>ns_clusters := (ns_clusters s)\<lparr>mi_primary := \<lambda>cid. map_option (g cid) (mi_primary (ns_clusters s) cid)\<rparr>\<rparr>)"
  shows "tx_ok keccak256 cv sha256 operator s0 (tx\<lparr>tx_db := db', tx_updates := tx_updates tx @ [u]\<rparr>)"
proof (rule tx_ok_queue [OF ok])
  have dbok: "db_ok keccak256 cv (tx_db tx)" using ok by (simp add: tx_ok_def)
  have dom: "map_of (db_clusters db') cid = None \<longleftrightarrow> map_of (db_clusters (tx_db tx)) cid = None" for cid
    using own [of cid] by (metis option.map_disc_iff)
  have mem: "members_of db' = members_of (tx_db tx)" by (simp add: members_of_def rows fun_eq_iff)
  have "keys_ok db'" using dbok keys by (simp add: db_ok_def keys_ok_def rows)
  moreover have "operators_ok db'" using dbok by (simp add: db_ok_def operators_ok_def rows)
  moreover have "clusters_ok keccak256 db'"
  proof -
    have "\<exists>r'. map_of (db_clusters (tx_db tx)) cid = Some r' \<and> cr_owner r' = cr_owner r"
      if "map_of (db_clusters db') cid = Some r" for cid r
      using own [of cid] that by (cases "map_of (db_clusters (tx_db tx)) cid") auto
    then show ?thesis
      using dbok unfolding db_ok_def clusters_ok_def mem rows dom by metis
  qed
  moreover have "validators_ok cv db'"
    using dbok by (simp add: db_ok_def validators_ok_def rows dom mem share_pubkeys_of_def)
  ultimately show "db_ok keccak256 cv db'" using keys by (simp add: db_ok_def)
  have owner: "owner_key db' = owner_key (tx_db tx)"
  proof
    fix cid show "owner_key db' cid = owner_key (tx_db tx) cid"
      using own [of cid] by (auto simp: owner_key_def split: option.splits)
  qed
  fix s assume s: "state_matches sha256 operator (tx_db tx) s"
  note d = state_matchesD [OF s]
  let ?s = "s\<lparr>ns_clusters := (ns_clusters s)\<lparr>mi_primary := \<lambda>cid. map_option (g cid) (mi_primary (ns_clusters s) cid)\<rparr>\<rparr>"
  have "state_matches sha256 operator db' ?s"
    unfolding state_matches_def
    using d(1-6,8,9) clusters_match_modify [OF d(7) rows(1,2) owner row like] rows(5,6) nonce
      operators_cong [OF rows(4)] metadata_matches_cong [OF rows(1) owner rows(2)]
      shares_match_cong [OF rows(1) owner rows(2) own_share_cong [OF rows(3)]]
      own_clusters_cong [OF rows(1) own_share_cong [OF rows(3)]]
    by simp
  with upd [OF s] show "\<exists>s'. apply_update sha256 u s = Some s' \<and> state_matches sha256 operator db' s'" by blast
qed

lemma tx_ok_keys: "tx_ok keccak256 cv sha256 operator s0 tx \<Longrightarrow> keys_ok (tx_db tx)"
  by (simp add: tx_ok_def db_ok_def)

lemma update_status_ok:
  assumes ok: "tx_ok keccak256 cv sha256 operator s0 tx" and run: "update_status_tx cid liquidated tx = (tx', Ok u)"
  shows "tx_ok keccak256 cv sha256 operator s0 tx'"
proof -
  have keys: "distinct (map fst (db_clusters (tx_db tx)))" using tx_ok_keys [OF ok] by (simp add: keys_ok_def)
  let ?db = "(tx_db tx)\<lparr>db_clusters := AList.map_entry cid (\<lambda>r. r\<lparr>cr_liquidated := liquidated\<rparr>) (db_clusters (tx_db tx))\<rparr>"
  have tx': "tx' = tx\<lparr>tx_db := ?db, tx_updates := tx_updates tx @ [UpdateClusterStatus cid liquidated]\<rparr>"
    using run by (auto simp: update_status_tx_def tx_op_simps UPDATE_CLUSTER_STATUS_def queue_update_def)
  let ?g = "\<lambda>k c. if k = cid then c\<lparr>cl_liquidated := liquidated\<rparr> else c"
  show ?thesis unfolding tx'
  proof (rule tx_ok_clusters [OF ok, where g = ?g])
    show "map_option (cluster_from_row ?db k) (map_of (db_clusters ?db) k) =
        map_option (?g k \<circ> cluster_from_row (tx_db tx) k) (map_of (db_clusters (tx_db tx)) k)" for k
      by (auto simp: map_of_map_entry cluster_from_row_def GET_CLUSTER_MEMBERS_def owner_fee_recipient_def
          intro!: option.map_cong split: option.split)
    show "apply_update sha256 (UpdateClusterStatus cid liquidated) s =
      Some (s\<lparr>ns_clusters := (ns_clusters s)\<lparr>mi_primary := \<lambda>k. map_option (?g k) (mi_primary (ns_clusters s) k)\<rparr>\<rparr>)" for s
      by (simp add: modify_by_primary_map)
  qed (use keys tx_ok_owners [OF ok] in \<open>auto simp: map_of_map_entry nonce_view_def [abs_def] owners_ok_def cluster_like_write split: option.split\<close>)
qed

lemma update_fee_recipient_ok:
  assumes ok: "tx_ok keccak256 cv sha256 operator s0 tx"
    and run: "update_fee_recipient_tx owner fee tx = (tx', Ok u)"
  shows "tx_ok keccak256 cv sha256 operator s0 tx'"
proof -
  define db' where "db' = write_owner owner (\<lambda>r. r\<lparr>ow_fee_recipient := Some fee\<rparr>)
    \<lparr>ow_fee_recipient = Some fee, ow_nonce = None\<rparr> (tx_db tx)"
  have tx': "tx' = tx\<lparr>tx_db := db', tx_updates := tx_updates tx @ [UpdateFeeRecipient owner fee]\<rparr>"
    using run by (auto simp: update_fee_recipient_tx_def tx_op_simps INSERT_OR_UPDATE_OWNER_FEE_RECIPIENT_def
        db'_def write_owner_def queue_update_def)
  have fields: "db_clusters db' = db_clusters (tx_db tx)" "db_cluster_members db' = db_cluster_members (tx_db tx)"
    by (simp_all add: db'_def write_owner_def)
  have recipient: "owner_fee_recipient x db' = (if x = owner then Some fee else owner_fee_recipient x (tx_db tx))" for x
    by (simp add: owner_fee_recipient_def db'_def write_owner_rows split: option.split)
  have nonce: "Option.bind (map_of (db_owners db') x) ow_nonce = Option.bind (map_of (db_owners (tx_db tx)) x) ow_nonce" for x
    by (simp add: db'_def write_owner_rows split: option.split)
  let ?g = "\<lambda>k c. if owner_key (tx_db tx) k = owner then c\<lparr>cl_fee_recipient := fee\<rparr> else c"
  show ?thesis unfolding tx'
  proof (rule tx_ok_clusters [OF ok, where g = ?g])
    show "owners_ok db'"
      unfolding owners_ok_def
    proof (intro allI impI)
      fix x r n assume "map_of (db_owners db') x = Some r" "ow_nonce r = Some n"
      then have "Option.bind (map_of (db_owners (tx_db tx)) x) ow_nonce = Some n" using nonce [of x] by simp
      then show "n < 2 ^ 16"
        using tx_ok_owners [OF ok] unfolding owners_ok_def by (auto simp: bind_eq_Some_conv)
    qed
    show "nonce_view db' = nonce_view (tx_db tx)" by (simp add: nonce_view_def nonce fun_eq_iff)
    show "map_option (cluster_from_row db' k) (map_of (db_clusters db') k) =
        map_option (?g k \<circ> cluster_from_row (tx_db tx) k) (map_of (db_clusters (tx_db tx)) k)" for k
      by (cases "map_of (db_clusters (tx_db tx)) k")
         (simp_all add: fields cluster_from_row_def GET_CLUSTER_MEMBERS_def recipient owner_key_def)
    show "apply_update sha256 (UpdateFeeRecipient owner fee) s =
      Some (s\<lparr>ns_clusters := (ns_clusters s)\<lparr>mi_primary := \<lambda>k. map_option (?g k) (mi_primary (ns_clusters s) k)\<rparr>\<rparr>)"
      if s: "state_matches sha256 operator (tx_db tx) s" for s
    proof -
      note m = state_matchesD(7) [OF s]
      have eq: "modify_keys (keys_of (mi_tertiary_multi (ns_clusters s)) owner) (\<lambda>c. c\<lparr>cl_fee_recipient := fee\<rparr>)
          (mi_primary (ns_clusters s)) k = map_option (?g k) (mi_primary (ns_clusters s) k)" for k
        using clusters_match_dom [OF m, of k]
        by (cases "mi_primary (ns_clusters s) k") (auto simp: modify_keys_def cluster_keys(1) [OF m])
      show ?thesis by (simp add: modify_all_by_tertiary_def ext [OF eq])
    qed
  qed (use tx_ok_keys [OF ok] in \<open>auto simp: fields keys_ok_def cluster_like_write db'_def write_owner_def\<close>)
qed

section \<open>Operators\<close>

lemma db_ok_operators:
  assumes "db_ok keccak256 cv db" "same_rows db db'" "db_owners db' = db_owners db"
    and "distinct (map fst (db_operators db'))" "operators_ok db'"
    and "\<And>cid i. (cid, i) \<in> set (db_cluster_members db) \<Longrightarrow> map_of (db_operators db') i \<noteq> None"
  shows "db_ok keccak256 cv db'"
proof -
  have rows: "db_validators db' = db_validators db" "db_clusters db' = db_clusters db"
    "db_cluster_members db' = db_cluster_members db" "db_shares db' = db_shares db"
    using assms(2) by (simp_all add: same_rows_def)
  have "clusters_ok keccak256 db'"
    using assms(1,6) unfolding db_ok_def clusters_ok_def members_of_def rows by blast
  moreover have "validators_ok cv db' = validators_ok cv db" "owners_ok db' = owners_ok db"
    unfolding validators_ok_def owners_ok_def members_of_def share_pubkeys_of_def rows assms(3) by (rule refl)+
  ultimately show ?thesis
    using assms(1,4,5) unfolding db_ok_def keys_ok_def rows assms(3) by blast
qed

text \<open>A share belongs to an operator on record.\<close>

lemma share_has_operator:
  assumes "db_ok keccak256 cv db" "map_of (db_shares db) (pk, i) = Some r"
  shows "map_of (db_operators db) i \<noteq> None"
proof -
  have v: "validators_ok cv db" and c: "clusters_ok keccak256 db" using assms(1) by (simp_all add: db_ok_def)
  obtain v where v: "map_of (db_validators db) pk = Some v" and "i \<in> members_of db (vr_cluster_id v)"
    using v assms(2) unfolding validators_ok_def by fastforce
  then have "(vr_cluster_id v, i) \<in> set (db_cluster_members db)" by (simp add: members_of_def)
  then show ?thesis using c unfolding clusters_ok_def by blast
qed

lemma own_share_fresh:
  assumes "db_ok keccak256 cv db" "map_of (db_operators db) i = None"
  shows "own_share db (Some i) = own_share db None"
proof
  fix pk show "own_share db (Some i) pk = own_share db None pk"
    using share_has_operator [OF assms(1), of pk i] assms(2)
    by (cases "map_of (db_shares db) (pk, i)") (auto simp: own_share_def)
qed

lemma operator_exists_Ok:
  "operator_exists_tx i tx = Ok b \<longleftrightarrow>
     unat i < 2 ^ 63 \<and> b = (\<exists>r. map_of (db_operators (tx_db tx)) i = Some r \<and> \<not> or_removed r)"
  by (auto simp: operator_exists_tx_def get_operator_status_def GET_OPERATOR_STATUS_def sql_u64_def bindO_Ok_iff
      split: option.splits)

lemma find_append: "find P (xs @ ys) = (case find P xs of None \<Rightarrow> find P ys | Some x \<Rightarrow> Some x)"
  by (induction xs) auto

lemma GET_OPERATOR_ID_snoc:
  "GET_OPERATOR_ID k (db\<lparr>db_operators := db_operators db @ [(i, r)]\<rparr>) =
     (case GET_OPERATOR_ID k db of Some j \<Rightarrow> Some j | None \<Rightarrow> if or_public_key r = k \<and> \<not> or_removed r then Some i else None)"
  by (auto simp: GET_OPERATOR_ID_def find_append split: option.splits)

lemma insert_operator_ok:
  assumes ok: "tx_ok keccak256 cv sha256 (nd_operator nd) s0 tx" and run: "insert_operator_tx nd op tx = (tx', Ok u)"
  shows "tx_ok keccak256 cv sha256 (nd_operator nd) s0 tx'"
proof -
  let ?row = "\<lparr>or_public_key = op_rsa_pubkey op, or_owner = op_owner op, or_removed = False\<rparr>"
  let ?db = "(tx_db tx)\<lparr>db_operators := db_operators (tx_db tx) @ [(op_id op, ?row)]\<rparr>"
  let ?own = "case nd_operator nd of Pubkey pubkey \<Rightarrow> op_rsa_pubkey op = pubkey | OwnId i \<Rightarrow> i = op_id op"
  have tx': "tx' = tx\<lparr>tx_db := ?db, tx_updates := tx_updates tx @ [InsertOperator op ?own]\<rparr>"
    and free: "op_id op \<notin> fst ` set (db_operators (tx_db tx))"
      "op_rsa_pubkey op \<notin> or_public_key ` snd ` set (db_operators (tx_db tx))"
    and small: "unat (op_id op) < 2 ^ 63"
    using run unfolding insert_operator_tx_def
    by (auto simp: tx_op_simps operator_exists_Ok INSERT_OPERATOR_def Let_def split: if_splits)
  have fresh: "map_of (db_operators (tx_db tx)) (op_id op) = None"
    "\<And>i r. map_of (db_operators (tx_db tx)) i = Some r \<Longrightarrow> or_public_key r \<noteq> op_rsa_pubkey op"
    using free by (force simp: map_of_eq_None_iff dest!: map_of_SomeD)+
  have dbok: "db_ok keccak256 cv (tx_db tx)" using ok by (simp add: tx_ok_def)
  have same: "same_rows (tx_db tx) ?db" by (simp add: same_rows_def)
  have rows: "map_of (db_operators ?db) = (map_of (db_operators (tx_db tx)))(op_id op \<mapsto> ?row)"
    using map_of_snoc [OF fresh(1)] by simp
  have own: "own_operator_id_db (nd_operator nd) ?db =
      (case own_operator_id_db (nd_operator nd) (tx_db tx) of Some i \<Rightarrow> Some i | None \<Rightarrow> if ?own then Some (op_id op) else None)"
    by (cases "nd_operator nd") (auto simp: own_operator_id_db_def GET_OPERATOR_ID_snoc split: option.split)
  show ?thesis unfolding tx'
  proof (rule tx_ok_queue [OF ok])
    show "db_ok keccak256 cv ?db"
    proof (rule db_ok_operators [OF dbok same])
      have "operators_ok (tx_db tx)" using dbok by (simp add: db_ok_def)
      then show "operators_ok ?db"
        using fresh(2) small unfolding operators_ok_def rows by (simp split: if_splits) metis
      show "distinct (map fst (db_operators ?db))"
        using distinct_keys_snoc [of "db_operators (tx_db tx)" "op_id op" ?row] fresh(1) tx_ok_keys [OF ok]
        by (simp add: keys_ok_def)
      show "map_of (db_operators ?db) i \<noteq> None" if "(cid, i) \<in> set (db_cluster_members (tx_db tx))" for cid i
        using that dbok unfolding rows db_ok_def clusters_ok_def by auto
    qed simp
    fix s assume s: "state_matches sha256 (nd_operator nd) (tx_db tx) s"
    note d = state_matchesD [OF s]
    let ?s = "s\<lparr>ns_id := own_operator_id_db (nd_operator nd) ?db, ns_operators := (ns_operators s)(op_id op \<mapsto> op)\<rparr>"
    have "apply_update sha256 (InsertOperator op ?own) s = Some ?s"
      using d(3) unfolding own by (cases s) (auto simp: Let_def split: option.split)
    moreover have "state_matches sha256 (nd_operator nd) ?db ?s"
    proof (rule state_matches_same_rows [OF s same])
      show "own_share (tx_db tx) (own_operator_id_db (nd_operator nd) ?db) =
          own_share (tx_db tx) (own_operator_id_db (nd_operator nd) (tx_db tx))"
        unfolding own using own_share_fresh [OF dbok fresh(1)] by (simp split: option.split)
      show "ns_operators ?s = fetch_operators ?db"
        unfolding fun_eq_iff fetch_operators_def rows using d(4) by (cases op) (simp add: fetch_operators_def)
    qed (use d in \<open>simp_all add: owner_fee_recipient_def nonce_view_def [abs_def]\<close>)
    ultimately show "\<exists>s'. apply_update sha256 (InsertOperator op ?own) s = Some s' \<and>
        state_matches sha256 (nd_operator nd) ?db s'" by blast
  qed
qed

lemma GET_OPERATOR_ID_iff:
  assumes "distinct (map fst (db_operators db))" "operators_ok db"
  shows "GET_OPERATOR_ID k db = Some j \<longleftrightarrow>
    (\<exists>r. map_of (db_operators db) j = Some r \<and> or_public_key r = k \<and> \<not> or_removed r)"
proof
  assume "GET_OPERATOR_ID k db = Some j"
  then obtain r where "find (\<lambda>(_, r). or_public_key r = k \<and> \<not> or_removed r) (db_operators db) = Some (j, r)"
    by (auto simp: GET_OPERATOR_ID_def)
  then have "(j, r) \<in> set (db_operators db)" "or_public_key r = k" "\<not> or_removed r"
    by (auto simp: find_Some_iff in_set_conv_nth)
  then show "\<exists>r. map_of (db_operators db) j = Some r \<and> or_public_key r = k \<and> \<not> or_removed r"
    using assms(1) by auto
next
  assume "\<exists>r. map_of (db_operators db) j = Some r \<and> or_public_key r = k \<and> \<not> or_removed r"
  then obtain r where r: "map_of (db_operators db) j = Some r" "or_public_key r = k" "\<not> or_removed r" by blast
  then have "find (\<lambda>(_, r). or_public_key r = k \<and> \<not> or_removed r) (db_operators db) \<noteq> None"
    by (auto simp: find_None_iff dest!: map_of_SomeD)
  then obtain i r' where i: "find (\<lambda>(_, r). or_public_key r = k \<and> \<not> or_removed r) (db_operators db) = Some (i, r')" by auto
  then have "(i, r') \<in> set (db_operators db)" "or_public_key r' = k"
    by (auto simp: find_Some_iff in_set_conv_nth)
  then have "map_of (db_operators db) i = Some r'" using assms(1) by simp
  then have "i = j" using assms(2) r(1,2) \<open>or_public_key r' = k\<close> unfolding operators_ok_def by blast
  then show "GET_OPERATOR_ID k db = Some j" using i by (simp add: GET_OPERATOR_ID_def)
qed

text \<open>An operator row deleted or marked as removed, which is not the own one.\<close>

lemma drop_operator_ok:
  assumes ok: "tx_ok keccak256 cv sha256 operator s0 tx" and same: "same_rows (tx_db tx) db'"
    and rest: "db_owners db' = db_owners (tx_db tx)" "db_block_number db' = db_block_number (tx_db tx)"
      "db_max_operator_id_seen db' = db_max_operator_id_seen (tx_db tx)"
    and keys: "distinct (map fst (db_operators db'))"
    and others: "\<And>j. j \<noteq> i \<Longrightarrow> map_of (db_operators db') j = map_of (db_operators (tx_db tx)) j"
    and row: "map_of (db_operators (tx_db tx)) i = Some r"
    and gone: "map_of (db_operators db') i = None \<and> (\<forall>cid. (cid, i) \<notin> set (db_cluster_members (tx_db tx)))
      \<or> map_of (db_operators db') i = Some (r\<lparr>or_removed := True\<rparr>)"
    and foreign: "\<And>k. operator = Pubkey k \<Longrightarrow> or_public_key r \<noteq> k"
  shows "tx_ok keccak256 cv sha256 operator s0 (tx\<lparr>tx_db := db', tx_updates := tx_updates tx @ [DeleteOperator i]\<rparr>)"
proof (rule tx_ok_queue [OF ok])
  have dbok: "db_ok keccak256 cv (tx_db tx)" using ok by (simp add: tx_ok_def)
  have old: "\<exists>q. map_of (db_operators (tx_db tx)) j = Some q \<and> or_public_key q = or_public_key r'"
    if "map_of (db_operators db') j = Some r'" for j r'
    using that others [of j] row gone by (cases "j = i") auto
  have ops: "operators_ok db'"
    using dbok old unfolding db_ok_def operators_ok_def by metis
  show "db_ok keccak256 cv db'"
  proof (rule db_ok_operators [OF dbok same rest(1) keys ops])
    show "map_of (db_operators db') j \<noteq> None" if "(cid, j) \<in> set (db_cluster_members (tx_db tx))" for cid j
      using that dbok others [of j] gone unfolding db_ok_def clusters_ok_def by (cases "j = i") auto
  qed
  have own: "own_operator_id_db operator db' = own_operator_id_db operator (tx_db tx)"
  proof (cases operator)
    case (Pubkey k)
    have keys': "distinct (map fst (db_operators (tx_db tx)))" and ops': "operators_ok (tx_db tx)"
      using dbok by (simp_all add: db_ok_def keys_ok_def)
    have "GET_OPERATOR_ID k db' = Some j \<longleftrightarrow> GET_OPERATOR_ID k (tx_db tx) = Some j" for j
      unfolding GET_OPERATOR_ID_iff [OF keys ops] GET_OPERATOR_ID_iff [OF keys' ops']
      using others [of j] row gone foreign [OF Pubkey] by (cases "j = i") auto
    then have "GET_OPERATOR_ID k db' = GET_OPERATOR_ID k (tx_db tx)" by (metis option.exhaust)
    then show ?thesis by (simp add: own_operator_id_db_def Pubkey)
  qed (simp add: own_operator_id_db_def)
  have fetch: "fetch_operators db' = (fetch_operators (tx_db tx))(i := None)"
    using others gone by (auto simp: fetch_operators_def fun_eq_iff)
  fix s assume s: "state_matches sha256 operator (tx_db tx) s"
  note d = state_matchesD [OF s]
  have "state_matches sha256 operator db' (s\<lparr>ns_operators := (ns_operators s)(i := None)\<rparr>)"
    by (rule state_matches_same_rows [OF s same])
       (use d rest in \<open>simp_all add: own fetch owner_fee_recipient_def nonce_view_def [abs_def]\<close>)
  then show "\<exists>s'. apply_update sha256 (DeleteOperator i) s = Some s' \<and> state_matches sha256 operator db' s'" by simp
qed

lemma delete_operator_ok:
  assumes ok: "tx_ok keccak256 cv sha256 operator s0 tx" and run: "delete_operator_tx i tx = (tx', Ok u)"
    and foreign: "\<And>k r. operator = Pubkey k \<Longrightarrow> map_of (db_operators (tx_db tx)) i = Some r \<Longrightarrow> or_public_key r \<noteq> k"
  shows "tx_ok keccak256 cv sha256 operator s0 tx'"
proof -
  have keys: "distinct (map fst (db_operators (tx_db tx)))" using tx_ok_keys [OF ok] by (simp add: keys_ok_def)
  obtain r where r: "map_of (db_operators (tx_db tx)) i = Some r"
    using run by (auto simp: delete_operator_tx_def tx_op_simps operator_exists_Ok split: if_splits)
  show ?thesis
  proof (cases "i \<in> snd ` set (db_cluster_members (tx_db tx))")
    case True
    let ?db = "(tx_db tx)\<lparr>db_operators := AList.map_entry i (\<lambda>r. r\<lparr>or_removed := True\<rparr>) (db_operators (tx_db tx))\<rparr>"
    have tx': "tx' = tx\<lparr>tx_db := ?db, tx_updates := tx_updates tx @ [DeleteOperator i]\<rparr>"
      using run True by (auto simp: delete_operator_tx_def and_then_Ok_iff execute_def DELETE_OPERATOR_def MARK_OPERATOR_REMOVED_def split: if_splits)
    show ?thesis
      unfolding tx' by (rule drop_operator_ok [OF ok, where r = r])
        (use r keys foreign in \<open>auto simp: same_rows_def map_of_map_entry\<close>)
  next
    case False
    let ?db = "(tx_db tx)\<lparr>db_operators := filter (\<lambda>(j, _). j \<noteq> i) (db_operators (tx_db tx))\<rparr>"
    have tx': "tx' = tx\<lparr>tx_db := ?db, tx_updates := tx_updates tx @ [DeleteOperator i]\<rparr>"
      using run False by (auto simp: delete_operator_tx_def and_then_Ok_iff execute_def DELETE_OPERATOR_def split: if_splits)
    show ?thesis
      unfolding tx' by (rule drop_operator_ok [OF ok, where r = r])
        (use r keys foreign False in \<open>force simp: same_rows_def map_of_delete_key\<close>)+
  qed
qed

end
