(* ===== verification/Db_Delete.thy ===== *)
theory Db_Delete
  imports Db_Steps
begin

text \<open>
  Removing a validator. The tables lose its row and its shares, with the last validator of a cluster
  also the cluster, its members and the operators that were waiting for that; the state loses its
  metadata, its share and with the last validator the cluster. Both stay in step.
\<close>

section \<open>Removal from an index\<close>

lemma mi_remove_multi:
  shows "it_secondary T = NonUniqueTag \<Longrightarrow> mi_secondary_multi (fst (mi_remove T m p)) =
      (if mi_primary m p = None then mi_secondary_multi m else multi_retain p (mi_secondary_multi m))"
    and "it_tertiary T = NonUniqueTag \<Longrightarrow> mi_tertiary_multi (fst (mi_remove T m p)) =
      (if mi_primary m p = None then mi_tertiary_multi m else multi_retain p (mi_tertiary_multi m))"
    and "it_quaternary T = NonUniqueTag \<Longrightarrow> mi_quaternary_multi (fst (mi_remove T m p)) =
      (if mi_primary m p = None then mi_quaternary_multi m else multi_retain p (mi_quaternary_multi m))"
  by (cases "mi_primary m p"; simp add: mi_remove_None mi_remove_fields)+

lemma index_is_retain:
  assumes "index_is (multi_rel i) m key" and "\<And>q. q \<noteq> p \<Longrightarrow> m q \<noteq> None \<Longrightarrow> key' q = key q"
  shows "index_is (multi_rel (if m p = None then i else multi_retain p i)) (m(p := None)) key'"
proof (cases "m p")
  case None
  then have "m(p := None) = m" by (simp add: fun_upd_idem)
  moreover have "key' q = key q" if "m q \<noteq> None" for q using that None assms(2) by (cases "q = p") auto
  ultimately show ?thesis using None index_is_cong [OF assms(1) refl] by simp
next
  case (Some v)
  then show ?thesis using index_is_remove [OF assms] by (simp add: multi.rel_del)
qed

section \<open>What the statement does to the rows\<close>

definition drops :: "pubkey \<Rightarrow> cluster_id \<Rightarrow> bool \<Rightarrow> 'k sql_db \<Rightarrow> 'k sql_db \<Rightarrow> bool" where
  "drops pk cid emptied db db' \<longleftrightarrow>
     db_validators db' = filter (\<lambda>(v, _). v \<noteq> pk) (db_validators db)
     \<and> db_shares db' = filter (\<lambda>((v, _), _). v \<noteq> pk) (db_shares db)
     \<and> db_clusters db' = (if emptied then filter (\<lambda>(c, _). c \<noteq> cid) (db_clusters db) else db_clusters db)
     \<and> db_cluster_members db' =
         (if emptied then filter (\<lambda>(c, _). c \<noteq> cid) (db_cluster_members db) else db_cluster_members db)
     \<and> db_operators db' =
         filter (\<lambda>(i, r). \<not> (emptied \<and> (cid, i) \<in> set (db_cluster_members db)
           \<and> i \<notin> snd ` set (db_cluster_members db') \<and> or_removed r)) (db_operators db)
     \<and> db_owners db' = db_owners db \<and> db_block_number db' = db_block_number db
     \<and> db_max_operator_id_seen db' = db_max_operator_id_seen db
     \<and> (emptied \<longleftrightarrow> (\<forall>q v. map_of (db_validators db') q = Some v \<longrightarrow> vr_cluster_id v \<noteq> cid))"

lemma DELETE_VALIDATOR_drops:
  assumes ok: "db_ok keccak256 cv db" and row: "map_of (db_validators db) pk = Some v"
    and run: "DELETE_VALIDATOR pk db = Ok db'"
  shows "\<exists>emptied. drops pk (vr_cluster_id v) emptied db db'"
proof -
  have keys: "distinct (map fst (db_validators db))" "distinct (map fst (db_shares db))"
    using ok by (simp_all add: db_ok_def keys_ok_def)
  let ?vs = "filter (\<lambda>(v, _). v \<noteq> pk) (db_validators db)"
  let ?shares = "filter (\<lambda>((v, _), _). v \<noteq> pk) (db_shares db)"
  have vs: "distinct (map fst ?vs)" using keys(1) by simp
  show ?thesis
  proof (cases "\<exists>(_, r) \<in> set ?vs. vr_cluster_id r = vr_cluster_id v")
    case True
    then have more: "\<exists>q r. map_of ?vs q = Some r \<and> vr_cluster_id r = vr_cluster_id v"
      unfolding bex_rows [OF vs] .
    have "db' = db\<lparr>db_validators := ?vs, db_shares := ?shares\<rparr>"
      using run row True by (simp add: DELETE_VALIDATOR_def Let_def)
    then have "drops pk (vr_cluster_id v) False db db'" using more by (auto simp: drops_def)
    then show ?thesis ..
  next
    case False
    then have none: "\<forall>q r. map_of ?vs q = Some r \<longrightarrow> vr_cluster_id r \<noteq> vr_cluster_id v"
      unfolding bex_rows [OF vs] by blast
    have "filter (\<lambda>((_, i), r). \<not> (sr_cluster_id r = vr_cluster_id v \<and> i \<in> G)) ?shares = ?shares" for G
    proof (rule filter_True, clarify)
      fix q i r assume "((q, i), r) \<in> set ?shares" "sr_cluster_id r = vr_cluster_id v"
      then have "map_of (db_shares db) (q, i) = Some r" "q \<noteq> pk" using keys(2) by auto
      then obtain w where "map_of (db_validators db) q = Some w" "sr_cluster_id r = vr_cluster_id w"
        using ok unfolding db_ok_def validators_ok_def by blast
      then have "map_of ?vs q = Some w" using \<open>q \<noteq> pk\<close> by (simp add: map_of_delete_key)
      then show False using none \<open>sr_cluster_id r = vr_cluster_id w\<close> \<open>sr_cluster_id r = vr_cluster_id v\<close> by metis
    qed
    moreover have "db' = delete_cluster_rows (vr_cluster_id v) (db\<lparr>db_validators := ?vs, db_shares := ?shares\<rparr>)"
      using run row False by (auto simp: DELETE_VALIDATOR_def Let_def split: if_splits)
    ultimately have "drops pk (vr_cluster_id v) True db db'"
      using none by (simp add: drops_def delete_cluster_rows_def Let_def)
    then show ?thesis ..
  qed
qed

section \<open>The rows that stay\<close>

lemma map_of_drop_pairs:
  "map_of (filter (\<lambda>((v, _), _). v \<noteq> pk) t) (q, i) = (if q = pk then None else map_of t (q, i))"
  by (induction t) auto

lemma dropsD:
  assumes "drops pk cid emptied db db'"
  shows "map_of (db_validators db') = (map_of (db_validators db))(pk := None)"
    and "\<And>q i. map_of (db_shares db') (q, i) = (if q = pk then None else map_of (db_shares db) (q, i))"
    and "\<And>c. map_of (db_clusters db') c = (if emptied \<and> c = cid then None else map_of (db_clusters db) c)"
    and "\<And>c i. (c, i) \<in> set (db_cluster_members db') \<longleftrightarrow> (c, i) \<in> set (db_cluster_members db) \<and> \<not> (emptied \<and> c = cid)"
    and "\<And>c. c \<noteq> cid \<or> \<not> emptied \<Longrightarrow> GET_CLUSTER_MEMBERS c db' = GET_CLUSTER_MEMBERS c db"
    and "\<And>q. q \<noteq> pk \<Longrightarrow> share_pubkeys_of db' q = share_pubkeys_of db q"
    and "db_owners db' = db_owners db" "db_block_number db' = db_block_number db"
      "db_max_operator_id_seen db' = db_max_operator_id_seen db"
    and "emptied \<Longrightarrow> map_of (db_validators db) q = Some w \<Longrightarrow> q \<noteq> pk \<Longrightarrow> vr_cluster_id w \<noteq> cid"
proof -
  have rows: "db_validators db' = filter (\<lambda>(v, _). v \<noteq> pk) (db_validators db)"
    "db_shares db' = filter (\<lambda>((v, _), _). v \<noteq> pk) (db_shares db)"
    "db_clusters db' = (if emptied then filter (\<lambda>(c, _). c \<noteq> cid) (db_clusters db) else db_clusters db)"
    "db_cluster_members db' =
       (if emptied then filter (\<lambda>(c, _). c \<noteq> cid) (db_cluster_members db) else db_cluster_members db)"
    and gone: "emptied \<longleftrightarrow> (\<forall>q v. map_of (db_validators db') q = Some v \<longrightarrow> vr_cluster_id v \<noteq> cid)"
    using assms unfolding drops_def by blast+
  show vs: "map_of (db_validators db') = (map_of (db_validators db))(pk := None)"
    by (simp add: rows(1) map_of_delete_key)
  show "vr_cluster_id w \<noteq> cid" if "emptied" "map_of (db_validators db) q = Some w" "q \<noteq> pk"
  proof -
    have "map_of (db_validators db') q = Some w" using that vs by simp
    then show ?thesis using gone that(1) by blast
  qed
  show "map_of (db_shares db') (q, i) = (if q = pk then None else map_of (db_shares db) (q, i))" for q i
    by (simp add: rows(2) map_of_drop_pairs)
  show "map_of (db_clusters db') c = (if emptied \<and> c = cid then None else map_of (db_clusters db) c)" for c
    by (simp add: rows(3) map_of_delete_key)
  show "(c, i) \<in> set (db_cluster_members db') \<longleftrightarrow> (c, i) \<in> set (db_cluster_members db) \<and> \<not> (emptied \<and> c = cid)" for c i
    by (auto simp: rows(4))
  show "GET_CLUSTER_MEMBERS c db' = GET_CLUSTER_MEMBERS c db" if "c \<noteq> cid \<or> \<not> emptied" for c
    using that by (auto simp: GET_CLUSTER_MEMBERS_def rows(4) intro!: arg_cong [where f = "map snd"] filter_cong)
  show "share_pubkeys_of db' q = share_pubkeys_of db q" if "q \<noteq> pk" for q
    using that by (auto simp: share_pubkeys_of_def rows(2) intro!: arg_cong [where f = "map _"] filter_cong)
qed (use assms in \<open>simp_all add: drops_def\<close>)

lemma drops_operators:
  assumes "drops pk cid emptied db db'" "distinct (map fst (db_operators db))"
  shows "map_of (db_operators db') i =
    (case map_of (db_operators db) i of
       None \<Rightarrow> None
     | Some r \<Rightarrow> if emptied \<and> (cid, i) \<in> set (db_cluster_members db) \<and> i \<notin> snd ` set (db_cluster_members db') \<and> or_removed r
                 then None else Some r)"
proof -
  have "db_operators db' = filter (\<lambda>(i, r). \<not> (emptied \<and> (cid, i) \<in> set (db_cluster_members db)
      \<and> i \<notin> snd ` set (db_cluster_members db') \<and> or_removed r)) (db_operators db)"
    using assms(1) unfolding drops_def by blast
  then show ?thesis using map_of_filter_rows [OF assms(2)] by (simp split: option.split)
qed

lemma drops_distinct:
  assumes "drops pk cid emptied db db'" "keys_ok db"
  shows "keys_ok db'"
  using assms unfolding drops_def keys_ok_def by (auto split: if_splits)

section \<open>The invariant of the tables\<close>

lemma drops_db_ok:
  assumes ok: "db_ok keccak256 cv db" and row: "map_of (db_validators db) pk = Some v"
    and drops: "drops pk (vr_cluster_id v) emptied db db'"
  shows "db_ok keccak256 cv db'"
  unfolding db_ok_def
proof (intro conjI)
  note d = dropsD [OF drops]
  have keys: "keys_ok db" and ops: "operators_ok db" and cl: "clusters_ok keccak256 db" and val: "validators_ok cv db"
    using ok by (simp_all add: db_ok_def)
  have dist: "distinct (map fst (db_operators db))" using keys by (simp add: keys_ok_def)
  note operators = drops_operators [OF drops dist]
  show "keys_ok db'" by (rule drops_distinct [OF drops keys])
  show "owners_ok db'" using ok d(7) by (simp add: db_ok_def owners_ok_def)
  have old: "map_of (db_operators db) i = Some r" if "map_of (db_operators db') i = Some r" for i r
    using that operators [of i] by (auto split: option.splits if_splits)
  then show "operators_ok db'" using ops unfolding operators_ok_def by metis
  have mem: "members_of db' c = members_of db c" if "c \<noteq> vr_cluster_id v \<or> \<not> emptied" for c
    using that d(4) by (auto simp: members_of_def)
  show "clusters_ok keccak256 db'"
    unfolding clusters_ok_def
  proof (intro conjI allI impI)
    fix c r assume c: "map_of (db_clusters db') c = Some r"
    then have c': "map_of (db_clusters db) c = Some r" "c \<noteq> vr_cluster_id v \<or> \<not> emptied"
      using d(3) [of c] by (auto split: if_splits)
    then show "names_cluster keccak256 c (cr_owner r) (members_of db' c)"
      using cl mem unfolding clusters_ok_def by auto
    show "\<exists>q w. map_of (db_validators db') q = Some w \<and> vr_cluster_id w = c"
    proof (cases "c = vr_cluster_id v")
      case True
      then show ?thesis using c'(2) drops unfolding drops_def by blast
    next
      case False
      then obtain q w where "map_of (db_validators db) q = Some w" "vr_cluster_id w = c"
        using cl c'(1) unfolding clusters_ok_def by blast
      then have "map_of (db_validators db') q = Some w" using False row d(1) by auto
      then show ?thesis using \<open>vr_cluster_id w = c\<close> by blast
    qed
  next
    fix c i assume ci: "(c, i) \<in> set (db_cluster_members db')"
    then have "map_of (db_clusters db) c \<noteq> None" "map_of (db_operators db) i \<noteq> None" "\<not> (emptied \<and> c = vr_cluster_id v)"
      using cl d(4) unfolding clusters_ok_def by blast+
    then show "map_of (db_clusters db') c \<noteq> None" using d(3) by auto
    have "i \<in> snd ` set (db_cluster_members db')" using ci by force
    then show "map_of (db_operators db') i \<noteq> None"
      using operators [of i] \<open>map_of (db_operators db) i \<noteq> None\<close> by (auto split: option.split)
  qed
  show "validators_ok cv db'"
    unfolding validators_ok_def
  proof (intro conjI allI impI)
    fix q w assume "map_of (db_validators db') q = Some w"
    then have q: "map_of (db_validators db) q = Some w" "q \<noteq> pk" using d(1) by (auto split: if_splits)
    then have stay: "vr_cluster_id w \<noteq> vr_cluster_id v \<or> \<not> emptied" using d(10) by blast
    show "map_of (db_clusters db') (vr_cluster_id w) \<noteq> None"
      using val q(1) stay d(3) unfolding validators_ok_def by auto
    show "map_of (db_shares db') (q, i) \<noteq> None \<longleftrightarrow> i \<in> members_of db' (vr_cluster_id w)" for i
      using val q unfolding validators_ok_def mem [OF stay] d(2) by auto
    show "validate_share_public_keys (cv_smul cv) (cv_key_validate cv) q (share_pubkeys_of db' q) = Ok ()"
      using val q unfolding validators_ok_def d(6) [OF q(2)] by blast
  next
    fix q i s assume "map_of (db_shares db') (q, i) = Some s"
    then have "map_of (db_shares db) (q, i) = Some s" "q \<noteq> pk" using d(2) by (auto split: if_splits)
    then show "\<exists>w. map_of (db_validators db') q = Some w \<and> sr_cluster_id s = vr_cluster_id w"
      using val unfolding validators_ok_def d(1) by auto
  qed
qed

section \<open>The state\<close>

lemma own_share_row: "own_share db own q \<noteq> None \<longleftrightarrow> (\<exists>i. own = Some i \<and> map_of (db_shares db) (q, i) \<noteq> None)"
  by (cases own) (auto simp: own_share_def)

lemma share_has_validator:
  assumes "db_ok keccak256 cv db" "map_of (db_shares db) (pk, i) = Some r"
  shows "\<exists>v. map_of (db_validators db) pk = Some v \<and> sr_cluster_id r = vr_cluster_id v"
  using assms unfolding db_ok_def validators_ok_def by blast

lemma own_share_validator:
  assumes "db_ok keccak256 cv db" "own_share db own q \<noteq> None"
  shows "map_of (db_validators db) q \<noteq> None"
  using assms(2) share_has_validator [OF assms(1)] unfolding own_share_row by fastforce

text \<open>The keys of the indexes stay what they are for every validator and cluster that stays.\<close>

lemma drops_keys:
  assumes "drops pk cid emptied db db'"
  shows "q \<noteq> pk \<Longrightarrow> cluster_key db' q = cluster_key db q"
    and "c \<noteq> cid \<or> \<not> emptied \<Longrightarrow> owner_key db' c = owner_key db c"
    and "c \<noteq> cid \<or> \<not> emptied \<Longrightarrow> committee_key sha256 db' c = committee_key sha256 db c"
    and "own_share db' own = (own_share db own)(pk := None)"
    and "q \<noteq> pk \<Longrightarrow> map_of (db_validators db) q = Some w \<Longrightarrow> cluster_key db q \<noteq> cid \<or> \<not> emptied"
proof -
  note d = dropsD [OF assms]
  show "q \<noteq> pk \<Longrightarrow> cluster_key db' q = cluster_key db q" by (simp add: cluster_key_def d(1))
  show "c \<noteq> cid \<or> \<not> emptied \<Longrightarrow> owner_key db' c = owner_key db c" by (auto simp: owner_key_def d(3))
  show "c \<noteq> cid \<or> \<not> emptied \<Longrightarrow> committee_key sha256 db' c = committee_key sha256 db c"
    using d(5) by (simp add: committee_key_def)
  show "own_share db' own = (own_share db own)(pk := None)"
    by (cases own) (auto simp: own_share_def d(2) fun_eq_iff)
  show "q \<noteq> pk \<Longrightarrow> map_of (db_validators db) q = Some w \<Longrightarrow> cluster_key db q \<noteq> cid \<or> \<not> emptied"
    using d(10) by (auto simp: cluster_key_def)
qed

lemma drops_metadata:
  assumes drops: "drops pk cid emptied db db'" and m: "metadata_matches sha256 db m"
  shows "metadata_matches sha256 db' (fst (mi_remove metadata_tags m pk))"
proof -
  note k = drops_keys [OF drops]
  have p: "mi_primary m = (\<lambda>pk. map_option (metadata_from_row pk) (map_of (db_validators db) pk))"
    and i: "index_is (multi_rel (mi_secondary_multi m)) (mi_primary m) (cluster_key db)"
      "index_is (multi_rel (mi_tertiary_multi m)) (mi_primary m) (owner_key db \<circ> cluster_key db)"
      "index_is (multi_rel (mi_quaternary_multi m)) (mi_primary m) (committee_key sha256 db \<circ> cluster_key db)"
    using m unfolding metadata_matches_def by blast+
  have stays: "cluster_key db q \<noteq> cid \<or> \<not> emptied" if "q \<noteq> pk" "mi_primary m q \<noteq> None" for q
    using k(5) [OF that(1)] that(2) by (auto simp: p)
  have "(mi_primary m)(pk := None) = (\<lambda>q. map_option (metadata_from_row q) (map_of (db_validators db') q))"
    by (auto simp: p dropsD(1) [OF drops])
  then show ?thesis
    unfolding metadata_matches_def
    using index_is_retain [OF i(1), of pk "cluster_key db'"] index_is_retain [OF i(2), of pk "owner_key db' \<circ> cluster_key db'"]
      index_is_retain [OF i(3), of pk "committee_key sha256 db' \<circ> cluster_key db'"] k(1,2,3) stays
    by (simp add: mi_remove_multi metadata_tags_def)
qed

lemma drops_shares:
  assumes ok: "db_ok keccak256 cv db" and drops: "drops pk cid emptied db db'" and m: "shares_match sha256 db own m"
  shows "shares_match sha256 db' own (fst (mi_remove share_tags m pk))"
proof -
  note k = drops_keys [OF drops]
  have p: "mi_primary m = own_share db own"
    and i: "index_is (multi_rel (mi_secondary_multi m)) (mi_primary m) (cluster_key db)"
      "index_is (multi_rel (mi_tertiary_multi m)) (mi_primary m) (owner_key db \<circ> cluster_key db)"
      "index_is (multi_rel (mi_quaternary_multi m)) (mi_primary m) (committee_key sha256 db \<circ> cluster_key db)"
    using m unfolding shares_match_def by blast+
  have stays: "cluster_key db q \<noteq> cid \<or> \<not> emptied" if "q \<noteq> pk" "mi_primary m q \<noteq> None" for q
    using k(5) [OF that(1)] own_share_validator [OF ok, of own q] that(2) by (auto simp: p)
  have "(mi_primary m)(pk := None) = own_share db' own" by (simp add: p k(4))
  then show ?thesis
    unfolding shares_match_def
    using index_is_retain [OF i(1), of pk "cluster_key db'"] index_is_retain [OF i(2), of pk "owner_key db' \<circ> cluster_key db'"]
      index_is_retain [OF i(3), of pk "committee_key sha256 db' \<circ> cluster_key db'"] k(1,2,3) stays
    by (simp add: mi_remove_multi share_tags_def)
qed

lemma drops_clusters:
  assumes row: "map_of (db_validators db) pk = Some v" and drops: "drops pk (vr_cluster_id v) emptied db db'"
    and m: "clusters_match sha256 db m"
  shows "clusters_match sha256 db' (if emptied then fst (mi_remove cluster_tags m (vr_cluster_id v)) else m)"
    (is "clusters_match _ _ ?m")
proof -
  let ?cid = "vr_cluster_id v"
  note k = drops_keys [OF drops] and d = dropsD [OF drops]
  have p: "rel_option cluster_like (mi_primary m c) (map_option (cluster_from_row db c) (map_of (db_clusters db) c))" for c
    using m unfolding clusters_match_def by blast
  have i: "index_is (multi_rel (mi_tertiary_multi m)) (mi_primary m) (owner_key db)"
      "index_is (multi_rel (mi_quaternary_multi m)) (mi_primary m) (committee_key sha256 db)"
    and u: "\<And>pk v. map_of (db_validators db) pk = Some v \<Longrightarrow> mi_secondary_unique m pk = Some (vr_cluster_id v)"
    using m unfolding clusters_match_def by blast+
  have from_row: "cluster_from_row db' c = cluster_from_row db c" if "c \<noteq> ?cid \<or> \<not> emptied" for c
    using d(5) [OF that] by (simp add: cluster_from_row_def fun_eq_iff owner_fee_recipient_def d(7))
  have prim: "mi_primary ?m c = (if emptied \<and> c = ?cid then None else mi_primary m c)" for c by simp
  have "rel_option cluster_like (mi_primary ?m c) (map_option (cluster_from_row db' c) (map_of (db_clusters db') c))" for c
    using p [of c] from_row [of c] unfolding prim d(3) by auto
  moreover have "mi_secondary_unique ?m q = Some (vr_cluster_id w)" if q: "map_of (db_validators db') q = Some w" for q w
  proof -
    have w: "map_of (db_validators db) q = Some w" "q \<noteq> pk" using q by (auto simp: d(1) split: if_splits)
    then have "vr_cluster_id w \<noteq> ?cid" if emptied using d(10) that by blast
    then show ?thesis
      using u [OF w(1)] by (cases "mi_primary m ?cid")
        (auto simp: mi_remove_None mi_remove_fields cluster_tags_def unique_retain_def)
  qed
  moreover have "index_is (multi_rel (mi_tertiary_multi ?m)) (mi_primary ?m) (owner_key db')"
  proof (cases emptied)
    case True
    then show ?thesis
      using index_is_retain [OF i(1), of ?cid "owner_key db'"] k(2) by (simp add: mi_remove_multi cluster_tags_def)
  next
    case False
    then show ?thesis using index_is_cong [OF i(1) refl] k(2) by simp
  qed
  moreover have "index_is (multi_rel (mi_quaternary_multi ?m)) (mi_primary ?m) (committee_key sha256 db')"
  proof (cases emptied)
    case True
    then show ?thesis
      using index_is_retain [OF i(2), of ?cid "committee_key sha256 db'"] k(3) by (simp add: mi_remove_multi cluster_tags_def)
  next
    case False
    then show ?thesis using index_is_cong [OF i(2) refl] k(3) by simp
  qed
  ultimately show ?thesis unfolding clusters_match_def by blast
qed

lemma drops_own_clusters:
  assumes ok: "db_ok keccak256 cv db" and row: "map_of (db_validators db) pk = Some v"
    and drops: "drops pk (vr_cluster_id v) emptied db db'"
  shows "own_clusters_of db' own = (if emptied then own_clusters_of db own - {vr_cluster_id v} else own_clusters_of db own)"
proof -
  let ?cid = "vr_cluster_id v"
  note k = drops_keys [OF drops]
  have key: "cluster_key db pk = ?cid" by (simp add: cluster_key_def row)
  have "own_clusters_of db' own = cluster_key db ` (dom (own_share db own) - {pk})"
    unfolding own_clusters_of_def k(4) using k(1) by (auto simp: image_iff)
  also have "\<dots> = (if emptied then own_clusters_of db own - {?cid} else own_clusters_of db own)"
  proof (cases emptied)
    case True
    have "cluster_key db q \<noteq> ?cid" if "q \<in> dom (own_share db own) - {pk}" for q
      using that own_share_validator [OF ok, of own q] k(5) [of q] True by auto
    then show ?thesis using True key by (auto simp: own_clusters_of_def)
  next
    case False
    then obtain q w where q: "map_of (db_validators db') q = Some w" "vr_cluster_id w = ?cid"
      using drops unfolding drops_def by blast
    then have w: "map_of (db_validators db) q = Some w" "q \<noteq> pk" by (auto simp: dropsD(1) [OF drops] split: if_splits)
    have "own_share db own q \<noteq> None" if "own_share db own pk \<noteq> None"
      using that ok row w(1) q(2) unfolding own_share_row db_ok_def validators_ok_def by metis
    moreover have "cluster_key db q = ?cid" using w(1) q(2) by (simp add: cluster_key_def)
    ultimately have "?cid \<in> cluster_key db ` (dom (own_share db own) - {pk})" if "pk \<in> dom (own_share db own)"
      using that w(2) by (intro image_eqI [of _ _ q]) (auto simp: dom_def)
    then have "cluster_key db x \<in> cluster_key db ` (dom (own_share db own) - {pk})" if "x \<in> dom (own_share db own)" for x
      using that key by (cases "x = pk") auto
    then show ?thesis using False by (auto simp: own_clusters_of_def)
  qed
  finally show ?thesis .
qed

lemma drops_operator_view:
  assumes ok: "db_ok keccak256 cv db" and ok': "db_ok keccak256 cv db'" and drops: "drops pk cid emptied db db'"
  shows "fetch_operators db' = fetch_operators db" "own_operator_id_db operator db' = own_operator_id_db operator db"
proof -
  have k: "distinct (map fst (db_operators db))" "operators_ok db" and k': "distinct (map fst (db_operators db'))" "operators_ok db'"
    using ok ok' by (simp_all add: db_ok_def keys_ok_def)
  note op = drops_operators [OF drops k(1)]
  show "fetch_operators db' = fetch_operators db"
    by (simp add: fetch_operators_def op fun_eq_iff split: option.split)
  show "own_operator_id_db operator db' = own_operator_id_db operator db"
  proof (cases operator)
    case (Pubkey key)
    have "GET_OPERATOR_ID key db' = Some j \<longleftrightarrow> GET_OPERATOR_ID key db = Some j" for j
      unfolding GET_OPERATOR_ID_iff [OF k] GET_OPERATOR_ID_iff [OF k'] op by (simp split: option.split)
    then have "GET_OPERATOR_ID key db' = GET_OPERATOR_ID key db" by (metis option.exhaust)
    then show ?thesis by (simp add: own_operator_id_db_def Pubkey)
  qed (simp add: own_operator_id_db_def)
qed

lemma delete_validator_ok:
  assumes ok: "tx_ok keccak256 cv sha256 operator s0 tx" and run: "delete_validator_tx pk tx = (tx', Ok u)"
    and row: "map_of (db_validators (tx_db tx)) pk = Some v"
  shows "tx_ok keccak256 cv sha256 operator s0 tx'"
proof -
  have dbok: "db_ok keccak256 cv (tx_db tx)" using ok by (simp add: tx_ok_def)
  obtain db' where db': "DELETE_VALIDATOR pk (tx_db tx) = Ok db'"
    and tx': "tx' = tx\<lparr>tx_db := db', tx_updates := tx_updates tx @ [DeleteValidator pk]\<rparr>"
    using run by (auto simp: delete_validator_tx_def tx_op_simps)
  obtain emptied where drops: "drops pk (vr_cluster_id v) emptied (tx_db tx) db'"
    using DELETE_VALIDATOR_drops [OF dbok row db'] by blast
  have ok': "db_ok keccak256 cv db'" by (rule drops_db_ok [OF dbok row drops])
  show ?thesis unfolding tx'
  proof (rule tx_ok_queue [OF ok ok'])
    fix s assume s: "state_matches sha256 operator (tx_db tx) s"
    note d = state_matchesD [OF s] and r = dropsD [OF drops]
    define meta where "meta = fst (mi_remove metadata_tags (ns_validator_metadata s) pk)"
    have m: "metadata_matches sha256 db' meta" unfolding meta_def by (rule drops_metadata [OF drops d(6)])
    have removed: "mi_remove metadata_tags (ns_validator_metadata s) pk = (meta, Some (metadata_from_row pk v))"
      using mi_remove_value [of metadata_tags "ns_validator_metadata s" pk] row metadata_keys(1) [OF d(6)]
      by (simp add: meta_def prod_eq_iff)
    have emptied: "emptied \<longleftrightarrow> (\<forall>k \<in> keys_of (mi_secondary_multi meta) (vr_cluster_id v). mi_primary meta k = None)"
      using drops unfolding drops_def metadata_keys(1,2) [OF m] by (auto simp: cluster_key_def)
    let ?s = "s\<lparr>ns_shares := fst (mi_remove share_tags (ns_shares s) pk), ns_validator_metadata := meta,
      ns_clusters := (if emptied then fst (mi_remove cluster_tags (ns_clusters s) (vr_cluster_id v)) else ns_clusters s),
      ns_own_clusters := (if emptied then ns_own_clusters s - {vr_cluster_id v} else ns_own_clusters s)\<rparr>"
    have "apply_update sha256 (DeleteValidator pk) s = Some ?s"
      by (simp add: apply_delete_validator_def Let_def removed metadata_from_row_def emptied [symmetric])
    moreover have "state_matches sha256 operator db' ?s"
      unfolding state_matches_def
      using d(1-5,9) m r(8,9) drops_shares [OF dbok drops d(8)] drops_clusters [OF row drops d(7)]
        drops_own_clusters [OF dbok row drops] drops_operator_view [OF dbok ok' drops]
      by (simp add: nonce_view_def [abs_def] r(7))
    ultimately show "\<exists>s'. apply_update sha256 (DeleteValidator pk) s = Some s' \<and> state_matches sha256 operator db' s'"
      by blast
  qed
qed

end
