(* ===== verification/Db_Insert.thy ===== *)
theory Db_Insert
  imports Db_Delete
begin

text \<open>
  Adding a validator: its row, its cluster when that is new, the cluster's members, the owner when
  that is new, and one share per operator; the state gets its metadata, the cluster and the own
  share. Both stay in step, because the id of a cluster determines its owner and its members.
\<close>

section \<open>What the operation does to the rows\<close>

definition share_row_of :: "pubkey \<Rightarrow> share \<Rightarrow> (pubkey \<times> operator_id) \<times> share_row" where
  "share_row_of pk sh = ((pk, sh_operator_id sh),
     \<lparr>sr_cluster_id = sh_cluster_id sh, sr_share_pubkey = sh_share_pubkey sh,
      sr_encrypted_key = sh_encrypted_private_key sh\<rparr>)"

definition new_members :: "cluster_id \<Rightarrow> operator_id list \<Rightarrow> (cluster_id \<times> operator_id) list \<Rightarrow> (cluster_id \<times> operator_id) list" where
  "new_members cid ids members = map (Pair cid) (filter (\<lambda>i. (cid, i) \<notin> set members) ids)"

lemma in_new_members [simp]:
  "(c, i) \<in> set (new_members cid ids members) \<longleftrightarrow> c = cid \<and> i \<in> set ids \<and> (cid, i) \<notin> set members"
  by (auto simp: new_members_def)

lemma insert_member_share_Ok:
  assumes "insert_member_share own pk (tx, acc) sh = ((tx', acc'), Ok u)"
  shows "tx' = tx\<lparr>tx_db := (tx_db tx)\<lparr>
      db_cluster_members := db_cluster_members (tx_db tx) @
        new_members (sh_cluster_id sh) [sh_operator_id sh] (db_cluster_members (tx_db tx)),
      db_shares := db_shares (tx_db tx) @ [share_row_of pk sh]\<rparr>\<rparr>"
    and "acc' = (if own = Some (sh_operator_id sh) then Some sh else acc)"
    and "(pk, sh_operator_id sh) \<notin> fst ` set (db_shares (tx_db tx))"
    and "(sh_cluster_id sh, sh_operator_id sh) \<in> set (db_cluster_members (tx_db tx))
      \<or> sh_operator_id sh \<in> fst ` set (db_operators (tx_db tx))"
  using assms
  by (auto simp: insert_member_share_def insert_share_def INSERT_CLUSTER_MEMBER_def INSERT_SHARE_def tx_op_simps Let_def
      new_members_def share_row_of_def split: if_splits prod.splits)

lemma new_members_Cons:
  assumes "i \<notin> set ids"
  shows "members @ new_members cid (i # ids) members =
    (members @ new_members cid [i] members) @ new_members cid ids (members @ new_members cid [i] members)"
  using assms by (auto simp: new_members_def intro!: filter_cong arg_cong [where f = "map (Pair cid)"])

lemma insert_shares_loop:
  assumes "for_each_s (insert_member_share own pk) (tx, acc) shs = ((tx', our), Ok u)"
    and "\<And>sh. sh \<in> set shs \<Longrightarrow> sh_cluster_id sh = cid" and "distinct (map sh_operator_id shs)"
  shows "tx' = tx\<lparr>tx_db := (tx_db tx)\<lparr>
      db_cluster_members := db_cluster_members (tx_db tx) @
        new_members cid (map sh_operator_id shs) (db_cluster_members (tx_db tx)),
      db_shares := db_shares (tx_db tx) @ map (share_row_of pk) shs\<rparr>\<rparr>
    \<and> our = (case find (\<lambda>sh. own = Some (sh_operator_id sh)) shs of None \<Rightarrow> acc | Some sh \<Rightarrow> Some sh)
    \<and> (\<forall>sh \<in> set shs. (cid, sh_operator_id sh) \<in> set (db_cluster_members (tx_db tx))
         \<or> sh_operator_id sh \<in> fst ` set (db_operators (tx_db tx)))"
  using assms
proof (induction shs arbitrary: tx acc)
  case Nil
  then show ?case by (simp add: new_members_def)
next
  case (Cons sh shs)
  obtain tx1 acc1 where step: "insert_member_share own pk (tx, acc) sh = ((tx1, acc1), Ok ())"
    and rest: "for_each_s (insert_member_share own pk) (tx1, acc1) shs = ((tx', our), Ok u)"
    using Cons.prems(1) by (auto simp: and_then_Ok_iff)
  have cid: "sh_cluster_id sh = cid" and fresh: "sh_operator_id sh \<notin> set (map sh_operator_id shs)"
    using Cons.prems(2,3) by auto
  note s = insert_member_share_Ok [OF step, unfolded cid]
  have none: "find (\<lambda>sh. own = Some (sh_operator_id sh)) shs = None" if "own = Some (sh_operator_id sh)"
    using that fresh by (auto simp: find_None_iff)
  have IH: "tx' = tx1\<lparr>tx_db := (tx_db tx1)\<lparr>
      db_cluster_members := db_cluster_members (tx_db tx1) @
        new_members cid (map sh_operator_id shs) (db_cluster_members (tx_db tx1)),
      db_shares := db_shares (tx_db tx1) @ map (share_row_of pk) shs\<rparr>\<rparr>"
    "our = (case find (\<lambda>sh. own = Some (sh_operator_id sh)) shs of None \<Rightarrow> acc1 | Some sh \<Rightarrow> Some sh)"
    "\<forall>sh \<in> set shs. (cid, sh_operator_id sh) \<in> set (db_cluster_members (tx_db tx1))
       \<or> sh_operator_id sh \<in> fst ` set (db_operators (tx_db tx1))"
    using Cons.IH [OF rest] Cons.prems(2,3) by auto
  have "tx' = tx\<lparr>tx_db := (tx_db tx)\<lparr>
      db_cluster_members := db_cluster_members (tx_db tx) @
        new_members cid (map sh_operator_id (sh # shs)) (db_cluster_members (tx_db tx)),
      db_shares := db_shares (tx_db tx) @ map (share_row_of pk) (sh # shs)\<rparr>\<rparr>"
    using new_members_Cons [OF fresh, of "db_cluster_members (tx_db tx)" cid] unfolding IH(1) s(1) by simp
  moreover have "our = (case find (\<lambda>sh. own = Some (sh_operator_id sh)) (sh # shs) of None \<Rightarrow> acc | Some sh \<Rightarrow> Some sh)"
    using IH(2) none s(2) by auto
  moreover have "(cid, sh_operator_id x) \<in> set (db_cluster_members (tx_db tx))
      \<or> sh_operator_id x \<in> fst ` set (db_operators (tx_db tx))" if x: "x \<in> set (sh # shs)" for x
  proof (cases "x = sh")
    case False
    then have "x \<in> set shs" using x by simp
    moreover from this have "sh_operator_id x \<in> set (map sh_operator_id shs)" by simp
    then have "sh_operator_id x \<noteq> sh_operator_id sh" using fresh by metis
    ultimately show ?thesis using IH(3) unfolding s(1) by fastforce
  qed (use s(4) in simp)
  ultimately show ?case by blast
qed

definition added_rows :: "cluster \<Rightarrow> validator_metadata \<Rightarrow> share list \<Rightarrow> 'k sql_db \<Rightarrow> 'k sql_db" where
  "added_rows cluster validator shares db =
     db\<lparr>db_clusters := (if cl_cluster_id cluster \<in> fst ` set (db_clusters db) then db_clusters db
          else db_clusters db @ [(cl_cluster_id cluster, \<lparr>cr_owner = cl_owner cluster, cr_liquidated = False\<rparr>)]),
        db_validators := db_validators db @ [(vm_public_key validator,
          \<lparr>vr_cluster_id = cl_cluster_id cluster, vr_index = vm_index validator, vr_graffiti = vm_graffiti validator\<rparr>)],
        db_owners := (if cl_owner cluster \<in> fst ` set (db_owners db) then db_owners db
          else db_owners db @ [(cl_owner cluster, \<lparr>ow_fee_recipient = Some (cl_owner cluster), ow_nonce = None\<rparr>)]),
        db_cluster_members := db_cluster_members db @
          new_members (cl_cluster_id cluster) (cl_cluster_members cluster) (db_cluster_members db),
        db_shares := db_shares db @ map (share_row_of (vm_public_key validator)) shares\<rparr>"

text \<open>What the handler has established of its arguments.\<close>

definition addition_ok ::
    "(bytes \<Rightarrow> bytes) \<Rightarrow> ('f::field, 'g::ab_group_add) curve \<Rightarrow> 'k sql_db \<Rightarrow> cluster \<Rightarrow> validator_metadata \<Rightarrow> share list \<Rightarrow> bool" where
  "addition_ok keccak256 cv db cluster validator shares \<longleftrightarrow>
     cl_cluster_id cluster = compute_cluster_id keccak256 (cl_owner cluster) (cl_cluster_members cluster)
     \<and> length (cl_owner cluster) = 20 \<and> distinct (cl_cluster_members cluster) \<and> cl_cluster_members cluster \<noteq> []
     \<and> cl_cluster_members cluster = map sh_operator_id shares
     \<and> (\<forall>sh \<in> set shares. sh_cluster_id sh = cl_cluster_id cluster \<and> sh_validator_pubkey sh = vm_public_key validator)
     \<and> vm_cluster_id validator = cl_cluster_id cluster
     \<and> cl_fee_recipient cluster =
         (case owner_fee_recipient (cl_owner cluster) db of Some a \<Rightarrow> a | None \<Rightarrow> cl_owner cluster)
     \<and> \<not> cl_liquidated cluster
     \<and> (\<forall>r. map_of (db_clusters db) (cl_cluster_id cluster) = Some r \<longrightarrow> \<not> cr_liquidated r)
     \<and> validate_share_public_keys (cv_smul cv) (cv_key_validate cv) (vm_public_key validator)
         (map (\<lambda>sh. (sh_operator_id sh, sh_share_pubkey sh)) shares) = Ok ()"

text \<open>The rows before the loop over the shares.\<close>

definition validator_rows :: "cluster \<Rightarrow> validator_metadata \<Rightarrow> 'k sql_db \<Rightarrow> 'k sql_db" where
  "validator_rows cluster validator db =
     db\<lparr>db_clusters := (if cl_cluster_id cluster \<in> fst ` set (db_clusters db) then db_clusters db
          else db_clusters db @ [(cl_cluster_id cluster, \<lparr>cr_owner = cl_owner cluster, cr_liquidated = False\<rparr>)]),
        db_validators := db_validators db @ [(vm_public_key validator,
          \<lparr>vr_cluster_id = cl_cluster_id cluster, vr_index = vm_index validator, vr_graffiti = vm_graffiti validator\<rparr>)],
        db_owners := (if cl_owner cluster \<in> fst ` set (db_owners db) then db_owners db
          else db_owners db @ [(cl_owner cluster, \<lparr>ow_fee_recipient = Some (cl_owner cluster), ow_nonce = None\<rparr>)])\<rparr>"

lemma insert_validator_start:
  assumes run: "insert_validator_tx nd cluster validator shares tx = (tx', Ok u)"
  obtains tx4 our where "vm_public_key validator \<notin> fst ` set (db_validators (tx_db tx))"
    and "for_each_s (insert_member_share (get_own_operator_id_tx nd tx) (vm_public_key validator))
      (tx\<lparr>tx_db := validator_rows cluster validator (tx_db tx)\<rparr>, None) shares = ((tx4, our), Ok ())"
    and "tx' = tx4\<lparr>tx_updates := tx_updates tx4 @ [InsertValidator cluster validator our]\<rparr>"
proof -
  let ?pk = "vm_public_key validator" and ?own = "get_own_operator_id_tx nd tx"
  define db3 where "db3 = validator_rows cluster validator (tx_db tx)"
  have ops: "db_operators db3 = db_operators (tx_db tx)" by (simp add: db3_def validator_rows_def)
  have own: "get_own_operator_id_tx nd (tx\<lparr>tx_db := db3\<rparr>) = ?own"
    by (cases "get_own_id (nd_state nd)") (simp_all add: get_own_operator_id_tx_def operators_cong(1) [OF ops])
  have "?pk \<notin> fst ` set (db_validators (tx_db tx))
      \<and> (case for_each_s (insert_member_share ?own ?pk) (tx\<lparr>tx_db := db3\<rparr>, None) shares of
           ((tx, our_share), Ok _) \<Rightarrow> queue_update (InsertValidator cluster validator our_share) tx
         | ((tx, _), Err e) \<Rightarrow> (tx, Err e)
         | ((tx, _), Panic) \<Rightarrow> (tx, Panic)) = (tx', Ok u)"
    using run own unfolding insert_validator_tx_def db3_def validator_rows_def
    by (auto simp: tx_op_simps INSERT_CLUSTER_def INSERT_VALIDATOR_def INSERT_OWNER_IF_NEW_def Let_def split: if_splits)
  then show thesis using that unfolding db3_def by (auto split: prod.splits outcome.splits)
qed

lemma insert_validator_closed:
  assumes run: "insert_validator_tx nd cluster validator shares tx = (tx', Ok u)"
    and add: "addition_ok keccak256 cv (tx_db tx) cluster validator shares"
  shows "tx' = tx\<lparr>tx_db := added_rows cluster validator shares (tx_db tx), tx_updates := tx_updates tx @
      [InsertValidator cluster validator (find (\<lambda>sh. get_own_operator_id_tx nd tx = Some (sh_operator_id sh)) shares)]\<rparr>"
    and "map_of (db_validators (tx_db tx)) (vm_public_key validator) = None"
    and "\<And>i. i \<in> set (cl_cluster_members cluster) \<Longrightarrow> (cl_cluster_id cluster, i) \<in> set (db_cluster_members (tx_db tx))
      \<or> i \<in> fst ` set (db_operators (tx_db tx))"
proof -
  let ?cid = "cl_cluster_id cluster" and ?pk = "vm_public_key validator" and ?own = "get_own_operator_id_tx nd tx"
  obtain tx4 our where fresh: "?pk \<notin> fst ` set (db_validators (tx_db tx))"
    and loop: "for_each_s (insert_member_share ?own ?pk)
      (tx\<lparr>tx_db := validator_rows cluster validator (tx_db tx)\<rparr>, None) shares = ((tx4, our), Ok ())"
    and tx': "tx' = tx4\<lparr>tx_updates := tx_updates tx4 @ [InsertValidator cluster validator our]\<rparr>"
    by (rule insert_validator_start [OF run])
  have "\<And>sh. sh \<in> set shares \<Longrightarrow> sh_cluster_id sh = ?cid" "distinct (map sh_operator_id shares)"
    and ids: "map sh_operator_id shares = cl_cluster_members cluster"
    using add by (auto simp: addition_ok_def)
  note l = insert_shares_loop [OF loop this(1,2), unfolded ids]
  have tx4: "tx4 = tx\<lparr>tx_db := added_rows cluster validator shares (tx_db tx)\<rparr>"
    using l by (simp add: validator_rows_def added_rows_def)
  have our: "our = find (\<lambda>sh. ?own = Some (sh_operator_id sh)) shares"
    using l by (auto split: option.split)
  show "tx' = tx\<lparr>tx_db := added_rows cluster validator shares (tx_db tx), tx_updates := tx_updates tx @
      [InsertValidator cluster validator (find (\<lambda>sh. ?own = Some (sh_operator_id sh)) shares)]\<rparr>"
    by (simp add: tx' tx4 our)
  show "map_of (db_validators (tx_db tx)) ?pk = None" using fresh by (simp add: map_of_eq_None_iff)
  show "(?cid, i) \<in> set (db_cluster_members (tx_db tx)) \<or> i \<in> fst ` set (db_operators (tx_db tx))"
    if "i \<in> set (cl_cluster_members cluster)" for i
    using that l unfolding ids [symmetric] by (auto simp: validator_rows_def)
qed

section \<open>The rows afterwards\<close>

lemma addition_cluster:
  assumes ok: "db_ok keccak256 cv db" and inj: "inj keccak256" and add: "addition_ok keccak256 cv db cluster validator shares"
    and row: "map_of (db_clusters db) (cl_cluster_id cluster) = Some r"
  shows "r = \<lparr>cr_owner = cl_owner cluster, cr_liquidated = False\<rparr>"
    and "members_of db (cl_cluster_id cluster) = set (cl_cluster_members cluster)"
proof -
  have "names_cluster keccak256 (cl_cluster_id cluster) (cr_owner r) (members_of db (cl_cluster_id cluster))"
    using ok row unfolding db_ok_def clusters_ok_def by blast
  moreover have "names_cluster keccak256 (cl_cluster_id cluster) (cl_owner cluster) (set (cl_cluster_members cluster))"
    using add unfolding addition_ok_def names_cluster_def by blast
  ultimately have "cr_owner r = cl_owner cluster" "members_of db (cl_cluster_id cluster) = set (cl_cluster_members cluster)"
    using names_cluster_unique [OF inj] by blast+
  moreover have "\<not> cr_liquidated r" using add row unfolding addition_ok_def by blast
  ultimately show "r = \<lparr>cr_owner = cl_owner cluster, cr_liquidated = False\<rparr>"
    "members_of db (cl_cluster_id cluster) = set (cl_cluster_members cluster)"
    by simp_all
qed

lemma new_members_known:
  assumes "db_ok keccak256 cv db" "inj keccak256" "addition_ok keccak256 cv db cluster validator shares"
    and "map_of (db_clusters db) (cl_cluster_id cluster) \<noteq> None"
  shows "new_members (cl_cluster_id cluster) (cl_cluster_members cluster) (db_cluster_members db) = []"
  using addition_cluster(2) [OF assms(1-3)] assms(4) by (auto simp: new_members_def members_of_def filter_empty_conv)

lemma no_members_unknown:
  assumes "db_ok keccak256 cv db" "map_of (db_clusters db) cid = None"
  shows "(cid, i) \<notin> set (db_cluster_members db)"
  using assms unfolding db_ok_def clusters_ok_def by blast

lemma addedD:
  assumes ok: "db_ok keccak256 cv db" and inj: "inj keccak256" and add: "addition_ok keccak256 cv db cluster validator shares"
    and fresh: "map_of (db_validators db) (vm_public_key validator) = None"
    and db'_def: "db' = added_rows cluster validator shares db"
  shows "map_of (db_validators db') = (map_of (db_validators db))(vm_public_key validator \<mapsto>
      \<lparr>vr_cluster_id = cl_cluster_id cluster, vr_index = vm_index validator, vr_graffiti = vm_graffiti validator\<rparr>)"
    and "map_of (db_clusters db') = (map_of (db_clusters db))(cl_cluster_id cluster \<mapsto>
      \<lparr>cr_owner = cl_owner cluster, cr_liquidated = False\<rparr>)"
    and "(c, i) \<in> set (db_cluster_members db') \<longleftrightarrow>
      (c, i) \<in> set (db_cluster_members db) \<or> c = cl_cluster_id cluster \<and> i \<in> set (cl_cluster_members cluster)"
    and "members_of db' (cl_cluster_id cluster) = set (cl_cluster_members cluster)"
    and "c \<noteq> cl_cluster_id cluster \<or> map_of (db_clusters db) (cl_cluster_id cluster) \<noteq> None \<Longrightarrow>
      GET_CLUSTER_MEMBERS c db' = GET_CLUSTER_MEMBERS c db"
proof -
  let ?cid = "cl_cluster_id cluster"
  show "map_of (db_validators db') = (map_of (db_validators db))(vm_public_key validator \<mapsto>
      \<lparr>vr_cluster_id = cl_cluster_id cluster, vr_index = vm_index validator, vr_graffiti = vm_graffiti validator\<rparr>)"
    unfolding db'_def added_rows_def using map_of_snoc [OF fresh] by simp
  show "map_of (db_clusters db') = (map_of (db_clusters db))(?cid \<mapsto> \<lparr>cr_owner = cl_owner cluster, cr_liquidated = False\<rparr>)"
  proof (cases "map_of (db_clusters db) ?cid")
    case None
    then show ?thesis
      using map_of_snoc [OF None] by (simp add: db'_def added_rows_def in_keys_iff del: map_of_append)
  next
    case (Some r)
    then have "(map_of (db_clusters db))(?cid \<mapsto> \<lparr>cr_owner = cl_owner cluster, cr_liquidated = False\<rparr>) = map_of (db_clusters db)"
      using addition_cluster(1) [OF ok inj add Some] by (simp add: fun_upd_idem)
    then show ?thesis using Some by (simp add: db'_def added_rows_def in_keys_iff)
  qed
  show mem: "(c, i) \<in> set (db_cluster_members db') \<longleftrightarrow>
      (c, i) \<in> set (db_cluster_members db) \<or> c = ?cid \<and> i \<in> set (cl_cluster_members cluster)" for c i
    by (auto simp: db'_def added_rows_def)
  show "members_of db' ?cid = set (cl_cluster_members cluster)"
  proof (cases "map_of (db_clusters db) ?cid")
    case None
    then show ?thesis using no_members_unknown [OF ok None] by (auto simp: members_of_def mem)
  next
    case (Some r)
    then show ?thesis using addition_cluster(2) [OF ok inj add Some] by (auto simp: members_of_def mem)
  qed
  show "GET_CLUSTER_MEMBERS c db' = GET_CLUSTER_MEMBERS c db"
    if "c \<noteq> ?cid \<or> map_of (db_clusters db) ?cid \<noteq> None"
  proof (cases "c = ?cid")
    case True
    then show ?thesis
      using that new_members_known [OF ok inj add] by (simp add: GET_CLUSTER_MEMBERS_def db'_def added_rows_def)
  next
    case False
    then show ?thesis
      by (auto simp: GET_CLUSTER_MEMBERS_def db'_def added_rows_def new_members_def filter_empty_conv)
  qed
qed

text \<open>The shares: the new validator had none before.\<close>

lemma map_of_share_rows:
  "map_of (map (share_row_of pk) shs) (q, i) =
     (if q = pk then map_option (\<lambda>sh. snd (share_row_of pk sh)) (find (\<lambda>sh. sh_operator_id sh = i) shs) else None)"
  by (induction shs) (auto simp: share_row_of_def)

lemma added_shares:
  assumes ok: "db_ok keccak256 cv db" and fresh: "map_of (db_validators db) (vm_public_key validator) = None"
    and db'_def: "db' = added_rows cluster validator shares db"
  shows "map_of (db_shares db') (q, i) =
      (if q = vm_public_key validator
       then map_option (\<lambda>sh. snd (share_row_of q sh)) (find (\<lambda>sh. sh_operator_id sh = i) shares)
       else map_of (db_shares db) (q, i))"
    and "share_pubkeys_of db' q =
      (if q = vm_public_key validator then map (\<lambda>sh. (sh_operator_id sh, sh_share_pubkey sh)) shares else share_pubkeys_of db q)"
    and "map_of (db_shares db) (vm_public_key validator, i) = None"
proof -
  let ?pk = "vm_public_key validator"
  show none: "map_of (db_shares db) (?pk, i) = None" for i
    using share_has_validator [OF ok, of ?pk i] fresh by (cases "map_of (db_shares db) (?pk, i)") auto
  show "map_of (db_shares db') (q, i) =
      (if q = ?pk then map_option (\<lambda>sh. snd (share_row_of q sh)) (find (\<lambda>sh. sh_operator_id sh = i) shares)
       else map_of (db_shares db) (q, i))"
    using none [of i] by (auto simp: db'_def added_rows_def map_add_def map_of_share_rows split: option.split)
  have "((?pk, i), r) \<notin> set (db_shares db)" for i r
    using none [of i] by (force simp: map_of_eq_None_iff)
  then have "filter (\<lambda>((v, _), _). v = ?pk) (db_shares db) = []" by (auto simp: filter_empty_conv)
  then show "share_pubkeys_of db' q =
      (if q = ?pk then map (\<lambda>sh. (sh_operator_id sh, sh_share_pubkey sh)) shares else share_pubkeys_of db q)"
    by (auto simp: share_pubkeys_of_def db'_def added_rows_def share_row_of_def filter_map o_def filter_empty_conv)
qed

section \<open>The invariant of the tables\<close>

lemma added_keys:
  assumes ok: "db_ok keccak256 cv db" and add: "addition_ok keccak256 cv db cluster validator shares"
    and fresh: "map_of (db_validators db) (vm_public_key validator) = None"
  shows "keys_ok (added_rows cluster validator shares db)"
proof -
  let ?pk = "vm_public_key validator"
  have keys: "keys_ok db" using ok by (simp add: db_ok_def)
  have "distinct (map fst (map (share_row_of ?pk) shares))"
    using add by (auto simp: addition_ok_def share_row_of_def distinct_map inj_on_def)
  moreover have "(?pk, i) \<notin> fst ` set (db_shares db)" for i
    using added_shares(3) [OF ok fresh refl, of i] by (simp add: map_of_eq_None_iff)
  then have "set (map fst (db_shares db)) \<inter> set (map fst (map (share_row_of ?pk) shares)) = {}"
    by (auto simp: share_row_of_def)
  moreover have "distinct (new_members (cl_cluster_id cluster) (cl_cluster_members cluster) (db_cluster_members db))"
    using add by (auto simp: addition_ok_def new_members_def distinct_map inj_on_def)
  moreover have "set (db_cluster_members db) \<inter>
      set (new_members (cl_cluster_id cluster) (cl_cluster_members cluster) (db_cluster_members db)) = {}"
    by (auto simp: new_members_def)
  moreover have "?pk \<notin> fst ` set (db_validators db)" using fresh by (simp add: map_of_eq_None_iff)
  ultimately show ?thesis using keys unfolding keys_ok_def added_rows_def by auto
qed

lemma added_db_ok:
  assumes ok: "db_ok keccak256 cv db" and inj: "inj keccak256" and add: "addition_ok keccak256 cv db cluster validator shares"
    and fresh: "map_of (db_validators db) (vm_public_key validator) = None"
    and known: "\<And>i. i \<in> set (cl_cluster_members cluster) \<Longrightarrow> (cl_cluster_id cluster, i) \<in> set (db_cluster_members db)
      \<or> i \<in> fst ` set (db_operators db)"
    and db': "db' = added_rows cluster validator shares db"
  shows "db_ok keccak256 cv db'"
  unfolding db_ok_def
proof (intro conjI)
  let ?cid = "cl_cluster_id cluster" and ?pk = "vm_public_key validator"
  note d = addedD [OF ok inj add fresh db'] and sh = added_shares [OF ok fresh db']
  have cl: "clusters_ok keccak256 db" and val: "validators_ok cv db" using ok by (simp_all add: db_ok_def)
  have same: "db_operators db' = db_operators db" by (simp add: db' added_rows_def)
  show "keys_ok db'" unfolding db' by (rule added_keys [OF ok add fresh])
  show "operators_ok db'" using ok by (simp add: db_ok_def operators_ok_def same)
  show "owners_ok db'"
  proof -
    have "map_of (db_owners db') o' = Some r \<Longrightarrow> ow_nonce r = Some n \<Longrightarrow> map_of (db_owners db) o' = Some r" for o' r n
      by (auto simp: db' added_rows_def map_add_def split: if_splits option.splits)
    then show ?thesis using ok unfolding db_ok_def owners_ok_def by blast
  qed
  have mem: "members_of db' c = members_of db c" if "map_of (db_clusters db) c \<noteq> None" for c
  proof -
    have "set (GET_CLUSTER_MEMBERS c db') = set (GET_CLUSTER_MEMBERS c db)" using d(5) that by metis
    then show ?thesis by (simp add: members_of_def)
  qed
  show "clusters_ok keccak256 db'"
    unfolding clusters_ok_def
  proof (intro conjI allI impI)
    fix c r assume c: "map_of (db_clusters db') c = Some r"
    show "names_cluster keccak256 c (cr_owner r) (members_of db' c)"
    proof (cases "c = ?cid")
      case True
      then show ?thesis using c add unfolding d(2) d(4) True addition_ok_def names_cluster_def by auto
    next
      case False
      then have "map_of (db_clusters db) c = Some r" using c d(2) by simp
      then show ?thesis using cl mem [of c] unfolding clusters_ok_def by auto
    qed
    show "\<exists>q w. map_of (db_validators db') q = Some w \<and> vr_cluster_id w = c"
    proof (cases "c = ?cid")
      case True
      then show ?thesis unfolding d(1) by (intro exI [of _ ?pk]) simp
    next
      case False
      then have "map_of (db_clusters db) c = Some r" using c d(2) by simp
      then obtain q w where q: "map_of (db_validators db) q = Some w" "vr_cluster_id w = c"
        using cl unfolding clusters_ok_def by blast
      then have "q \<noteq> ?pk" using fresh by auto
      then show ?thesis using q unfolding d(1) by (intro exI [of _ q]) simp
    qed
  next
    fix c i assume "(c, i) \<in> set (db_cluster_members db')"
    then consider "(c, i) \<in> set (db_cluster_members db)" | "c = ?cid" "i \<in> fst ` set (db_operators db)"
      using d(3) known by blast
    then show "map_of (db_clusters db') c \<noteq> None" "map_of (db_operators db') i \<noteq> None"
      using cl unfolding clusters_ok_def d(2) same by (cases, auto simp: in_keys_iff)+
  qed
  show "validators_ok cv db'"
    unfolding validators_ok_def
  proof (intro conjI allI impI)
    fix q w assume q: "map_of (db_validators db') q = Some w"
    have ids: "find (\<lambda>sh. sh_operator_id sh = i) shares \<noteq> None \<longleftrightarrow> i \<in> set (cl_cluster_members cluster)" for i
      using add by (auto simp: addition_ok_def find_None_iff)
    show "map_of (db_clusters db') (vr_cluster_id w) \<noteq> None"
      using q val unfolding d(1,2) validators_ok_def by (auto split: if_splits)
    show "map_of (db_shares db') (q, i) \<noteq> None \<longleftrightarrow> i \<in> members_of db' (vr_cluster_id w)" for i
    proof (cases "q = ?pk")
      case True
      then show ?thesis using q ids [of i] d(4) unfolding d(1) sh(1) by auto
    next
      case False
      then have "map_of (db_validators db) q = Some w" using q d(1) by simp
      then show ?thesis using False val mem unfolding sh(1) validators_ok_def by auto
    qed
    show "validate_share_public_keys (cv_smul cv) (cv_key_validate cv) q (share_pubkeys_of db' q) = Ok ()"
    proof (cases "q = ?pk")
      case True
      then show ?thesis using add unfolding sh(2) addition_ok_def by simp
    next
      case False
      then have "map_of (db_validators db) q = Some w" using q d(1) by simp
      then show ?thesis using False val unfolding sh(2) validators_ok_def by auto
    qed
  next
    fix q i s assume s: "map_of (db_shares db') (q, i) = Some s"
    show "\<exists>w. map_of (db_validators db') q = Some w \<and> sr_cluster_id s = vr_cluster_id w"
    proof (cases "q = ?pk")
      case True
      then obtain x where "x \<in> set shares" "s = snd (share_row_of q x)"
        using s unfolding sh(1) by (auto simp: find_Some_iff in_set_conv_nth)
      then have "sr_cluster_id s = ?cid" using add by (auto simp: addition_ok_def share_row_of_def)
      then show ?thesis using True unfolding d(1) by simp
    next
      case False
      then show ?thesis using s val unfolding sh(1) d(1) validators_ok_def by auto
    qed
  qed
qed

section \<open>The state\<close>

lemma committee_id_of_set:
  assumes "distinct xs" "distinct ys" "set xs = set ys"
  shows "committee_id_of_vec sha256 xs = committee_id_of_vec sha256 ys"
proof -
  have "sort xs = sort ys"
    using assms by (metis properties_for_sort set_eq_iff_mset_eq_distinct sorted_sort mset_sort)
  then show ?thesis by (simp add: committee_id_of_vec_def)
qed

lemma added_index_keys:
  assumes ok: "db_ok keccak256 cv db" and inj: "inj keccak256" and add: "addition_ok keccak256 cv db cluster validator shares"
    and fresh: "map_of (db_validators db) (vm_public_key validator) = None"
    and db': "db' = added_rows cluster validator shares db"
  shows "cluster_key db' (vm_public_key validator) = cl_cluster_id cluster"
    and "owner_key db' (cl_cluster_id cluster) = cl_owner cluster"
    and "committee_key sha256 db' (cl_cluster_id cluster) = cluster_committee_id sha256 cluster"
    and "q \<noteq> vm_public_key validator \<Longrightarrow> cluster_key db' q = cluster_key db q"
    and "map_of (db_clusters db) c \<noteq> None \<Longrightarrow> owner_key db' c = owner_key db c"
    and "map_of (db_clusters db) c \<noteq> None \<Longrightarrow> committee_key sha256 db' c = committee_key sha256 db c"
    and "map_of (db_validators db) q \<noteq> None \<Longrightarrow> map_of (db_clusters db) (cluster_key db q) \<noteq> None"
proof -
  let ?cid = "cl_cluster_id cluster"
  note d = addedD [OF ok inj add fresh db']
  show "cluster_key db' (vm_public_key validator) = ?cid" by (simp add: cluster_key_def d(1))
  show "owner_key db' ?cid = cl_owner cluster" by (simp add: owner_key_def d(2))
  have "keys_ok db'" unfolding db' by (rule added_keys [OF ok add fresh])
  then have "distinct (GET_CLUSTER_MEMBERS ?cid db')" by (simp add: keys_ok_def distinct_GET_CLUSTER_MEMBERS)
  moreover have "set (GET_CLUSTER_MEMBERS ?cid db') = set (cl_cluster_members cluster)"
    using d(4) by (simp add: members_of_def)
  moreover have "distinct (cl_cluster_members cluster)" using add unfolding addition_ok_def by blast
  ultimately show "committee_key sha256 db' ?cid = cluster_committee_id sha256 cluster"
    unfolding committee_key_def cluster_committee_id_def by (intro committee_id_of_set)
  show "q \<noteq> vm_public_key validator \<Longrightarrow> cluster_key db' q = cluster_key db q" by (simp add: cluster_key_def d(1))
  show "map_of (db_clusters db) c \<noteq> None \<Longrightarrow> owner_key db' c = owner_key db c"
    using addition_cluster(1) [OF ok inj add] by (auto simp: owner_key_def d(2))
  show "map_of (db_clusters db) c \<noteq> None \<Longrightarrow> committee_key sha256 db' c = committee_key sha256 db c"
    using d(5) [of c] by (cases "c = ?cid") (auto simp: committee_key_def)
  show "map_of (db_validators db) q \<noteq> None \<Longrightarrow> map_of (db_clusters db) (cluster_key db q) \<noteq> None"
    using ok unfolding db_ok_def validators_ok_def by (auto simp: cluster_key_def)
qed

lemma added_metadata:
  assumes ok: "db_ok keccak256 cv db" and inj: "inj keccak256" and add: "addition_ok keccak256 cv db cluster validator shares"
    and fresh: "map_of (db_validators db) (vm_public_key validator) = None"
    and db': "db' = added_rows cluster validator shares db" and m: "metadata_matches sha256 db m"
  shows "metadata_matches sha256 db' (insert_or_update metadata_tags m (vm_public_key validator) (cl_cluster_id cluster)
    (cl_owner cluster) (cluster_committee_id sha256 cluster) validator)"
proof -
  let ?pk = "vm_public_key validator"
  note d = addedD [OF ok inj add fresh db'] and k = added_index_keys [OF ok inj add fresh db']
  have p: "mi_primary m = (\<lambda>pk. map_option (metadata_from_row pk) (map_of (db_validators db) pk))"
    and i: "index_is (multi_rel (mi_secondary_multi m)) (mi_primary m) (cluster_key db)"
      "index_is (multi_rel (mi_tertiary_multi m)) (mi_primary m) (owner_key db \<circ> cluster_key db)"
      "index_is (multi_rel (mi_quaternary_multi m)) (mi_primary m) (committee_key sha256 db \<circ> cluster_key db)"
    using m unfolding metadata_matches_def by blast+
  have old: "q \<noteq> ?pk \<and> map_of (db_clusters db) (cluster_key db q) \<noteq> None" if "mi_primary m q \<noteq> None" for q
    using that fresh k(7) [of q] by (auto simp: p)
  have "vm_cluster_id validator = cl_cluster_id cluster" using add unfolding addition_ok_def by blast
  then have "(mi_primary m)(?pk \<mapsto> validator) = (\<lambda>q. map_option (metadata_from_row q) (map_of (db_validators db') q))"
    by (auto simp: p d(1) metadata_from_row_def)
  moreover have
      "index_is (insert (cl_cluster_id cluster, ?pk) (multi_rel (mi_secondary_multi m))) ((mi_primary m)(?pk \<mapsto> v)) (cluster_key db')"
      "index_is (insert (cl_owner cluster, ?pk) (multi_rel (mi_tertiary_multi m))) ((mi_primary m)(?pk \<mapsto> v))
         (owner_key db' \<circ> cluster_key db')"
      "index_is (insert (cluster_committee_id sha256 cluster, ?pk) (multi_rel (mi_quaternary_multi m))) ((mi_primary m)(?pk \<mapsto> v))
         (committee_key sha256 db' \<circ> cluster_key db')" for v
    using k(1-6) old by (auto intro!: index_is_insert [OF i(1)] index_is_insert [OF i(2)] index_is_insert [OF i(3)])
  note this [of validator]
  ultimately show ?thesis unfolding metadata_matches_def by (simp add: metadata_tags_def)
qed

lemma added_own_share:
  assumes ok: "db_ok keccak256 cv db" and add: "addition_ok keccak256 cv db cluster validator shares"
    and fresh: "map_of (db_validators db) (vm_public_key validator) = None"
    and db': "db' = added_rows cluster validator shares db"
  shows "own_share db' own = (case find (\<lambda>sh. own = Some (sh_operator_id sh)) shares of
      None \<Rightarrow> own_share db own | Some sh \<Rightarrow> (own_share db own)(vm_public_key validator \<mapsto> sh))"
proof (cases own)
  case None
  then show ?thesis by (simp add: own_share_def fun_eq_iff find_None_iff [THEN iffD2])
next
  case (Some i)
  have rule: "(\<lambda>sh. Some i = Some (sh_operator_id sh)) = (\<lambda>sh. sh_operator_id sh = i)" by auto
  note s = added_shares [OF ok fresh db']
  have "share_from_row (vm_public_key validator) i (snd (share_row_of (vm_public_key validator) sh)) = sh"
    if "find (\<lambda>sh. sh_operator_id sh = i) shares = Some sh" for sh
  proof -
    have "sh \<in> set shares" "sh_operator_id sh = i" using that by (auto simp: find_Some_iff in_set_conv_nth)
    then show ?thesis using add by (cases sh) (auto simp: share_from_row_def share_row_of_def addition_ok_def)
  qed
  then show ?thesis
    unfolding Some rule own_share_def s(1) using s(3) [of i] by (auto simp: fun_eq_iff split: option.split)
qed

lemma added_shares_match:
  assumes ok: "db_ok keccak256 cv db" and inj: "inj keccak256" and add: "addition_ok keccak256 cv db cluster validator shares"
    and fresh: "map_of (db_validators db) (vm_public_key validator) = None"
    and db': "db' = added_rows cluster validator shares db" and m: "shares_match sha256 db own m"
  shows "shares_match sha256 db' own (case find (\<lambda>sh. own = Some (sh_operator_id sh)) shares of
      None \<Rightarrow> m
    | Some sh \<Rightarrow> insert_or_update share_tags m (vm_public_key validator) (cl_cluster_id cluster)
        (cl_owner cluster) (cluster_committee_id sha256 cluster) sh)"
proof -
  let ?pk = "vm_public_key validator"
  note k = added_index_keys [OF ok inj add fresh db'] and own = added_own_share [OF ok add fresh db', of own]
  have p: "mi_primary m = own_share db own"
    and i: "index_is (multi_rel (mi_secondary_multi m)) (mi_primary m) (cluster_key db)"
      "index_is (multi_rel (mi_tertiary_multi m)) (mi_primary m) (owner_key db \<circ> cluster_key db)"
      "index_is (multi_rel (mi_quaternary_multi m)) (mi_primary m) (committee_key sha256 db \<circ> cluster_key db)"
    using m unfolding shares_match_def by blast+
  have old: "q \<noteq> ?pk \<and> map_of (db_clusters db) (cluster_key db q) \<noteq> None" if "mi_primary m q \<noteq> None" for q
    using own_share_validator [OF ok, of own q] that fresh k(7) [of q] by (auto simp: p)
  have ins:
      "index_is (insert (cl_cluster_id cluster, ?pk) (multi_rel (mi_secondary_multi m))) ((mi_primary m)(?pk \<mapsto> v)) (cluster_key db')"
      "index_is (insert (cl_owner cluster, ?pk) (multi_rel (mi_tertiary_multi m))) ((mi_primary m)(?pk \<mapsto> v))
         (owner_key db' \<circ> cluster_key db')"
      "index_is (insert (cluster_committee_id sha256 cluster, ?pk) (multi_rel (mi_quaternary_multi m))) ((mi_primary m)(?pk \<mapsto> v))
         (committee_key sha256 db' \<circ> cluster_key db')" for v
    using k(1-6) old by (auto intro!: index_is_insert [OF i(1)] index_is_insert [OF i(2)] index_is_insert [OF i(3)])
  show ?thesis
  proof (cases "find (\<lambda>sh. own = Some (sh_operator_id sh)) shares")
    case None
    then show ?thesis
      unfolding shares_match_def
      using own p index_is_cong [OF i(1) refl, of "cluster_key db'"] index_is_cong [OF i(2) refl, of "owner_key db' \<circ> cluster_key db'"]
        index_is_cong [OF i(3) refl, of "committee_key sha256 db' \<circ> cluster_key db'"] k(4-6) old
      by simp
  next
    case (Some sh)
    then show ?thesis
      unfolding shares_match_def
      using own p ins [of sh]
      by (simp add: share_tags_def)
  qed
qed

text \<open>The fee recipient of a cluster and the nonces are what they were: a new owner is its own recipient.\<close>

lemma added_owner_views:
  fixes shares
  assumes db': "db' = added_rows cluster validator shares db"
  shows "(case owner_fee_recipient a db' of Some x \<Rightarrow> x | None \<Rightarrow> a) =
      (case owner_fee_recipient a db of Some x \<Rightarrow> x | None \<Rightarrow> a)"
    and "nonce_view db' = nonce_view db"
proof -
  have rows: "map_of (db_owners db') a = (if map_of (db_owners db) a = None \<and> a = cl_owner cluster
      then Some \<lparr>ow_fee_recipient = Some a, ow_nonce = None\<rparr> else map_of (db_owners db) a)" for a
    by (auto simp: db' added_rows_def map_add_def in_keys_iff split: option.split)
  show "(case owner_fee_recipient a db' of Some x \<Rightarrow> x | None \<Rightarrow> a) =
      (case owner_fee_recipient a db of Some x \<Rightarrow> x | None \<Rightarrow> a)"
    by (auto simp: owner_fee_recipient_def rows)
  show "nonce_view db' = nonce_view db" by (auto simp: nonce_view_def rows fun_eq_iff)
qed

lemma added_clusters:
  assumes ok: "db_ok keccak256 cv db" and inj: "inj keccak256" and add: "addition_ok keccak256 cv db cluster validator shares"
    and fresh: "map_of (db_validators db) (vm_public_key validator) = None"
    and db': "db' = added_rows cluster validator shares db" and m: "clusters_match sha256 db m"
  shows "clusters_match sha256 db' (insert_or_update cluster_tags m (cl_cluster_id cluster) (vm_public_key validator)
    (cl_owner cluster) (cluster_committee_id sha256 cluster) cluster)" (is "clusters_match _ _ ?m")
proof -
  let ?cid = "cl_cluster_id cluster" and ?pk = "vm_public_key validator"
  note d = addedD [OF ok inj add fresh db'] and k = added_index_keys [OF ok inj add fresh db'] and o = added_owner_views [OF db']
  have p: "rel_option cluster_like (mi_primary m c) (map_option (cluster_from_row db c) (map_of (db_clusters db) c))" for c
    using m unfolding clusters_match_def by blast
  have i: "index_is (multi_rel (mi_tertiary_multi m)) (mi_primary m) (owner_key db)"
      "index_is (multi_rel (mi_quaternary_multi m)) (mi_primary m) (committee_key sha256 db)"
    and u: "\<And>pk v. map_of (db_validators db) pk = Some v \<Longrightarrow> mi_secondary_unique m pk = Some (vr_cluster_id v)"
    using m unfolding clusters_match_def by blast+
  have "keys_ok db'" unfolding db' by (rule added_keys [OF ok add fresh])
  then have dist: "distinct (GET_CLUSTER_MEMBERS ?cid db')" by (simp add: keys_ok_def distinct_GET_CLUSTER_MEMBERS)
  have mem: "set (GET_CLUSTER_MEMBERS ?cid db') = set (cl_cluster_members cluster)"
    using d(4) by (simp add: members_of_def)
  have c: "cl_fee_recipient cluster = (case owner_fee_recipient (cl_owner cluster) db of Some a \<Rightarrow> a | None \<Rightarrow> cl_owner cluster)"
    "\<not> cl_liquidated cluster" "distinct (cl_cluster_members cluster)"
    using add unfolding addition_ok_def by blast+
  have like: "cluster_like cluster (cluster_from_row db' ?cid \<lparr>cr_owner = cl_owner cluster, cr_liquidated = False\<rparr>)"
    unfolding cluster_like_def
  proof (intro conjI)
    show "cluster\<lparr>cl_cluster_members := []\<rparr> =
        (cluster_from_row db' ?cid \<lparr>cr_owner = cl_owner cluster, cr_liquidated = False\<rparr>)\<lparr>cl_cluster_members := []\<rparr>"
      using c o(1) [of "cl_owner cluster"] by (intro cluster.equality) (simp_all add: cluster_from_row_def cong: option.case_cong)
  qed (use c dist mem in \<open>simp_all add: cluster_from_row_def\<close>)
  have from_row: "cluster_from_row db' c r = cluster_from_row db c r" if "c \<noteq> ?cid" for c r
    using d(5) [of c] that o(1) [of "cr_owner r"] by (simp add: cluster_from_row_def)
  have "rel_option cluster_like (mi_primary ?m c) (map_option (cluster_from_row db' c) (map_of (db_clusters db') c))" for c
    using p [of c] like from_row [of c] by (cases "c = ?cid") (auto simp: d(2) cong: option.map_cong)
  moreover have "mi_secondary_unique ?m q = Some (vr_cluster_id w)" if "map_of (db_validators db') q = Some w" for q w
    using that u [of q] by (cases "q = ?pk") (auto simp: d(1) cluster_tags_def unique_insert_def)
  moreover have "index_is (multi_rel (mi_tertiary_multi ?m)) (mi_primary ?m) (owner_key db')"
    "index_is (multi_rel (mi_quaternary_multi ?m)) (mi_primary ?m) (committee_key sha256 db')"
  proof -
    have "owner_key db' q = owner_key db q" "committee_key sha256 db' q = committee_key sha256 db q"
      if "mi_primary m q \<noteq> None" for q
      using that k(5) [of q] k(6) [of q sha256] clusters_match_dom [OF m, of q] by auto
    then show "index_is (multi_rel (mi_tertiary_multi ?m)) (mi_primary ?m) (owner_key db')"
      "index_is (multi_rel (mi_quaternary_multi ?m)) (mi_primary ?m) (committee_key sha256 db')"
      using k(2,3) index_is_insert [OF i(1)] index_is_insert [OF i(2)] by (simp_all add: cluster_tags_def)
  qed
  ultimately show ?thesis unfolding clusters_match_def by blast
qed

lemma added_own_clusters:
  assumes ok: "db_ok keccak256 cv db" and inj: "inj keccak256" and add: "addition_ok keccak256 cv db cluster validator shares"
    and fresh: "map_of (db_validators db) (vm_public_key validator) = None"
    and db': "db' = added_rows cluster validator shares db"
  shows "own_clusters_of db' own = (case find (\<lambda>sh. own = Some (sh_operator_id sh)) shares of
      None \<Rightarrow> own_clusters_of db own | Some sh \<Rightarrow> insert (cl_cluster_id cluster) (own_clusters_of db own))"
proof -
  note k = added_index_keys [OF ok inj add fresh db']
  have old: "q \<noteq> vm_public_key validator" if "own_share db own q \<noteq> None" for q
    using own_share_validator [OF ok that] fresh by auto
  then have "cluster_key db' ` dom (own_share db own) = cluster_key db ` dom (own_share db own)"
    using k(4) by (intro image_cong) auto
  then show ?thesis
    unfolding own_clusters_of_def added_own_share [OF ok add fresh db', of own]
    using k(1) by (auto split: option.split)
qed

lemma insert_validator_ok:
  assumes ok: "tx_ok keccak256 cv sha256 (nd_operator nd) (nd_state nd) tx" and inj: "inj keccak256"
    and run: "insert_validator_tx nd cluster validator shares tx = (tx', Ok u)"
    and add: "addition_ok keccak256 cv (tx_db tx) cluster validator shares"
  shows "tx_ok keccak256 cv sha256 (nd_operator nd) (nd_state nd) tx'"
proof -
  have dbok: "db_ok keccak256 cv (tx_db tx)" using ok by (simp add: tx_ok_def)
  define db' where "db' = added_rows cluster validator shares (tx_db tx)"
  define own where "own = own_operator_id_db (nd_operator nd) (tx_db tx)"
  define our where "our = find (\<lambda>sh. own = Some (sh_operator_id sh)) shares"
  have tx': "tx' = tx\<lparr>tx_db := db', tx_updates := tx_updates tx @ [InsertValidator cluster validator our]\<rparr>"
    and fresh: "map_of (db_validators (tx_db tx)) (vm_public_key validator) = None"
    using insert_validator_closed(1,2) [OF run add] own_operator_id_tx [OF ok] by (simp_all add: db'_def our_def own_def)
  have ops: "db_operators db' = db_operators (tx_db tx)" and rest: "db_block_number db' = db_block_number (tx_db tx)"
    "db_max_operator_id_seen db' = db_max_operator_id_seen (tx_db tx)"
    by (simp_all add: db'_def added_rows_def)
  show ?thesis unfolding tx'
  proof (rule tx_ok_queue [OF ok])
    show "db_ok keccak256 cv db'"
      using insert_validator_closed(3) [OF run add] by (intro added_db_ok [OF dbok inj add fresh _ db'_def])
    fix s assume s: "state_matches sha256 (nd_operator nd) (tx_db tx) s"
    note d = state_matchesD [OF s]
    let ?s = "apply_insert_validator sha256 cluster validator our s"
    have "ns_validator_metadata ?s = insert_or_update metadata_tags (ns_validator_metadata s) (vm_public_key validator)
        (cl_cluster_id cluster) (cl_owner cluster) (cluster_committee_id sha256 cluster) validator"
      "ns_clusters ?s = insert_or_update cluster_tags (ns_clusters s) (cl_cluster_id cluster) (vm_public_key validator)
        (cl_owner cluster) (cluster_committee_id sha256 cluster) cluster"
      "ns_shares ?s = (case our of None \<Rightarrow> ns_shares s | Some sh \<Rightarrow> insert_or_update share_tags (ns_shares s)
        (vm_public_key validator) (cl_cluster_id cluster) (cl_owner cluster) (cluster_committee_id sha256 cluster) sh)"
      "ns_own_clusters ?s = (case our of None \<Rightarrow> ns_own_clusters s | Some sh \<Rightarrow> insert (cl_cluster_id cluster) (ns_own_clusters s))"
      "ns_id ?s = ns_id s" "ns_operators ?s = ns_operators s" "ns_nonces ?s = ns_nonces s"
      "ns_last_processed_block ?s = ns_last_processed_block s" "ns_max_operator_id_seen ?s = ns_max_operator_id_seen s"
      by (simp_all add: apply_insert_validator_def Let_def split: option.split)
    then have "state_matches sha256 (nd_operator nd) db' ?s"
      unfolding state_matches_def
      using d(1-5,9) added_metadata [OF dbok inj add fresh db'_def d(6)] added_clusters [OF dbok inj add fresh db'_def d(7)]
        added_shares_match [OF dbok inj add fresh db'_def d(8)] added_own_clusters [OF dbok inj add fresh db'_def]
        added_owner_views(2) [OF db'_def] operators_cong [OF ops]
      by (simp add: our_def own_def rest cong: option.case_cong)
    then show "\<exists>s'. apply_update sha256 (InsertValidator cluster validator our) s = Some s' \<and>
        state_matches sha256 (nd_operator nd) db' s'" by simp
  qed
qed

end
