(* ===== verification/Db_Blocks.thy ===== *)
theory Db_Blocks
  imports Db_Insert
begin

text \<open>
  The handlers of the contract's events keep the tables and the state in step, also when they skip
  an event after having written something, and so does the processing of a block.
\<close>

section \<open>Results that do not abort\<close>

definition survives :: "('a, execution_error) outcome \<Rightarrow> bool" where
  "survives r \<longleftrightarrow> (case r of Ok _ \<Rightarrow> True | Err e \<Rightarrow> log_disposition e \<noteq> AbortBatch | Panic \<Rightarrow> False)"

lemma survives_simps [simp]:
  "survives (Ok x)" "survives (Err e) \<longleftrightarrow> log_disposition e \<noteq> AbortBatch" "\<not> survives Panic"
  by (simp_all add: survives_def)

lemma on_tx_Ok [simp]:
  "on_tx f s = (s', Ok x) \<longleftrightarrow> (\<exists>tx'. f (bs_tx s) = (tx', Ok x) \<and> s' = s\<lparr>bs_tx := tx'\<rparr>)"
  by (auto simp: on_tx_def map_err_o_def split: prod.splits outcome.splits)

lemma on_tx_survives:
  assumes "on_tx f s = (s', r)" "survives r"
  obtains x tx' where "f (bs_tx s) = (tx', Ok x)" "s' = s\<lparr>bs_tx := tx'\<rparr>" "r = Ok x"
  using assms by (auto simp: on_tx_def map_err_o_def log_disposition_def split: prod.splits outcome.splits)

lemma and_then_survives:
  assumes "and_then m k = (s', r)" "survives r"
  obtains s1 x where "m = (s1, Ok x)" "k s1 x = (s', r)"
  | e where "m = (s', Err e)" "r = Err e"
  using assms by (cases m; cases "snd m") auto

lemma on_tx_then:
  assumes "and_then (on_tx f s) k = (s', r)" "survives r"
  obtains tx1 x where "f (bs_tx s) = (tx1, Ok x)" "k (s\<lparr>bs_tx := tx1\<rparr>) x = (s', r)"
  using assms(1)
proof (rule and_then_survives [OF _ assms(2)])
  fix s1 x assume "on_tx f s = (s1, Ok x)" "k s1 x = (s', r)"
  then show thesis using that by auto
next
  fix e assume e: "on_tx f s = (s', Err e)" "r = Err e"
  show thesis by (rule on_tx_survives [OF e(1)]) (use e(2) assms(2) in simp_all)
qed

text \<open>Going on after a registration means that it has happened.\<close>

lemma register_then:
  assumes "and_then (register_validator env pk s) k = (s', r)" "survives r"
  obtains "k (s\<lparr>bs_registered := pk # bs_registered s\<rparr>) () = (s', r)"
proof (cases "en_register_validator env pk")
  case True
  then show thesis using assms that by (simp add: register_validator_def)
next
  case False
  then show thesis using assms by (auto simp: register_validator_def log_disposition_def)
qed

section \<open>Parsing shares\<close>

lemma chunks_length:
  "0 < n \<Longrightarrow> length xs = n * k \<Longrightarrow> length (chunks n xs) = k \<and> (\<forall>c \<in> set (chunks n xs). length c = n)"
proof (induction k arbitrary: xs)
  case 0
  then show ?case by (simp add: chunks.simps)
next
  case (Suc k)
  then have "length (drop n xs) = n * k" "xs \<noteq> []" by auto
  with Suc.IH [of "drop n xs"] Suc.prems show ?case by (subst chunks.simps, subst (2) chunks.simps) simp
qed

lemma collect_o_image:
  assumes "collect_o f xs = Ok ys" "\<And>x y. x \<in> set xs \<Longrightarrow> f x = Ok y \<Longrightarrow> g y = h x"
  shows "map g ys = map h xs"
  using assms by (induction xs arbitrary: ys) (auto simp: bindO_Ok_iff)

lemma parse_shares_Ok:
  assumes "parse_shares deserialize bs ids cid pk = Ok (signature, shs)"
  shows "map sh_operator_id shs = ids"
    and "\<And>sh. sh \<in> set shs \<Longrightarrow> sh_cluster_id sh = cid \<and> sh_validator_pubkey sh = pk
      \<and> length (sh_encrypted_private_key sh) = ENCRYPTED_KEY_LENGTH"
proof -
  let ?off = "BLS_PUBLIC_KEY_LENGTH * length ids + BLS_SIGNATURE_LENGTH"
  let ?pks = "chunks BLS_PUBLIC_KEY_LENGTH (take (?off - BLS_SIGNATURE_LENGTH) (drop BLS_SIGNATURE_LENGTH bs))"
  let ?encs = "chunks ENCRYPTED_KEY_LENGTH (drop ?off bs)"
  have len: "length bs = ENCRYPTED_KEY_LENGTH * length ids + ?off"
    and parsed: "collect_o (parse_share deserialize cid pk) (zip (zip ?pks ?encs) ids) = Ok shs"
    using assms by (auto simp: parse_shares_def Let_def bindO_Ok_iff split: if_splits)
  have "length ?pks = length ids" "length ?encs = length ids"
    using len by (auto simp: BLS_PUBLIC_KEY_LENGTH_def ENCRYPTED_KEY_LENGTH_def BLS_SIGNATURE_LENGTH_def
        intro!: chunks_length [THEN conjunct1])
  then have ids: "map snd (zip (zip ?pks ?encs) ids) = ids" by simp
  have "map sh_operator_id shs = map snd (zip (zip ?pks ?encs) ids)"
    by (rule collect_o_image [OF parsed])
       (auto simp: parse_share_def bindO_Ok_iff ok_or_iff split: prod.splits if_splits)
  then show "map sh_operator_id shs = ids" by (simp only: ids)
  have "map (\<lambda>sh. (sh_cluster_id sh, sh_validator_pubkey sh, length (sh_encrypted_private_key sh))) shs =
      map (\<lambda>_. (cid, pk, ENCRYPTED_KEY_LENGTH)) (zip (zip ?pks ?encs) ids)"
    by (rule collect_o_image [OF parsed])
       (auto simp: parse_share_def bindO_Ok_iff ok_or_iff split: prod.splits if_splits)
  then show "sh_cluster_id sh = cid \<and> sh_validator_pubkey sh = pk
      \<and> length (sh_encrypted_private_key sh) = ENCRYPTED_KEY_LENGTH" if "sh \<in> set shs" for sh
    using that by (auto dest!: map_eq_imp_length_eq simp: list_eq_iff_nth_eq in_set_conv_nth)
qed

section \<open>Events\<close>

text \<open>
  What the contract guarantees of a log, given the tables: an address has 20 bytes, no validator is
  added to a liquidated cluster; and the own operator is not removed.
\<close>

definition log_admissible :: "('k, 'f, 'g) eth_env \<Rightarrow> 'k pubkey_or_id \<Rightarrow> log \<Rightarrow> 'k sql_db \<Rightarrow> bool" where
  "log_admissible env operator log db \<longleftrightarrow>
     (case lg_decoded log of
        Some (ValidatorAdded owner operatorIds _ _) \<Rightarrow>
          length owner = 20
          \<and> (case map_of (db_clusters db) (compute_cluster_id (en_keccak256 env) owner operatorIds) of
               None \<Rightarrow> True | Some r \<Rightarrow> \<not> cr_liquidated r)
      | Some (OperatorRemoved i) \<Rightarrow>
          (case operator of
             OwnId _ \<Rightarrow> True
           | Pubkey k \<Rightarrow> (case map_of (db_operators db) i of None \<Rightarrow> True | Some r \<Rightarrow> or_public_key r \<noteq> k))
      | _ \<Rightarrow> True)"

abbreviation bs_ok :: "('k, 'f::field, 'g::ab_group_add) eth_env \<Rightarrow> 'k network_database \<Rightarrow> 'k block_state \<Rightarrow> bool" where
  "bs_ok env nd s \<equiv> tx_ok (en_keccak256 env) (en_curve env) (en_sha256 env) (nd_operator nd) (nd_state nd) (bs_tx s)"

lemmas tx_steps =
  set_max_operator_id_seen_ok [rotated] insert_skipped_ok [rotated] delete_skipped_ok [rotated] insert_operator_ok [rotated]
  bump_and_get_nonce_ok [rotated] update_status_ok [rotated] update_fee_recipient_ok [rotated] processed_block_ok [rotated]

lemma operator_added_ok:
  assumes ok: "bs_ok env nd s" and run: "process_operator_added env nd log s = (s', r)" "survives r"
  shows "bs_ok env nd s'"
  using run ok unfolding process_operator_added_def
  by (auto simp: Let_def split: option.splits contract_event.splits if_splits outcome.splits
      elim!: and_then_survives on_tx_survives) (blast intro: tx_steps)+

lemma delete_skipped_operators: "delete_skipped_operator_add_tx i tx = (tx', Ok b) \<Longrightarrow> db_operators (tx_db tx') = db_operators (tx_db tx)"
  by (auto simp: delete_skipped_operator_add_tx_def Let_def tx_op_simps DELETE_SKIPPED_OPERATOR_ADD_def)

lemma operator_removed_ok:
  assumes ok: "bs_ok env nd s" and run: "process_operator_removed log s = (s', r)" "survives r"
    and adm: "log_admissible env (nd_operator nd) log (tx_db (bs_tx s))"
  shows "bs_ok env nd s'"
proof -
  have foreign: "or_public_key row \<noteq> k" if "lg_decoded log = Some (OperatorRemoved i)" "nd_operator nd = Pubkey k"
    "map_of (db_operators (tx_db (bs_tx s))) i = Some row" for i k row
    using adm that by (simp add: log_admissible_def)
  show ?thesis
  proof (cases "\<exists>i. lg_decoded log = Some (OperatorRemoved i)")
    case True
    then obtain i where i: "lg_decoded log = Some (OperatorRemoved i)" by blast
    have "and_then (on_tx (delete_skipped_operator_add_tx i) s) (\<lambda>s skipped.
        if skipped then (s, Err (SkippedEvent ''Operator was previously skipped during registration''))
        else on_tx (delete_operator_tx i) s) = (s', r)"
      using run(1) by (simp add: process_operator_removed_def i)
    then obtain tx1 skipped where tx1: "delete_skipped_operator_add_tx i (bs_tx s) = (tx1, Ok skipped)"
      and rest: "(if skipped then (s\<lparr>bs_tx := tx1\<rparr>, Err (SkippedEvent ''Operator was previously skipped during registration''))
        else on_tx (delete_operator_tx i) (s\<lparr>bs_tx := tx1\<rparr>)) = (s', r)"
      by (rule on_tx_then [OF _ run(2)])
    have ok1: "bs_ok env nd (s\<lparr>bs_tx := tx1\<rparr>)" using delete_skipped_ok [OF ok tx1] by simp
    show ?thesis
    proof (cases skipped)
      case False
      then have "on_tx (delete_operator_tx i) (s\<lparr>bs_tx := tx1\<rparr>) = (s', r)" using rest by simp
      then obtain x tx2 where tx2: "delete_operator_tx i tx1 = (tx2, Ok x)" "s' = s\<lparr>bs_tx := tx1, bs_tx := tx2\<rparr>"
        by (rule on_tx_survives [OF _ run(2)]) simp
      have "tx_ok (en_keccak256 env) (en_curve env) (en_sha256 env) (nd_operator nd) (nd_state nd) tx2"
        using foreign [OF i] delete_skipped_operators [OF tx1] ok1 by (intro delete_operator_ok [OF _ tx2(1)]) auto
      then show ?thesis using tx2(2) by simp
    qed (use rest ok1 in auto)
  next
    case False
    then show ?thesis using run(1) ok by (auto simp: process_operator_removed_def split: option.splits contract_event.splits)
  qed
qed

lemma cluster_liquidated_ok:
  assumes ok: "bs_ok env nd s" and run: "process_cluster_liquidated env log s = (s', r)" "survives r"
  shows "bs_ok env nd s'"
  using run ok unfolding process_cluster_liquidated_def
  by (auto split: option.splits contract_event.splits elim!: on_tx_survives intro: tx_steps)

lemma cluster_reactivated_ok:
  assumes ok: "bs_ok env nd s" and run: "process_cluster_reactivated env log s = (s', r)" "survives r"
  shows "bs_ok env nd s'"
  using run ok unfolding process_cluster_reactivated_def
  by (auto split: option.splits contract_event.splits elim!: on_tx_survives intro: tx_steps)

lemma fee_recipient_updated_ok:
  assumes ok: "bs_ok env nd s" and run: "process_fee_recipient_updated log s = (s', r)" "survives r"
  shows "bs_ok env nd s'"
  using run ok unfolding process_fee_recipient_updated_def
  by (auto split: option.splits contract_event.splits elim!: on_tx_survives intro: tx_steps)

lemma validator_exited_ok:
  assumes ok: "bs_ok env nd s" and run: "process_validator_exited env mode nd live log s = (s', r)" "survives r"
  shows "bs_ok env nd s'"
  using run ok unfolding process_validator_exited_def
  by (auto simp: Let_def push_action_def split: option.splits contract_event.splits if_splits elim!: and_then_survives)

lemma validator_removed_ok:
  assumes ok: "bs_ok env nd s" and run: "process_validator_removed env log s = (s', r)" "survives r"
  shows "bs_ok env nd s'"
  using run ok unfolding process_validator_removed_def
  by (auto simp: get_validator_metadata_tx_def metadata_from_row_def split: option.splits contract_event.splits if_splits
      elim!: and_then_survives on_tx_survives) (rule delete_validator_ok)

subsection \<open>Adding a validator\<close>

lemma validate_operators_Ok: "validate_operators ids tx = Ok () \<Longrightarrow> distinct ids \<and> ids \<noteq> [] \<and> is_valid_committee_size (length ids)"
  by (auto simp: validate_operators_def split: if_splits)

lemma parsed_addition_ok:
  assumes ids: "validate_operators ids tx = Ok ()"
    and shares: "parse_shares deserialize bs ids (compute_cluster_id keccak256 owner ids) pk = Ok (signature, shs)"
    and valid: "validate_share_public_keys (cv_smul cv) (cv_key_validate cv) pk
      (map (\<lambda>sh. (sh_operator_id sh, sh_share_pubkey sh)) shs) = Ok ()"
    and owner: "length owner = 20"
    and live: "\<And>r. map_of (db_clusters (tx_db tx)) (compute_cluster_id keccak256 owner ids) = Some r \<Longrightarrow> \<not> cr_liquidated r"
  shows "addition_ok keccak256 cv (tx_db tx)
    \<lparr>cl_cluster_id = compute_cluster_id keccak256 owner ids, cl_owner = owner,
     cl_fee_recipient = (case fee_recipient_for_owner owner tx of Some a \<Rightarrow> a | None \<Rightarrow> owner),
     cl_liquidated = False, cl_cluster_members = index_set ids\<rparr>
    (construct_validator_metadata pk (compute_cluster_id keccak256 owner ids)) shs"
  unfolding addition_ok_def
  using validate_operators_Ok [OF ids] parse_shares_Ok [OF shares] valid owner live
  by (simp add: construct_validator_metadata_def fee_recipient_for_owner_def cong: option.case_cong)

lemma bump_rows:
  "bump_and_get_nonce_tx owner tx = (tx', Ok nonce) \<Longrightarrow> db_clusters (tx_db tx') = db_clusters (tx_db tx)"
  by (auto simp: bump_and_get_nonce_tx_def tx_op_simps BUMP_NONCE_def)

lemma validator_added_ok:
  assumes ok: "bs_ok env nd s" and run: "process_validator_added env mode nd log s = (s', r)" "survives r"
    and inj: "inj (en_keccak256 env)" and adm: "log_admissible env (nd_operator nd) log (tx_db (bs_tx s))"
  shows "bs_ok env nd s'"
proof (cases "\<exists>owner ids pk bs. lg_decoded log = Some (ValidatorAdded owner ids pk bs)")
  case False
  then show ?thesis using run(1) ok by (auto simp: process_validator_added_def split: option.splits contract_event.splits)
next
  case True
  then obtain owner ids key bs where log: "lg_decoded log = Some (ValidatorAdded owner ids key bs)" by blast
  obtain tx1 nonce where bump: "bump_and_get_nonce_tx owner (bs_tx s) = (tx1, Ok nonce)"
    using run by (auto simp: process_validator_added_def log elim: on_tx_then)
  have ok1: "tx_ok (en_keccak256 env) (en_curve env) (en_sha256 env) (nd_operator nd) (nd_state nd) tx1"
    by (rule bump_and_get_nonce_ok [OF ok bump])
  have owner: "length owner = 20"
    and live: "\<And>r. map_of (db_clusters (tx_db tx1)) (compute_cluster_id (en_keccak256 env) owner ids) = Some r \<Longrightarrow> \<not> cr_liquidated r"
    using adm by (auto simp: log_admissible_def log bump_rows [OF bump])
  note step = insert_validator_ok [OF ok1 inj _ parsed_addition_ok [OF _ _ _ owner live]]
  show ?thesis
    using run ok1 bump unfolding process_validator_added_def log
    by (auto simp: Let_def push_action_def split: if_splits
        elim!: on_tx_then register_then and_then_survives) (auto simp: map_err_o_def split: outcome.splits intro!: step)
qed

section \<open>Blocks\<close>

lemma dispatch_log_ok:
  assumes ok: "bs_ok env nd s" and run: "dispatch_log env mode nd live log s = (s', r)" "survives r"
    and inj: "inj (en_keccak256 env)" and adm: "log_admissible env (nd_operator nd) log (tx_db (bs_tx s))"
  shows "bs_ok env nd s'"
  using run(1) ok operator_added_ok [OF ok _ run(2)] operator_removed_ok [OF ok _ run(2) adm]
    validator_added_ok [OF ok _ run(2) inj adm] validator_removed_ok [OF ok _ run(2)]
    cluster_liquidated_ok [OF ok _ run(2)] cluster_reactivated_ok [OF ok _ run(2)]
    fee_recipient_updated_ok [OF ok _ run(2)] validator_exited_ok [OF ok _ run(2)]
  by (auto simp: dispatch_log_def split: option.splits event_topic.splits)

lemma process_log_ok:
  assumes ok: "bs_ok env nd s" and run: "process_log env mode nd live s log = (s', Ok u)"
    and inj: "inj (en_keccak256 env)" and adm: "log_admissible env (nd_operator nd) log (tx_db (bs_tx s))"
  shows "bs_ok env nd s'"
proof -
  obtain r where "dispatch_log env mode nd live log s = (s', r)" "survives r"
    using run by (auto simp: process_log_def split: prod.splits outcome.splits if_splits)
  then show ?thesis using dispatch_log_ok [OF ok _ _ inj adm] by blast
qed

text \<open>Every log of a block is admissible for the tables it meets.\<close>

fun logs_admissible ::
    "('k, 'f::field, 'g::ab_group_add) eth_env \<Rightarrow> mode \<Rightarrow> 'k network_database \<Rightarrow> bool \<Rightarrow> 'k block_state \<Rightarrow> log list \<Rightarrow> bool" where
  "logs_admissible env mode nd live s [] \<longleftrightarrow> True"
| "logs_admissible env mode nd live s (log # logs) \<longleftrightarrow>
     log_admissible env (nd_operator nd) log (tx_db (bs_tx s))
     \<and> logs_admissible env mode nd live (fst (process_log env mode nd live s log)) logs"

lemma logs_ok:
  assumes "inj (en_keccak256 env)" "bs_ok env nd s" "logs_admissible env mode nd live s logs"
    and "for_each_s (process_log env mode nd live) s logs = (s', Ok u)"
  shows "bs_ok env nd s'"
  using assms(2-)
proof (induction logs arbitrary: s)
  case (Cons log logs)
  obtain s1 where s1: "process_log env mode nd live s log = (s1, Ok ())"
    and rest: "for_each_s (process_log env mode nd live) s1 logs = (s', Ok u)"
    using Cons.prems(3) by (auto simp: and_then_Ok_iff)
  have "bs_ok env nd s1" using process_log_ok [OF Cons.prems(1) s1 assms(1)] Cons.prems(2) by simp
  then show ?case using Cons.IH [OF _ _ rest] Cons.prems(2) s1 by simp
qed simp

definition in_step :: "('k, 'f::field, 'g::ab_group_add) eth_env \<Rightarrow> 'k processor \<Rightarrow> bool" where
  "in_step env p \<longleftrightarrow>
     db_ok (en_keccak256 env) (en_curve env) (nd_db (pr_database p))
     \<and> state_matches (en_sha256 env) (nd_operator (pr_database p)) (nd_db (pr_database p)) (nd_state (pr_database p))"

lemma open_block_ok: "in_step env p \<Longrightarrow> bs_ok env (pr_database p) (open_block p)"
  by (simp add: in_step_def open_block_def tx_ok_def)

definition block_admissible ::
    "('k, 'f::field, 'g::ab_group_add) eth_env \<Rightarrow> mode \<Rightarrow> bool \<Rightarrow> 'k processor \<Rightarrow> log list \<Rightarrow> bool" where
  "block_admissible env mode live p logs = logs_admissible env mode (pr_database p) live (open_block p) logs"

text \<open>A block that fails changes neither the tables nor the state.\<close>

lemma failed_block:
  assumes "process_block_logs env mode live logs n p = (p', Err e)"
  shows "pr_database p' = pr_database p" "pr_sent p' = pr_sent p"
  using assms by (auto simp: process_block_logs_def Let_def split: prod.splits outcome.splits if_splits option.splits)

lemma committed_block:
  assumes "process_block_logs env mode live logs n p = (p', Ok u)"
  obtains s st where "and_then (for_each_s (process_log env mode (pr_database p) live) (open_block p) logs) (\<lambda>s _.
      on_tx (processed_block_tx n) s) = (s, Ok ())"
    and "apply_updates (en_sha256 env) (tx_updates (bs_tx s)) (nd_state (pr_database p)) = Some st"
    and "pr_database p' = (pr_database p)\<lparr>nd_db := tx_db (bs_tx s), nd_state := st\<rparr>"
    and "pr_registered p' = bs_registered s"
    and "pr_sent p' = (case mode of Node \<Rightarrow> pr_sent p @ bs_actions s | KeySplit \<Rightarrow> pr_sent p)"
  using assms
  by (auto simp: process_block_logs_def Let_def execute_post_commit_actions_def
      split: prod.splits outcome.splits if_splits option.splits mode.splits)

lemma block_state_ok:
  assumes "in_step env p" "inj (en_keccak256 env)" "block_admissible env mode live p logs"
    and "and_then (for_each_s (process_log env mode (pr_database p) live) (open_block p) logs) (\<lambda>s _.
      on_tx (processed_block_tx n) s) = (s, Ok u)"
  shows "bs_ok env (pr_database p) s"
proof -
  obtain s1 where s1: "for_each_s (process_log env mode (pr_database p) live) (open_block p) logs = (s1, Ok ())"
    and rest: "on_tx (processed_block_tx n) s1 = (s, Ok u)"
    using assms(4) by (auto simp: and_then_Ok_iff)
  have "bs_ok env (pr_database p) s1"
    using logs_ok [OF assms(2) open_block_ok [OF assms(1)] _ s1] assms(3) by (simp add: block_admissible_def)
  then show ?thesis using rest by (auto intro: processed_block_ok)
qed

lemma block_in_step:
  assumes step: "in_step env p" and inj: "inj (en_keccak256 env)" and adm: "block_admissible env mode live p logs"
    and run: "process_block_logs env mode live logs n p = (p', Ok u)"
  shows "in_step env p'"
proof (rule committed_block [OF run])
  fix s st
  assume run: "and_then (for_each_s (process_log env mode (pr_database p) live) (open_block p) logs) (\<lambda>s _.
      on_tx (processed_block_tx n) s) = (s, Ok ())"
    and st: "apply_updates (en_sha256 env) (tx_updates (bs_tx s)) (nd_state (pr_database p)) = Some st"
    and p': "pr_database p' = (pr_database p)\<lparr>nd_db := tx_db (bs_tx s), nd_state := st\<rparr>"
  from block_state_ok [OF step inj adm run] st show ?thesis by (auto simp: in_step_def tx_ok_def p')
qed

section \<open>No panic\<close>

lemma on_tx_Panic: "snd (on_tx f s) = Panic \<longleftrightarrow> snd (f (bs_tx s)) = Panic"
  by (simp add: on_tx_def split: prod.split)

lemma execute_no_panic: "(\<And>db. stmt db \<noteq> Panic) \<Longrightarrow> snd (execute stmt tx) \<noteq> Panic"
  using outcome.exhaust by (auto simp: execute_def split: outcome.split)

lemma statements_no_panic [no_panic]:
  "INSERT_OPERATOR i k a db \<noteq> Panic" "INSERT_SKIPPED_OPERATOR_ADD i re db \<noteq> Panic" "DELETE_SKIPPED_OPERATOR_ADD i db \<noteq> Panic"
  "MARK_OPERATOR_REMOVED i db \<noteq> Panic" "DELETE_OPERATOR i db \<noteq> Panic" "INSERT_CLUSTER c a db \<noteq> Panic"
  "INSERT_CLUSTER_MEMBER c i db \<noteq> Panic" "UPDATE_CLUSTER_STATUS l c db \<noteq> Panic" "INSERT_VALIDATOR pk c ix g db \<noteq> Panic"
  "DELETE_VALIDATOR pk db \<noteq> Panic" "INSERT_SHARE pk c i sk e db \<noteq> Panic"
  "INSERT_OR_UPDATE_OWNER_FEE_RECIPIENT a b db \<noteq> Panic" "INSERT_OWNER_IF_NEW a db \<noteq> Panic"
  "UPDATE_BLOCK_NUMBER n db \<noteq> Panic" "SET_MAX_OPERATOR_ID_SEEN n db \<noteq> Panic" "BUMP_NONCE a db \<noteq> Panic"
  by (simp_all add: INSERT_OPERATOR_def INSERT_SKIPPED_OPERATOR_ADD_def DELETE_SKIPPED_OPERATOR_ADD_def
      MARK_OPERATOR_REMOVED_def DELETE_OPERATOR_def INSERT_CLUSTER_def INSERT_CLUSTER_MEMBER_def UPDATE_CLUSTER_STATUS_def
      INSERT_VALIDATOR_def DELETE_VALIDATOR_def INSERT_SHARE_def INSERT_OR_UPDATE_OWNER_FEE_RECIPIENT_def
      INSERT_OWNER_IF_NEW_def UPDATE_BLOCK_NUMBER_def SET_MAX_OPERATOR_ID_SEEN_def BUMP_NONCE_def Let_def split: option.split)

lemma sql_no_panic [no_panic]:
  "sql_u64 n \<noteq> Panic" "operator_exists_tx i tx \<noteq> Panic" "snd (queue_update up tx) \<noteq> Panic" "GET_NONCE a db \<noteq> Panic"
  "has_own_share_tx nd pk tx \<noteq> Panic"
  by (simp_all add: sql_u64_def operator_exists_tx_def get_operator_status_def bindO_Panic_iff queue_update_def GET_NONCE_def
      has_own_share_tx_def split: option.split)

lemma small_ops_no_panic [no_panic]:
  "snd (processed_block_tx n tx) \<noteq> Panic" "snd (set_max_operator_id_seen_tx n tx) \<noteq> Panic"
  "snd (insert_skipped_operator_add_tx i re tx) \<noteq> Panic" "snd (delete_skipped_operator_add_tx i tx) \<noteq> Panic"
  "snd (update_status_tx c l tx) \<noteq> Panic" "snd (delete_validator_tx pk tx) \<noteq> Panic"
  "snd (bump_and_get_nonce_tx a tx) \<noteq> Panic" "snd (update_fee_recipient_tx a b tx) \<noteq> Panic"
  "snd (insert_operator_tx nd op tx) \<noteq> Panic"
  by (simp_all add: no_panic execute_no_panic and_then_Panic processed_block_tx_def set_max_operator_id_seen_tx_def
      insert_skipped_operator_add_tx_def delete_skipped_operator_add_tx_def update_status_tx_def delete_validator_tx_def
      bump_and_get_nonce_tx_def update_fee_recipient_tx_def insert_operator_tx_def Let_def)

lemma delete_operator_no_panic [no_panic]: "snd (delete_operator_tx i tx) \<noteq> Panic"
  using execute_no_panic [of "DELETE_OPERATOR i" tx] execute_no_panic [of "MARK_OPERATOR_REMOVED i"]
  by (auto simp: delete_operator_tx_def and_then_Panic no_panic split: prod.splits outcome.splits)

lemma insert_member_share_no_panic [no_panic]: "snd (insert_member_share own pk s sh) \<noteq> Panic"
proof -
  have "snd (and_then (fst s, sql_u64 (sh_operator_id sh)) (\<lambda>tx _.
      and_then (execute (INSERT_CLUSTER_MEMBER (sh_cluster_id sh) (sh_operator_id sh)) tx) (\<lambda>tx _.
      insert_share sh pk tx))) \<noteq> Panic"
    by (simp add: insert_share_def no_panic execute_no_panic and_then_Panic)
  then show ?thesis by (simp add: insert_member_share_def Let_def case_prod_unfold)
qed

lemma insert_validator_no_panic [no_panic]: "snd (insert_validator_tx nd cluster validator shares tx) \<noteq> Panic"
proof -
  have "snd (case for_each_s (insert_member_share own pk) (tx, None) shares of
       ((tx, our_share), Ok _) \<Rightarrow> queue_update (InsertValidator cluster validator our_share) tx
     | ((tx, _), Err e) \<Rightarrow> (tx, Err e)
     | ((tx, _), Panic) \<Rightarrow> (tx, Panic)) \<noteq> Panic" for own pk and tx :: "'a txn"
  proof -
    obtain t our r where e: "for_each_s (insert_member_share own pk) (tx, None) shares = ((t, our), r)"
      by (metis surj_pair)
    have "r \<noteq> Panic"
      using for_each_s_Panic [of "insert_member_share own pk" "(tx, None)" shares] by (auto simp: e no_panic)
    then show ?thesis by (cases r) (simp_all add: e no_panic)
  qed
  then show ?thesis
    by (simp add: insert_validator_tx_def Let_def no_panic execute_no_panic and_then_Panic)
qed

lemma parsing_no_panic [no_panic]:
  "parse_validator_pubkey env bs \<noteq> Panic" "parse_shares deserialize bs ids cid pk \<noteq> Panic"
  "parse_operator_public_key env bs i owner \<noteq> Panic"
  "validate_operators ids tx \<noteq> Panic" "validate_validator_added_conflict owner pk cid tx \<noteq> Panic"
  "verify_validator_owner owner pk cid tx \<noteq> Panic" "get_validator_index pk tx \<noteq> Panic" "is_our_validator nd pk tx \<noteq> Panic"
proof -
  have "parse_share deserialize cid pk p \<noteq> Panic" for p
    by (auto simp: parse_share_def bindO_Panic_iff split: prod.split)
  then have "collect_o (parse_share deserialize cid pk) xs \<noteq> Panic" for xs using collect_o_Panic by blast
  then show "parse_shares deserialize bs ids cid pk \<noteq> Panic" by (simp add: parse_shares_def Let_def bindO_Panic_iff)
  show "validate_operators ids tx \<noteq> Panic"
    by (auto simp: validate_operators_def bindO_Panic_iff no_panic dest!: for_each_o_Panic)
  show "parse_operator_public_key env bs i owner \<noteq> Panic"
    by (auto simp: parse_operator_public_key_def normalize_operator_public_key_bytes_def decode_hex_encoded_operator_pem_def
        bindO_Panic_iff Let_def split: option.split)
qed (auto simp: parse_validator_pubkey_def validate_validator_added_conflict_def verify_validator_owner_def
      get_validator_index_def is_our_validator_def no_panic split: option.split)

lemma handlers_no_panic [no_panic]:
  "snd (process_operator_added env nd log s) \<noteq> Panic" "snd (process_operator_removed log s) \<noteq> Panic"
  "snd (process_validator_removed env log s) \<noteq> Panic" "snd (process_cluster_liquidated env log s) \<noteq> Panic"
  "snd (process_cluster_reactivated env log s) \<noteq> Panic" "snd (process_fee_recipient_updated log s) \<noteq> Panic"
  "snd (process_validator_exited env mode nd live log s) \<noteq> Panic"
  by (auto simp: process_operator_added_def process_operator_removed_def process_validator_removed_def
      process_cluster_liquidated_def process_cluster_reactivated_def process_fee_recipient_updated_def
      process_validator_exited_def push_action_def Let_def no_panic and_then_Panic on_tx_Panic
      split: option.splits contract_event.splits outcome.splits)

lemma validator_added_no_panic [no_panic]: "snd (process_validator_added env mode nd log s) \<noteq> Panic"
  by (auto simp: process_validator_added_def push_action_def register_validator_def Let_def no_panic and_then_Panic on_tx_Panic
      split: option.splits contract_event.splits prod.splits)

lemma process_log_no_panic [no_panic]: "snd (process_log env mode nd live s log) \<noteq> Panic"
proof -
  have "snd (dispatch_log env mode nd live log s) \<noteq> Panic"
    by (auto simp: dispatch_log_def no_panic split: option.split event_topic.split)
  then show ?thesis by (auto simp: process_log_def split: prod.splits outcome.splits)
qed

text \<open>No block crashes the processor: the updates it has queued can all be applied.\<close>

lemma block_no_panic:
  assumes step: "in_step env p" and inj: "inj (en_keccak256 env)" and adm: "block_admissible env mode live p logs"
  shows "snd (process_block_logs env mode live logs n p) \<noteq> Panic"
proof -
  obtain s r where run: "and_then (for_each_s (process_log env mode (pr_database p) live) (open_block p) logs) (\<lambda>s _.
      on_tx (processed_block_tx n) s) = (s, r)" by (metis surj_pair)
  have "snd (for_each_s (process_log env mode (pr_database p) live) (open_block p) logs) \<noteq> Panic"
    using for_each_s_Panic [of "process_log env mode (pr_database p) live"] process_log_no_panic by blast
  then have "snd (and_then (for_each_s (process_log env mode (pr_database p) live) (open_block p) logs) (\<lambda>s _.
      on_tx (processed_block_tx n) s)) \<noteq> Panic"
    by (simp add: and_then_Panic on_tx_Panic no_panic)
  then have r: "r \<noteq> Panic" by (simp add: run)
  show ?thesis
  proof (cases r)
    case (Ok u)
    then have "bs_ok env (pr_database p) s" using block_state_ok [OF step inj adm] run by blast
    then obtain st where "apply_updates (en_sha256 env) (tx_updates (bs_tx s)) (nd_state (pr_database p)) = Some st"
      by (auto simp: tx_ok_def)
    then show ?thesis by (simp add: process_block_logs_def run Ok Let_def)
  qed (use r in \<open>simp_all add: process_block_logs_def run\<close>)
qed

end
