(* ===== verification/Db_Load.thy ===== *)
theory Db_Load
  imports Db_Blocks
begin

text \<open>
  Start-up: loading well-formed tables neither fails nor panics and gives a state in step with
  them, whatever the iteration order over the clusters.
\<close>

section \<open>Maps filled by a loop\<close>

lemma fold_nested: "fold (\<lambda>x. fold (g x) (l x)) xs = fold (\<lambda>(x, y). g x y) (concat (map (\<lambda>x. map (Pair x) (l x)) xs))"
  by (induction xs) (simp_all add: fold_map o_def fun_eq_iff)

lemma map_of_functional:
  assumes "\<And>x y. x \<in> set xs \<Longrightarrow> y \<in> set xs \<Longrightarrow> k x = k y \<Longrightarrow> v x = v y"
  shows "map_of (rev (map (\<lambda>x. (k x, v x)) xs)) a = Some b \<longleftrightarrow> (\<exists>x \<in> set xs. a = k x \<and> b = v x)"
proof
  assume "map_of (rev (map (\<lambda>x. (k x, v x)) xs)) a = Some b"
  then show "\<exists>x \<in> set xs. a = k x \<and> b = v x" by (auto dest!: map_of_SomeD)
next
  assume "\<exists>x \<in> set xs. a = k x \<and> b = v x"
  then obtain x where x: "x \<in> set xs" "a = k x" "b = v x" by blast
  then have "(a, b) \<in> set (rev (map (\<lambda>x. (k x, v x)) xs))" by auto
  from weak_map_of_SomeI [OF this] obtain c where c: "map_of (rev (map (\<lambda>x. (k x, v x)) xs)) a = Some c" by blast
  then obtain y where "y \<in> set xs" "a = k y" "c = v y" by (auto dest!: map_of_SomeD)
  then show "map_of (rev (map (\<lambda>x. (k x, v x)) xs)) a = Some b" using c x assms by metis
qed

definition fill ::
    "index_tags \<Rightarrow> ('x \<Rightarrow> 'k1) \<Rightarrow> ('x \<Rightarrow> 'k2) \<Rightarrow> ('x \<Rightarrow> 'k3) \<Rightarrow> ('x \<Rightarrow> 'k4) \<Rightarrow> ('x \<Rightarrow> 'v) \<Rightarrow> 'x list
     \<Rightarrow> ('k1, 'k2, 'k3, 'k4, 'v) multi_index_map \<Rightarrow> ('k1, 'k2, 'k3, 'k4, 'v) multi_index_map" where
  "fill T k1 k2 k3 k4 v = fold (\<lambda>x m. insert_or_update T m (k1 x) (k2 x) (k3 x) (k4 x) (v x))"

lemma fill_fields:
  "mi_primary (fill T k1 k2 k3 k4 v xs m) = mi_primary m ++ map_of (rev (map (\<lambda>x. (k1 x, v x)) xs))"
  "it_secondary T = NonUniqueTag \<Longrightarrow>
     multi_rel (mi_secondary_multi (fill T k1 k2 k3 k4 v xs m)) = multi_rel (mi_secondary_multi m) \<union> (\<lambda>x. (k2 x, k1 x)) ` set xs"
  "it_secondary T = UniqueTag \<Longrightarrow>
     mi_secondary_unique (fill T k1 k2 k3 k4 v xs m) = mi_secondary_unique m ++ map_of (rev (map (\<lambda>x. (k2 x, k1 x)) xs))"
  "it_tertiary T = NonUniqueTag \<Longrightarrow>
     multi_rel (mi_tertiary_multi (fill T k1 k2 k3 k4 v xs m)) = multi_rel (mi_tertiary_multi m) \<union> (\<lambda>x. (k3 x, k1 x)) ` set xs"
  "it_quaternary T = NonUniqueTag \<Longrightarrow>
     multi_rel (mi_quaternary_multi (fill T k1 k2 k3 k4 v xs m)) = multi_rel (mi_quaternary_multi m) \<union> (\<lambda>x. (k4 x, k1 x)) ` set xs"
  unfolding fill_def by (induction xs arbitrary: m) (auto simp: unique_insert_def)

lemma fill_new:
  assumes "\<And>x y. x \<in> set xs \<Longrightarrow> y \<in> set xs \<Longrightarrow> k1 x = k1 y \<Longrightarrow> v x = v y"
    and m_def: "m = fill T k1 k2 k3 k4 v xs mi_new"
  shows "mi_primary m a = Some b \<longleftrightarrow> (\<exists>x \<in> set xs. a = k1 x \<and> b = v x)"
    and "it_secondary T = NonUniqueTag \<Longrightarrow> (\<And>x. x \<in> set xs \<Longrightarrow> key2 (k1 x) = k2 x) \<Longrightarrow>
      index_is (multi_rel (mi_secondary_multi m)) (mi_primary m) key2"
    and "it_tertiary T = NonUniqueTag \<Longrightarrow> (\<And>x. x \<in> set xs \<Longrightarrow> key3 (k1 x) = k3 x) \<Longrightarrow>
      index_is (multi_rel (mi_tertiary_multi m)) (mi_primary m) key3"
    and "it_quaternary T = NonUniqueTag \<Longrightarrow> (\<And>x. x \<in> set xs \<Longrightarrow> key4 (k1 x) = k4 x) \<Longrightarrow>
      index_is (multi_rel (mi_quaternary_multi m)) (mi_primary m) key4"
proof -
  have p: "mi_primary m = map_of (rev (map (\<lambda>x. (k1 x, v x)) xs))" by (simp add: m_def fill_fields mi_new_def)
  show prim: "mi_primary m a = Some b \<longleftrightarrow> (\<exists>x \<in> set xs. a = k1 x \<and> b = v x)" for a b
    unfolding p by (rule map_of_functional [OF assms(1)])
  have dom: "dom (mi_primary m) = k1 ` set xs" by (auto simp: dom_def prim)
  show "index_is (multi_rel (mi_secondary_multi m)) (mi_primary m) key2"
    if "it_secondary T = NonUniqueTag" "\<And>x. x \<in> set xs \<Longrightarrow> key2 (k1 x) = k2 x"
    using that unfolding index_is_def dom by (force simp: m_def fill_fields mi_new_def image_image)
  show "index_is (multi_rel (mi_tertiary_multi m)) (mi_primary m) key3"
    if "it_tertiary T = NonUniqueTag" "\<And>x. x \<in> set xs \<Longrightarrow> key3 (k1 x) = k3 x"
    using that unfolding index_is_def dom by (force simp: m_def fill_fields mi_new_def image_image)
  show "index_is (multi_rel (mi_quaternary_multi m)) (mi_primary m) key4"
    if "it_quaternary T = NonUniqueTag" "\<And>x. x \<in> set xs \<Longrightarrow> key4 (k1 x) = k4 x"
    using that unfolding index_is_def dom by (force simp: m_def fill_fields mi_new_def image_image)
qed

section \<open>The loop over clusters and validators\<close>

definition loaded_pairs :: "'k sql_db \<Rightarrow> (cluster_id \<times> cluster) list \<Rightarrow> (cluster \<times> validator_metadata) list" where
  "loaded_pairs db cs = concat (map (\<lambda>(cid, c). map (Pair c) (fetch_validators db cid)) cs)"

definition own_shares_of ::
    "('f::field, 'g::ab_group_add) curve \<Rightarrow> 'k sql_db \<Rightarrow> operator_id option \<Rightarrow> cluster \<times> validator_metadata \<Rightarrow> share list" where
  "own_shares_of cv db own x =
     (case own of
        None \<Rightarrow> []
      | Some i \<Rightarrow> filter (\<lambda>sh. sh_cluster_id sh = cl_cluster_id (fst x) \<and> sh_validator_pubkey sh = vm_public_key (snd x)
          \<and> validate_share_public_keys (cv_smul cv) (cv_key_validate cv) (vm_public_key (snd x))
              (fetch_committee_share_pubkeys db i (vm_public_key (snd x))) = Ok ()) (fetch_shares db i))"

definition load_pair ::
    "(bytes \<Rightarrow> bytes) \<Rightarrow> ('f::field, 'g::ab_group_add) curve \<Rightarrow> 'k sql_db \<Rightarrow> operator_id option
     \<Rightarrow> cluster \<times> validator_metadata \<Rightarrow> 'k network_state \<Rightarrow> 'k network_state" where
  "load_pair sha256 cv db own x = load_validator sha256 cv db own (fst x) (snd x)"

lemma load_clusters_fold:
  assumes "\<And>cid c. (cid, c) \<in> set cs \<Longrightarrow> fetch_validators db cid \<noteq> []"
  shows "load_clusters sha256 cv db own cs s = Ok (fold (load_pair sha256 cv db own) (loaded_pairs db cs) s)"
  using assms
proof (induction cs arbitrary: s)
  case (Cons x cs)
  obtain cid c where x: "x = (cid, c)" by (cases x)
  have "fold (load_validator sha256 cv db own c) vs s = fold (load_pair sha256 cv db own) (map (Pair c) vs) s" for vs
    by (induction vs arbitrary: s) (simp_all add: load_pair_def)
  moreover have "fetch_validators db cid \<noteq> []" using Cons.prems x by auto
  moreover have "load_clusters sha256 cv db own cs t = Ok (fold (load_pair sha256 cv db own) (loaded_pairs db cs) t)" for t
    using Cons.IH Cons.prems by (meson list.set_intros(2))
  ultimately show ?case by (simp add: x loaded_pairs_def)
qed (simp add: loaded_pairs_def)

lemma load_pair_fields:
  "ns_clusters (load_pair sha256 cv db own x s) = insert_or_update cluster_tags (ns_clusters s) (cl_cluster_id (fst x))
     (vm_public_key (snd x)) (cl_owner (fst x)) (cluster_committee_id sha256 (fst x)) (fst x)"
  "ns_validator_metadata (load_pair sha256 cv db own x s) = insert_or_update metadata_tags (ns_validator_metadata s)
     (vm_public_key (snd x)) (cl_cluster_id (fst x)) (cl_owner (fst x)) (cluster_committee_id sha256 (fst x)) (snd x)"
  "ns_shares (load_pair sha256 cv db own x s) = fold (\<lambda>sh m. insert_or_update share_tags m (vm_public_key (snd x))
     (cl_cluster_id (fst x)) (cl_owner (fst x)) (cluster_committee_id sha256 (fst x)) sh) (own_shares_of cv db own x) (ns_shares s)"
  "ns_id (load_pair sha256 cv db own x s) = ns_id s"
  "ns_last_processed_block (load_pair sha256 cv db own x s) = ns_last_processed_block s"
  "ns_operators (load_pair sha256 cv db own x s) = ns_operators s"
  "ns_own_clusters (load_pair sha256 cv db own x s) = ns_own_clusters s"
  "ns_nonces (load_pair sha256 cv db own x s) = ns_nonces s"
  "ns_max_operator_id_seen (load_pair sha256 cv db own x s) = ns_max_operator_id_seen s"
  by (simp_all add: load_pair_def load_validator_def own_shares_of_def Let_def)

text \<open>The own shares of all validators, with the pair they were found for.\<close>

definition loaded_shares ::
    "('f::field, 'g::ab_group_add) curve \<Rightarrow> 'k sql_db \<Rightarrow> operator_id option \<Rightarrow> (cluster \<times> validator_metadata) list
     \<Rightarrow> ((cluster \<times> validator_metadata) \<times> share) list" where
  "loaded_shares cv db own xs = concat (map (\<lambda>x. map (Pair x) (own_shares_of cv db own x)) xs)"

lemma load_pairs_fields:
  "ns_clusters (fold (load_pair sha256 cv db own) xs s) =
     fill cluster_tags (\<lambda>x. cl_cluster_id (fst x)) (\<lambda>x. vm_public_key (snd x)) (\<lambda>x. cl_owner (fst x))
       (\<lambda>x. cluster_committee_id sha256 (fst x)) fst xs (ns_clusters s)"
  "ns_validator_metadata (fold (load_pair sha256 cv db own) xs s) =
     fill metadata_tags (\<lambda>x. vm_public_key (snd x)) (\<lambda>x. cl_cluster_id (fst x)) (\<lambda>x. cl_owner (fst x))
       (\<lambda>x. cluster_committee_id sha256 (fst x)) snd xs (ns_validator_metadata s)"
  "ns_shares (fold (load_pair sha256 cv db own) xs s) =
     fill share_tags (\<lambda>y. vm_public_key (snd (fst y))) (\<lambda>y. cl_cluster_id (fst (fst y))) (\<lambda>y. cl_owner (fst (fst y)))
       (\<lambda>y. cluster_committee_id sha256 (fst (fst y))) snd (loaded_shares cv db own xs) (ns_shares s)"
  "ns_id (fold (load_pair sha256 cv db own) xs s) = ns_id s"
  "ns_last_processed_block (fold (load_pair sha256 cv db own) xs s) = ns_last_processed_block s"
  "ns_operators (fold (load_pair sha256 cv db own) xs s) = ns_operators s"
  "ns_own_clusters (fold (load_pair sha256 cv db own) xs s) = ns_own_clusters s"
  "ns_nonces (fold (load_pair sha256 cv db own) xs s) = ns_nonces s"
  "ns_max_operator_id_seen (fold (load_pair sha256 cv db own) xs s) = ns_max_operator_id_seen s"
proof -
  show "ns_shares (fold (load_pair sha256 cv db own) xs s) =
     fill share_tags (\<lambda>y. vm_public_key (snd (fst y))) (\<lambda>y. cl_cluster_id (fst (fst y))) (\<lambda>y. cl_owner (fst (fst y)))
       (\<lambda>y. cluster_committee_id sha256 (fst (fst y))) snd (loaded_shares cv db own xs) (ns_shares s)"
    by (induction xs arbitrary: s) (simp_all add: load_pair_fields fill_def loaded_shares_def fold_map o_def)
qed (induction xs arbitrary: s; simp add: load_pair_fields fill_def)+

section \<open>The loaded state\<close>

lemma fetch_validators_iff:
  assumes "keys_ok db"
  shows "v \<in> set (fetch_validators db cid) \<longleftrightarrow>
    (\<exists>pk w. map_of (db_validators db) pk = Some w \<and> vr_cluster_id w = cid \<and> v = metadata_from_row pk w)"
  using assms by (force simp: fetch_validators_def keys_ok_def)

lemma fetch_clusters_iff:
  assumes ok: "db_ok keccak256 cv db"
  shows "(cid, c) \<in> set (fetch_clusters db) \<longleftrightarrow> (\<exists>r. map_of (db_clusters db) cid = Some r \<and> c = cluster_from_row db cid r)"
proof -
  have "GET_CLUSTER_MEMBERS cid db \<noteq> []" if "map_of (db_clusters db) cid = Some r" for cid r
  proof -
    have "names_cluster keccak256 cid (cr_owner r) (members_of db cid)"
      using ok that unfolding db_ok_def clusters_ok_def by blast
    then have "members_of db cid \<noteq> {}" by (auto simp: names_cluster_def)
    then show ?thesis by (auto simp: members_of_def set_GET_CLUSTER_MEMBERS [symmetric] simp del: set_GET_CLUSTER_MEMBERS)
  qed
  moreover have "distinct (map fst (db_clusters db))" using ok by (simp add: db_ok_def keys_ok_def)
  ultimately show ?thesis by (force simp: fetch_clusters_def)
qed

lemma loaded_pairs_iff:
  assumes ok: "db_ok keccak256 cv db" and order: "\<And>xs. set (order xs) = set xs"
  shows "x \<in> set (loaded_pairs db (order (fetch_clusters db))) \<longleftrightarrow>
    (\<exists>pk w r. map_of (db_validators db) pk = Some w \<and> map_of (db_clusters db) (vr_cluster_id w) = Some r
       \<and> x = (cluster_from_row db (vr_cluster_id w) r, metadata_from_row pk w))"
proof -
  have "keys_ok db" using ok by (simp add: db_ok_def)
  moreover have "x \<in> set (loaded_pairs db cs) \<longleftrightarrow>
      (\<exists>cid c v. (cid, c) \<in> set cs \<and> v \<in> set (fetch_validators db cid) \<and> x = (c, v))" for cs
    by (fastforce simp: loaded_pairs_def)
  ultimately show ?thesis
    by (simp add: order fetch_clusters_iff [OF ok] fetch_validators_iff) blast
qed

lemma own_shares_of_iff:
  assumes ok: "db_ok keccak256 cv db" and row: "map_of (db_validators db) pk = Some w"
  shows "sh \<in> set (own_shares_of cv db own (cluster_from_row db (vr_cluster_id w) r, metadata_from_row pk w)) \<longleftrightarrow>
    own_share db own pk = Some sh"
proof (cases own)
  case None
  then show ?thesis by (simp add: own_shares_of_def own_share_def)
next
  case (Some i)
  have dist: "distinct (map fst (db_shares db))" using ok by (simp add: db_ok_def keys_ok_def)
  have in_shares: "s \<in> set (fetch_shares db i) \<longleftrightarrow>
      (\<exists>pk q. map_of (db_shares db) (pk, i) = Some q \<and> s = share_from_row pk i q)" for s
    using dist by (force simp: fetch_shares_def)
  have sr: "sr_cluster_id q = vr_cluster_id w" if "map_of (db_shares db) (pk, i) = Some q" for q
    using share_has_validator [OF ok that] row by simp
  have committee: "validate_share_public_keys (cv_smul cv) (cv_key_validate cv) pk (fetch_committee_share_pubkeys db i pk) = Ok ()"
    if "map_of (db_shares db) (pk, i) = Some q" for q
  proof -
    have mem: "(vr_cluster_id w, i) \<in> set (db_cluster_members db)"
      using ok row that unfolding db_ok_def validators_ok_def members_of_def by fastforce
    have "sr_cluster_id q' = vr_cluster_id w" if "((pk, j), q') \<in> set (db_shares db)" for j q'
      using share_has_validator [OF ok, of pk j q'] that dist row by auto
    then have "fetch_committee_share_pubkeys db i pk = share_pubkeys_of db pk"
      unfolding fetch_committee_share_pubkeys_def share_pubkeys_of_def
      using mem by (auto intro!: filter_cong arg_cong [where f = "map _"])
    then show ?thesis using ok row unfolding db_ok_def validators_ok_def by simp
  qed
  show ?thesis
    using committee sr
    by (auto simp: own_shares_of_def Some in_shares own_share_def cluster_from_row_def metadata_from_row_def share_from_row_def)
qed

lemma validator_cluster:
  assumes "db_ok keccak256 cv db" "map_of (db_validators db) pk = Some w"
  obtains r where "map_of (db_clusters db) (vr_cluster_id w) = Some r"
  using assms unfolding db_ok_def validators_ok_def by blast

lemma pair_keys:
  assumes "map_of (db_validators db) pk = Some w" "map_of (db_clusters db) (vr_cluster_id w) = Some r"
  shows "cluster_key db pk = vr_cluster_id w" "owner_key db (vr_cluster_id w) = cr_owner r"
    "committee_key sha256 db cid = cluster_committee_id sha256 (cluster_from_row db cid r)"
    "vm_public_key (metadata_from_row pk w) = pk" "cl_cluster_id (cluster_from_row db cid r) = cid"
    "cl_owner (cluster_from_row db cid r) = cr_owner r"
  using assms by (simp_all add: cluster_key_def owner_key_def committee_key_def cluster_committee_id_def cluster_from_row_def
      metadata_from_row_def)

lemma loaded_metadata:
  assumes ok: "db_ok keccak256 cv db" and order: "\<And>xs. set (order xs) = set xs"
  shows "metadata_matches sha256 db (fill metadata_tags (\<lambda>x. vm_public_key (snd x)) (\<lambda>x. cl_cluster_id (fst x))
    (\<lambda>x. cl_owner (fst x)) (\<lambda>x. cluster_committee_id sha256 (fst x)) snd (loaded_pairs db (order (fetch_clusters db))) mi_new)"
    (is "metadata_matches _ _ ?m")
proof -
  let ?xs = "loaded_pairs db (order (fetch_clusters db))"
  note pairs = loaded_pairs_iff [of _ _ db order, OF ok order]
  have key: "snd x = snd y" if "x \<in> set ?xs" "y \<in> set ?xs" "vm_public_key (snd x) = vm_public_key (snd y)" for x y
    using that by (auto simp: pairs metadata_from_row_def)
  note f = fill_new [where ?k1.0 = "\<lambda>x. vm_public_key (snd x)", OF key refl]
  have prim: "mi_primary ?m a = Some b \<longleftrightarrow> (\<exists>x \<in> set ?xs. a = vm_public_key (snd x) \<and> b = snd x)" for a b
    by (rule f(1))
  have "mi_primary ?m pk = map_option (metadata_from_row pk) (map_of (db_validators db) pk)" for pk
  proof (cases "map_of (db_validators db) pk")
    case None
    have "mi_primary ?m pk \<noteq> Some b" for b using None unfolding prim by (auto simp: pairs metadata_from_row_def)
    then show ?thesis using None by (cases "mi_primary ?m pk") auto
  next
    case (Some w)
    obtain r where "map_of (db_clusters db) (vr_cluster_id w) = Some r" using validator_cluster [OF ok Some] .
    then have "(cluster_from_row db (vr_cluster_id w) r, metadata_from_row pk w) \<in> set ?xs" using Some by (auto simp: pairs)
    then have "mi_primary ?m pk = Some (metadata_from_row pk w)" unfolding prim by (force simp: metadata_from_row_def)
    then show ?thesis using Some by simp
  qed
  moreover have "index_is (multi_rel (mi_secondary_multi ?m)) (mi_primary ?m) (cluster_key db)"
    by (rule f(2)) (auto simp: metadata_tags_def pairs pair_keys)
  moreover have "index_is (multi_rel (mi_tertiary_multi ?m)) (mi_primary ?m) (owner_key db \<circ> cluster_key db)"
    by (rule f(3)) (auto simp: metadata_tags_def pairs pair_keys)
  moreover have "index_is (multi_rel (mi_quaternary_multi ?m)) (mi_primary ?m) (committee_key sha256 db \<circ> cluster_key db)"
    by (rule f(4)) (auto simp: metadata_tags_def pairs pair_keys)
  ultimately show ?thesis unfolding metadata_matches_def by blast
qed

lemma loaded_clusters:
  assumes ok: "db_ok keccak256 cv db" and order: "\<And>xs. set (order xs) = set xs"
  shows "clusters_match sha256 db (fill cluster_tags (\<lambda>x. cl_cluster_id (fst x)) (\<lambda>x. vm_public_key (snd x))
    (\<lambda>x. cl_owner (fst x)) (\<lambda>x. cluster_committee_id sha256 (fst x)) fst (loaded_pairs db (order (fetch_clusters db))) mi_new)"
    (is "clusters_match _ _ ?m")
proof -
  let ?xs = "loaded_pairs db (order (fetch_clusters db))"
  note pairs = loaded_pairs_iff [of _ _ db order, OF ok order]
  have key: "fst x = fst y" if "x \<in> set ?xs" "y \<in> set ?xs" "cl_cluster_id (fst x) = cl_cluster_id (fst y)" for x y
    using that by (auto simp: pairs cluster_from_row_def)
  have key2: "cl_cluster_id (fst x) = cl_cluster_id (fst y)"
    if "x \<in> set ?xs" "y \<in> set ?xs" "vm_public_key (snd x) = vm_public_key (snd y)" for x y
    using that by (auto simp: pairs pair_keys)
  note f = fill_new [where ?k1.0 = "\<lambda>x. cl_cluster_id (fst x)", OF key refl]
  have prim: "mi_primary ?m a = Some b \<longleftrightarrow> (\<exists>x \<in> set ?xs. a = cl_cluster_id (fst x) \<and> b = fst x)" for a b
    by (rule f(1))
  have dist: "distinct (GET_CLUSTER_MEMBERS cid db)" for cid
    using ok by (simp add: db_ok_def keys_ok_def distinct_GET_CLUSTER_MEMBERS)
  have "rel_option cluster_like (mi_primary ?m cid) (map_option (cluster_from_row db cid) (map_of (db_clusters db) cid))" for cid
  proof (cases "map_of (db_clusters db) cid")
    case None
    have "mi_primary ?m cid \<noteq> Some b" for b using None unfolding prim by (auto simp: pairs cluster_from_row_def)
    then show ?thesis using None by (cases "mi_primary ?m cid") auto
  next
    case (Some r)
    then obtain pk w where "map_of (db_validators db) pk = Some w" "vr_cluster_id w = cid"
      using ok unfolding db_ok_def clusters_ok_def by blast
    then have "(cluster_from_row db cid r, metadata_from_row pk w) \<in> set ?xs" using Some by (auto simp: pairs)
    then have "mi_primary ?m cid = Some (cluster_from_row db cid r)" unfolding prim by (force simp: cluster_from_row_def)
    then show ?thesis using Some dist by (simp add: cluster_like_def cluster_from_row_def)
  qed
  moreover have "mi_secondary_unique ?m pk = Some (vr_cluster_id w)" if w: "map_of (db_validators db) pk = Some w" for pk w
  proof -
    obtain r where r: "map_of (db_clusters db) (vr_cluster_id w) = Some r" using validator_cluster [OF ok w] .
    let ?x = "(cluster_from_row db (vr_cluster_id w) r, metadata_from_row pk w)"
    have x: "?x \<in> set ?xs" using w r by (auto simp: pairs)
    have "map_of (rev (map (\<lambda>x. (vm_public_key (snd x), cl_cluster_id (fst x))) ?xs)) pk = Some (vr_cluster_id w) \<longleftrightarrow>
        (\<exists>x \<in> set ?xs. pk = vm_public_key (snd x) \<and> vr_cluster_id w = cl_cluster_id (fst x))"
      by (rule map_of_functional) (rule key2)
    moreover have "pk = vm_public_key (snd ?x) \<and> vr_cluster_id w = cl_cluster_id (fst ?x)"
      by (simp add: metadata_from_row_def cluster_from_row_def)
    ultimately have "map_of (rev (map (\<lambda>x. (vm_public_key (snd x), cl_cluster_id (fst x))) ?xs)) pk = Some (vr_cluster_id w)"
      using x by blast
    then show ?thesis by (simp add: fill_fields cluster_tags_def mi_new_def)
  qed
  moreover have "index_is (multi_rel (mi_tertiary_multi ?m)) (mi_primary ?m) (owner_key db)"
    by (rule f(3)) (auto simp: cluster_tags_def pairs pair_keys)
  moreover have "index_is (multi_rel (mi_quaternary_multi ?m)) (mi_primary ?m) (committee_key sha256 db)"
    by (rule f(4)) (auto simp: cluster_tags_def pairs pair_keys)
  ultimately show ?thesis unfolding clusters_match_def by blast
qed

lemma loaded_shares_match:
  assumes ok: "db_ok keccak256 cv db" and order: "\<And>xs. set (order xs) = set xs"
  shows "shares_match sha256 db own (fill share_tags (\<lambda>y. vm_public_key (snd (fst y))) (\<lambda>y. cl_cluster_id (fst (fst y)))
    (\<lambda>y. cl_owner (fst (fst y))) (\<lambda>y. cluster_committee_id sha256 (fst (fst y))) snd
    (loaded_shares cv db own (loaded_pairs db (order (fetch_clusters db)))) mi_new)"
    (is "shares_match _ _ _ ?m")
proof -
  let ?ys = "loaded_shares cv db own (loaded_pairs db (order (fetch_clusters db)))"
  have shares: "y \<in> set ?ys \<longleftrightarrow>
      (\<exists>pk w r sh. map_of (db_validators db) pk = Some w \<and> map_of (db_clusters db) (vr_cluster_id w) = Some r
         \<and> own_share db own pk = Some sh
         \<and> y = ((cluster_from_row db (vr_cluster_id w) r, metadata_from_row pk w), sh))" for y
  proof -
    have "y \<in> set ?ys \<longleftrightarrow> (\<exists>x sh. x \<in> set (loaded_pairs db (order (fetch_clusters db)))
        \<and> sh \<in> set (own_shares_of cv db own x) \<and> y = (x, sh))"
      by (auto simp: loaded_shares_def)
    then show ?thesis
      unfolding loaded_pairs_iff [of _ _ db order, OF ok order] using own_shares_of_iff [OF ok] by blast
  qed
  have key: "snd x = snd y" if "x \<in> set ?ys" "y \<in> set ?ys" "vm_public_key (snd (fst x)) = vm_public_key (snd (fst y))" for x y
    using that by (auto simp: shares metadata_from_row_def)
  note f = fill_new [where ?k1.0 = "\<lambda>y. vm_public_key (snd (fst y))", OF key refl]
  have prim: "mi_primary ?m a = Some b \<longleftrightarrow> (\<exists>y \<in> set ?ys. a = vm_public_key (snd (fst y)) \<and> b = snd y)" for a b
    by (rule f(1))
  have "mi_primary ?m pk = own_share db own pk" for pk
  proof (cases "own_share db own pk")
    case None
    have "mi_primary ?m pk \<noteq> Some b" for b using None unfolding prim by (auto simp: shares metadata_from_row_def)
    then show ?thesis using None by (cases "mi_primary ?m pk") auto
  next
    case (Some sh)
    then obtain w where w: "map_of (db_validators db) pk = Some w" using own_share_validator [OF ok, of own pk] by auto
    obtain r where "map_of (db_clusters db) (vr_cluster_id w) = Some r" using validator_cluster [OF ok w] .
    then have "((cluster_from_row db (vr_cluster_id w) r, metadata_from_row pk w), sh) \<in> set ?ys" using w Some by (auto simp: shares)
    then have "mi_primary ?m pk = Some sh" unfolding prim by (force simp: metadata_from_row_def)
    then show ?thesis using Some by simp
  qed
  moreover have "index_is (multi_rel (mi_secondary_multi ?m)) (mi_primary ?m) (cluster_key db)"
    by (rule f(2)) (auto simp: share_tags_def shares pair_keys)
  moreover have "index_is (multi_rel (mi_tertiary_multi ?m)) (mi_primary ?m) (owner_key db \<circ> cluster_key db)"
    by (rule f(3)) (auto simp: share_tags_def shares pair_keys)
  moreover have "index_is (multi_rel (mi_quaternary_multi ?m)) (mi_primary ?m) (committee_key sha256 db \<circ> cluster_key db)"
    by (rule f(4)) (auto simp: share_tags_def shares pair_keys)
  ultimately show ?thesis unfolding shares_match_def by blast
qed

lemma fetch_nonces_ok:
  assumes ok: "db_ok keccak256 cv db"
  shows "fetch_nonces db = Ok (nonce_view db)"
proof -
  have dist: "distinct (map fst (db_owners db))" using ok by (simp add: db_ok_def keys_ok_def)
  have "n < 2 ^ 16" if "map_of (db_owners db) a = Some r" "ow_nonce r = Some n" for a r n
    using ok that unfolding db_ok_def owners_ok_def by blast
  then have "\<not> (\<exists>a r. map_of (db_owners db) a = Some r \<and> (case ow_nonce r of None \<Rightarrow> False | Some n \<Rightarrow> 2 ^ 16 \<le> n))"
    by (metis (no_types, lifting) not_le option.case_eq_if option.collapse)
  then have "\<not> (\<exists>(_, r) \<in> set (db_owners db). (case ow_nonce r of None \<Rightarrow> False | Some n \<Rightarrow> 2 ^ 16 \<le> n))"
    unfolding bex_rows [OF dist] .
  then show ?thesis unfolding fetch_nonces_def nonce_view_def [abs_def] by (simp only: if_False)
qed

lemma loaded_own_clusters:
  assumes ok: "db_ok keccak256 cv db"
  shows "(case own of None \<Rightarrow> {} | Some i \<Rightarrow> sh_cluster_id ` set (fetch_shares db i)) = own_clusters_of db own"
proof (cases own)
  case (Some i)
  have dist: "distinct (map fst (db_shares db))" using ok by (simp add: db_ok_def keys_ok_def)
  have shares: "s \<in> set (fetch_shares db i) \<longleftrightarrow>
      (\<exists>pk q. map_of (db_shares db) (pk, i) = Some q \<and> s = share_from_row pk i q)" for s
    using dist by (force simp: fetch_shares_def)
  have field: "sh_cluster_id (share_from_row pk i q) = sr_cluster_id q" for pk q by (simp add: share_from_row_def)
  have mem: "c \<in> sh_cluster_id ` set (fetch_shares db i) \<longleftrightarrow>
      (\<exists>pk q. map_of (db_shares db) (pk, i) = Some q \<and> c = sr_cluster_id q)" for c
    unfolding image_iff Bex_def shares using field by metis
  have own: "c \<in> own_clusters_of db own \<longleftrightarrow> (\<exists>pk q. map_of (db_shares db) (pk, i) = Some q \<and> c = cluster_key db pk)" for c
    unfolding own_clusters_of_def image_iff Bex_def dom_def Some own_share_def by auto
  have "cluster_key db pk = sr_cluster_id q" if "map_of (db_shares db) (pk, i) = Some q" for pk q
    using share_has_validator [OF ok that] by (auto simp: cluster_key_def)
  then have "c \<in> sh_cluster_id ` set (fetch_shares db i) \<longleftrightarrow> c \<in> own_clusters_of db own" for c
    unfolding mem own by metis
  then show ?thesis by (auto simp: Some)
qed (simp add: own_clusters_of_def own_share_def dom_def)

lemma loading_matches:
  assumes ok: "db_ok keccak256 cv db" and order: "\<And>xs. set (order xs) = set xs"
    and small: "\<And>i. operator = OwnId i \<Longrightarrow> unat i < 2 ^ 63"
  shows "\<exists>ns. new_with_state sha256 cv order operator db = Ok ns \<and> state_matches sha256 operator db ns"
proof -
  let ?own = "own_operator_id_db operator db"
  let ?init = "\<lparr>ns_shares = mi_new, ns_validator_metadata = mi_new, ns_clusters = mi_new, ns_id = ?own,
    ns_last_processed_block = db_block_number db, ns_operators = fetch_operators db,
    ns_own_clusters = (case ?own of None \<Rightarrow> {} | Some i \<Rightarrow> sh_cluster_id ` set (fetch_shares db i)),
    ns_nonces = nonce_view db, ns_max_operator_id_seen = db_max_operator_id_seen db\<rparr>"
  let ?ns = "fold (load_pair sha256 cv db ?own) (loaded_pairs db (order (fetch_clusters db))) ?init"
  have keys: "keys_ok db" using ok by (simp add: db_ok_def)
  have own: "(case ?own of None \<Rightarrow> Ok () | Some i \<Rightarrow> sql_u64 i) = Ok ()"
  proof (cases operator)
    case (OwnId i)
    then show ?thesis using small by (simp add: own_operator_id_db_def sql_u64_def)
  next
    case (Pubkey k)
    have "unat i < 2 ^ 63" if "GET_OPERATOR_ID k db = Some i" for i
      using that GET_OPERATOR_ID_iff [of db k i] keys ok unfolding db_ok_def keys_ok_def operators_ok_def by blast
    then show ?thesis by (simp add: own_operator_id_db_def Pubkey sql_u64_def split: option.split)
  qed
  note nonces = fetch_nonces_ok [OF ok]
  have "fetch_validators db cid \<noteq> []" if "(cid, c) \<in> set (order (fetch_clusters db))" for cid c
  proof -
    have "map_of (db_clusters db) cid \<noteq> None" using that order fetch_clusters_iff [OF ok] by auto
    then obtain pk v where "map_of (db_validators db) pk = Some v" "vr_cluster_id v = cid"
      using ok unfolding db_ok_def clusters_ok_def by blast
    then have "metadata_from_row pk v \<in> set (fetch_validators db cid)" by (auto simp: fetch_validators_iff [OF keys])
    then show ?thesis by auto
  qed
  then have load: "new_with_state sha256 cv order operator db = Ok ?ns"
    by (simp add: new_with_state_def Let_def own nonces load_clusters_fold)
  note own_clusters = loaded_own_clusters [OF ok]
  have "state_matches sha256 operator db ?ns"
    unfolding state_matches_def load_pairs_fields
    using loaded_metadata [of keccak256 cv db order, OF ok order] loaded_clusters [of keccak256 cv db order, OF ok order]
      loaded_shares_match [of keccak256 cv db order, OF ok order]
    by (simp add: own_clusters)
  with load show ?thesis by blast
qed

end
