(* ===== verification/Db_Run.thy ===== *)
theory Db_Run
  imports Db_Load
begin

text \<open>
  Runs of the event processor: the validator indices written outside of blocks, the states a
  processor can reach, restarts, batches as sequences of blocks, and what is registered for
  slashing protection.
\<close>

section \<open>Validator indices\<close>

definition write_index :: "pubkey \<times> validator_index \<Rightarrow> 'k sql_db \<Rightarrow> 'k sql_db" where
  "write_index e db = db\<lparr>db_validators := AList.map_entry (fst e) (\<lambda>r. r\<lparr>vr_index := Some (snd e)\<rparr>) (db_validators db)\<rparr>"

lemma write_index_rows:
  "map_of (db_validators (write_index e db)) pk =
     map_option (\<lambda>r. if pk = fst e then r\<lparr>vr_index := Some (snd e)\<rparr> else r) (map_of (db_validators db) pk)"
  by (cases "pk = fst e"; cases "map_of (db_validators db) pk"; cases "map_of (db_validators db) (fst e)")
     (auto simp: write_index_def map_of_map_entry)

lemma write_index_others [simp]:
  "db_operators (write_index e db) = db_operators db" "db_owners (write_index e db) = db_owners db"
  "db_clusters (write_index e db) = db_clusters db" "db_cluster_members (write_index e db) = db_cluster_members db"
  "db_shares (write_index e db) = db_shares db" "db_block_number (write_index e db) = db_block_number db"
  "db_max_operator_id_seen (write_index e db) = db_max_operator_id_seen db"
  "map fst (db_validators (write_index e db)) = map fst (db_validators db)"
  by (simp_all add: write_index_def)

lemma write_index_clusters:
  "(\<exists>v. map_of (db_validators (write_index e db)) pk = Some v \<and> vr_cluster_id v = cid) \<longleftrightarrow>
     (\<exists>v. map_of (db_validators db) pk = Some v \<and> vr_cluster_id v = cid)"
  by (cases "map_of (db_validators db) pk") (simp_all add: write_index_rows)

lemma write_index_ok:
  assumes "db_ok keccak256 cv db"
  shows "db_ok keccak256 cv (write_index e db)"
  unfolding db_ok_def
proof (intro conjI)
  have ok: "keys_ok db" "operators_ok db" "owners_ok db" "clusters_ok keccak256 db" "validators_ok cv db"
    using assms by (simp_all add: db_ok_def)
  show "keys_ok (write_index e db)" "operators_ok (write_index e db)" "owners_ok (write_index e db)"
    using ok by (simp_all add: keys_ok_def operators_ok_def owners_ok_def)
  have mem: "members_of (write_index e db) = members_of db" by (simp add: members_of_def fun_eq_iff)
  show "clusters_ok keccak256 (write_index e db)"
    using ok(4) unfolding clusters_ok_def mem write_index_clusters by simp
  have shares: "share_pubkeys_of (write_index e db) = share_pubkeys_of db" by (simp add: share_pubkeys_of_def fun_eq_iff)
  have row: "\<exists>v'. map_of (db_validators db) pk = Some v' \<and> vr_cluster_id v' = vr_cluster_id v"
    if "map_of (db_validators (write_index e db)) pk = Some v" for pk v
    using that by (auto simp: write_index_rows)
  show "validators_ok cv (write_index e db)"
    unfolding validators_ok_def mem shares
  proof (intro conjI allI impI)
    fix pk v assume "map_of (db_validators (write_index e db)) pk = Some v"
    then obtain v' where v': "map_of (db_validators db) pk = Some v'" "vr_cluster_id v' = vr_cluster_id v" using row by blast
    then show "map_of (db_clusters (write_index e db)) (vr_cluster_id v) \<noteq> None"
      "map_of (db_shares (write_index e db)) (pk, i) \<noteq> None \<longleftrightarrow> i \<in> members_of db (vr_cluster_id v)"
      "validate_share_public_keys (cv_smul cv) (cv_key_validate cv) pk (share_pubkeys_of db pk) = Ok ()" for i
      using ok(5) unfolding validators_ok_def by (metis write_index_others(3,5))+
  next
    fix pk i s assume "map_of (db_shares (write_index e db)) (pk, i) = Some s"
    then have "\<exists>v. map_of (db_validators db) pk = Some v \<and> vr_cluster_id v = sr_cluster_id s"
      using share_has_validator [OF assms, of pk i s] by auto
    then show "\<exists>v. map_of (db_validators (write_index e db)) pk = Some v \<and> sr_cluster_id s = vr_cluster_id v"
      using write_index_clusters [of e db pk "sr_cluster_id s"] by metis
  qed
qed

definition write_index_state :: "pubkey \<times> validator_index \<Rightarrow> 'k network_state \<Rightarrow> 'k network_state" where
  "write_index_state e s = s\<lparr>ns_validator_metadata :=
     modify_by_primary (ns_validator_metadata s) (fst e) (\<lambda>v. v\<lparr>vm_index := Some (snd e)\<rparr>)\<rparr>"

lemma write_index_matches:
  assumes s: "state_matches sha256 operator db s"
  shows "state_matches sha256 operator (write_index e db) (write_index_state e s)"
proof -
  note d = state_matchesD [OF s]
  have ck: "cluster_key (write_index e db) = cluster_key db"
    by (auto simp: cluster_key_def write_index_rows fun_eq_iff split: option.split)
  have keys: "owner_key (write_index e db) = owner_key db" "committee_key sha256 (write_index e db) = committee_key sha256 db"
    "own_share (write_index e db) own = own_share db own" for own
    by (simp add: owner_key_def fun_eq_iff, simp add: committee_key_def GET_CLUSTER_MEMBERS_def fun_eq_iff,
        rule own_share_cong, simp)
  have ops: "db_operators (write_index e db) = db_operators db" by simp
  let ?m = "ns_validator_metadata s"
  have p: "mi_primary ?m = (\<lambda>pk. map_option (metadata_from_row pk) (map_of (db_validators db) pk))"
    by (rule metadata_keys(1) [OF d(6)])
  have "metadata_matches sha256 (write_index e db) (ns_validator_metadata (write_index_state e s))"
  proof -
    have "(\<lambda>pk. map_option (\<lambda>v. if pk = fst e then v\<lparr>vm_index := Some (snd e)\<rparr> else v) (mi_primary ?m pk)) =
        (\<lambda>pk. map_option (metadata_from_row pk) (map_of (db_validators (write_index e db)) pk))"
      by (auto simp: p write_index_rows metadata_from_row_def fun_eq_iff option.map_comp o_def intro!: option.map_cong)
    moreover have "dom (\<lambda>pk. map_option (\<lambda>v. if pk = fst e then v\<lparr>vm_index := Some (snd e)\<rparr> else v) (mi_primary ?m pk)) =
        dom (mi_primary ?m)" by (auto simp: dom_def)
    ultimately show ?thesis
      using d(6) unfolding metadata_matches_def write_index_state_def modify_by_primary_map ck keys
      by (simp add: index_is_def)
  qed
  moreover have "clusters_match sha256 (write_index e db) (ns_clusters s)"
  proof -
    have "cluster_from_row (write_index e db) = cluster_from_row db"
      by (simp add: cluster_from_row_def fun_eq_iff owner_fee_recipient_def GET_CLUSTER_MEMBERS_def)
    moreover have "mi_secondary_unique (ns_clusters s) pk = Some (vr_cluster_id v)"
      if "map_of (db_validators (write_index e db)) pk = Some v" for pk v
      using that cluster_keys(3) [OF d(7)] by (auto simp: write_index_rows split: if_splits)
    ultimately show ?thesis using d(7) unfolding clusters_match_def keys by simp
  qed
  moreover have "shares_match sha256 (write_index e db) own m = shares_match sha256 db own m" for own m
    unfolding shares_match_def ck keys ..
  moreover have "own_clusters_of (write_index e db) own = own_clusters_of db own" for own
    unfolding own_clusters_of_def ck keys ..
  ultimately show ?thesis
    using d unfolding state_matches_def operators_cong [OF ops]
    by (simp add: write_index_state_def nonce_view_def [abs_def])
qed

lemma set_validator_indices_closed:
  assumes "set_validator_indices entries nd = (nd', Ok u)"
  shows "nd' = nd\<lparr>nd_db := fold write_index entries (nd_db nd), nd_state := fold write_index_state entries (nd_state nd)\<rparr>"
proof -
  have loop: "tx_db tx' = fold write_index es (tx_db tx)"
    if "for_each_s (\<lambda>tx (pk, index). and_then (tx, sql_u64 index) (\<lambda>tx _. execute (SET_INDEX index pk) tx)) tx es = (tx', Ok u)"
    for es tx and tx' :: "'a txn"
    using that by (induction es arbitrary: tx) (auto simp: tx_op_simps SET_INDEX_def write_index_def)
  have state: "s\<lparr>ns_validator_metadata := fold (\<lambda>(pk, index) m. modify_by_primary m pk (\<lambda>v. v\<lparr>vm_index := Some index\<rparr>))
      es (ns_validator_metadata s)\<rparr> = fold write_index_state es s" for es and s :: "'a network_state"
  proof (induction es arbitrary: s)
    case (Cons e es)
    show ?case using Cons.IH [of "write_index_state e s"] by (cases e) (simp add: write_index_state_def)
  qed simp
  show ?thesis
    using assms loop state [of entries "nd_state nd"]
    by (auto simp: set_validator_indices_def split: prod.splits outcome.splits)
qed

lemma write_indices_ok:
  assumes "db_ok keccak256 cv db" "state_matches sha256 operator db s"
  shows "db_ok keccak256 cv (fold write_index es db) \<and>
    state_matches sha256 operator (fold write_index es db) (fold write_index_state es s)"
  using assms
proof (induction es arbitrary: db s)
  case (Cons e es)
  then show ?case using Cons.IH [OF write_index_ok write_index_matches] by auto
qed simp

lemma set_validator_indices_in_step:
  assumes ok: "in_step env p"
  shows "in_step env (p\<lparr>pr_database := fst (set_validator_indices entries (pr_database p))\<rparr>)"
proof -
  obtain nd' r where run: "set_validator_indices entries (pr_database p) = (nd', r)" by (metis surj_pair)
  show ?thesis
  proof (cases r)
    case (Ok u)
    have "db_ok (en_keccak256 env) (en_curve env) (nd_db (pr_database p))"
      "state_matches (en_sha256 env) (nd_operator (pr_database p)) (nd_db (pr_database p)) (nd_state (pr_database p))"
      using ok by (simp_all add: in_step_def)
    from write_indices_ok [OF this] Ok show ?thesis using set_validator_indices_closed [of entries "pr_database p" nd' u] run by (simp add: in_step_def)
  next
    case (Err e)
    then have "nd' = pr_database p" using run by (auto simp: set_validator_indices_def split: prod.splits outcome.splits)
    then show ?thesis using ok run by (simp add: in_step_def)
  next
    case Panic
    then have "nd' = pr_database p" using run by (auto simp: set_validator_indices_def split: prod.splits outcome.splits)
    then show ?thesis using ok run by (simp add: in_step_def)
  qed
qed

section \<open>Reachable processors\<close>

text \<open>
  A processor works through blocks and, in between, validator indices arrive. A block whose commit
  fails or that aborts is a step as well.
\<close>

inductive processor_reach ::
    "('k, 'f::field, 'g::ab_group_add) eth_env \<Rightarrow> mode \<Rightarrow> 'k processor \<Rightarrow> 'k processor \<Rightarrow> bool"
  for env mode p0 where
  start: "processor_reach env mode p0 p0"
| block: "processor_reach env mode p0 p \<Longrightarrow> block_admissible env mode live p logs \<Longrightarrow>
    processor_reach env mode p0 (fst (process_block_logs env mode live logs n p))"
| indices: "processor_reach env mode p0 p \<Longrightarrow>
    processor_reach env mode p0 (p\<lparr>pr_database := fst (set_validator_indices entries (pr_database p))\<rparr>)"

lemma block_step_in_step:
  assumes step: "in_step env p" and inj: "inj (en_keccak256 env)" and adm: "block_admissible env mode live p logs"
  shows "in_step env (fst (process_block_logs env mode live logs n p))"
proof -
  obtain p' r where run: "process_block_logs env mode live logs n p = (p', r)" by (metis surj_pair)
  show ?thesis
  proof (cases r)
    case (Ok u)
    then show ?thesis using block_in_step [OF step inj adm] run by simp
  next
    case (Err e)
    then show ?thesis using failed_block(1) [of env mode live logs n p p' e] step run by (simp add: in_step_def)
  next
    case Panic
    then show ?thesis using block_no_panic [OF step inj adm, of n] run by simp
  qed
qed

lemma reach_in_step:
  assumes "processor_reach env mode p0 p" "in_step env p0" "inj (en_keccak256 env)"
  shows "in_step env p"
  using assms(1)
  by induction (use assms(2,3) block_step_in_step set_validator_indices_in_step in blast)+

text \<open>The operator the node runs as never changes.\<close>

lemma block_operator: "nd_operator (pr_database (fst (process_block_logs env mode live logs n p))) = nd_operator (pr_database p)"
  by (auto simp: process_block_logs_def Let_def execute_post_commit_actions_def split: prod.splits outcome.splits option.splits mode.splits)

lemma indices_operator: "nd_operator (fst (set_validator_indices entries nd)) = nd_operator nd"
  by (auto simp: set_validator_indices_def split: prod.splits outcome.splits)

lemma reach_operator: "processor_reach env mode p0 p \<Longrightarrow> nd_operator (pr_database p) = nd_operator (pr_database p0)"
  by (induction rule: processor_reach.induct) (simp_all add: block_operator indices_operator)

text \<open>A new node: the tables the migrations set up, and the state loaded from them.\<close>

definition new_node :: "('k, 'f::field, 'g::ab_group_add) eth_env \<Rightarrow> 'k pubkey_or_id \<Rightarrow> 'k network_state \<Rightarrow> 'k processor" where
  "new_node env operator st =
     \<lparr>pr_database = \<lparr>nd_operator = operator, nd_state = st, nd_db = initial_db\<rparr>, pr_registered = [], pr_sent = []\<rparr>"

lemma new_node_in_step:
  assumes load: "new_with_state (en_sha256 env) (en_curve env) order operator initial_db = Ok st"
    and order: "\<And>xs. set (order xs) = set xs"
  shows "in_step env (new_node env operator st)"
proof -
  have small: "unat i < 2 ^ 63" if "operator = OwnId i" for i
    using load that by (auto simp: new_with_state_def Let_def own_operator_id_db_def bindO_Ok_iff sql_u64_def)
  have "db_ok (en_keccak256 env) (en_curve env) initial_db" by (rule db_ok_initial)
  from loading_matches [OF this, of order operator "en_sha256 env"] load order small this
  show ?thesis by (auto simp: new_node_def in_step_def)
qed

lemma reload_same_view:
  assumes step: "in_step env p" and order: "\<And>xs. set (order xs) = set xs"
    and small: "\<And>i. nd_operator (pr_database p) = OwnId i \<Longrightarrow> unat i < 2 ^ 63"
  shows "\<exists>st. new_with_state (en_sha256 env) (en_curve env) order (nd_operator (pr_database p)) (nd_db (pr_database p)) = Ok st
    \<and> same_view (nd_state (pr_database p)) st"
proof -
  have ok: "db_ok (en_keccak256 env) (en_curve env) (nd_db (pr_database p))"
    and s: "state_matches (en_sha256 env) (nd_operator (pr_database p)) (nd_db (pr_database p)) (nd_state (pr_database p))"
    using step by (simp_all add: in_step_def)
  from loading_matches [OF ok, of order "nd_operator (pr_database p)" "en_sha256 env"] order small
  obtain st where "new_with_state (en_sha256 env) (en_curve env) order (nd_operator (pr_database p)) (nd_db (pr_database p)) = Ok st"
    "state_matches (en_sha256 env) (nd_operator (pr_database p)) (nd_db (pr_database p)) st" by blast
  then show ?thesis using matches_same_view [OF s] by blast
qed

section \<open>Batches\<close>

text \<open>The reference: cut the logs into runs of the same block and work through the blocks in turn.\<close>

definition block_of :: "u64 \<Rightarrow> log \<Rightarrow> u64" where
  "block_of end_block log = (case lg_block_number log of Some n \<Rightarrow> n | None \<Rightarrow> end_block)"

function blocks_of :: "u64 \<Rightarrow> log list \<Rightarrow> (u64 \<times> log list) list" where
  "blocks_of end_block [] = []"
| "blocks_of end_block (log # logs) =
     (let n = block_of end_block log
      in (n, log # takeWhile (\<lambda>l. block_of end_block l = n) logs)
         # blocks_of end_block (dropWhile (\<lambda>l. block_of end_block l = n) logs))"
  by pat_completeness auto
termination by (relation "measure (\<lambda>(_, logs). length logs)") (auto simp: le_imp_less_Suc length_dropWhile_le)

definition run_blocks ::
    "('k, 'f::field, 'g::ab_group_add) eth_env \<Rightarrow> mode \<Rightarrow> bool \<Rightarrow> (u64 \<times> log list) list \<Rightarrow> 'k processor
     \<Rightarrow> 'k processor \<times> (unit, execution_error) outcome" where
  "run_blocks env mode live bs p = for_each_s (\<lambda>p (n, logs). process_block_logs env mode live logs n p) p bs"

definition last_block :: "u64 option \<Rightarrow> (u64 \<times> log list) list \<Rightarrow> u64 option" where
  "last_block b bs = (if bs = [] then b else Some (fst (last bs)))"

lemma loop_grouping:
  "process_logs_loop env mode live end_block (Some n) pending logs p =
     and_then (run_blocks env mode live
        ((n, pending @ takeWhile (\<lambda>l. block_of end_block l = n) logs)
         # blocks_of end_block (dropWhile (\<lambda>l. block_of end_block l = n) logs)) p)
       (\<lambda>p _. (p, Ok (last_block (Some n) (blocks_of end_block (dropWhile (\<lambda>l. block_of end_block l = n) logs)))))"
proof (induction logs arbitrary: n pending p)
  case Nil
  show ?case
    by (cases "process_block_logs env mode live pending n p"; cases "snd (process_block_logs env mode live pending n p)")
       (auto simp: flush_current_block_if_any_def run_blocks_def last_block_def)
next
  case (Cons log logs)
  let ?b = "block_of end_block log"
  have b: "(case lg_block_number log of Some n \<Rightarrow> n | None \<Rightarrow> end_block) = ?b" by (simp add: block_of_def)
  show ?case
  proof (cases "?b = n")
    case True
    then show ?thesis using Cons.IH [of n "pending @ [log]" p] by (simp add: b)
  next
    case False
    obtain p1 r where run: "process_block_logs env mode live pending n p = (p1, r)" by (metis surj_pair)
    show ?thesis
      using False Cons.IH [of ?b "[log]" p1]
      by (cases r) (auto simp: b run flush_current_block_if_any_def run_blocks_def last_block_def Let_def)
  qed
qed

lemma process_logs_blocks:
  "process_logs env mode logs live end_block p =
     (let bs = blocks_of end_block logs
      in run_blocks env mode live (if last_block None bs = Some end_block then bs else bs @ [(end_block, [])]) p)"
proof (cases logs)
  case Nil
  obtain p1 r where "process_block_logs env mode live [] end_block p = (p1, r)" by (metis surj_pair)
  then show ?thesis
    by (cases r) (simp_all add: Nil process_logs_def flush_current_block_if_any_def run_blocks_def last_block_def)
next
  case (Cons log rest)
  let ?n = "block_of end_block log"
  let ?bs = "blocks_of end_block logs"
  have append: "run_blocks env mode live (bs @ [b]) p = and_then (run_blocks env mode live bs p)
      (\<lambda>p _. run_blocks env mode live [b] p)" for bs b p
  proof (induction bs arbitrary: p)
    case (Cons x bs)
    obtain n ls where x: "x = (n, ls)" by (cases x)
    obtain p1 r where "process_block_logs env mode live ls n p = (p1, r)" by (metis surj_pair)
    then show ?case using Cons.IH [of p1] by (cases r) (simp_all add: run_blocks_def x)
  qed (simp add: run_blocks_def)
  have loop: "process_logs_loop env mode live end_block None [] logs p =
      and_then (run_blocks env mode live ?bs p) (\<lambda>p _. (p, Ok (last_block None ?bs)))"
    using loop_grouping [of env mode live end_block ?n "[log]" rest p]
    by (simp add: Cons block_of_def Let_def last_block_def)
  obtain p1 r where run: "run_blocks env mode live ?bs p = (p1, r)" by (metis surj_pair)
  obtain p2 r2 where "process_block_logs env mode live [] end_block p1 = (p2, r2)" by (metis surj_pair)
  then have one: "run_blocks env mode live [(end_block, [])] p1 = process_block_logs env mode live [] end_block p1"
    by (cases r2) (simp_all add: run_blocks_def)
  show ?thesis
    by (cases r) (simp_all add: process_logs_def loop run append one Let_def)
qed

text \<open>Every block of a batch is admissible for the processor it meets.\<close>

fun blocks_admissible ::
    "('k, 'f::field, 'g::ab_group_add) eth_env \<Rightarrow> mode \<Rightarrow> bool \<Rightarrow> 'k processor \<Rightarrow> (u64 \<times> log list) list \<Rightarrow> bool" where
  "blocks_admissible env mode live p [] \<longleftrightarrow> True"
| "blocks_admissible env mode live p ((n, logs) # bs) \<longleftrightarrow>
     block_admissible env mode live p logs
     \<and> blocks_admissible env mode live (fst (process_block_logs env mode live logs n p)) bs"

lemma run_blocks_reach:
  assumes "processor_reach env mode p0 p" "blocks_admissible env mode live p bs"
  shows "processor_reach env mode p0 (fst (run_blocks env mode live bs p))"
  using assms
proof (induction bs arbitrary: p)
  case (Cons b bs)
  obtain n logs where b: "b = (n, logs)" by (cases b)
  obtain p1 r where run: "process_block_logs env mode live logs n p = (p1, r)" by (metis surj_pair)
  have "processor_reach env mode p0 p1"
    using processor_reach.block [OF Cons.prems(1), of live logs n] Cons.prems(2) by (simp add: b run)
  then show ?case using Cons.IH [of p1] Cons.prems(2) by (cases r) (simp_all add: run_blocks_def b run)
qed (simp add: run_blocks_def)

lemma run_blocks_no_panic:
  assumes "in_step env p" "inj (en_keccak256 env)" "blocks_admissible env mode live p bs"
  shows "snd (run_blocks env mode live bs p) \<noteq> Panic"
  using assms
proof (induction bs arbitrary: p)
  case (Cons b bs)
  obtain n logs where b: "b = (n, logs)" by (cases b)
  obtain p1 r where run: "process_block_logs env mode live logs n p = (p1, r)" by (metis surj_pair)
  have "in_step env p1" "r \<noteq> Panic"
    using block_step_in_step [OF Cons.prems(1,2), of mode live logs n] block_no_panic [OF Cons.prems(1,2), of mode live logs n]
      Cons.prems(3) by (simp_all add: b run)
  then show ?case using Cons.IH [of p1] Cons.prems(2,3) by (cases r) (simp_all add: run_blocks_def b run)
qed (simp add: run_blocks_def)

section \<open>Slashing protection\<close>

text \<open>No operation but the insertion adds a validator, and the insertion adds one that was registered before.\<close>

definition known :: "'k txn \<Rightarrow> pubkey set" where
  "known tx = fst ` set (db_validators (tx_db tx))"

lemma small_ops_known:
  "processed_block_tx n tx = (tx', Ok u) \<Longrightarrow> known tx' = known tx"
  "set_max_operator_id_seen_tx n tx = (tx', Ok u) \<Longrightarrow> known tx' = known tx"
  "insert_skipped_operator_add_tx i re tx = (tx', Ok u) \<Longrightarrow> known tx' = known tx"
  "delete_skipped_operator_add_tx i tx = (tx', Ok b) \<Longrightarrow> known tx' = known tx"
  "update_status_tx c l tx = (tx', Ok u) \<Longrightarrow> known tx' = known tx"
  "bump_and_get_nonce_tx a tx = (tx', Ok nn) \<Longrightarrow> known tx' = known tx"
  "update_fee_recipient_tx a b' tx = (tx', Ok u) \<Longrightarrow> known tx' = known tx"
  "insert_operator_tx nd op tx = (tx', Ok u) \<Longrightarrow> known tx' = known tx"
  by (auto simp: known_def tx_op_simps processed_block_tx_def set_max_operator_id_seen_tx_def
      insert_skipped_operator_add_tx_def delete_skipped_operator_add_tx_def update_status_tx_def
      bump_and_get_nonce_tx_def update_fee_recipient_tx_def insert_operator_tx_def Let_def
      UPDATE_BLOCK_NUMBER_def SET_MAX_OPERATOR_ID_SEEN_def INSERT_SKIPPED_OPERATOR_ADD_def DELETE_SKIPPED_OPERATOR_ADD_def
      UPDATE_CLUSTER_STATUS_def BUMP_NONCE_def INSERT_OR_UPDATE_OWNER_FEE_RECIPIENT_def INSERT_OPERATOR_def split: if_splits)

lemma delete_operator_known: "delete_operator_tx i tx = (tx', Ok u) \<Longrightarrow> known tx' = known tx"
  by (auto simp: known_def delete_operator_tx_def and_then_Ok_iff execute_def DELETE_OPERATOR_def MARK_OPERATOR_REMOVED_def
      split: if_splits)

lemma delete_validator_known: "delete_validator_tx pk tx = (tx', Ok u) \<Longrightarrow> known tx' \<subseteq> known tx"
  by (auto simp: known_def delete_validator_tx_def tx_op_simps DELETE_VALIDATOR_def delete_cluster_rows_def Let_def
      split: option.splits if_splits)

lemma insert_member_share_validators:
  "insert_member_share own pk (tx, acc) sh = ((tx', acc'), Ok u) \<Longrightarrow> known tx' = known tx"
  using insert_member_share_Ok(1) [of own pk tx acc sh tx' acc' u] by (simp add: known_def)

lemma insert_shares_known:
  "for_each_s (insert_member_share own pk) (tx, acc) shs = ((tx', acc'), Ok u) \<Longrightarrow> known tx' = known tx"
proof (induction shs arbitrary: tx acc)
  case (Cons sh shs)
  obtain tx1 acc1 where step: "insert_member_share own pk (tx, acc) sh = ((tx1, acc1), Ok ())"
    and rest: "for_each_s (insert_member_share own pk) (tx1, acc1) shs = ((tx', acc'), Ok u)"
    using Cons.prems by (auto simp: and_then_Ok_iff)
  show ?case using Cons.IH [OF rest] insert_member_share_validators [OF step] by simp
qed simp

lemma insert_validator_known:
  assumes "insert_validator_tx nd cluster validator shares tx = (tx', Ok u)"
  shows "known tx' \<subseteq> insert (vm_public_key validator) (known tx)"
proof -
  obtain tx4 our where loop: "for_each_s (insert_member_share (get_own_operator_id_tx nd tx) (vm_public_key validator))
      (tx\<lparr>tx_db := validator_rows cluster validator (tx_db tx)\<rparr>, None) shares = ((tx4, our), Ok ())"
    and tx': "tx' = tx4\<lparr>tx_updates := tx_updates tx4 @ [InsertValidator cluster validator our]\<rparr>"
    by (rule insert_validator_start [OF assms])
  then show ?thesis using insert_shares_known [OF loop] by (auto simp: known_def validator_rows_def)
qed

definition registered_ok :: "'k block_state \<Rightarrow> bool" where
  "registered_ok s \<longleftrightarrow> known (bs_tx s) \<subseteq> set (bs_registered s)"

lemma registered_tx: "registered_ok s \<Longrightarrow> known tx \<subseteq> known (bs_tx s) \<Longrightarrow> registered_ok (s\<lparr>bs_tx := tx\<rparr>)"
  by (auto simp: registered_ok_def)

lemma operator_added_registered:
  assumes "registered_ok s" "process_operator_added env nd log s = (s', r)" "survives r"
  shows "registered_ok s'"
  using assms unfolding process_operator_added_def
  by (auto simp: Let_def small_ops_known intro!: registered_tx split: option.splits contract_event.splits if_splits outcome.splits
      elim!: and_then_survives on_tx_survives)

lemma other_handlers_registered:
  assumes "registered_ok s" "survives r"
  shows "process_operator_removed log s = (s', r) \<Longrightarrow> registered_ok s'"
    and "process_validator_removed env log s = (s', r) \<Longrightarrow> registered_ok s'"
    and "process_cluster_liquidated env log s = (s', r) \<Longrightarrow> registered_ok s'"
    and "process_cluster_reactivated env log s = (s', r) \<Longrightarrow> registered_ok s'"
    and "process_fee_recipient_updated log s = (s', r) \<Longrightarrow> registered_ok s'"
    and "process_validator_exited env mode nd live log s = (s', r) \<Longrightarrow> registered_ok s'"
  using assms unfolding process_operator_removed_def process_validator_removed_def process_cluster_liquidated_def
    process_cluster_reactivated_def process_fee_recipient_updated_def process_validator_exited_def
  by (auto simp: Let_def small_ops_known delete_operator_known delete_validator_known push_action_def registered_ok_def
      split: option.splits contract_event.splits if_splits elim!: and_then_survives on_tx_survives
      dest!: small_ops_known(4) delete_operator_known delete_validator_known) blast+

lemma validator_added_registered:
  assumes ok: "registered_ok s" and run: "process_validator_added env mode nd log s = (s', r)" "survives r"
  shows "registered_ok s'"
  using assms unfolding process_validator_added_def
  by (auto simp: Let_def small_ops_known push_action_def registered_ok_def construct_validator_metadata_def
      split: option.splits contract_event.splits if_splits elim!: register_then and_then_survives on_tx_survives
      dest!: insert_validator_known small_ops_known(6)) blast+

lemma process_log_registered:
  assumes "registered_ok s" "process_log env mode nd live s log = (s', Ok u)"
  shows "registered_ok s'"
proof -
  obtain r where "dispatch_log env mode nd live log s = (s', r)" "survives r"
    using assms(2) by (auto simp: process_log_def split: prod.splits outcome.splits if_splits)
  then show ?thesis
    using assms(1) operator_added_registered other_handlers_registered validator_added_registered
    unfolding dispatch_log_def by (auto split: option.splits event_topic.splits)
qed

lemma logs_registered:
  "registered_ok s \<Longrightarrow> for_each_s (process_log env mode nd live) s logs = (s', Ok u) \<Longrightarrow> registered_ok s'"
  by (induction logs arbitrary: s) (auto simp: and_then_Ok_iff dest: process_log_registered)

lemma block_registered:
  assumes "registered_ok (open_block p)"
    and "and_then (for_each_s (process_log env mode (pr_database p) live) (open_block p) logs) (\<lambda>s _.
      on_tx (processed_block_tx n) s) = (s, Ok u)"
  shows "registered_ok s"
proof -
  obtain s1 where s1: "for_each_s (process_log env mode (pr_database p) live) (open_block p) logs = (s1, Ok ())"
    and rest: "on_tx (processed_block_tx n) s1 = (s, Ok u)"
    using assms(2) by (auto simp: and_then_Ok_iff)
  have "registered_ok s1"
    by (rule logs_registered [OF assms(1) s1])
  then show ?thesis using rest by (auto simp: small_ops_known intro!: registered_tx)
qed

text \<open>A registration is never taken back, not even by a block that fails.\<close>

definition keeps_registered :: "'k block_state \<Rightarrow> 'k block_state \<times> 'r \<Rightarrow> bool" where
  "keeps_registered s m \<longleftrightarrow> set (bs_registered s) \<subseteq> set (bs_registered (fst m))"

lemma keeps_same [simp]: "keeps_registered s (s, r)"
  by (simp add: keeps_registered_def)

lemma keeps_on_tx [simp]: "keeps_registered s (on_tx f s)"
  by (simp add: keeps_registered_def on_tx_def split: prod.split)

lemma keeps_and_then:
  assumes "keeps_registered s m" "\<And>s1 x. m = (s1, Ok x) \<Longrightarrow> keeps_registered s1 (k s1 x)"
  shows "keeps_registered s (and_then m k)"
  using assms by (cases m; cases "snd m") (auto simp: keeps_registered_def)

lemma keeps_pure: "(\<And>x. keeps_registered s (k s x)) \<Longrightarrow> keeps_registered s (and_then (s, r) k)"
  by (rule keeps_and_then) auto

lemma keeps_push [simp]: "keeps_registered s (push_action a s)"
  by (simp add: keeps_registered_def push_action_def)

lemma keeps_register [simp]: "keeps_registered s (register_validator env pk s)"
  by (auto simp: keeps_registered_def register_validator_def)

lemma handlers_keep_registered:
  "keeps_registered s (process_operator_added env nd log s)" "keeps_registered s (process_operator_removed log s)"
  "keeps_registered s (process_validator_removed env log s)" "keeps_registered s (process_cluster_liquidated env log s)"
  "keeps_registered s (process_cluster_reactivated env log s)" "keeps_registered s (process_fee_recipient_updated log s)"
  "keeps_registered s (process_validator_exited env mode nd live log s)"
  unfolding process_operator_added_def process_operator_removed_def process_validator_removed_def
    process_cluster_liquidated_def process_cluster_reactivated_def process_fee_recipient_updated_def process_validator_exited_def
  by (auto simp: Let_def intro!: keeps_and_then split: option.split contract_event.split outcome.split)

lemma validator_added_keeps_registered: "keeps_registered s (process_validator_added env mode nd log s)"
  unfolding process_validator_added_def
  by (auto simp: Let_def intro!: keeps_and_then split: option.split contract_event.split)

lemma process_log_keeps_registered: "keeps_registered s (process_log env mode nd live s log)"
proof -
  have "keeps_registered s (dispatch_log env mode nd live log s)"
    by (simp add: dispatch_log_def handlers_keep_registered validator_added_keeps_registered split: option.split event_topic.split)
  then show ?thesis by (auto simp: process_log_def keeps_registered_def split: prod.splits outcome.splits)
qed

lemma logs_keep_registered: "keeps_registered s (for_each_s (process_log env mode nd live) s logs)"
proof (induction logs arbitrary: s)
  case (Cons log logs)
  show ?case using Cons.IH by (auto intro!: keeps_and_then process_log_keeps_registered)
qed simp

definition processor_registered :: "'k processor \<Rightarrow> bool" where
  "processor_registered p \<longleftrightarrow> fst ` set (db_validators (nd_db (pr_database p))) \<subseteq> set (pr_registered p)"

lemma open_block_registered: "processor_registered p \<Longrightarrow> registered_ok (open_block p)"
  by (simp add: processor_registered_def registered_ok_def known_def open_block_def)

lemma block_step_registered:
  assumes p: "processor_registered p"
  shows "processor_registered (fst (process_block_logs env mode live logs n p))"
proof -
  let ?run = "and_then (for_each_s (process_log env mode (pr_database p) live) (open_block p) logs) (\<lambda>s _.
      on_tx (processed_block_tx n) s)"
  obtain s r where run: "?run = (s, r)" by (metis surj_pair)
  have "keeps_registered (open_block p) ?run" by (intro keeps_and_then logs_keep_registered) simp
  then have keep: "set (pr_registered p) \<subseteq> set (bs_registered s)"
    by (simp only: run) (simp add: keeps_registered_def open_block_def)
  show ?thesis
  proof (cases r)
    case (Ok u)
    then have "registered_ok s" using block_registered [OF open_block_registered [OF p]] run by blast
    then show ?thesis
      using p keep run Ok by (auto simp: process_block_logs_def Let_def processor_registered_def registered_ok_def known_def
          execute_post_commit_actions_def split: option.split mode.split)
  qed (use p keep run in \<open>auto simp: process_block_logs_def processor_registered_def\<close>)
qed

lemma indices_registered:
  assumes "processor_registered p"
  shows "processor_registered (p\<lparr>pr_database := fst (set_validator_indices entries (pr_database p))\<rparr>)"
proof -
  have keys: "map fst (db_validators (fold write_index es db)) = map fst (db_validators db)" for es and db :: "'a sql_db"
    by (induction es arbitrary: db) simp_all
  have keys: "fst ` set (db_validators (fold write_index es db)) = fst ` set (db_validators db)" for es and db :: "'a sql_db"
    using arg_cong [OF keys [of es db], of set] by simp
  obtain nd' r where run: "set_validator_indices entries (pr_database p) = (nd', r)" by (metis surj_pair)
  show ?thesis
  proof (cases r)
    case (Ok u)
    then show ?thesis
      using set_validator_indices_closed [of entries "pr_database p" nd' u] run assms by (simp add: processor_registered_def keys)
  qed (use run assms in \<open>auto simp: set_validator_indices_def processor_registered_def split: prod.splits outcome.splits\<close>)
qed

lemma reach_registered:
  assumes "processor_reach env mode p0 p" "processor_registered p0"
  shows "processor_registered p"
  using assms(1) by induction (use assms(2) block_step_registered indices_registered in blast)+

section \<open>Batches that fail\<close>

lemma run_blocks_prefix:
  assumes "run_blocks env mode live bs p = (p', Err e)"
  shows "\<exists>k p1. k < length bs \<and> run_blocks env mode live (take k bs) p = (p1, Ok ())
    \<and> pr_database p' = pr_database p1 \<and> pr_sent p' = pr_sent p1"
  using assms
proof (induction bs arbitrary: p)
  case (Cons b bs)
  obtain n logs where b: "b = (n, logs)" by (cases b)
  obtain p1 r where run: "process_block_logs env mode live logs n p = (p1, r)" by (metis surj_pair)
  show ?case
  proof (cases r)
    case (Ok u)
    then have "run_blocks env mode live bs p1 = (p', Err e)" using Cons.prems by (simp add: run_blocks_def b run)
    from Cons.IH [OF this] obtain k p2 where k: "k < length bs" "run_blocks env mode live (take k bs) p1 = (p2, Ok ())"
      "pr_database p' = pr_database p2" "pr_sent p' = pr_sent p2" by blast
    have "run_blocks env mode live (take (Suc k) (b # bs)) p = (p2, Ok ())"
      using k(2) Ok by (simp add: run_blocks_def b run)
    then show ?thesis using k by (intro exI [of _ "Suc k"]) auto
  next
    case (Err e')
    then have "p' = p1" using Cons.prems by (simp add: run_blocks_def b run)
    then show ?thesis
      using failed_block [of env mode live logs n p p1 e'] run Err by (intro exI [of _ 0]) (simp add: run_blocks_def)
  next
    case Panic
    then show ?thesis using Cons.prems by (simp add: run_blocks_def b run)
  qed
qed (simp add: run_blocks_def)

text \<open>The blocks of a batch: the runs of logs, and an empty block when the last one is not the end.\<close>

definition batch_blocks :: "u64 \<Rightarrow> log list \<Rightarrow> (u64 \<times> log list) list" where
  "batch_blocks end_block logs =
     (let bs = blocks_of end_block logs in if last_block None bs = Some end_block then bs else bs @ [(end_block, [])])"

lemma process_logs_batch: "process_logs env mode logs live end_block p = run_blocks env mode live (batch_blocks end_block logs) p"
  by (simp add: process_logs_blocks batch_blocks_def Let_def)

lemma blocks_of_concat: "concat (map snd (blocks_of end_block logs)) = logs"
proof (induction end_block logs rule: blocks_of.induct)
  case (2 end_block log logs)
  show ?case using "2.IH" [OF refl] by (simp add: Let_def)
qed simp

lemma blocks_of_block: "b \<in> set (blocks_of end_block logs) \<Longrightarrow> snd b \<noteq> [] \<and> (\<forall>l \<in> set (snd b). block_of end_block l = fst b)"
proof (induction end_block logs rule: blocks_of.induct)
  case (2 end_block log logs)
  from 2(2) consider "b = (block_of end_block log, log # takeWhile (\<lambda>l. block_of end_block l = block_of end_block log) logs)"
    | "b \<in> set (blocks_of end_block (dropWhile (\<lambda>l. block_of end_block l = block_of end_block log) logs))"
    by (auto simp: Let_def)
  then show ?case
  proof cases
    case 1
    then show ?thesis by (auto dest: set_takeWhileD)
  next
    case 2
    then show ?thesis using "2.IH" [OF refl] by blast
  qed
qed simp

section \<open>Stored validators\<close>

lemma stored_shares:
  assumes ok: "db_ok keccak256 cv db" and row: "map_of (db_validators db) pk = Some v"
  shows "validate_share_public_keys (cv_smul cv) (cv_key_validate cv) pk (share_pubkeys_of db pk) = Ok ()"
    and "fst ` set (share_pubkeys_of db pk) = members_of db (vr_cluster_id v)"
    and "distinct (map fst (share_pubkeys_of db pk))"
    and "length (share_pubkeys_of db pk) = card (members_of db (vr_cluster_id v))"
proof -
  have v: "validators_ok cv db" and keys: "distinct (map fst (db_shares db))"
    using ok by (simp_all add: db_ok_def keys_ok_def)
  show "validate_share_public_keys (cv_smul cv) (cv_key_validate cv) pk (share_pubkeys_of db pk) = Ok ()"
    using v row unfolding validators_ok_def by blast
  have "i \<in> fst ` set (share_pubkeys_of db pk) \<longleftrightarrow> (pk, i) \<in> fst ` set (db_shares db)" for i
    unfolding share_pubkeys_of_def by force
  moreover have "(pk, i) \<in> fst ` set (db_shares db) \<longleftrightarrow> map_of (db_shares db) (pk, i) \<noteq> None" for i
    by (simp add: map_of_eq_None_iff)
  moreover have "map_of (db_shares db) (pk, i) \<noteq> None \<longleftrightarrow> i \<in> members_of db (vr_cluster_id v)" for i
    using v row unfolding validators_ok_def by blast
  ultimately show fst: "fst ` set (share_pubkeys_of db pk) = members_of db (vr_cluster_id v)" by (intro set_eqI) simp
  have "map fst (share_pubkeys_of db pk) = map snd (filter (\<lambda>k. fst k = pk) (map fst (db_shares db)))"
    by (simp add: share_pubkeys_of_def filter_map o_def split_def)
  moreover have "inj_on snd (set (filter (\<lambda>k. fst k = pk) (map fst (db_shares db))))" by (auto intro!: inj_onI)
  ultimately show dist: "distinct (map fst (share_pubkeys_of db pk))"
    using keys by (metis distinct_filter distinct_map)
  show "length (share_pubkeys_of db pk) = card (members_of db (vr_cluster_id v))"
    using distinct_card [OF dist] fst by simp
qed

lemma stored_cluster:
  assumes ok: "db_ok keccak256 cv db" and row: "map_of (db_validators db) pk = Some v"
  shows "\<exists>c. map_of (db_clusters db) (vr_cluster_id v) = Some c
    \<and> names_cluster keccak256 (vr_cluster_id v) (cr_owner c) (members_of db (vr_cluster_id v))"
    and "\<forall>i \<in> members_of db (vr_cluster_id v). map_of (db_operators db) i \<noteq> None"
    and "is_valid_committee_size (card (members_of db (vr_cluster_id v)))"
proof -
  have c: "clusters_ok keccak256 db" and v: "validators_ok cv db" using ok by (simp_all add: db_ok_def)
  then show "\<exists>c. map_of (db_clusters db) (vr_cluster_id v) = Some c
      \<and> names_cluster keccak256 (vr_cluster_id v) (cr_owner c) (members_of db (vr_cluster_id v))"
    using row unfolding clusters_ok_def validators_ok_def by blast
  show "\<forall>i \<in> members_of db (vr_cluster_id v). map_of (db_operators db) i \<noteq> None"
    using c unfolding clusters_ok_def members_of_def by blast
  show "is_valid_committee_size (card (members_of db (vr_cluster_id v)))"
    using stored_shares(1) [OF ok row] unfolding stored_shares(4) [OF ok row, symmetric] validate_share_public_keys_def
    by (simp split: if_splits)
qed

lemma last_block_blocks_of:
  assumes "last_block None bs = Some n"
  shows "\<exists>bs' block. bs = bs' @ [(n, block)]"
proof -
  have "bs \<noteq> []" "fst (last bs) = n" using assms by (auto simp: last_block_def split: if_splits)
  then have "bs = butlast bs @ [(n, snd (last bs))]" by (metis append_butlast_last_id prod.collapse)
  then show ?thesis by blast
qed

lemma batch_blocks_spec:
  "concat (map snd (batch_blocks end_block logs)) = logs"
  "\<forall>b \<in> set (batch_blocks end_block logs). \<forall>l \<in> set (snd b). block_of end_block l = fst b"
  "\<exists>bs block. batch_blocks end_block logs = bs @ [(end_block, block)]"
proof -
  show "concat (map snd (batch_blocks end_block logs)) = logs"
    using blocks_of_concat [of end_block logs] by (simp add: batch_blocks_def Let_def)
  show "\<forall>b \<in> set (batch_blocks end_block logs). \<forall>l \<in> set (snd b). block_of end_block l = fst b"
    using blocks_of_block [of _ end_block logs] unfolding batch_blocks_def Let_def by (simp split: if_splits)
  show "\<exists>bs block. batch_blocks end_block logs = bs @ [(end_block, block)]"
    unfolding batch_blocks_def Let_def using last_block_blocks_of [of "blocks_of end_block logs" end_block] by simp
qed

end
