(* ===== verification/Bls_Demo.thy ===== *)
theory Bls_Demo
  imports Bls_Lagrange Complex_Main
begin

text \<open>
  A concrete instance of the threshold keys: the scalars and the points are the rational numbers,
  a key is split three out of four with the polynomial \<open>5 + 2 x + x\<^sup>2\<close>, and the encoding of a public
  key is one byte.
\<close>

definition bls_smul :: "rat \<Rightarrow> rat \<Rightarrow> rat" where
  "bls_smul a g = a * g"

lemma bls_group: "curve_group bls_smul"
  by unfold_locales (simp_all add: bls_smul_def algebra_simps)

lemma bls_scalar_inj: "inj (scalar_of :: u64 \<Rightarrow> rat)"
proof (rule injI)
  fix v w :: u64
  assume "(scalar_of v :: rat) = scalar_of w"
  then have "unat v = unat w" unfolding scalar_of_def by (simp only: of_nat_eq_iff)
  then show "v = w" by (simp only: word_unat_eq_iff)
qed

definition bls_ids :: "rat key_id list" where
  "bls_ids = map key_id_of [1, 2, 3, 4]"

lemma bls_scalars [simp]:
  "(scalar_of 1 :: rat) = 1" "(scalar_of 2 :: rat) = 2" "(scalar_of 3 :: rat) = 3" "(scalar_of 4 :: rat) = 4"
  by (simp_all add: scalar_of_def)

lemma bls_split:
  "split_with_rng 5 3 bls_ids [2, 1] =
     Ok [(key_id_of 1, 8), (key_id_of 2, 13), (key_id_of 3, 20), (key_id_of 4, 29)]"
  by (simp add: split_with_rng_def bls_ids_def word_le_nat_alt)

definition bls_chosen :: "(rat key_id \<times> rat) list" where
  "bls_chosen = [(key_id_of 4, 29), (key_id_of 1, 8), (key_id_of 3, 20)]"

text \<open>Public keys: the byte \<open>b\<close> is the point \<open>b\<close>, and zero is no key.\<close>

definition bls_key_validate :: "bytes \<Rightarrow> rat option" where
  "bls_key_validate bs = (case bs of [b] \<Rightarrow> if b = 0 then None else Some (of_nat (unat b)) | _ \<Rightarrow> None)"

definition bls_shares :: "(operator_id \<times> bytes) list" where
  "bls_shares = [(1, [8]), (2, [13]), (3, [20]), (4, [29])]"

lemma bls_committee:
  "is_valid_committee_size (Suc (Suc (Suc (Suc 0))))" "quorum_size (Suc (Suc (Suc (Suc 0)))) = 3"
  by (simp_all add: is_valid_committee_size_def quorum_size_def get_f_def MAX_SIGNATURES_def)

lemmas validate_simps = validate_share_public_keys_def lagrange_validate_share_public_keys_def
  interpolate_public_key_def lagrange_coefficients_def mult_points_def key_id_try_from_def
  bls_key_validate_def bls_smul_def scalar_of_def map_err_o_def ok_or_def map_err_def guardO_def Let_def

lemma bls_valid: "validate_share_public_keys bls_smul bls_key_validate [5] bls_shares = Ok ()"
  by (simp add: validate_simps bls_shares_def bls_committee)

text \<open>
  The polynomial \<open>1 + x (x - 1)\<close> has the degree the check asks for, and its value at one is the
  validator's key itself.
\<close>

definition lone_shares :: "(operator_id \<times> bytes) list" where
  "lone_shares = [(1, [1]), (2, [3]), (3, [7]), (4, [13])]"

lemma lone_valid: "validate_share_public_keys bls_smul bls_key_validate [1] lone_shares = Ok ()"
  by (simp add: validate_simps lone_shares_def bls_committee)

end
