(* ===== verification/Db_Demo.thy ===== *)
theory Db_Demo
  imports Db_Run Bls_Demo
begin

text \<open>
  A concrete run of the event processor: four operators register, the first of them is the node,
  and an owner adds a validator whose key is split among the four. Keys are one byte long behind
  48 bytes of encoding, hashing and base 64 change nothing, and the threshold keys are those of
  the rational instance.
\<close>

definition events_env :: "(bytes, rat, rat) eth_env" where
  "events_env = \<lparr>en_keccak256 = id, en_sha256 = id,
     en_pubkey_deserialize = (\<lambda>bs. Some (take 1 bs)), en_pubkey_decompress = Some,
     en_signature_deserialize = Some, en_bls_verify = (\<lambda>_ _ _. True),
     en_address_display = (\<lambda>_. ''owner''), en_base64_encode = id, en_base64_decode = Some,
     en_utf8_valid = (\<lambda>_. True), en_rsa_from_pem = Some,
     en_curve = \<lparr>cv_smul = bls_smul, cv_key_validate = bls_key_validate\<rparr>,
     en_register_validator = (\<lambda>_. True), en_commit = (\<lambda>n. n < 100)\<rparr>"

definition demo_owner :: address where
  "demo_owner = replicate 20 7"

definition operator_log :: "u64 \<Rightarrow> log" where
  "operator_log i = \<lparr>lg_block_number = Some 10, lg_block_timestamp = None, lg_topic0 = Some OperatorAddedTopic,
     lg_decoded = Some (OperatorAdded i demo_owner [of_nat (unat i)])\<rparr>"

definition padded :: "nat \<Rightarrow> 8 word \<Rightarrow> bytes" where
  "padded n b = b # replicate (n - 1) 0"

lemma padded_simps [simp]: "0 < n \<Longrightarrow> length (padded n b) = n" "take 1 (padded n b) = [b]" "take (Suc 0) (padded n b) = [b]"
  by (simp_all add: padded_def)

definition share_data :: bytes where
  "share_data = replicate 96 0 @ padded 48 8 @ padded 48 13 @ padded 48 20 @ padded 48 29
     @ padded 256 1 @ padded 256 2 @ padded 256 3 @ padded 256 4"

definition validator_log :: log where
  "validator_log = \<lparr>lg_block_number = Some 11, lg_block_timestamp = None, lg_topic0 = Some ValidatorAddedTopic,
     lg_decoded = Some (ValidatorAdded demo_owner [1, 2, 3, 4] [5] share_data)\<rparr>"

section \<open>Parsing\<close>

lemma chunks_Nil [simp]: "chunks n [] = []"
  by (subst chunks.simps) simp

lemma chunks_append: "length xs = n \<Longrightarrow> 0 < n \<Longrightarrow> chunks n (xs @ ys) = xs # chunks n ys"
  by (subst chunks.simps) auto

lemma chunks_single: "length xs = n \<Longrightarrow> 0 < n \<Longrightarrow> chunks n xs = [xs]"
  using chunks_append [of xs n "[]"] by simp

definition demo_cluster_id :: cluster_id where
  "demo_cluster_id = compute_cluster_id id demo_owner [1, 2, 3, 4]"

definition demo_share :: "u64 \<Rightarrow> 8 word \<Rightarrow> share" where
  "demo_share i b = \<lparr>sh_validator_pubkey = [5], sh_operator_id = i, sh_cluster_id = demo_cluster_id,
     sh_share_pubkey = [b], sh_encrypted_private_key = padded 256 (of_nat (unat i))\<rparr>"

lemma parse_demo:
  "parse_shares (\<lambda>bs. Some (take 1 bs)) share_data [1, 2, 3, 4] demo_cluster_id [5] =
     Ok (replicate 96 0, [demo_share 1 8, demo_share 2 13, demo_share 3 20, demo_share 4 29])"
proof -
  have keys: "take 192 (drop 96 share_data) = padded 48 8 @ padded 48 13 @ padded 48 20 @ padded 48 29"
    by (simp add: share_data_def)
  have enc: "drop 288 share_data = padded 256 1 @ padded 256 2 @ padded 256 3 @ padded 256 4"
    by (simp add: share_data_def)
  have len: "length share_data = 1312" "take 96 share_data = replicate 96 0" by (simp_all add: share_data_def)
  show ?thesis
    by (simp add: parse_shares_def BLS_SIGNATURE_LENGTH_def BLS_PUBLIC_KEY_LENGTH_def ENCRYPTED_KEY_LENGTH_def Let_def
        keys enc len chunks_append chunks_single parse_share_def ok_or_def demo_share_def)
qed

section \<open>Operators\<close>

definition operator_key :: "u64 \<Rightarrow> bytes" where
  "operator_key i = [of_nat (unat i)]"

lemma starts_with_short: "length bs < length p \<Longrightarrow> \<not> starts_with p bs"
  unfolding starts_with_def by (metis leD length_take min.cobounded1 min.commute)

lemma replace_short: "length bs < length from \<Longrightarrow> replace_bytes from to bs = bs"
proof (induction bs)
  case Nil
  show ?case by (subst replace_bytes.simps) simp
next
  case (Cons b bs)
  then show ?case by (subst replace_bytes.simps) (auto simp: starts_with_short)
qed

lemma parse_operator_demo:
  "parse_operator_public_key events_env (operator_key i) i owner =
     Ok \<lparr>op_id = i, op_rsa_pubkey = operator_key i, op_owner = owner\<rparr>"
proof -
  have "unwrap_operator_public_key (operator_key i) = operator_key i"
    by (simp add: unwrap_operator_public_key_def abi_decode_single_dynamic_bytes_def operator_key_def)
  moreover have "normalize_operator_public_key_bytes events_env (operator_key i) = Ok (operator_key i)"
    by (simp add: normalize_operator_public_key_bytes_def decode_hex_encoded_operator_pem_def starts_with_short
        operator_key_def ascii_def)
  moreover have "from_base64 events_env (operator_key i) = Some (operator_key i)"
    by (simp add: from_base64_def events_env_def operator_key_def replace_short ascii_def Let_def)
  ultimately show ?thesis by (simp add: parse_operator_public_key_def operator_new_def ok_or_def)
qed

definition operator_row_of :: "u64 \<Rightarrow> u64 \<times> bytes operator_row" where
  "operator_row_of i = (i, \<lparr>or_public_key = operator_key i, or_owner = demo_owner, or_removed = False\<rparr>)"

definition operator_updates :: "u64 \<Rightarrow> bytes state_update list" where
  "operator_updates i = [SetMaxOperatorIdSeen i,
     InsertOperator \<lparr>op_id = i, op_rsa_pubkey = operator_key i, op_owner = demo_owner\<rparr> (i = 1)]"

lemma operator_step:
  assumes "db_max_operator_id_seen (tx_db (bs_tx s)) = Some (i - 1)" "unat i < 2 ^ 63"
    and "i \<notin> fst ` set (db_operators (tx_db (bs_tx s)))"
    and "\<forall>r \<in> snd ` set (db_operators (tx_db (bs_tx s))). or_public_key r \<noteq> operator_key i"
    and "nd_operator nd = Pubkey (operator_key 1)" "operator_key i = operator_key 1 \<longleftrightarrow> i = 1"
  shows "process_log events_env Node nd live s (operator_log i) =
    (s\<lparr>bs_tx := \<lparr>tx_db = (tx_db (bs_tx s))\<lparr>db_max_operator_id_seen := Some i,
         db_operators := db_operators (tx_db (bs_tx s)) @ [operator_row_of i]\<rparr>,
       tx_updates = tx_updates (bs_tx s) @ operator_updates i\<rparr>\<rparr>, Ok ())"
proof -
  have row: "map_of (db_operators (tx_db (bs_tx s))) i = None" using assms(3) by (auto simp: map_of_eq_None_iff)
  have key: "find (\<lambda>(_, r). or_public_key r = operator_key i) (db_operators (tx_db (bs_tx s))) = None"
    using assms(4) by (auto simp: find_None_iff image_iff)
  have fresh: "operator_key i \<notin> or_public_key ` snd ` set (db_operators (tx_db (bs_tx s)))" using assms(4) by auto
  have small: "sql_u64 i = Ok ()" using assms(2) by (simp add: sql_u64_def)
  have absent: "operator_exists_tx i tx = Ok False" if "db_operators (tx_db tx) = db_operators (tx_db (bs_tx s))" for tx
    by (simp add: operator_exists_tx_def get_operator_status_def GET_OPERATOR_STATUS_def small row that)
  have "lg_decoded (operator_log i) = Some (OperatorAdded i demo_owner (operator_key i))"
    by (simp add: operator_log_def operator_key_def)
  with assms key fresh show ?thesis
    by (simp add: process_log_def dispatch_log_def process_operator_added_def absent small
        on_tx_def set_max_operator_id_seen_tx_def insert_operator_tx_def SET_MAX_OPERATOR_ID_SEEN_def INSERT_OPERATOR_def
        execute_def queue_update_def parse_operator_demo get_any_operator_id_by_public_key_tx_def
        GET_ANY_OPERATOR_ID_def map_err_o_def operator_row_of_def operator_updates_def operator_log_def Let_def)
qed

section \<open>Blocks\<close>

definition loaded_start :: "bytes network_state" where
  "loaded_start = \<lparr>ns_shares = mi_new, ns_validator_metadata = mi_new, ns_clusters = mi_new, ns_id = None,
     ns_last_processed_block = 0, ns_operators = Map.empty, ns_own_clusters = {}, ns_nonces = Map.empty,
     ns_max_operator_id_seen = Some 0\<rparr>"

lemma demo_load:
  "new_with_state (en_sha256 events_env) (en_curve events_env) id (Pubkey (operator_key 1)) initial_db = Ok loaded_start"
  by (simp add: new_with_state_def initial_db_def own_operator_id_db_def GET_OPERATOR_ID_def fetch_nonces_def
      fetch_clusters_def fetch_operators_def [abs_def] loaded_start_def Let_def fun_eq_iff)

definition demo_p0 :: "bytes processor" where
  "demo_p0 = new_node events_env (Pubkey (operator_key 1)) loaded_start"

definition demo_p1 :: "bytes processor" where
  "demo_p1 = fst (process_block_logs events_env Node True (map operator_log [1, 2, 3, 4]) 10 demo_p0)"

definition demo_p2 :: "bytes processor" where
  "demo_p2 = fst (process_block_logs events_env Node True [validator_log] 11 demo_p1)"

lemma demo_inj: "inj (en_keccak256 events_env)"
  by (simp add: events_env_def)

lemma demo_p0_in_step: "in_step events_env demo_p0"
  unfolding demo_p0_def by (rule new_node_in_step [OF demo_load]) simp

lemma operator_logs_admissible: "logs_admissible events_env mode nd live s (map operator_log is)"
  by (induction "is" arbitrary: s) (simp_all add: log_admissible_def operator_log_def)

lemma demo_block1_admissible: "block_admissible events_env Node True demo_p0 (map operator_log [1, 2, 3, 4])"
  unfolding block_admissible_def by (rule operator_logs_admissible)

definition operator_db :: "bytes sql_db" where
  "operator_db = initial_db\<lparr>db_block_number := 10, db_max_operator_id_seen := Some 4,
     db_operators := map operator_row_of [1, 2, 3, 4]\<rparr>"

text \<open>A block whose logs and whose commit succeed writes its transaction.\<close>

lemma block_committed:
  assumes step: "in_step env p" "inj (en_keccak256 env)" "block_admissible env mode live p logs"
    and run: "for_each_s (process_log env mode (pr_database p) live) (open_block p) logs = (s, Ok ())"
    and "unat n < 2 ^ 63" "en_commit env n"
  shows "\<exists>p'. process_block_logs env mode live logs n p = (p', Ok ()) \<and>
    nd_db (pr_database p') = (tx_db (bs_tx s))\<lparr>db_block_number := n\<rparr> \<and> pr_registered p' = bs_registered s"
proof -
  have "snd (process_block_logs env mode live logs n p) \<noteq> Panic" by (rule block_no_panic [OF step])
  moreover have "on_tx (processed_block_tx n) s = (s\<lparr>bs_tx := \<lparr>tx_db = (tx_db (bs_tx s))\<lparr>db_block_number := n\<rparr>,
      tx_updates = tx_updates (bs_tx s) @ [SetLastProcessedBlock n]\<rparr>\<rparr>, Ok ())"
    using assms(5) by (simp del: on_tx_Ok add: on_tx_def processed_block_tx_def sql_u64_def guardO_def execute_def UPDATE_BLOCK_NUMBER_def
        queue_update_def map_err_o_def)
  ultimately show ?thesis using assms(6)
    by (auto simp: process_block_logs_def run execute_post_commit_actions_def Let_def simp del: on_tx_Ok
        split: option.splits mode.splits)
qed

lemma demo_block1_run:
  "\<exists>us. for_each_s (process_log events_env Node (pr_database demo_p0) True) (open_block demo_p0) (map operator_log [1, 2, 3, 4]) =
     (\<lparr>bs_tx = \<lparr>tx_db = operator_db\<lparr>db_block_number := 0\<rparr>, tx_updates = us\<rparr>, bs_actions = [], bs_registered = []\<rparr>, Ok ())"
  by (simp add: operator_step demo_p0_def new_node_def open_block_def initial_db_def operator_row_of_def operator_key_def operator_db_def)

lemma demo_block1:
  "process_block_logs events_env Node True (map operator_log [1, 2, 3, 4]) 10 demo_p0 = (demo_p1, Ok ())"
  "nd_db (pr_database demo_p1) = operator_db" "pr_registered demo_p1 = []"
proof -
  obtain us where run: "for_each_s (process_log events_env Node (pr_database demo_p0) True) (open_block demo_p0) (map operator_log [1, 2, 3, 4]) =
      (\<lparr>bs_tx = \<lparr>tx_db = operator_db\<lparr>db_block_number := 0\<rparr>, tx_updates = us\<rparr>, bs_actions = [], bs_registered = []\<rparr>, Ok ())"
    using demo_block1_run by blast
  have "en_commit events_env 10" by (simp add: events_env_def)
  from block_committed [OF demo_p0_in_step demo_inj demo_block1_admissible run _ this]
  obtain p' where "process_block_logs events_env Node True (map operator_log [1, 2, 3, 4]) 10 demo_p0 = (p', Ok ())"
    "nd_db (pr_database p') = operator_db" "pr_registered p' = []"
    by (auto simp: operator_db_def)
  then show "process_block_logs events_env Node True (map operator_log [1, 2, 3, 4]) 10 demo_p0 = (demo_p1, Ok ())"
    "nd_db (pr_database demo_p1) = operator_db" "pr_registered demo_p1 = []"
    by (simp_all add: demo_p1_def)
qed

lemma demo_p1_in_step: "in_step events_env demo_p1"
  using block_in_step [OF demo_p0_in_step demo_inj demo_block1_admissible demo_block1(1)] .

lemma demo_operators_known: "validate_operators [1, 2, 3, 4] tx = Ok ()" if "db_operators (tx_db tx) = db_operators operator_db"
proof -
  have "operator_exists_tx i tx = Ok True" if "i \<in> {1, 2, 3, 4}" for i
    using that \<open>db_operators (tx_db tx) = _\<close>
    by (auto simp: operator_exists_tx_def get_operator_status_def GET_OPERATOR_STATUS_def operator_db_def operator_row_of_def
        sql_u64_def guardO_def)
  then show ?thesis
    by (simp add: validate_operators_def MAX_OPERATORS_def bls_committee map_err_o_def guardO_def)
qed

definition validator_db :: "bytes sql_db" where
  "validator_db = operator_db\<lparr>db_owners := [(demo_owner, \<lparr>ow_fee_recipient = None, ow_nonce = Some 0\<rparr>)],
     db_clusters := [(demo_cluster_id, \<lparr>cr_owner = demo_owner, cr_liquidated = False\<rparr>)],
     db_validators := [([5], \<lparr>vr_cluster_id = demo_cluster_id, vr_index = None,
       vr_graffiti = vm_graffiti (construct_validator_metadata [5] demo_cluster_id)\<rparr>)],
     db_cluster_members := map (\<lambda>i. (demo_cluster_id, i)) [1, 2, 3, 4],
     db_shares := map (\<lambda>(i, b). (([5], i), \<lparr>sr_cluster_id = demo_cluster_id, sr_share_pubkey = [b],
       sr_encrypted_key = padded 256 (of_nat (unat i))\<rparr>)) [(1, 8), (2, 13), (3, 20), (4, 29)]\<rparr>"

lemma demo_shares_valid:
  "validate_share_public_keys bls_smul bls_key_validate [5]
     (map (\<lambda>sh. (sh_operator_id sh, sh_share_pubkey sh)) [demo_share 1 8, demo_share 2 13, demo_share 3 20, demo_share 4 29]) = Ok ()"
  using bls_valid by (simp add: demo_share_def bls_shares_def)

lemma demo_validator_run:
  "\<exists>us. process_log events_env Node (pr_database demo_p1) True (open_block demo_p1) validator_log =
     (\<lparr>bs_tx = \<lparr>tx_db = validator_db, tx_updates = us\<rparr>, bs_actions = [IndexSync [5]], bs_registered = [[5]]\<rparr>, Ok ())"
proof -
  let ?nd = "pr_database demo_p1"
  let ?db = "operator_db\<lparr>db_owners := [(demo_owner, \<lparr>ow_fee_recipient = None, ow_nonce = Some 0\<rparr>)]\<rparr>"
  define s1 where "s1 = \<lparr>bs_tx = \<lparr>tx_db = ?db, tx_updates = [SetOwnerNonce demo_owner 0]\<rparr>, bs_actions = [], bs_registered = []\<rparr>"
  have nonce: "on_tx (bump_and_get_nonce_tx demo_owner) (open_block demo_p1) = (s1, Ok 0)"
    by (simp del: on_tx_Ok add: s1_def on_tx_def bump_and_get_nonce_tx_def execute_def BUMP_NONCE_def GET_NONCE_def queue_update_def
        open_block_def demo_block1 map_err_o_def) (simp add: operator_db_def initial_db_def)
  have env: "en_keccak256 events_env = id" "en_pubkey_deserialize events_env = (\<lambda>bs. Some (take 1 bs))"
    "en_curve events_env = \<lparr>cv_smul = bls_smul, cv_key_validate = bls_key_validate\<rparr>"
    by (simp_all add: events_env_def)
  have pk: "parse_validator_pubkey events_env [5] = Ok [5]" by (simp add: parse_validator_pubkey_def env ok_or_def)
  have sig: "verify_signature events_env sg n demo_owner [5]" for sg n by (simp add: verify_signature_def events_env_def)
  have conflict: "validate_validator_added_conflict demo_owner [5] cid (bs_tx s1) = Ok ()" for cid
    by (simp add: validate_validator_added_conflict_def get_validator_metadata_tx_def s1_def operator_db_def initial_db_def)
  have register: "register_validator events_env [5] s = (s\<lparr>bs_registered := [5] # bs_registered s\<rparr>, Ok ())" for s :: "bytes block_state"
    by (simp add: register_validator_def events_env_def)
  have insert: "\<exists>us. insert_validator_tx ?nd cluster (construct_validator_metadata [5] demo_cluster_id)
      [demo_share 1 8, demo_share 2 13, demo_share 3 20, demo_share 4 29] (bs_tx s1) = (\<lparr>tx_db = validator_db, tx_updates = us\<rparr>, Ok ())"
    if "cl_cluster_id cluster = demo_cluster_id" "cl_owner cluster = demo_owner" for cluster
    using that
    by (simp add: insert_validator_tx_def execute_def INSERT_CLUSTER_def INSERT_VALIDATOR_def INSERT_OWNER_IF_NEW_def
        insert_member_share_def insert_share_def INSERT_CLUSTER_MEMBER_def INSERT_SHARE_def demo_share_def sql_u64_def guardO_def
        construct_validator_metadata_def queue_update_def s1_def operator_db_def initial_db_def operator_row_of_def validator_db_def
        Let_def)
  define cluster where "cluster = \<lparr>cl_cluster_id = demo_cluster_id, cl_owner = demo_owner, cl_fee_recipient =
      (case fee_recipient_for_owner demo_owner (bs_tx s1) of Some a \<Rightarrow> a | None \<Rightarrow> demo_owner), cl_liquidated = False,
      cl_cluster_members = [1, 2, 3, 4]\<rparr>"
  obtain us where ins: "insert_validator_tx ?nd cluster (construct_validator_metadata [5] demo_cluster_id)
      [demo_share 1 8, demo_share 2 13, demo_share 3 20, demo_share 4 29] (bs_tx s1) = (\<lparr>tx_db = validator_db, tx_updates = us\<rparr>, Ok ())"
    using insert [of cluster] by (auto simp: cluster_def)
  have operators: "validate_operators [1, 2, 3, 4] (bs_tx s1) = Ok ()" by (rule demo_operators_known) (simp add: s1_def)
  have "process_validator_added events_env Node ?nd validator_log (open_block demo_p1) =
      (\<lparr>bs_tx = \<lparr>tx_db = validator_db, tx_updates = us\<rparr>, bs_actions = [IndexSync [5]], bs_registered = [[5]]\<rparr>, Ok ())"
    using ins unfolding cluster_def
    by (simp del: on_tx_Ok add: process_validator_added_def validator_log_def nonce pk operators env sig conflict register
        demo_cluster_id_def [symmetric] parse_demo [simplified] demo_shares_valid [simplified] map_err_o_def push_action_def Let_def)
       (simp del: on_tx_Ok add: s1_def on_tx_def map_err_o_def)
  then show ?thesis by (simp add: process_log_def dispatch_log_def validator_log_def)
qed

lemma demo_block2_admissible: "block_admissible events_env Node True demo_p1 [validator_log]"
  by (simp add: block_admissible_def log_admissible_def validator_log_def demo_owner_def open_block_def demo_block1
      operator_db_def initial_db_def)

lemma demo_block2:
  "process_block_logs events_env Node True [validator_log] 11 demo_p1 = (demo_p2, Ok ())"
  "nd_db (pr_database demo_p2) = validator_db\<lparr>db_block_number := 11\<rparr>" "pr_registered demo_p2 = [[5]]"
proof -
  obtain us where "process_log events_env Node (pr_database demo_p1) True (open_block demo_p1) validator_log =
      (\<lparr>bs_tx = \<lparr>tx_db = validator_db, tx_updates = us\<rparr>, bs_actions = [IndexSync [5]], bs_registered = [[5]]\<rparr>, Ok ())"
    using demo_validator_run by blast
  then have run: "for_each_s (process_log events_env Node (pr_database demo_p1) True) (open_block demo_p1) [validator_log] =
      (\<lparr>bs_tx = \<lparr>tx_db = validator_db, tx_updates = us\<rparr>, bs_actions = [IndexSync [5]], bs_registered = [[5]]\<rparr>, Ok ())"
    by simp
  have "en_commit events_env 11" by (simp add: events_env_def)
  from block_committed [OF demo_p1_in_step demo_inj demo_block2_admissible run _ this]
  show "process_block_logs events_env Node True [validator_log] 11 demo_p1 = (demo_p2, Ok ())"
    "nd_db (pr_database demo_p2) = validator_db\<lparr>db_block_number := 11\<rparr>" "pr_registered demo_p2 = [[5]]"
    by (auto simp: demo_p2_def)
qed

lemma demo_reach: "processor_reach events_env Node demo_p0 demo_p2"
  unfolding demo_p2_def demo_p1_def
  by (intro processor_reach.block processor_reach.start demo_block1_admissible demo_block2_admissible [unfolded demo_p1_def])

lemma demo_validator_stored: "map_of (db_validators (nd_db (pr_database demo_p2))) [5] \<noteq> None"
  by (simp add: demo_block2 validator_db_def)

text \<open>The node's own operator is removed after it has registered.\<close>

definition removal_log :: log where
  "removal_log = \<lparr>lg_block_number = Some 11, lg_block_timestamp = None, lg_topic0 = Some OperatorRemovedTopic,
     lg_decoded = Some (OperatorRemoved 1)\<rparr>"

definition demo_removed :: "bytes processor" where
  "demo_removed = fst (process_block_logs events_env Node True [removal_log] 11 demo_p1)"

lemma demo_own_id: "ns_id (nd_state (pr_database demo_p1)) = Some 1"
proof -
  have "nd_operator (pr_database demo_p1) = Pubkey (operator_key 1)"
    by (simp add: demo_p1_def block_operator demo_p0_def new_node_def)
  then have "ns_id (nd_state (pr_database demo_p1)) = own_operator_id_db (Pubkey (operator_key 1)) operator_db"
    using demo_p1_in_step by (simp add: in_step_def state_matches_def demo_block1)
  then show ?thesis by (simp add: own_operator_id_db_def GET_OPERATOR_ID_def operator_db_def operator_row_of_def)
qed

lemma demo_removal:
  "process_block_logs events_env Node True [removal_log] 11 demo_p1 = (demo_removed, Ok ())"
  "ns_id (nd_state (pr_database demo_removed)) = Some 1"
  "\<exists>st. new_with_state (en_sha256 events_env) (en_curve events_env) id (Pubkey (operator_key 1)) (nd_db (pr_database demo_removed)) = Ok st
    \<and> ns_id st = None"
proof -
  let ?db = "operator_db\<lparr>db_operators := map operator_row_of [2, 3, 4]\<rparr>"
  have exists: "operator_exists_tx 1 tx = Ok True" if "db_operators (tx_db tx) = db_operators operator_db" for tx
    using that by (simp add: operator_exists_tx_def get_operator_status_def GET_OPERATOR_STATUS_def operator_db_def
        operator_row_of_def sql_u64_def guardO_def)
  have log: "process_log events_env Node (pr_database demo_p1) True (open_block demo_p1) removal_log =
      ((open_block demo_p1)\<lparr>bs_tx := \<lparr>tx_db = ?db, tx_updates = [DeleteOperator 1]\<rparr>\<rparr>, Ok ())"
    by (simp del: on_tx_Ok add: process_log_def dispatch_log_def process_operator_removed_def removal_log_def on_tx_def
        delete_skipped_operator_add_tx_def delete_operator_tx_def exists execute_def DELETE_SKIPPED_OPERATOR_ADD_def
        DELETE_OPERATOR_def queue_update_def sql_u64_def guardO_def map_err_o_def open_block_def demo_block1 Let_def)
       (simp add: operator_db_def initial_db_def operator_row_of_def)
  have commit: "en_commit events_env 11" by (simp add: events_env_def)
  have "on_tx (processed_block_tx 11) s = (s\<lparr>bs_tx := \<lparr>tx_db = (tx_db (bs_tx s))\<lparr>db_block_number := 11\<rparr>,
      tx_updates = tx_updates (bs_tx s) @ [SetLastProcessedBlock 11]\<rparr>\<rparr>, Ok ())" for s :: "bytes block_state"
    by (simp del: on_tx_Ok add: on_tx_def processed_block_tx_def sql_u64_def guardO_def execute_def UPDATE_BLOCK_NUMBER_def
        queue_update_def map_err_o_def)
  then have run: "process_block_logs events_env Node True [removal_log] 11 demo_p1 = (demo_removed, Ok ())
      \<and> ns_id (nd_state (pr_database demo_removed)) = Some 1 \<and> nd_db (pr_database demo_removed) = ?db\<lparr>db_block_number := 11\<rparr>"
    by (simp del: on_tx_Ok add: demo_removed_def process_block_logs_def log commit execute_post_commit_actions_def demo_own_id Let_def)
  then show "process_block_logs events_env Node True [removal_log] 11 demo_p1 = (demo_removed, Ok ())"
    "ns_id (nd_state (pr_database demo_removed)) = Some 1" by simp_all
  show "\<exists>st. new_with_state (en_sha256 events_env) (en_curve events_env) id (Pubkey (operator_key 1)) (nd_db (pr_database demo_removed)) = Ok st
    \<and> ns_id st = None"
    using run by (simp add: new_with_state_def operator_db_def initial_db_def own_operator_id_db_def GET_OPERATOR_ID_def
        operator_row_of_def operator_key_def fetch_nonces_def fetch_clusters_def Let_def)
qed

lemma demo_first_operator: "\<exists>p. process_block_logs events_env Node True [operator_log 1] 10 demo_p0 = (p, Ok ())"
proof -
  have adm: "block_admissible events_env Node True demo_p0 [operator_log 1]"
    using operator_logs_admissible [of Node "pr_database demo_p0" True "open_block demo_p0" "[1]"] by (simp add: block_admissible_def)
  obtain s where "for_each_s (process_log events_env Node (pr_database demo_p0) True) (open_block demo_p0) [operator_log 1] = (s, Ok ())"
    by (simp add: operator_step demo_p0_def new_node_def open_block_def initial_db_def)
  moreover have "en_commit events_env 10" by (simp add: events_env_def)
  ultimately show ?thesis using block_committed [OF demo_p0_in_step demo_inj adm, of s 10] by auto
qed

lemma uncommitted_block:
  "\<exists>p'. process_block_logs events_env Node True [] 200 p = (p', Err (Database (SQLError ''commit'')))"
  by (simp del: on_tx_Ok add: process_block_logs_def on_tx_def processed_block_tx_def sql_u64_def guardO_def execute_def
      UPDATE_BLOCK_NUMBER_def queue_update_def map_err_o_def events_env_def)

end
