(* ===== verification/Signature_Collector.thy ===== *)
theory Signature_Collector
  imports Network_Db
begin

text \<open>
  The collector of one signature (\<open>signature_collector/src/lib.rs\<close>): a task that gathers the
  partial signatures of the operators for one signing root and validator, reconstructs the full
  signature once there are enough of them, checks it against the validator's key, and hands it to
  the waiting tasks. When the reconstruction fails, the shares are checked one by one against the
  share public keys of the database, the bad ones are dropped and the rest is tried again.

  A waiting task is the number of its channel, and what has been sent on the channels is kept in
  the state. The BLS library is the record of its operations; the order in which a hash map
  iterates is one of them. A share secret is its bytes.
\<close>

section \<open>Data\<close>

text \<open>A share and the roots of the other message of its packets, at most two.\<close>

record collected_share =
  cs_signature :: bytes
  cs_companion_roots :: "hash256 option list"

record ('f, 's, 'pk) bls_env =
  bl_smul :: "'f \<Rightarrow> 's \<Rightarrow> 's"
  bl_point :: "bytes \<Rightarrow> 's option"
  bl_signature :: "'s \<Rightarrow> bytes"
  bl_decompress :: "pubkey \<Rightarrow> 'pk option"
  bl_verify :: "bytes \<Rightarrow> 'pk \<Rightarrow> hash256 \<Rightarrow> bool"
  bl_sign :: "bytes \<Rightarrow> hash256 \<Rightarrow> bytes"
  bl_empty :: bytes
  bl_order :: "(operator_id \<times> collected_share) list \<Rightarrow> (operator_id \<times> collected_share) list"

type_synonym notifier = nat

datatype collector_message_kind =
    RegisterNotifier "notifier option" "hash256 option" u64 pubkey
  | PartialSignature operator_id bytes "hash256 option"

datatype collection_error =
    QueueClosedError | QueueFullError | CollectionTimeout | EmptySignature | InvalidProposerPacket
  | OwnOperatorIdUnknown | RecoverError lagrange_error

datatype reconstruction_failure = Combination collection_error | MasterVerification

record 'pk collector_registration =
  cg_threshold :: u64
  cg_validator_pubkey :: pubkey
  cg_decompressed_validator_pubkey :: 'pk
  cg_required_companion :: "hash256 option"

record 'pk signature_collector_state =
  sgc_signing_root :: hash256
  sgc_notifiers :: "notifier list"
  sgc_signature_share :: "(operator_id \<times> collected_share) list"
  sgc_full_signature :: "bytes option"
  sgc_registration :: "'pk collector_registration option"
  sgc_sent :: "(notifier \<times> bytes) list"

text \<open>What a turn of the loop ends with: it goes on, the task returns, or the task panics.\<close>

datatype control_flow = Continue | Break | Crashed

section \<open>The state of the collector\<close>

definition collector_state_new :: "hash256 \<Rightarrow> 'pk signature_collector_state" where
  "collector_state_new signing_root =
     \<lparr>sgc_signing_root = signing_root, sgc_notifiers = [], sgc_signature_share = [], sgc_full_signature = None,
      sgc_registration = None, sgc_sent = []\<rparr>"

text \<open>The registration itself, and then the notifier: served at once or queued.\<close>

definition queue_notifier :: "notifier option \<Rightarrow> 'pk signature_collector_state \<Rightarrow> 'pk signature_collector_state" where
  "queue_notifier notify s =
     (case notify of
        None \<Rightarrow> s
      | Some n \<Rightarrow>
          (case sgc_full_signature s of
             Some full \<Rightarrow> s\<lparr>sgc_sent := sgc_sent s @ [(n, full)]\<rparr>
           | None \<Rightarrow> s\<lparr>sgc_notifiers := sgc_notifiers s @ [n]\<rparr>))"

definition register_request ::
    "('f, 's, 'pk) bls_env \<Rightarrow> notifier option \<Rightarrow> u64 \<Rightarrow> pubkey \<Rightarrow> hash256 option
     \<Rightarrow> 'pk signature_collector_state \<Rightarrow> 'pk signature_collector_state \<times> control_flow" where
  "register_request env notify new_threshold validator_pubkey required_companion s =
     (case sgc_registration s of
        Some registration \<Rightarrow>
          if new_threshold \<noteq> cg_threshold registration \<or> validator_pubkey \<noteq> cg_validator_pubkey registration
             \<or> required_companion \<noteq> cg_required_companion registration
          then (s, Break)
          else (queue_notifier notify s, Continue)
      | None \<Rightarrow>
          (case bl_decompress env validator_pubkey of
             None \<Rightarrow> (s, Break)
           | Some decompressed \<Rightarrow>
               let s = s\<lparr>sgc_registration := Some \<lparr>cg_threshold = new_threshold, cg_validator_pubkey = validator_pubkey,
                     cg_decompressed_validator_pubkey = decompressed, cg_required_companion = required_companion\<rparr>\<rparr>;
                   s = (case required_companion of
                          None \<Rightarrow> s
                        | Some root \<Rightarrow> s\<lparr>sgc_signature_share :=
                            filter (\<lambda>(_, share). Some root \<in> set (cs_companion_roots share)) (sgc_signature_share s)\<rparr>)
               in (queue_notifier notify s, Continue)))"

text \<open>The first empty of the two places, if the root is not there yet.\<close>

definition add_companion :: "hash256 \<Rightarrow> hash256 option list \<Rightarrow> hash256 option list" where
  "add_companion root roots =
     (if Some root \<in> set roots then roots
      else case find (\<lambda>i. roots ! i = None) [0..<length roots] of
             Some i \<Rightarrow> roots[i := Some root]
           | None \<Rightarrow> roots)"

definition add_partial_signature ::
    "operator_id \<Rightarrow> bytes \<Rightarrow> hash256 option \<Rightarrow> 'pk signature_collector_state \<Rightarrow> 'pk signature_collector_state" where
  "add_partial_signature i signature companion_root s =
     (if sgc_full_signature s \<noteq> None then s
      else if (case Option.bind (sgc_registration s) cg_required_companion of
                 None \<Rightarrow> False | Some required_root \<Rightarrow> companion_root \<noteq> Some required_root)
      then s
      else case map_of (sgc_signature_share s) i of
             None \<Rightarrow> s\<lparr>sgc_signature_share := sgc_signature_share s
                  @ [(i, \<lparr>cs_signature = signature, cs_companion_roots = [companion_root, None]\<rparr>)]\<rparr>
           | Some share \<Rightarrow>
               if cs_signature share \<noteq> signature then s
               else (case companion_root of
                       None \<Rightarrow> s
                     | Some root \<Rightarrow> s\<lparr>sgc_signature_share := AList.map_entry i
                         (\<lambda>sh. sh\<lparr>cs_companion_roots := add_companion root (cs_companion_roots sh)\<rparr>) (sgc_signature_share s)\<rparr>))"

definition combine_shares ::
    "('f::field, 's::ab_group_add, 'pk) bls_env \<Rightarrow> (operator_id \<times> collected_share) list \<Rightarrow> (bytes, collection_error) outcome" where
  "combine_shares env shares =
     bindO (collect_o (\<lambda>(i, share). map_err RecoverError (map_sum id (\<lambda>k. (k, cs_signature share)) (key_id_try_from i)))
              (bl_order env shares)) (\<lambda>pairs.
     map_err_o RecoverError
       (bindO (combine_signatures (bl_smul env) (map (\<lambda>p. bl_point env (snd p)) pairs) (map fst pairs))
          (\<lambda>point. Ok (bl_signature env point))))"

definition try_reconstruct ::
    "('f::field, 's::ab_group_add, 'pk) bls_env \<Rightarrow> 'pk signature_collector_state \<Rightarrow> (bytes option, reconstruction_failure) outcome" where
  "try_reconstruct env s =
     (if sgc_full_signature s \<noteq> None then Ok None
      else case sgc_registration s of
             None \<Rightarrow> Ok None
           | Some registration \<Rightarrow>
               if length (sgc_signature_share s) < unat (cg_threshold registration) then Ok None
               else
                 bindO (map_err_o Combination (combine_shares env (sgc_signature_share s))) (\<lambda>signature.
                 if \<not> bl_verify env signature (cg_decompressed_validator_pubkey registration) (sgc_signing_root s)
                 then Err MasterVerification
                 else Ok (Some signature)))"

definition complete_reconstruction :: "bytes \<Rightarrow> 'pk signature_collector_state \<Rightarrow> 'pk signature_collector_state" where
  "complete_reconstruction signature s =
     s\<lparr>sgc_signature_share := [], sgc_notifiers := [], sgc_sent := sgc_sent s @ map (\<lambda>n. (n, signature)) (sgc_notifiers s),
       sgc_full_signature := Some signature\<rparr>"

definition share_is_valid ::
    "('f, 's, 'pk) bls_env \<Rightarrow> (operator_id \<rightharpoonup> pubkey) \<Rightarrow> hash256 \<Rightarrow> operator_id \<times> collected_share \<Rightarrow> bool" where
  "share_is_valid env share_pubkeys root p =
     (case Option.bind (share_pubkeys (fst p)) (bl_decompress env) of
        None \<Rightarrow> False
      | Some public_key \<Rightarrow> bl_verify env (cs_signature (snd p)) public_key root)"

definition remove_invalid_shares ::
    "('f, 's, 'pk) bls_env \<Rightarrow> (operator_id \<rightharpoonup> pubkey) \<Rightarrow> 'pk signature_collector_state
     \<Rightarrow> 'pk signature_collector_state \<times> operator_id list" where
  "remove_invalid_shares env share_pubkeys s =
     (let valid = share_is_valid env share_pubkeys (sgc_signing_root s)
      in (s\<lparr>sgc_signature_share := filter valid (sgc_signature_share s)\<rparr>,
          sort (map fst (filter (\<lambda>p. \<not> valid p) (bl_order env (sgc_signature_share s))))))"

section \<open>The loop\<close>

definition handle_reconstruction_fallback ::
    "('f::field, 's::ab_group_add, 'pk) bls_env \<Rightarrow> (pubkey \<Rightarrow> (operator_id \<rightharpoonup> pubkey) option)
     \<Rightarrow> 'pk signature_collector_state \<Rightarrow> 'pk signature_collector_state \<times> control_flow" where
  "handle_reconstruction_fallback env fetch s =
     (case sgc_registration s of
        None \<Rightarrow> (s, Break)
      | Some registration \<Rightarrow>
          (case fetch (cg_validator_pubkey registration) of
             None \<Rightarrow> (s, Break)
           | Some share_pubkeys \<Rightarrow>
               (case remove_invalid_shares env share_pubkeys s of
                  (s, invalid_operator_ids) \<Rightarrow>
                    if invalid_operator_ids = [] then (s, Break)
                    else if length (sgc_signature_share s) < unat (cg_threshold registration) then (s, Continue)
                    else (case try_reconstruct env s of
                            Ok (Some signature) \<Rightarrow> (complete_reconstruction signature s, Continue)
                          | Ok None \<Rightarrow> (s, Break)
                          | Err _ \<Rightarrow> (s, Break)
                          | Panic \<Rightarrow> (s, Crashed)))))"

definition reconstruct_step ::
    "('f::field, 's::ab_group_add, 'pk) bls_env \<Rightarrow> (pubkey \<Rightarrow> (operator_id \<rightharpoonup> pubkey) option)
     \<Rightarrow> 'pk signature_collector_state \<Rightarrow> 'pk signature_collector_state \<times> control_flow" where
  "reconstruct_step env fetch s =
     (case try_reconstruct env s of
        Ok None \<Rightarrow> (s, Continue)
      | Ok (Some signature) \<Rightarrow> (complete_reconstruction signature s, Continue)
      | Err _ \<Rightarrow> handle_reconstruction_fallback env fetch s
      | Panic \<Rightarrow> (s, Crashed))"

definition collector_turn ::
    "('f::field, 's::ab_group_add, 'pk) bls_env \<Rightarrow> (pubkey \<Rightarrow> (operator_id \<rightharpoonup> pubkey) option)
     \<Rightarrow> 'pk signature_collector_state \<Rightarrow> collector_message_kind \<Rightarrow> 'pk signature_collector_state \<times> control_flow" where
  "collector_turn env fetch s message =
     (case message of
        RegisterNotifier notify required_companion threshold validator_pubkey \<Rightarrow>
          (case register_request env notify threshold validator_pubkey required_companion s of
             (s, Continue) \<Rightarrow> reconstruct_step env fetch s
           | r \<Rightarrow> r)
      | PartialSignature i signature companion_root \<Rightarrow>
          reconstruct_step env fetch (add_partial_signature i signature companion_root s))"

text \<open>The database may answer differently in every turn: each message comes with its answer.\<close>

fun signature_collector_loop ::
    "('f::field, 's::ab_group_add, 'pk) bls_env \<Rightarrow> (collector_message_kind \<times> (pubkey \<Rightarrow> (operator_id \<rightharpoonup> pubkey) option)) list
     \<Rightarrow> 'pk signature_collector_state \<Rightarrow> 'pk signature_collector_state \<times> control_flow" where
  "signature_collector_loop env [] s = (s, Continue)"
| "signature_collector_loop env ((message, fetch) # rest) s =
     (case collector_turn env fetch s message of
        (s, Continue) \<Rightarrow> signature_collector_loop env rest s
      | r \<Rightarrow> r)"

section \<open>The share public keys of the database\<close>

definition GET_SHARE_PUBKEYS_FOR_VALIDATOR :: "pubkey \<Rightarrow> 'k sql_db \<Rightarrow> (operator_id \<times> pubkey) list" where
  "GET_SHARE_PUBKEYS_FOR_VALIDATOR pk db =
     map (\<lambda>((_, i), r). (i, sr_share_pubkey r)) (filter (\<lambda>((v, _), _). v = pk) (db_shares db))"

definition collect_share_pubkeys :: "(operator_id \<times> pubkey) list \<Rightarrow> operator_id \<rightharpoonup> pubkey" where
  "collect_share_pubkeys rows = fold (\<lambda>(i, pk) m. m(i \<mapsto> pk)) rows Map.empty"

definition get_share_pubkeys_for_validator :: "pubkey \<Rightarrow> 'k sql_db \<Rightarrow> operator_id \<rightharpoonup> pubkey" where
  "get_share_pubkeys_for_validator pk db = collect_share_pubkeys (GET_SHARE_PUBKEYS_FOR_VALIDATOR pk db)"

text \<open>No keys is as good as no answer. The lookup itself can fail.\<close>

definition share_pubkey_loader_fetch :: "bool \<Rightarrow> 'k sql_db \<Rightarrow> pubkey \<Rightarrow> (operator_id \<rightharpoonup> pubkey) option" where
  "share_pubkey_loader_fetch answered db validator_pubkey =
     (if \<not> answered then None
      else let share_pubkeys = get_share_pubkeys_for_validator validator_pubkey db
           in if GET_SHARE_PUBKEYS_FOR_VALIDATOR validator_pubkey db = [] then None else Some share_pubkeys)"

lemma collect_share_pubkeys_eq: "distinct (map fst rows) \<Longrightarrow> collect_share_pubkeys rows = map_of rows"
proof -
  have fold: "fold (\<lambda>(i, pk) m. m(i \<mapsto> pk)) rows m = m ++ map_of (rev rows)" for m
    by (induction rows arbitrary: m) (auto simp: map_add_def split: option.split)
  show "distinct (map fst rows) \<Longrightarrow> ?thesis"
    unfolding collect_share_pubkeys_def fold
    by (simp add: map_of_inject_set rev_map [symmetric])
qed

end
