(* ===== verification/Collector_Manager.thy ===== *)
theory Collector_Manager
  imports Signature_Collector Qbft_Types Fork_Schedule
begin

text \<open>
  The manager of the signature collectors (\<open>signature_collector/src/lib.rs\<close>): it keeps one collector
  for every signing root and validator, batches the partial signatures of a committee or of a
  sync committee validator into one outgoing message, and cleans up after a slot has passed.

  The public functions hand closures to the processor, which runs them later and in any order; a
  closure is a value of type \<open>work\<close> and running it is a function on the manager that returns the
  work it hands over in turn. What a closure meets is an argument: the time, whether the sender
  admits a message, and whether the processor takes the task of a new collector. Every call of
  \<open>sign_and_send\<close> is kept in a list, and so is what the collectors send to the waiting tasks.
\<close>

section \<open>Data\<close>

definition SIGNATURE_COLLECTOR_RETAIN_SLOTS :: u64 where "SIGNATURE_COLLECTOR_RETAIN_SLOTS = 1"

record signature_metadata =
  md_kind :: partial_signature_kind
  md_role :: role
  md_threshold :: u64
  md_slot :: slot
  md_committee_id :: committee_id

record sync_committee_batch_entry =
  se_subnet_id :: u64
  se_signing_root :: hash256
  se_multiplicity :: nat

datatype signature_requester =
    SingleValidator pubkey
  | SingleValidatorBatch pubkey u64 "sync_committee_batch_entry list"
  | CommitteeRequester nat hash256

record validator_signing_data =
  vs_root :: hash256
  vs_index :: validator_index
  vs_validator_pubkey :: pubkey
  vs_share :: "bytes option"

datatype committee_batch_key = CommitteePostConsensus slot committee_id | DecidedValue hash256 committee_id

record committee_partial_signature_batch =
  cb_signatures :: "partial_signature_message list option"
  cb_for_slot :: slot

datatype single_validator_batch_phase = ContributionProofsPhase | PostConsensusPhase

definition phase_from_kind :: "partial_signature_kind \<Rightarrow> single_validator_batch_phase option" where
  "phase_from_kind kind =
     (case kind of
        ContributionProofs \<Rightarrow> Some ContributionProofsPhase
      | PostConsensus \<Rightarrow> Some PostConsensusPhase
      | _ \<Rightarrow> None)"

datatype single_validator_batch_state = BatchPending | BatchAdmitted

record single_validator_batch_record =
  sb_validator_index :: validator_index
  sb_committee_id :: committee_id
  sb_descriptor :: "sync_committee_batch_entry list"
  sb_state :: single_validator_batch_state

datatype create_message_error = TooManyPartialSignatures nat nat | CreateSSVMessage ssv_message_error

text \<open>The entry of a collector and its task: the messages that wait for it, and whether it still runs.\<close>

record 'pk collector_entry =
  ce_for_slot :: slot
  ce_queue :: "collector_message_kind list"
  ce_running :: bool
  ce_state :: "'pk signature_collector_state"

datatype attempt_source = SingleSource | BatchSource | CommitteeSource | ProposerSource

record send_attempt =
  at_source :: attempt_source
  at_metadata :: signature_metadata
  at_executor :: "pubkey duty_executor"
  at_message :: unsigned_ssv_message
  at_admitted :: bool

type_synonym collector_key = "hash256 \<times> validator_index"

record 'pk collector_manager =
  scm_signature_collectors :: "collector_key \<rightharpoonup> 'pk collector_entry"
  scm_committee_batches :: "committee_batch_key \<rightharpoonup> committee_partial_signature_batch"
  scm_single_validator_batches :: "single_validator_batch_phase \<times> slot \<times> pubkey \<rightharpoonup> single_validator_batch_record"
  scm_attempts :: "send_attempt list"
  scm_delivered :: "(notifier \<times> collector_key \<times> bytes) list"

definition collector_manager_new :: "'pk collector_manager" where
  "collector_manager_new =
     \<lparr>scm_signature_collectors = Map.empty, scm_committee_batches = Map.empty, scm_single_validator_batches = Map.empty,
      scm_attempts = [], scm_delivered = []\<rparr>"

record ('f, 's, 'pk) collector_env =
  me_bls :: "('f, 's, 'pk) bls_env"
  me_fork_schedule :: fork_schedule
  me_chain :: chain
  me_slots_per_epoch :: u64
  me_partial_as_ssz :: "partial_signature_messages \<Rightarrow> bytes"

text \<open>What a closure meets.\<close>

record circumstances =
  ci_now :: "slot option"
  ci_admits :: bool
  ci_spawns :: bool

datatype work =
    RegisterWork signature_metadata bool hash256 validator_index pubkey notifier
  | SignWork signature_metadata signature_requester validator_signing_data operator_id
  | ProposerRegisterWork signature_metadata pubkey "(hash256 \<times> notifier option \<times> hash256 option) list"
      validator_signing_data "validator_signing_data option" operator_id
  | ProposerSignWork signature_metadata pubkey validator_signing_data "validator_signing_data option" operator_id
  | WaitWork signature_metadata validator_index pubkey hash256 "hash256 option" notifier
  | ReceiveWork partial_signature_message slot "hash256 option" bool

section \<open>Slots and messages\<close>

definition domain_type_for_slot :: "('f, 's, 'pk) collector_env \<Rightarrow> slot \<Rightarrow> domain_type option" where
  "domain_type_for_slot env slot =
     map_option fc_domain_type
       (active_fork_config (me_fork_schedule env) (ch_epoch (me_chain env) slot (me_slots_per_epoch env)))"

definition is_stale_slot :: "('f, 's, 'pk) collector_env \<Rightarrow> slot option \<Rightarrow> slot \<Rightarrow> bool" where
  "is_stale_slot env now slot =
     (case now of
        None \<Rightarrow> False
      | Some current_slot \<Rightarrow> slot < ch_slot_saturating_sub (me_chain env) current_slot SIGNATURE_COLLECTOR_RETAIN_SLOTS)"

definition PARTIAL_SIGNATURE_MESSAGES_LEN :: nat where "PARTIAL_SIGNATURE_MESSAGES_LEN = 3 * 1000 + 512 * 4"

definition new_partial_signature_message ::
    "('f, 's, 'pk) bls_env \<Rightarrow> validator_signing_data \<Rightarrow> hash256 \<Rightarrow> operator_id \<Rightarrow> partial_signature_message" where
  "new_partial_signature_message env data signing_root signer =
     \<lparr>psm_partial_signature = (case vs_share data of None \<Rightarrow> bl_empty env | Some share \<Rightarrow> bl_sign env share signing_root),
      psm_signing_root = signing_root, psm_signer = signer, psm_validator_index = vs_index data\<rparr>"

definition create_message ::
    "('f, 's, 'pk) collector_env \<Rightarrow> signature_metadata \<Rightarrow> partial_signature_message list \<Rightarrow> pubkey duty_executor
     \<Rightarrow> (unsigned_ssv_message, create_message_error) outcome" where
  "create_message env metadata signatures duty_executor =
     bindO (expect (domain_type_for_slot env (md_slot metadata))) (\<lambda>domain.
     if length signatures > PARTIAL_SIGNATURE_MESSAGES_LEN
     then Err (TooManyPartialSignatures (length signatures) PARTIAL_SIGNATURE_MESSAGES_LEN)
     else
       let partial_sig_messages = \<lparr>ps_kind = md_kind metadata, ps_slot = md_slot metadata, ps_messages = signatures\<rparr>
       in bindO (map_err CreateSSVMessage (ssv_message_new SSVPartialSignatureMsgType
                   (message_id_new (\<lambda>pk. pk) domain (md_role metadata) duty_executor)
                   (me_partial_as_ssz env partial_sig_messages)))
            (\<lambda>m. Ok \<lparr>us_ssv_message = m, us_full_data = []\<rparr>))"

text \<open>The call of \<open>sign_and_send\<close>.\<close>

definition attempt ::
    "circumstances \<Rightarrow> attempt_source \<Rightarrow> signature_metadata \<Rightarrow> pubkey duty_executor \<Rightarrow> unsigned_ssv_message
     \<Rightarrow> 'pk collector_manager \<Rightarrow> 'pk collector_manager" where
  "attempt ci source metadata executor msg m =
     m\<lparr>scm_attempts := scm_attempts m @ [\<lparr>at_source = source, at_metadata = metadata, at_executor = executor,
        at_message = msg, at_admitted = ci_admits ci\<rparr>]\<rparr>"

section \<open>Collectors\<close>

definition get_or_spawn ::
    "circumstances \<Rightarrow> hash256 \<Rightarrow> validator_index \<Rightarrow> slot \<Rightarrow> 'pk collector_manager \<Rightarrow> 'pk collector_manager" where
  "get_or_spawn ci root index slot m =
     (case scm_signature_collectors m (root, index) of
        Some _ \<Rightarrow> m
      | None \<Rightarrow> m\<lparr>scm_signature_collectors := (scm_signature_collectors m)((root, index) \<mapsto>
          \<lparr>ce_for_slot = slot, ce_queue = [], ce_running = ci_spawns ci, ce_state = collector_state_new root\<rparr>)\<rparr>)"

text \<open>Sending to a collector whose task has ended fails; the result says so.\<close>

definition send_to_collector ::
    "collector_key \<Rightarrow> collector_message_kind \<Rightarrow> 'pk collector_manager \<Rightarrow> 'pk collector_manager \<times> bool" where
  "send_to_collector key message m =
     (case scm_signature_collectors m key of
        None \<Rightarrow> (m, False)
      | Some e \<Rightarrow>
          if ce_running e
          then (m\<lparr>scm_signature_collectors := (scm_signature_collectors m)(key \<mapsto> e\<lparr>ce_queue := ce_queue e @ [message]\<rparr>)\<rparr>, True)
          else (m, False))"

text \<open>A turn of the task of one collector.\<close>

definition run_collector ::
    "('f::field, 's::ab_group_add, 'pk) collector_env \<Rightarrow> (pubkey \<Rightarrow> (operator_id \<rightharpoonup> pubkey) option) \<Rightarrow> collector_key
     \<Rightarrow> 'pk collector_manager \<Rightarrow> 'pk collector_manager" where
  "run_collector env fetch key m =
     (case scm_signature_collectors m key of
        None \<Rightarrow> m
      | Some e \<Rightarrow>
          if \<not> ce_running e then m
          else (case ce_queue e of
                  [] \<Rightarrow> m
                | message # rest \<Rightarrow>
                    (case collector_turn (me_bls env) fetch (ce_state e) message of
                       (s, flow) \<Rightarrow>
                         m\<lparr>scm_signature_collectors := (scm_signature_collectors m)(key \<mapsto>
                             e\<lparr>ce_queue := rest, ce_running := (flow = Continue), ce_state := s\<rparr>),
                           scm_delivered := scm_delivered m
                             @ map (\<lambda>(n, sig). (n, key, sig)) (drop (length (sgc_sent (ce_state e))) (sgc_sent s))\<rparr>)))"

definition remove_stale_entries :: "slot \<Rightarrow> 'pk collector_manager \<Rightarrow> 'pk collector_manager" where
  "remove_stale_entries cutoff m =
     m\<lparr>scm_signature_collectors := (\<lambda>k. case scm_signature_collectors m k of
          Some c \<Rightarrow> if ce_for_slot c \<ge> cutoff then Some c else None | None \<Rightarrow> None),
       scm_committee_batches := (\<lambda>k. case scm_committee_batches m k of
          Some b \<Rightarrow> if cb_for_slot b \<ge> cutoff then Some b else None | None \<Rightarrow> None),
       scm_single_validator_batches := (\<lambda>k. case k of (phase, slot, pk) \<Rightarrow>
          if slot \<ge> cutoff then scm_single_validator_batches m k else None)\<rparr>"

text \<open>One turn of the cleaner, after its sleep.\<close>

definition cleaner_turn :: "('f, 's, 'pk) collector_env \<Rightarrow> slot option \<Rightarrow> 'pk collector_manager \<Rightarrow> 'pk collector_manager" where
  "cleaner_turn env now m =
     (case now of
        None \<Rightarrow> m
      | Some slot \<Rightarrow> remove_stale_entries (ch_slot_saturating_sub (me_chain env) slot SIGNATURE_COLLECTOR_RETAIN_SLOTS) m)"

section \<open>Outgoing batches\<close>

definition take_ready_committee_batch ::
    "('f, 's, 'pk) collector_env \<Rightarrow> circumstances \<Rightarrow> signature_metadata \<Rightarrow> nat \<Rightarrow> hash256 \<Rightarrow> partial_signature_message
     \<Rightarrow> 'pk collector_manager \<Rightarrow> 'pk collector_manager \<times> partial_signature_message list option" where
  "take_ready_committee_batch env ci metadata batch_size base_hash message m =
     (let send_once = (md_role metadata = Committee \<and> md_kind metadata = PostConsensus);
          key = (if send_once then CommitteePostConsensus (md_slot metadata) (md_committee_id metadata)
                 else DecidedValue base_hash (md_committee_id metadata))
      in if send_once \<and> is_stale_slot env (ci_now ci) (md_slot metadata) then (m, None)
         else
           let batch = (case scm_committee_batches m key of
                          Some b \<Rightarrow> b
                        | None \<Rightarrow> \<lparr>cb_signatures = Some [], cb_for_slot = md_slot metadata\<rparr>);
               m1 = m\<lparr>scm_committee_batches := (scm_committee_batches m)(key \<mapsto> batch)\<rparr>
           in case cb_signatures batch of
                None \<Rightarrow> (m1, None)
              | Some signatures \<Rightarrow>
                  let signatures = signatures @ [message]
                  in if length signatures \<noteq> batch_size
                     then (m1\<lparr>scm_committee_batches := (scm_committee_batches m1)(key \<mapsto> batch\<lparr>cb_signatures := Some signatures\<rparr>)\<rparr>, None)
                     else if send_once
                     then (m1\<lparr>scm_committee_batches := (scm_committee_batches m1)(key \<mapsto> batch\<lparr>cb_signatures := None\<rparr>)\<rparr>, Some signatures)
                     else (m1\<lparr>scm_committee_batches := (scm_committee_batches m1)(key := None)\<rparr>, Some signatures))"

text \<open>
  The messages of a sync committee batch: one for every root of the descriptor, the ones already
  at hand reused, and the whole repeated as often as the descriptor says.
\<close>

fun expand_batch ::
    "('f, 's, 'pk) bls_env \<Rightarrow> validator_signing_data \<Rightarrow> operator_id \<Rightarrow> sync_committee_batch_entry list
     \<Rightarrow> partial_signature_message list \<Rightarrow> partial_signature_message list \<times> partial_signature_message list" where
  "expand_batch env data signer [] injection = (injection, [])"
| "expand_batch env data signer (entry # entries) injection =
     (let (message, injection) =
            (case find (\<lambda>msg. psm_signing_root msg = se_signing_root entry) injection of
               Some msg \<Rightarrow> (msg, injection)
             | None \<Rightarrow> let msg = new_partial_signature_message env data (se_signing_root entry) signer in (msg, injection @ [msg]));
          (injection, expanded) = expand_batch env data signer entries injection
      in (injection, replicate (se_multiplicity entry) message @ expanded))"

definition process_single_validator_batch ::
    "('f, 's, 'pk) collector_env \<Rightarrow> circumstances \<Rightarrow> signature_metadata \<Rightarrow> pubkey \<Rightarrow> sync_committee_batch_entry list
     \<Rightarrow> validator_signing_data \<Rightarrow> partial_signature_message \<Rightarrow> 'pk collector_manager
     \<Rightarrow> 'pk collector_manager \<times> partial_signature_message list" where
  "process_single_validator_batch env ci metadata pubkey descriptor data current_message m =
     (if is_stale_slot env (ci_now ci) (md_slot metadata) then (m, [])
      else case phase_from_kind (md_kind metadata) of
             None \<Rightarrow> (m, [current_message])
           | Some phase \<Rightarrow>
               if md_role metadata \<noteq> SyncCommittee then (m, [current_message])
               else if pubkey \<noteq> vs_validator_pubkey data then (m, [current_message])
               else if \<not> (\<exists>entry \<in> set descriptor. se_signing_root entry = vs_root data
                             \<and> se_signing_root entry = psm_signing_root current_message)
               then (m, [current_message])
               else
                 let key = (phase, md_slot metadata, pubkey);
                     record = (case scm_single_validator_batches m key of
                                 Some r \<Rightarrow> r
                               | None \<Rightarrow> \<lparr>sb_validator_index = psm_validator_index current_message,
                                   sb_committee_id = md_committee_id metadata, sb_descriptor = descriptor, sb_state = BatchPending\<rparr>);
                     m = m\<lparr>scm_single_validator_batches := (scm_single_validator_batches m)(key \<mapsto> record)\<rparr>
                 in if sb_committee_id record \<noteq> md_committee_id metadata then (m, [current_message])
                    else if sb_validator_index record \<noteq> psm_validator_index current_message then (m, [current_message])
                    else if sb_descriptor record \<noteq> descriptor then (m, [current_message])
                    else if sb_state record = BatchAdmitted then (m, [current_message])
                    else
                      (case expand_batch (me_bls env) data (psm_signer current_message) (sb_descriptor record) [current_message] of
                         (injection_messages, expanded_messages) \<Rightarrow>
                           (case create_message env metadata expanded_messages (ValidatorExecutor pubkey) of
                              Err _ \<Rightarrow> (m, injection_messages)
                            | Panic \<Rightarrow> (m, [])
                            | Ok outgoing \<Rightarrow>
                                let m = attempt ci BatchSource metadata (ValidatorExecutor pubkey) outgoing m
                                in (if ci_admits ci
                                    then m\<lparr>scm_single_validator_batches :=
                                           (scm_single_validator_batches m)(key \<mapsto> record\<lparr>sb_state := BatchAdmitted\<rparr>)\<rparr>
                                    else m, injection_messages))))"

section \<open>Requests\<close>

text \<open>A request hands its work to the processor; the number of the channel of the caller is \<open>n\<close>.\<close>

definition sign_and_collect ::
    "operator_id option \<Rightarrow> signature_metadata \<Rightarrow> signature_requester \<Rightarrow> validator_signing_data \<Rightarrow> notifier
     \<Rightarrow> collection_error + work list" where
  "sign_and_collect own_id metadata requester data n =
     (case own_id of
        None \<Rightarrow> Inl OwnOperatorIdUnknown
      | Some signer \<Rightarrow>
          let is_single_validator_batch = (case requester of SingleValidatorBatch _ _ _ \<Rightarrow> True | _ \<Rightarrow> False)
          in Inr [RegisterWork metadata is_single_validator_batch (vs_root data) (vs_index data) (vs_validator_pubkey data) n,
                  SignWork metadata requester data signer])"

definition sign_proposer_packet ::
    "operator_id option \<Rightarrow> signature_metadata \<Rightarrow> pubkey \<Rightarrow> validator_signing_data \<Rightarrow> validator_signing_data option \<Rightarrow> notifier
     \<Rightarrow> collection_error + work list" where
  "sign_proposer_packet own_id metadata pubkey block envelope n =
     (if md_role metadata \<noteq> Proposer \<or> md_kind metadata \<noteq> PostConsensus \<or> pubkey \<noteq> vs_validator_pubkey block
         \<or> (case envelope of
              None \<Rightarrow> False
            | Some e \<Rightarrow> vs_index e \<noteq> vs_index block \<or> vs_validator_pubkey e \<noteq> vs_validator_pubkey block \<or> vs_root e = vs_root block)
      then Inl InvalidProposerPacket
      else case own_id of
             None \<Rightarrow> Inl OwnOperatorIdUnknown
           | Some signer \<Rightarrow>
               let registrations = (case envelope of None \<Rightarrow> [] | Some e \<Rightarrow> [(vs_root e, None, Some (vs_root block))])
                     @ [(vs_root block, Some n, None)]
               in Inr [ProposerRegisterWork metadata pubkey registrations block envelope signer])"

definition wait_for_registered_signature ::
    "signature_metadata \<Rightarrow> validator_index \<Rightarrow> pubkey \<Rightarrow> hash256 \<Rightarrow> hash256 option \<Rightarrow> notifier \<Rightarrow> work list" where
  "wait_for_registered_signature metadata index validator_pubkey root required_companion n =
     [WaitWork metadata index validator_pubkey root required_companion n]"

definition receive_partial_signatures :: "partial_signature_messages \<Rightarrow> work list" where
  "receive_partial_signatures messages = map (\<lambda>msg. ReceiveWork msg (ps_slot messages) None False) (ps_messages messages)"

definition companion_root_of :: "partial_signature_message list \<Rightarrow> partial_signature_message \<Rightarrow> hash256 option" where
  "companion_root_of messages message =
     (if length messages = 2
      then map_option psm_signing_root (find (\<lambda>other. psm_signing_root other \<noteq> psm_signing_root message
             \<and> psm_validator_index other = psm_validator_index message \<and> psm_signer other = psm_signer message) messages)
      else None)"

definition receive_proposer_partial_signatures :: "partial_signature_messages \<Rightarrow> work list" where
  "receive_proposer_partial_signatures messages =
     (if ps_kind messages \<noteq> PostConsensus then receive_partial_signatures messages
      else map (\<lambda>msg. ReceiveWork msg (ps_slot messages) (companion_root_of (ps_messages messages) msg) True) (ps_messages messages))"

section \<open>Running the work\<close>

definition run_sign_work ::
    "('f, 's, 'pk) collector_env \<Rightarrow> circumstances \<Rightarrow> signature_metadata \<Rightarrow> signature_requester \<Rightarrow> validator_signing_data
     \<Rightarrow> operator_id \<Rightarrow> 'pk collector_manager \<Rightarrow> 'pk collector_manager \<times> work list" where
  "run_sign_work env ci metadata requester data signer m =
     (let message = new_partial_signature_message (me_bls env) data (vs_root data) signer;
          (m, messages_to_inject) =
            (case requester of
               SingleValidator pubkey \<Rightarrow>
                 (case create_message env metadata [message] (ValidatorExecutor pubkey) of
                    Ok msg \<Rightarrow> (attempt ci SingleSource metadata (ValidatorExecutor pubkey) msg m, [message])
                  | _ \<Rightarrow> (m, []))
             | SingleValidatorBatch pubkey subnet_id descriptor \<Rightarrow>
                 process_single_validator_batch env ci metadata pubkey descriptor data message m
             | CommitteeRequester batch_size base_hash \<Rightarrow>
                 (case take_ready_committee_batch env ci metadata batch_size base_hash message m of
                    (m, None) \<Rightarrow> (m, [message])
                  | (m, Some signatures) \<Rightarrow>
                      (case create_message env metadata signatures (CommitteeExecutor (md_committee_id metadata)) of
                         Ok msg \<Rightarrow>
                           (attempt ci CommitteeSource metadata (CommitteeExecutor (md_committee_id metadata)) msg m, [message])
                       | _ \<Rightarrow> (m, []))))
      in (m, if vs_share data \<noteq> None then map (\<lambda>msg. ReceiveWork msg (md_slot metadata) None False) messages_to_inject else []))"

definition run_proposer_sign_work ::
    "('f, 's, 'pk) collector_env \<Rightarrow> circumstances \<Rightarrow> signature_metadata \<Rightarrow> pubkey \<Rightarrow> validator_signing_data
     \<Rightarrow> validator_signing_data option \<Rightarrow> operator_id \<Rightarrow> 'pk collector_manager \<Rightarrow> 'pk collector_manager \<times> work list" where
  "run_proposer_sign_work env ci metadata pubkey block envelope signer m =
     (if is_stale_slot env (ci_now ci) (md_slot metadata) then (m, [])
      else
        let block_message = new_partial_signature_message (me_bls env) block (vs_root block) signer;
            envelope_messages = (case envelope of None \<Rightarrow> [] | Some e \<Rightarrow> [new_partial_signature_message (me_bls env) e (vs_root e) signer])
        in case create_message env metadata (block_message # envelope_messages) (ValidatorExecutor pubkey) of
             Ok msg \<Rightarrow>
               (attempt ci ProposerSource metadata (ValidatorExecutor pubkey) msg m,
                (if vs_share block \<noteq> None
                 then [ReceiveWork block_message (md_slot metadata) (map_option vs_root envelope) True] else [])
                @ (if (case envelope of None \<Rightarrow> False | Some e \<Rightarrow> vs_share e \<noteq> None)
                   then map (\<lambda>msg. ReceiveWork msg (md_slot metadata) (Some (vs_root block)) True) envelope_messages else []))
           | _ \<Rightarrow> (m, []))"

definition run_register_work ::
    "('f, 's, 'pk) collector_env \<Rightarrow> circumstances \<Rightarrow> signature_metadata \<Rightarrow> bool \<Rightarrow> hash256 \<Rightarrow> validator_index \<Rightarrow> pubkey
     \<Rightarrow> notifier \<Rightarrow> 'pk collector_manager \<Rightarrow> 'pk collector_manager" where
  "run_register_work env ci metadata is_single_validator_batch root index validator_pubkey n m =
     (if is_single_validator_batch \<and> is_stale_slot env (ci_now ci) (md_slot metadata) then m
      else fst (send_to_collector (root, index) (RegisterNotifier (Some n) None (md_threshold metadata) validator_pubkey)
                  (get_or_spawn ci root index (md_slot metadata) m)))"

text \<open>The registrations of a proposer packet follow each other; each waits for the one before it.\<close>

definition run_proposer_register_work ::
    "('f, 's, 'pk) collector_env \<Rightarrow> circumstances \<Rightarrow> signature_metadata \<Rightarrow> pubkey
     \<Rightarrow> (hash256 \<times> notifier option \<times> hash256 option) list \<Rightarrow> validator_signing_data \<Rightarrow> validator_signing_data option
     \<Rightarrow> operator_id \<Rightarrow> 'pk collector_manager \<Rightarrow> 'pk collector_manager \<times> work list" where
  "run_proposer_register_work env ci metadata pubkey registrations block envelope signer m =
     (case registrations of
        [] \<Rightarrow> (m, [ProposerSignWork metadata pubkey block envelope signer])
      | (root, notify, required_companion) # rest \<Rightarrow>
          if is_stale_slot env (ci_now ci) (md_slot metadata) then (m, [])
          else (case send_to_collector (root, vs_index block)
                       (RegisterNotifier notify required_companion (md_threshold metadata) pubkey)
                       (get_or_spawn ci root (vs_index block) (md_slot metadata) m) of
                  (m, True) \<Rightarrow> (m, [ProposerRegisterWork metadata pubkey rest block envelope signer])
                | (m, False) \<Rightarrow> (m, [])))"

definition run_wait_work ::
    "('f, 's, 'pk) collector_env \<Rightarrow> circumstances \<Rightarrow> signature_metadata \<Rightarrow> validator_index \<Rightarrow> pubkey \<Rightarrow> hash256
     \<Rightarrow> hash256 option \<Rightarrow> notifier \<Rightarrow> 'pk collector_manager \<Rightarrow> 'pk collector_manager" where
  "run_wait_work env ci metadata index validator_pubkey root required_companion n m =
     (if is_stale_slot env (ci_now ci) (md_slot metadata) then m
      else case scm_signature_collectors m (root, index) of
             None \<Rightarrow> m
           | Some e \<Rightarrow>
               if ce_for_slot e \<noteq> md_slot metadata then m
               else fst (send_to_collector (root, index)
                      (RegisterNotifier (Some n) required_companion (md_threshold metadata) validator_pubkey) m))"

definition receive_partial_signature_with_companion ::
    "('f, 's, 'pk) collector_env \<Rightarrow> circumstances \<Rightarrow> partial_signature_message \<Rightarrow> slot \<Rightarrow> hash256 option \<Rightarrow> bool
     \<Rightarrow> 'pk collector_manager \<Rightarrow> 'pk collector_manager" where
  "receive_partial_signature_with_companion env ci message slot companion_root check_slot m =
     (if check_slot \<and> is_stale_slot env (ci_now ci) slot then m
      else fst (send_to_collector (psm_signing_root message, psm_validator_index message)
                  (PartialSignature (psm_signer message) (psm_partial_signature message) companion_root)
                  (get_or_spawn ci (psm_signing_root message) (psm_validator_index message) slot m)))"

fun run_work ::
    "('f, 's, 'pk) collector_env \<Rightarrow> circumstances \<Rightarrow> work \<Rightarrow> 'pk collector_manager \<Rightarrow> 'pk collector_manager \<times> work list" where
  "run_work env ci (RegisterWork metadata is_batch root index validator_pubkey n) m =
     (run_register_work env ci metadata is_batch root index validator_pubkey n m, [])"
| "run_work env ci (SignWork metadata requester data signer) m = run_sign_work env ci metadata requester data signer m"
| "run_work env ci (ProposerRegisterWork metadata pubkey registrations block envelope signer) m =
     run_proposer_register_work env ci metadata pubkey registrations block envelope signer m"
| "run_work env ci (ProposerSignWork metadata pubkey block envelope signer) m =
     run_proposer_sign_work env ci metadata pubkey block envelope signer m"
| "run_work env ci (WaitWork metadata index validator_pubkey root required_companion n) m =
     (run_wait_work env ci metadata index validator_pubkey root required_companion n m, [])"
| "run_work env ci (ReceiveWork message slot companion_root check_slot) m =
     (receive_partial_signature_with_companion env ci message slot companion_root check_slot m, [])"

end
