(* ===== verification/Collector_Proofs.thy ===== *)
theory Collector_Proofs
  imports Signature_Collector
begin

text \<open>
  What the collector of a signature guarantees: only verified signatures are sent, all tasks get
  the same one and each gets it once, and whatever the faulty operators send, the shares of a
  quorum of honest operators end in the validator's signature.
\<close>

section \<open>Invariant\<close>

text \<open>Once the signature is there, no share and no waiting task is left; what was sent is that signature.\<close>

definition collector_inv :: "('f, 's, 'pk) bls_env \<Rightarrow> hash256 \<Rightarrow> 'pk signature_collector_state \<Rightarrow> bool" where
  "collector_inv env root s \<longleftrightarrow>
     sgc_signing_root s = root \<and> distinct (map fst (sgc_signature_share s))
     \<and> (\<forall>r. sgc_registration s = Some r \<longrightarrow> bl_decompress env (cg_validator_pubkey r) = Some (cg_decompressed_validator_pubkey r))
     \<and> (\<forall>full. sgc_full_signature s = Some full \<longrightarrow> sgc_signature_share s = [] \<and> sgc_notifiers s = []
          \<and> (\<exists>r. sgc_registration s = Some r \<and> bl_verify env full (cg_decompressed_validator_pubkey r) root))
     \<and> (\<forall>p \<in> set (sgc_sent s). sgc_full_signature s = Some (snd p))"

lemma collector_inv_new [simp]: "collector_inv env root (collector_state_new root)"
  by (simp add: collector_inv_def collector_state_new_def)

lemma map_entry_fst [simp]: "map fst (AList.map_entry k f xs) = map fst xs"
  by (induction xs) auto

lemma queue_notifier_inv: "collector_inv env root s \<Longrightarrow> collector_inv env root (queue_notifier n s)"
  by (auto simp: queue_notifier_def collector_inv_def split: option.splits)

lemma register_request_inv:
  assumes "collector_inv env root s"
  shows "collector_inv env root (fst (register_request env n t pk c s))"
proof (cases "sgc_registration s")
  case (Some r)
  then show ?thesis using assms by (simp add: register_request_def queue_notifier_inv)
next
  case None
  then have full: "sgc_full_signature s = None"
    using assms by (cases "sgc_full_signature s") (simp_all add: collector_inv_def)
  with assms have sent: "sgc_sent s = []" by (cases "sgc_sent s") (auto simp: collector_inv_def)
  have root: "sgc_signing_root s = root" and dist: "distinct (map fst (sgc_signature_share s))"
    using assms by (simp_all add: collector_inv_def)
  show ?thesis
  proof (cases "bl_decompress env pk")
    case None
    then show ?thesis using \<open>sgc_registration s = None\<close> assms by (simp add: register_request_def)
  next
    case (Some d)
    let ?r = "\<lparr>cg_threshold = t, cg_validator_pubkey = pk, cg_decompressed_validator_pubkey = d, cg_required_companion = c\<rparr>"
    have "collector_inv env root (s\<lparr>sgc_registration := Some ?r\<rparr>)"
      "collector_inv env root (s\<lparr>sgc_registration := Some ?r, sgc_signature_share := filter P (sgc_signature_share s)\<rparr>)" for P
      using full sent root dist Some by (simp_all add: collector_inv_def distinct_map_filter)
    then show ?thesis
      using \<open>sgc_registration s = None\<close> Some by (cases c) (simp_all add: register_request_def queue_notifier_inv)
  qed
qed

lemma add_partial_signature_inv:
  assumes "collector_inv env root s"
  shows "collector_inv env root (add_partial_signature i sig c s)"
  using assms
  by (auto simp: add_partial_signature_def collector_inv_def map_of_eq_None_iff split: option.splits if_splits)

lemma complete_reconstruction_inv:
  assumes "collector_inv env root s" "sgc_full_signature s = None" "sgc_registration s = Some r"
    and "bl_verify env sig (cg_decompressed_validator_pubkey r) root"
  shows "collector_inv env root (complete_reconstruction sig s)"
  using assms by (auto simp: complete_reconstruction_def collector_inv_def)

lemma try_reconstruct_Some:
  assumes "try_reconstruct env s = Ok (Some sig)"
  shows "sgc_full_signature s = None" "\<exists>r. sgc_registration s = Some r
    \<and> bl_verify env sig (cg_decompressed_validator_pubkey r) (sgc_signing_root s)"
  using assms by (auto simp: try_reconstruct_def bindO_Ok_iff split: option.splits if_splits)

lemma complete_inv:
  "collector_inv env root s \<Longrightarrow> try_reconstruct env s = Ok (Some sig) \<Longrightarrow> collector_inv env root (complete_reconstruction sig s)"
  using try_reconstruct_Some [of env s sig] complete_reconstruction_inv [of env root s _ sig] by (auto simp: collector_inv_def)

lemma remove_invalid_shares_inv:
  "collector_inv env root s \<Longrightarrow> collector_inv env root (fst (remove_invalid_shares env keys s))"
  by (auto simp: remove_invalid_shares_def Let_def collector_inv_def distinct_map_filter)

lemma fallback_inv:
  assumes "collector_inv env root s"
  shows "collector_inv env root (fst (handle_reconstruction_fallback env fetch s))"
proof -
  have "collector_inv env root s'" if "remove_invalid_shares env keys s = (s', ids)" for keys s' ids
    using remove_invalid_shares_inv [OF assms, of keys] that by simp
  then show ?thesis using assms
    unfolding handle_reconstruction_fallback_def
    by (auto intro: complete_inv split: outcome.split option.split prod.split)
qed

lemma reconstruct_step_inv:
  "collector_inv env root s \<Longrightarrow> collector_inv env root (fst (reconstruct_step env fetch s))"
  unfolding reconstruct_step_def by (auto intro: complete_inv fallback_inv split: outcome.split option.split)

lemma collector_turn_inv:
  assumes "collector_inv env root s"
  shows "collector_inv env root (fst (collector_turn env fetch s m))"
proof (cases m)
  case (RegisterNotifier n c t pk)
  then show ?thesis using reconstruct_step_inv register_request_inv [OF assms, of n t pk c]
    by (auto simp: collector_turn_def split: prod.splits control_flow.splits)
next
  case (PartialSignature i sig c)
  then show ?thesis using reconstruct_step_inv [OF add_partial_signature_inv [OF assms]] by (simp add: collector_turn_def)
qed

lemma loop_inv: "collector_inv env root s \<Longrightarrow> collector_inv env root (fst (signature_collector_loop env ms s))"
proof (induction ms arbitrary: s)
  case (Cons m ms)
  obtain message fetch where m: "m = (message, fetch)" by (cases m)
  obtain s1 flow where turn: "collector_turn env fetch s message = (s1, flow)" by (metis surj_pair)
  have "collector_inv env root s1" using collector_turn_inv [OF Cons.prems, of fetch message] turn by simp
  then show ?case using Cons.IH by (cases flow) (simp_all add: m turn)
qed simp

section \<open>Who is served, and with what\<close>

definition notifiers_of :: "collector_message_kind \<Rightarrow> notifier list" where
  "notifiers_of m = (case m of RegisterNotifier (Some n) _ _ _ \<Rightarrow> [n] | _ \<Rightarrow> [])"

text \<open>The tasks that were served, followed by those that wait.\<close>

definition task_order :: "'pk signature_collector_state \<Rightarrow> notifier list" where
  "task_order s = map fst (sgc_sent s) @ sgc_notifiers s"

lemma task_order_complete [simp]: "task_order (complete_reconstruction sig s) = task_order s"
  by (simp add: task_order_def complete_reconstruction_def o_def)

lemma task_order_shares [simp]:
  "task_order (s\<lparr>sgc_signature_share := shares\<rparr>) = task_order s" "task_order (s\<lparr>sgc_registration := r\<rparr>) = task_order s"
  by (simp_all add: task_order_def)

lemma task_order_add [simp]: "task_order (add_partial_signature i sig c s) = task_order s"
  by (auto simp: add_partial_signature_def split: option.split)

lemma task_order_remove: "remove_invalid_shares env keys s = (s', ids) \<Longrightarrow> task_order s' = task_order s"
  by (auto simp: remove_invalid_shares_def Let_def)

lemma task_order_queue:
  "collector_inv env root s \<Longrightarrow> task_order (queue_notifier n s) = task_order s @ (case n of None \<Rightarrow> [] | Some n \<Rightarrow> [n])"
  by (auto simp: queue_notifier_def task_order_def collector_inv_def split: option.split)

lemma task_order_step [simp]: "task_order (fst (reconstruct_step env fetch s)) = task_order s"
  unfolding reconstruct_step_def handle_reconstruction_fallback_def
  by (auto dest: task_order_remove split: outcome.split option.split prod.split)

lemma queue_notifier_order:
  assumes "sgc_full_signature s = None \<or> sgc_notifiers s = []"
  shows "task_order (queue_notifier n s) = task_order s @ (case n of None \<Rightarrow> [] | Some n \<Rightarrow> [n])"
  using assms by (auto simp: queue_notifier_def task_order_def split: option.split)

lemma register_request_order:
  assumes "collector_inv env root s" "register_request env n t pk c s = (s', Continue)"
  shows "task_order s' = task_order s @ (case n of None \<Rightarrow> [] | Some n \<Rightarrow> [n])"
proof -
  have "sgc_full_signature s = None \<or> sgc_notifiers s = []"
    using assms(1) by (cases "sgc_full_signature s") (simp_all add: collector_inv_def)
  then show ?thesis
    using assms(2) unfolding register_request_def
    by (auto simp: Let_def queue_notifier_order split: option.splits if_splits)
qed

lemma collector_turn_order:
  assumes "collector_inv env root s" "collector_turn env fetch s m = (s', Continue)"
  shows "task_order s' = task_order s @ notifiers_of m"
proof (cases m)
  case (RegisterNotifier n c t pk)
  obtain s1 where s1: "register_request env n t pk c s = (s1, Continue)" "reconstruct_step env fetch s1 = (s', Continue)"
    using assms(2) RegisterNotifier by (auto simp: collector_turn_def split: prod.splits control_flow.splits)
  then show ?thesis
    using register_request_order [OF assms(1) s1(1)] task_order_step [of env fetch s1] RegisterNotifier
    by (simp add: notifiers_of_def split: option.split)
next
  case (PartialSignature i sig c)
  then show ?thesis
    using assms(2) task_order_step [of env fetch "add_partial_signature i sig c s"] by (simp add: collector_turn_def notifiers_of_def)
qed

lemma loop_order:
  assumes "collector_inv env root s" "signature_collector_loop env ms s = (s', Continue)"
  shows "task_order s' = task_order s @ concat (map (\<lambda>m. notifiers_of (fst m)) ms)"
  using assms
proof (induction ms arbitrary: s)
  case (Cons m ms)
  obtain message fetch where m: "m = (message, fetch)" by (cases m)
  obtain s1 where s1: "collector_turn env fetch s message = (s1, Continue)" "signature_collector_loop env ms s1 = (s', Continue)"
    using Cons.prems(2) by (auto simp: m split: prod.splits control_flow.splits)
  have "collector_inv env root s1" using collector_turn_inv [OF Cons.prems(1), of fetch message] s1(1) by simp
  from Cons.IH [OF this s1(2)] show ?case using collector_turn_order [OF Cons.prems(1) s1(1)] by (simp add: m)
qed simp

text \<open>The registration never changes.\<close>

lemma registration_kept:
  "sgc_registration (queue_notifier n s) = sgc_registration s"
  "sgc_registration (add_partial_signature i sig c s) = sgc_registration s"
  "sgc_registration (complete_reconstruction sig s) = sgc_registration s"
  "sgc_registration (fst (remove_invalid_shares env keys s)) = sgc_registration s"
  by (auto simp: queue_notifier_def add_partial_signature_def complete_reconstruction_def remove_invalid_shares_def Let_def
      split: option.split)

lemma reconstruct_step_registration [simp]: "sgc_registration (fst (reconstruct_step env fetch s)) = sgc_registration s"
proof -
  have "sgc_registration s' = sgc_registration s" if "remove_invalid_shares env keys s = (s', ids)" for keys s' ids
    using registration_kept(4) [of env keys s] that by simp
  then show ?thesis
    unfolding reconstruct_step_def handle_reconstruction_fallback_def
    by (auto simp: registration_kept split: outcome.split option.split prod.split)
qed

lemma collector_turn_keeps:
  assumes "sgc_registration s = Some r"
  shows "sgc_registration (fst (collector_turn env fetch s m)) = Some r"
proof (cases m)
  case (RegisterNotifier n c t pk)
  have "sgc_registration (fst (register_request env n t pk c s)) = Some r"
    using assms by (simp add: register_request_def registration_kept)
  then show ?thesis using RegisterNotifier
    by (auto simp: collector_turn_def split: prod.splits control_flow.splits)
next
  case (PartialSignature i sig c)
  then show ?thesis using assms by (simp add: collector_turn_def registration_kept)
qed

lemma loop_keeps: "sgc_registration s = Some r \<Longrightarrow> sgc_registration (fst (signature_collector_loop env ms s)) = Some r"
proof (induction ms arbitrary: s)
  case (Cons m ms)
  obtain message fetch where m: "m = (message, fetch)" by (cases m)
  obtain s1 flow where turn: "collector_turn env fetch s message = (s1, flow)" by (metis surj_pair)
  have "sgc_registration s1 = Some r" using collector_turn_keeps [OF Cons.prems, of env fetch message] turn by simp
  then show ?case using Cons.IH by (cases flow) (simp_all add: m turn)
qed simp

text \<open>A task is queued or served only if its request agrees with the registration.\<close>

definition requests :: "collector_message_kind \<Rightarrow> 'pk collector_registration \<Rightarrow> notifier \<Rightarrow> bool" where
  "requests m r n \<longleftrightarrow> m = RegisterNotifier (Some n) (cg_required_companion r) (cg_threshold r) (cg_validator_pubkey r)"

lemma register_request_tasks:
  assumes "register_request env notify t pk c s = (s', flow)" "n \<in> set (task_order s')"
  shows "n \<in> set (task_order s) \<or> (\<exists>r. sgc_registration s' = Some r \<and> requests (RegisterNotifier notify c t pk) r n)"
proof -
  have queue: "set (task_order (queue_notifier notify s1)) \<subseteq> set (task_order s1) \<union> {n. notify = Some n}" for s1 :: "'a signature_collector_state"
    by (auto simp: queue_notifier_def task_order_def split: option.split)
  show ?thesis
  proof (cases "sgc_registration s")
    case (Some r)
    then show ?thesis using assms queue [of s] unfolding register_request_def requests_def
      by (auto simp: registration_kept split: if_splits)
  next
    case None
    show ?thesis
    proof (cases "bl_decompress env pk")
      case None
      then show ?thesis using assms \<open>sgc_registration s = None\<close> by (simp add: register_request_def)
    next
      case (Some d)
      define s1 where "s1 = (case c of None \<Rightarrow> s\<lparr>sgc_registration := Some \<lparr>cg_threshold = t, cg_validator_pubkey = pk,
          cg_decompressed_validator_pubkey = d, cg_required_companion = c\<rparr>\<rparr>
        | Some root \<Rightarrow> s\<lparr>sgc_registration := Some \<lparr>cg_threshold = t, cg_validator_pubkey = pk,
          cg_decompressed_validator_pubkey = d, cg_required_companion = c\<rparr>, sgc_signature_share :=
            filter (\<lambda>(_, share). Some root \<in> set (cs_companion_roots share)) (sgc_signature_share s)\<rparr>)"
      have "s' = queue_notifier notify s1"
        using assms(1) Some \<open>sgc_registration s = None\<close> by (auto simp: register_request_def s1_def Let_def split: option.splits)
      moreover have "task_order s1 = task_order s" "sgc_registration s1 = Some \<lparr>cg_threshold = t, cg_validator_pubkey = pk,
          cg_decompressed_validator_pubkey = d, cg_required_companion = c\<rparr>"
        by (auto simp: s1_def split: option.split)
      ultimately show ?thesis using assms(2) queue [of s1] by (auto simp: registration_kept requests_def)
    qed
  qed
qed

lemma collector_turn_tasks:
  assumes "collector_turn env fetch s m = (s', flow)" "n \<in> set (task_order s')"
  shows "n \<in> set (task_order s) \<or> (\<exists>r. sgc_registration s' = Some r \<and> requests m r n)"
proof (cases m)
  case (RegisterNotifier notify c t pk)
  obtain s1 f where s1: "register_request env notify t pk c s = (s1, f)" by (metis surj_pair)
  have "s' = s1 \<or> s' = fst (reconstruct_step env fetch s1)"
    using assms(1) RegisterNotifier s1 by (cases f) (auto simp: collector_turn_def)
  then have "task_order s' = task_order s1" "sgc_registration s' = sgc_registration s1" by auto
  then show ?thesis using register_request_tasks [OF s1] assms(2) RegisterNotifier by simp
next
  case (PartialSignature i sig c)
  then show ?thesis
    using assms task_order_step [of env fetch "add_partial_signature i sig c s"] by (simp add: collector_turn_def)
qed

lemma loop_tasks:
  assumes "signature_collector_loop env ms s = (s', flow)" "n \<in> set (task_order s')"
  shows "n \<in> set (task_order s) \<or> (\<exists>r. sgc_registration s' = Some r \<and> (\<exists>m \<in> set ms. requests (fst m) r n))"
  using assms
proof (induction ms arbitrary: s)
  case (Cons m ms)
  obtain message fetch where m: "m = (message, fetch)" by (cases m)
  obtain s1 f where turn: "collector_turn env fetch s message = (s1, f)" by (metis surj_pair)
  show ?case
  proof (cases "f = Continue")
    case True
    then have rest: "signature_collector_loop env ms s1 = (s', flow)" using Cons.prems(1) by (simp add: m turn)
    have "sgc_registration s' = Some r" if "sgc_registration s1 = Some r" for r
      using loop_keeps [OF that, of env ms] rest by simp
    then show ?thesis
      using Cons.IH [OF rest Cons.prems(2)] collector_turn_tasks [OF turn] by (auto simp: m)
  next
    case False
    then have "s' = s1" using Cons.prems(1) by (cases f) (simp_all add: m turn)
    then show ?thesis using collector_turn_tasks [OF turn] Cons.prems(2) by (auto simp: m)
  qed
qed simp

lemma sent_verified:
  assumes "signature_collector_loop env ms (collector_state_new root) = (s, flow)" "(n, sig) \<in> set (sgc_sent s)"
  shows "sgc_full_signature s = Some sig \<and> (\<exists>m \<in> set ms. \<exists>c t pk d. fst m = RegisterNotifier (Some n) c t pk
    \<and> bl_decompress env pk = Some d \<and> bl_verify env sig d root)"
proof -
  let ?s = "collector_state_new root"
  have s: "s = fst (signature_collector_loop env ms ?s)" using assms(1) by simp
  have inv: "collector_inv env root s" unfolding s by (rule loop_inv) simp
  then have full: "sgc_full_signature s = Some sig" using assms(2) by (auto simp: collector_inv_def)
  with inv obtain r where r: "sgc_registration s = Some r" "bl_verify env sig (cg_decompressed_validator_pubkey r) root"
    "bl_decompress env (cg_validator_pubkey r) = Some (cg_decompressed_validator_pubkey r)"
    by (auto simp: collector_inv_def)
  have "n \<in> set (task_order s)" using assms(2) by (force simp: task_order_def)
  then have "\<exists>m \<in> set ms. requests (fst m) r n"
    using loop_tasks [OF assms(1)] r(1) by (simp add: task_order_def collector_state_new_def)
  then show ?thesis using full r unfolding requests_def by blast
qed

section \<open>An honest quorum is enough\<close>

text \<open>The signatures of a root under a key are those of one point, as BLS verification has it.\<close>

definition signs_as :: "('f, 's, 'pk) bls_env \<Rightarrow> hash256 \<Rightarrow> pubkey \<Rightarrow> 's \<Rightarrow> bool" where
  "signs_as env root pk point \<longleftrightarrow>
     (\<exists>d. bl_decompress env pk = Some d \<and> (\<forall>sig. bl_verify env sig d root \<longleftrightarrow> bl_point env sig = Some point))"

text \<open>The operations of the library: an iteration visits every entry once, and a point has a signature.\<close>

definition library_ok :: "('f, 's, 'pk) bls_env \<Rightarrow> bool" where
  "library_ok env \<longleftrightarrow> (\<forall>xs. mset (bl_order env xs) = mset xs) \<and> (\<forall>p. bl_point env (bl_signature env p) = Some p)"

lemma share_is_valid_iff:
  assumes "signs_as env root pk point" "keys i = Some pk"
  shows "share_is_valid env keys root (i, share) \<longleftrightarrow> bl_point env (cs_signature share) = Some point"
proof -
  obtain d where "bl_decompress env pk = Some d" "\<And>sig. bl_verify env sig d root = (bl_point env sig = Some point)"
    using assms(1) unfolding signs_as_def by blast
  then show ?thesis using assms(2) by (simp add: share_is_valid_def)
qed

lemma collect_o_no_panic: "(\<And>x. x \<in> set xs \<Longrightarrow> f x \<noteq> Panic) \<Longrightarrow> collect_o f xs \<noteq> Panic"
  using collect_o_Panic by blast

lemma combine_signatures_no_panic: "combine_signatures smul sigs ids \<noteq> Panic"
proof (cases "length sigs < 2 \<or> length sigs \<noteq> length ids")
  case False
  then have "lagrange_coefficients ids \<noteq> Panic" by (intro lagrange_coefficients_no_panic) simp
  moreover have "collect_o (ok_or InvalidSignature) sigs \<noteq> Panic" by (rule collect_o_no_panic) simp
  ultimately show ?thesis using False by (simp add: combine_signatures_def bindO_Panic_iff)
qed (auto simp: combine_signatures_def)

lemma combine_shares_no_panic: "combine_shares env shares \<noteq> Panic"
proof -
  have "collect_o (\<lambda>(i, share). map_err RecoverError (map_sum id (\<lambda>k. (k, cs_signature share)) (key_id_try_from i))) xs \<noteq> Panic"
    for xs :: "(operator_id \<times> collected_share) list"
    by (rule collect_o_no_panic) (simp add: case_prod_beta)
  then show ?thesis by (simp add: combine_shares_def bindO_Panic_iff combine_signatures_no_panic)
qed

lemma try_reconstruct_no_panic: "try_reconstruct env s \<noteq> Panic"
  by (simp add: try_reconstruct_def bindO_Panic_iff combine_shares_no_panic split: option.split)

lemma valid_shares_combine:
  fixes smul1 :: "'f::field \<Rightarrow> 'p::ab_group_add \<Rightarrow> 'p" and env :: "('f, 's::ab_group_add, 'pk) bls_env"
  assumes lib: "library_ok env" and groups: "curve_group smul1" "curve_group (bl_smul env)" and inj: "inj (scalar_of :: u64 \<Rightarrow> 'f)"
    and valid: "validate_share_public_keys smul1 key_validate vpk shares = Ok u"
    and key: "key_validate vpk = Some (smul1 key G)" "G \<noteq> 0"
    and secrets: "\<forall>s \<in> set shares. key_validate (snd s) = Some (smul1 (secret (fst s)) G)"
    and xs: "distinct (map fst xs)" "fst ` set xs \<subseteq> fst ` set shares" "quorum_size (length shares) \<le> length xs"
    and points: "\<forall>x \<in> set xs. bl_point env (cs_signature (snd x)) = Some (bl_smul env (secret (fst x)) h)"
  shows "combine_shares env xs = Ok (bl_signature env (bl_smul env key h))"
proof -
  define ys where "ys = bl_order env xs"
  have mset: "mset ys = mset xs" using lib by (simp add: library_ok_def ys_def)
  then have ys: "set ys = set xs" "length ys = length xs" "distinct (map fst ys)"
    using xs(1) by (auto dest: mset_eq_setD mset_eq_length simp flip: mset_map intro: ) (metis distinct_map mset_eq_imp_distinct_iff mset_map)
  define chosen where "chosen = map (\<lambda>y. (fst y, the (map_of shares (fst y)))) ys"
  have sub: "set chosen \<subseteq> set shares"
  proof
    fix c assume "c \<in> set chosen"
    then obtain y where y: "y \<in> set xs" "c = (fst y, the (map_of shares (fst y)))" by (auto simp: chosen_def ys(1))
    then have "fst y \<in> fst ` set shares" using xs(2) by auto
    then obtain pk where "map_of shares (fst y) = Some pk" by (cases "map_of shares (fst y)") (auto simp: map_of_eq_None_iff)
    then show "c \<in> set shares" using y(2) map_of_SomeD by fastforce
  qed
  have fst_chosen: "map fst chosen = map fst ys" by (simp add: chosen_def o_def)
  have nonzero: "fst y \<noteq> 0" if "y \<in> set ys" for y
    using validated_shares_polynomial [OF groups(1) valid] xs(2) that ys(1) by (metis (no_types, lifting) image_iff imageI subsetD)
  have pairs: "collect_o (\<lambda>(i, share). map_err RecoverError (map_sum id (\<lambda>k. (k, cs_signature share)) (key_id_try_from i))) ys =
      Ok (map (\<lambda>y. (key_id_of (fst y), cs_signature (snd y))) ys)"
    by (rule collect_o_map) (auto simp: key_id_try_from_def key_id_of_def map_err_def dest!: nonzero)
  have "combine_signatures (bl_smul env) (map (\<lambda>s. Some (bl_smul env (secret (fst s)) h)) chosen) (map (\<lambda>s. key_id_of (fst s)) chosen)
      = Ok (bl_smul env key h)"
  proof (rule quorum_signs [OF groups inj valid sub _ _ key])
    show "distinct (map fst chosen)" using ys(3) fst_chosen by simp
    show "quorum_size (length shares) \<le> length chosen" using xs(3) ys(2) by (simp add: chosen_def)
    show "\<forall>s \<in> set chosen. key_validate (snd s) = Some (smul1 (secret (fst s)) G)" using secrets sub by blast
  qed
  moreover have "map (\<lambda>s. Some (bl_smul env (secret (fst s)) h)) chosen = map (\<lambda>y. bl_point env (cs_signature (snd y))) ys"
    using points by (simp add: chosen_def o_def ys(1))
  moreover have "map (\<lambda>s. key_id_of (fst s) :: 'f key_id) chosen = map (\<lambda>y. key_id_of (fst y)) ys" by (simp add: chosen_def o_def)
  ultimately show ?thesis by (simp add: combine_shares_def ys_def [symmetric] pairs o_def)
qed

text \<open>
  The setting: the shares were accepted when the validator was added, and the signatures of the
  root under the public keys are those of the secrets behind them; \<open>full\<close> is the signature of the
  validator.
\<close>

definition signing_committee ::
    "('f::field \<Rightarrow> 'p::ab_group_add \<Rightarrow> 'p) \<Rightarrow> (bytes \<Rightarrow> 'p option) \<Rightarrow> ('f, 's::ab_group_add, 'pk) bls_env \<Rightarrow> hash256 \<Rightarrow> pubkey
     \<Rightarrow> (operator_id \<times> pubkey) list \<Rightarrow> bytes \<Rightarrow> bool" where
  "signing_committee smul1 key_validate env root vpk shares full \<longleftrightarrow>
     library_ok env \<and> curve_group smul1 \<and> curve_group (bl_smul env) \<and> inj (scalar_of :: u64 \<Rightarrow> 'f)
     \<and> validate_share_public_keys smul1 key_validate vpk shares = Ok () \<and> distinct (map fst shares)
     \<and> (\<exists>key G secret h. key_validate vpk = Some (smul1 key G) \<and> G \<noteq> 0
          \<and> (\<forall>s \<in> set shares. key_validate (snd s) = Some (smul1 (secret (fst s)) G)
                \<and> signs_as env root (snd s) (bl_smul env (secret (fst s)) h))
          \<and> signs_as env root vpk (bl_smul env key h) \<and> full = bl_signature env (bl_smul env key h))"

lemma committee_combine:
  fixes smul1 :: "'a::field \<Rightarrow> 'p::ab_group_add \<Rightarrow> 'p"
  assumes c: "signing_committee smul1 key_validate env root vpk shares full"
    and xs: "distinct (map fst xs)" "\<forall>x \<in> set xs. share_is_valid env (map_of shares) root x"
      "quorum_size (length shares) \<le> length xs"
  shows "combine_shares env xs = Ok full"
proof -
  obtain key G secret h where k: "key_validate vpk = Some (smul1 key G)" "G \<noteq> 0" "full = bl_signature env (bl_smul env key h)"
    and all: "\<forall>s \<in> set shares. key_validate (snd s) = Some (smul1 (secret (fst s)) G)
      \<and> signs_as env root (snd s) (bl_smul env (secret (fst s)) h)"
    using c unfolding signing_committee_def by blast
  have s: "\<forall>s \<in> set shares. key_validate (snd s) = Some (smul1 (secret (fst s)) G)"
    "\<And>i pk. (i, pk) \<in> set shares \<Longrightarrow> signs_as env root pk (bl_smul env (secret i) h)"
    using all by auto
  have valid: "fst x \<in> fst ` set shares \<and> bl_point env (cs_signature (snd x)) = Some (bl_smul env (secret (fst x)) h)"
    if "x \<in> set xs" for x
  proof -
    have ok: "share_is_valid env (map_of shares) root (fst x, snd x)" using xs(2) that by simp
    then obtain pk where pk: "map_of shares (fst x) = Some pk" by (auto simp: share_is_valid_def split: option.splits Option.bind_splits)
    have mem: "(fst x, pk) \<in> set shares" using map_of_SomeD [OF pk] .
    have "bl_point env (cs_signature (snd x)) = Some (bl_smul env (secret (fst x)) h)"
      using ok share_is_valid_iff [of env root pk _ "map_of shares" "fst x" "snd x"] s(2) [OF mem] pk by blast
    then show ?thesis using mem by (metis fst_conv imageI)
  qed
  then have sub: "fst ` set xs \<subseteq> fst ` set shares"
    and points: "\<forall>x \<in> set xs. bl_point env (cs_signature (snd x)) = Some (bl_smul env (secret (fst x)) h)" by blast+
  have lib: "library_ok env" "curve_group smul1" "curve_group (bl_smul env)" "inj (scalar_of :: u64 \<Rightarrow> 'a)"
    "validate_share_public_keys smul1 key_validate vpk shares = Ok ()"
    using c unfolding signing_committee_def by blast+
  show ?thesis unfolding k(3)
    using lib k(1,2) s(1) xs(1) sub xs(3) points by (rule valid_shares_combine)
qed

lemma committee_verify:
  assumes c: "signing_committee smul1 key_validate env root vpk shares full" and d: "bl_decompress env vpk = Some d"
  shows "bl_verify env full d root" "combine_shares env xs = Ok sig \<Longrightarrow> bl_verify env sig d root \<Longrightarrow> sig = full"
proof -
  obtain p where p: "signs_as env root vpk p" "full = bl_signature env p" and lib: "library_ok env"
    using c unfolding signing_committee_def by blast
  have v: "bl_verify env sig d root \<longleftrightarrow> bl_point env sig = Some p" for sig
    using p(1) d unfolding signs_as_def by auto
  have pt: "bl_point env (bl_signature env q) = Some q" for q using lib by (simp add: library_ok_def)
  show "bl_verify env full d root" by (simp add: v p(2) pt)
  assume "combine_shares env xs = Ok sig" "bl_verify env sig d root"
  then obtain q where "sig = bl_signature env q" by (auto simp: combine_shares_def bindO_Ok_iff)
  then show "sig = full" using \<open>bl_verify env sig d root\<close> by (simp add: v p(2) pt)
qed

lemma committee_reconstruct:
  assumes c: "signing_committee smul1 key_validate env root vpk shares full"
    and inv: "collector_inv env root s" and none: "sgc_full_signature s = None"
    and r: "sgc_registration s = Some r" "cg_validator_pubkey r = vpk" "unat (cg_threshold r) = quorum_size (length shares)"
  shows "try_reconstruct env s = Ok (Some sig) \<Longrightarrow> sig = full"
    and "quorum_size (length shares) \<le> length (sgc_signature_share s) \<Longrightarrow>
      \<forall>x \<in> set (sgc_signature_share s). share_is_valid env (map_of shares) root x \<Longrightarrow> try_reconstruct env s = Ok (Some full)"
    and "try_reconstruct env s = Ok None \<Longrightarrow> length (sgc_signature_share s) < quorum_size (length shares)"
proof -
  have d: "bl_decompress env vpk = Some (cg_decompressed_validator_pubkey r)" and root: "sgc_signing_root s = root"
    and dist: "distinct (map fst (sgc_signature_share s))"
    using inv r by (auto simp: collector_inv_def)
  show "try_reconstruct env s = Ok (Some sig) \<Longrightarrow> sig = full"
    using committee_verify(2) [OF c d] none r(1) root by (auto simp: try_reconstruct_def bindO_Ok_iff split: if_splits)
  show "quorum_size (length shares) \<le> length (sgc_signature_share s) \<Longrightarrow>
      \<forall>x \<in> set (sgc_signature_share s). share_is_valid env (map_of shares) root x \<Longrightarrow> try_reconstruct env s = Ok (Some full)"
    using committee_combine [OF c dist] committee_verify(1) [OF c d] none r(1,3) root by (simp add: try_reconstruct_def map_err_o_def)
  show "try_reconstruct env s = Ok None \<Longrightarrow> length (sgc_signature_share s) < quorum_size (length shares)"
    using none r(1,3) by (auto simp: try_reconstruct_def bindO_Ok_iff split: if_splits)
qed

lemma library_order:
  assumes "signing_committee smul1 key_validate env root vpk shares full"
  shows "set (bl_order env xs) = set xs"
proof -
  have "library_ok env" using assms unfolding signing_committee_def by blast
  then have "mset (bl_order env xs) = mset xs" by (simp add: library_ok_def)
  then show ?thesis by (rule mset_eq_setD)
qed

lemma sort_empty: "sort xs = [] \<longleftrightarrow> xs = []"
  by (metis length_0_conv length_sort)

text \<open>A turn never gives up: the signature is there, or too few shares are left and the valid ones are all kept.\<close>

lemma committee_step:
  assumes c: "signing_committee smul1 key_validate env root vpk shares full"
    and inv: "collector_inv env root s" and none: "sgc_full_signature s = None"
    and r: "sgc_registration s = Some r" "cg_validator_pubkey r = vpk" "unat (cg_threshold r) = quorum_size (length shares)"
    and fetch: "fetch vpk = Some (map_of shares)"
  shows "\<exists>s'. reconstruct_step env fetch s = (s', Continue) \<and>
    (sgc_full_signature s' = Some full
     \<or> sgc_full_signature s' = None \<and> length (sgc_signature_share s') < quorum_size (length shares)
       \<and> set (sgc_signature_share s') \<subseteq> set (sgc_signature_share s)
       \<and> (\<forall>x \<in> set (sgc_signature_share s). share_is_valid env (map_of shares) root x \<longrightarrow> x \<in> set (sgc_signature_share s')))"
proof (cases "try_reconstruct env s")
  case (Ok res)
  note rec = committee_reconstruct [OF c inv none r]
  show ?thesis
  proof (cases res)
    case None
    then show ?thesis using Ok rec(3) none by (simp add: reconstruct_step_def)
  next
    case (Some sig)
    then show ?thesis using Ok rec(1) by (simp add: reconstruct_step_def complete_reconstruction_def)
  qed
next
  case Panic
  then show ?thesis using try_reconstruct_no_panic by blast
next
  case (Err e)
  define s1 where "s1 = fst (remove_invalid_shares env (map_of shares) s)"
  define bad where "bad = snd (remove_invalid_shares env (map_of shares) s)"
  have pair: "remove_invalid_shares env (map_of shares) s = (s1, bad)" by (simp add: s1_def bad_def)
  have root: "sgc_signing_root s = root" using inv by (simp add: collector_inv_def)
  have s1: "sgc_signature_share s1 = filter (share_is_valid env (map_of shares) root) (sgc_signature_share s)"
    "sgc_registration s1 = Some r" "sgc_full_signature s1 = None" "collector_inv env root s1"
    using remove_invalid_shares_inv [OF inv, of "map_of shares"] r(1) none root
    by (simp_all add: s1_def remove_invalid_shares_def Let_def)
  have "set (bl_order env (sgc_signature_share s)) = set (sgc_signature_share s)"
    by (rule library_order [OF c])
  moreover have "bad = [] \<longleftrightarrow> filter (\<lambda>p. \<not> share_is_valid env (map_of shares) root p) (bl_order env (sgc_signature_share s)) = []"
    by (simp add: bad_def remove_invalid_shares_def Let_def root sort_empty)
  ultimately have bad: "bad = [] \<longleftrightarrow> (\<forall>x \<in> set (sgc_signature_share s). share_is_valid env (map_of shares) root x)"
    unfolding filter_empty_conv by simp
  have long: "quorum_size (length shares) \<le> length (sgc_signature_share s)"
  proof (rule ccontr)
    assume "\<not> quorum_size (length shares) \<le> length (sgc_signature_share s)"
    then have "try_reconstruct env s = Ok None" using none r(1,3) by (simp add: try_reconstruct_def)
    then show False using Err by simp
  qed
  have "bad \<noteq> []"
  proof
    assume "bad = []"
    then have all: "\<forall>x \<in> set (sgc_signature_share s). share_is_valid env (map_of shares) root x" using bad by blast
    show False using committee_reconstruct(2) [OF c inv none r long all] Err by simp
  qed
  moreover have fallback: "reconstruct_step env fetch s =
      (if bad = [] then (s1, Break)
       else if length (sgc_signature_share s1) < quorum_size (length shares) then (s1, Continue)
       else (case try_reconstruct env s1 of
               Ok (Some signature) \<Rightarrow> (complete_reconstruction signature s1, Continue)
             | Ok None \<Rightarrow> (s1, Break) | Err _ \<Rightarrow> (s1, Break) | Panic \<Rightarrow> (s1, Crashed)))"
    using Err r fetch pair by (simp add: reconstruct_step_def handle_reconstruction_fallback_def)
  moreover have retry: "try_reconstruct env s1 = Ok (Some full)" if "\<not> length (sgc_signature_share s1) < quorum_size (length shares)"
    using that s1(1) by (intro committee_reconstruct(2) [OF c s1(4,3,2) r(2,3)]) simp_all
  ultimately show ?thesis
  proof (cases "length (sgc_signature_share s1) < quorum_size (length shares)")
    case True
    then have "reconstruct_step env fetch s = (s1, Continue)" using fallback \<open>bad \<noteq> []\<close> by simp
    then show ?thesis using True s1(1,3) by simp
  next
    case False
    then have "reconstruct_step env fetch s = (complete_reconstruction full s1, Continue)"
      using fallback \<open>bad \<noteq> []\<close> retry by simp
    then show ?thesis by (simp add: complete_reconstruction_def)
  qed
qed

text \<open>What the messages of a run are: one registration for all, and honest operators send their share.\<close>

definition honest_messages ::
    "('f, 's, 'pk) bls_env \<Rightarrow> hash256 \<Rightarrow> pubkey \<Rightarrow> (operator_id \<times> pubkey) list \<Rightarrow> operator_id set \<Rightarrow> collector_message_kind \<Rightarrow> bool" where
  "honest_messages env root vpk shares H m \<longleftrightarrow>
     (case m of
        RegisterNotifier _ c t pk \<Rightarrow> c = None \<and> unat t = quorum_size (length shares) \<and> pk = vpk
      | PartialSignature i sig c \<Rightarrow>
          i \<in> H \<longrightarrow> share_is_valid env (map_of shares) root (i, \<lparr>cs_signature = sig, cs_companion_roots = []\<rparr>))"

lemma share_is_valid_roots: "share_is_valid env keys root (i, share) \<longleftrightarrow>
    share_is_valid env keys root (i, \<lparr>cs_signature = cs_signature share, cs_companion_roots = []\<rparr>)"
  by (simp add: share_is_valid_def split: option.split)

definition senders_of :: "collector_message_kind \<Rightarrow> operator_id set" where
  "senders_of m = (case m of PartialSignature i _ _ \<Rightarrow> {i} | _ \<Rightarrow> {})"

definition is_registration :: "collector_message_kind \<Rightarrow> bool" where
  "is_registration m = (case m of RegisterNotifier _ _ _ _ \<Rightarrow> True | _ \<Rightarrow> False)"

text \<open>The shares of the honest operators are valid, and those that have arrived are kept.\<close>

definition shares_kept ::
    "('f, 's, 'pk) bls_env \<Rightarrow> hash256 \<Rightarrow> (operator_id \<times> pubkey) list \<Rightarrow> operator_id set \<Rightarrow> operator_id set
     \<Rightarrow> 'pk signature_collector_state \<Rightarrow> bool" where
  "shares_kept env root shares H arrived s \<longleftrightarrow>
     (\<forall>x \<in> set (sgc_signature_share s). fst x \<in> H \<longrightarrow> share_is_valid env (map_of shares) root x)
     \<and> arrived \<subseteq> fst ` set (sgc_signature_share s)"

definition registered_for :: "pubkey \<Rightarrow> (operator_id \<times> pubkey) list \<Rightarrow> 'pk signature_collector_state \<Rightarrow> bool" where
  "registered_for vpk shares s \<longleftrightarrow>
     (\<forall>r. sgc_registration s = Some r \<longrightarrow> cg_validator_pubkey r = vpk \<and> unat (cg_threshold r) = quorum_size (length shares)
        \<and> cg_required_companion r = None)"

definition collecting ::
    "('f, 's, 'pk) bls_env \<Rightarrow> hash256 \<Rightarrow> pubkey \<Rightarrow> (operator_id \<times> pubkey) list \<Rightarrow> bytes \<Rightarrow> operator_id set \<Rightarrow> operator_id set
     \<Rightarrow> 'pk signature_collector_state \<Rightarrow> bool" where
  "collecting env root vpk shares full H arrived s \<longleftrightarrow>
     collector_inv env root s \<and> registered_for vpk shares s
     \<and> (sgc_full_signature s = Some full
        \<or> sgc_full_signature s = None \<and> shares_kept env root shares H arrived s
          \<and> (sgc_registration s \<noteq> None \<longrightarrow> length (sgc_signature_share s) < quorum_size (length shares)))"

lemma collecting_new: "collecting env root vpk shares full H {} (collector_state_new root)"
  by (simp add: collecting_def registered_for_def shares_kept_def) (simp add: collector_state_new_def)

lemma collecting_step:
  assumes c: "signing_committee smul1 key_validate env root vpk shares full"
    and inv: "collector_inv env root s" "registered_for vpk shares s"
    and full: "sgc_full_signature s = Some full \<or> sgc_full_signature s = None \<and> shares_kept env root shares H arrived s"
    and fetch: "fetch vpk = Some (map_of shares)" and honest: "arrived \<subseteq> H"
  shows "\<exists>s'. reconstruct_step env fetch s = (s', Continue) \<and> collecting env root vpk shares full H arrived s'
    \<and> sgc_registration s' = sgc_registration s"
proof -
  obtain s' flow where run: "reconstruct_step env fetch s = (s', flow)" by (metis surj_pair)
  have inv': "collector_inv env root s'" using reconstruct_step_inv [OF inv(1), of fetch] run by simp
  have reg: "sgc_registration s' = sgc_registration s" using reconstruct_step_registration [of env fetch s] run by simp
  then have for': "registered_for vpk shares s'" using inv(2) by (simp add: registered_for_def)
  show ?thesis
  proof (cases "sgc_full_signature s = None \<and> sgc_registration s \<noteq> None")
    case True
    then obtain r where r: "sgc_registration s = Some r" by blast
    have "cg_validator_pubkey r = vpk" "unat (cg_threshold r) = quorum_size (length shares)"
      using inv(2) r by (simp_all add: registered_for_def)
    from committee_step [of smul1 key_validate env root vpk shares full s r fetch, OF c inv(1) _ r this fetch] True run
    have flow: "flow = Continue" and dich: "sgc_full_signature s' = Some full
        \<or> sgc_full_signature s' = None \<and> length (sgc_signature_share s') < quorum_size (length shares)
          \<and> set (sgc_signature_share s') \<subseteq> set (sgc_signature_share s)
          \<and> (\<forall>x \<in> set (sgc_signature_share s). share_is_valid env (map_of shares) root x \<longrightarrow> x \<in> set (sgc_signature_share s'))"
      by auto
    have kept: "shares_kept env root shares H arrived s" using full True by simp
    have "shares_kept env root shares H arrived s'" if "sgc_full_signature s' = None"
    proof -
      have sub: "set (sgc_signature_share s') \<subseteq> set (sgc_signature_share s)"
        and keep: "\<forall>x \<in> set (sgc_signature_share s). share_is_valid env (map_of shares) root x \<longrightarrow> x \<in> set (sgc_signature_share s')"
        using dich that by simp_all
      have "i \<in> fst ` set (sgc_signature_share s')" if i: "i \<in> arrived" for i
      proof -
        obtain x where x: "x \<in> set (sgc_signature_share s)" "fst x = i" using kept i unfolding shares_kept_def by blast
        then have "share_is_valid env (map_of shares) root x" using kept honest i unfolding shares_kept_def by blast
        then show ?thesis using keep x by blast
      qed
      then show ?thesis using sub kept unfolding shares_kept_def by blast
    qed
    then have "collecting env root vpk shares full H arrived s'"
      using dich inv' for' by (auto simp: collecting_def)
    then show ?thesis using run flow reg by simp
  next
    case False
    then have "try_reconstruct env s = Ok None" by (auto simp: try_reconstruct_def)
    then have s': "s' = s" and "flow = Continue" using run by (simp_all add: reconstruct_step_def)
    moreover have "collecting env root vpk shares full H arrived s"
      using False full inv unfolding collecting_def by auto
    ultimately show ?thesis using run by simp
  qed
qed

lemma add_partial_signature_kept:
  assumes kept: "shares_kept env root shares H arrived s" and none: "sgc_full_signature s = None"
    and companion: "Option.bind (sgc_registration s) cg_required_companion = None"
    and valid: "i \<in> H \<Longrightarrow> share_is_valid env (map_of shares) root (i, \<lparr>cs_signature = sig, cs_companion_roots = []\<rparr>)"
  shows "shares_kept env root shares H (insert i arrived) (add_partial_signature i sig c s)"
proof (cases "map_of (sgc_signature_share s) i")
  case None
  then have "sgc_signature_share (add_partial_signature i sig c s) =
      sgc_signature_share s @ [(i, \<lparr>cs_signature = sig, cs_companion_roots = [c, None]\<rparr>)]"
    using none companion by (simp add: add_partial_signature_def)
  moreover have "share_is_valid env (map_of shares) root (i, \<lparr>cs_signature = sig, cs_companion_roots = [c, None]\<rparr>)" if "i \<in> H"
    using valid [OF that] by (subst share_is_valid_roots) simp
  ultimately show ?thesis using kept by (auto simp: shares_kept_def)
next
  case (Some share)
  have i: "i \<in> fst ` set (sgc_signature_share s)" using map_of_SomeD [OF Some] by force
  have entry: "shares_kept env root shares H (insert i arrived)
      (s\<lparr>sgc_signature_share := AList.map_entry i (\<lambda>sh. sh\<lparr>cs_companion_roots := f sh\<rparr>) (sgc_signature_share s)\<rparr>)" for f
  proof -
    let ?xs = "AList.map_entry i (\<lambda>sh. sh\<lparr>cs_companion_roots := f sh\<rparr>) (sgc_signature_share s)"
    have fst: "fst ` set ?xs = fst ` set (sgc_signature_share s)" by (metis list.set_map map_entry_fst)
    have same: "\<exists>y \<in> set xs. fst y = fst x \<and> cs_signature (snd y) = cs_signature (snd x)"
      if "x \<in> set (AList.map_entry i (\<lambda>sh. sh\<lparr>cs_companion_roots := f sh\<rparr>) xs)" for x xs
      using that by (induction xs) (auto split: if_splits)
    have "share_is_valid env (map_of shares) root x" if x: "x \<in> set ?xs" "fst x \<in> H" for x
    proof -
      obtain y where y: "y \<in> set (sgc_signature_share s)" "fst y = fst x" "cs_signature (snd y) = cs_signature (snd x)"
        using same [OF x(1)] by blast
      then have "share_is_valid env (map_of shares) root y" using kept x(2) by (simp add: shares_kept_def)
      then show ?thesis using y(2,3) by (simp add: share_is_valid_def split: option.splits)
    qed
    then show ?thesis using kept i fst by (simp add: shares_kept_def)
  qed
  have "shares_kept env root shares H (insert i arrived) s" using kept i by (simp add: shares_kept_def)
  then show ?thesis
    using entry Some none companion by (auto simp: add_partial_signature_def split: option.split)
qed

lemma queue_notifier_fields [simp]:
  "sgc_signature_share (queue_notifier n s) = sgc_signature_share s"
  "sgc_full_signature (queue_notifier n s) = sgc_full_signature s"
  "sgc_registration (queue_notifier n s) = sgc_registration s"
  by (auto simp: queue_notifier_def split: option.split)

lemma honest_register:
  assumes c: "signing_committee smul1 key_validate env root vpk shares full"
    and reg: "registered_for vpk shares s" and t: "unat t = quorum_size (length shares)"
  shows "\<exists>s'. register_request env n t vpk None s = (s', Continue) \<and> registered_for vpk shares s' \<and> sgc_registration s' \<noteq> None
    \<and> sgc_signature_share s' = sgc_signature_share s \<and> sgc_full_signature s' = sgc_full_signature s"
proof (cases "sgc_registration s")
  case (Some r)
  then have "cg_validator_pubkey r = vpk" "cg_threshold r = t" "cg_required_companion r = None"
    using reg t by (simp_all add: registered_for_def word_unat_eq_iff)
  then show ?thesis using Some reg by (simp add: register_request_def registered_for_def)
next
  case None
  obtain d where "bl_decompress env vpk = Some d" using c unfolding signing_committee_def signs_as_def by blast
  then show ?thesis using None t by (simp add: register_request_def registered_for_def)
qed

lemma shares_kept_mono: "shares_kept env root shares H arrived s \<Longrightarrow> arrived' \<subseteq> arrived \<Longrightarrow> shares_kept env root shares H arrived' s"
  by (auto simp: shares_kept_def)

lemma add_partial_signature_full: "sgc_full_signature (add_partial_signature i sig c s) = sgc_full_signature s"
  by (auto simp: add_partial_signature_def split: option.split)

lemma collecting_turn:
  assumes c: "signing_committee smul1 key_validate env root vpk shares full"
    and col: "collecting env root vpk shares full H arrived s" and honest: "arrived \<subseteq> H"
    and m: "honest_messages env root vpk shares H m" and fetch: "fetch vpk = Some (map_of shares)"
  shows "\<exists>s'. collector_turn env fetch s m = (s', Continue)
    \<and> collecting env root vpk shares full H (arrived \<union> (senders_of m \<inter> H)) s'
    \<and> (sgc_registration s \<noteq> None \<or> is_registration m \<longrightarrow> sgc_registration s' \<noteq> None)"
proof -
  have inv: "collector_inv env root s" and reg: "registered_for vpk shares s"
    and state: "sgc_full_signature s = Some full \<or> sgc_full_signature s = None \<and> shares_kept env root shares H arrived s"
    using col unfolding collecting_def by blast+
  show ?thesis
  proof (cases m)
    case (RegisterNotifier n rc t pk)
    with m have eq: "rc = None" "unat t = quorum_size (length shares)" "pk = vpk" by (simp_all add: honest_messages_def)
    obtain s1 where s1: "register_request env n t vpk None s = (s1, Continue)" "registered_for vpk shares s1"
      "sgc_registration s1 \<noteq> None" "sgc_signature_share s1 = sgc_signature_share s" "sgc_full_signature s1 = sgc_full_signature s"
      using honest_register [OF c reg eq(2)] by blast
    have "collector_inv env root s1" using register_request_inv [OF inv, of n t vpk None] s1(1) by simp
    moreover have "sgc_full_signature s1 = Some full \<or> sgc_full_signature s1 = None \<and> shares_kept env root shares H arrived s1"
      using state s1(4,5) by (simp add: shares_kept_def)
    ultimately obtain s' where "reconstruct_step env fetch s1 = (s', Continue)" "collecting env root vpk shares full H arrived s'"
      "sgc_registration s' = sgc_registration s1"
      using collecting_step [OF c, of s1 H arrived fetch] s1(2) fetch honest by blast
    then show ?thesis using RegisterNotifier eq s1(1,3) by (simp add: collector_turn_def senders_of_def)
  next
    case (PartialSignature i sig rc)
    let ?s = "add_partial_signature i sig rc s"
    let ?arrived = "arrived \<union> ({i} \<inter> H)"
    have "registered_for vpk shares ?s" using reg by (simp add: registered_for_def registration_kept)
    moreover have "sgc_full_signature ?s = Some full \<or> sgc_full_signature ?s = None \<and> shares_kept env root shares H ?arrived ?s"
    proof -
      have "Option.bind (sgc_registration s) cg_required_companion = None"
        using reg by (cases "sgc_registration s") (simp_all add: registered_for_def)
      moreover have "i \<in> H \<Longrightarrow> share_is_valid env (map_of shares) root (i, \<lparr>cs_signature = sig, cs_companion_roots = []\<rparr>)"
        using m PartialSignature by (simp add: honest_messages_def)
      ultimately have "sgc_full_signature s = None \<Longrightarrow> shares_kept env root shares H arrived s \<Longrightarrow>
          shares_kept env root shares H (insert i arrived) ?s"
        by (intro add_partial_signature_kept) simp_all
      then show ?thesis using state shares_kept_mono [of env root shares H "insert i arrived" ?s ?arrived]
        by (auto simp: add_partial_signature_full)
    qed
    moreover have "collector_inv env root ?s" by (rule add_partial_signature_inv [OF inv])
    ultimately obtain s' where "reconstruct_step env fetch ?s = (s', Continue)" "collecting env root vpk shares full H ?arrived s'"
      "sgc_registration s' = sgc_registration ?s"
      using collecting_step [OF c, of ?s H ?arrived fetch] fetch honest by blast
    then show ?thesis
      using PartialSignature by (simp add: collector_turn_def senders_of_def is_registration_def registration_kept)
  qed
qed

lemma collecting_loop:
  assumes c: "signing_committee smul1 key_validate env root vpk shares full"
    and "collecting env root vpk shares full H arrived s" "arrived \<subseteq> H"
    and "\<forall>m \<in> set ms. honest_messages env root vpk shares H (fst m) \<and> snd m vpk = Some (map_of shares)"
  shows "\<exists>s'. signature_collector_loop env ms s = (s', Continue)
    \<and> collecting env root vpk shares full H (arrived \<union> ((\<Union>m \<in> set ms. senders_of (fst m)) \<inter> H)) s'
    \<and> (sgc_registration s \<noteq> None \<or> (\<exists>m \<in> set ms. is_registration (fst m)) \<longrightarrow> sgc_registration s' \<noteq> None)"
  using assms(2-)
proof (induction ms arbitrary: s arrived)
  case (Cons m ms)
  obtain message fetch where m: "m = (message, fetch)" by (cases m)
  obtain s1 where s1: "collector_turn env fetch s message = (s1, Continue)"
    "collecting env root vpk shares full H (arrived \<union> (senders_of message \<inter> H)) s1"
    "sgc_registration s \<noteq> None \<or> is_registration message \<longrightarrow> sgc_registration s1 \<noteq> None"
    using collecting_turn [OF c Cons.prems(1,2), of message fetch] Cons.prems(3) by (auto simp: m)
  have "arrived \<union> (senders_of message \<inter> H) \<subseteq> H" using Cons.prems(2) by blast
  from Cons.IH [OF s1(2) this] Cons.prems(3)
  obtain s' where s': "signature_collector_loop env ms s1 = (s', Continue)"
    "collecting env root vpk shares full H (arrived \<union> (senders_of message \<inter> H) \<union> ((\<Union>m \<in> set ms. senders_of (fst m)) \<inter> H)) s'"
    "sgc_registration s1 \<noteq> None \<or> (\<exists>m \<in> set ms. is_registration (fst m)) \<longrightarrow> sgc_registration s' \<noteq> None" by auto
  have "arrived \<union> (senders_of message \<inter> H) \<union> ((\<Union>m \<in> set ms. senders_of (fst m)) \<inter> H) =
      arrived \<union> ((\<Union>m \<in> set (m # ms). senders_of (fst m)) \<inter> H)" by (auto simp: m)
  then show ?case using s1 s' by (auto simp: m)
qed simp

lemma honest_quorum_collects:
  assumes c: "signing_committee smul1 key_validate env root vpk shares full"
    and ms: "\<forall>m \<in> set ms. honest_messages env root vpk shares H (fst m) \<and> snd m vpk = Some (map_of shares)"
    and reg: "\<exists>m \<in> set ms. is_registration (fst m)" and H: "H \<subseteq> (\<Union>m \<in> set ms. senders_of (fst m))"
    and quorum: "quorum_size (length shares) \<le> card H"
  shows "\<exists>s. signature_collector_loop env ms (collector_state_new root) = (s, Continue) \<and> sgc_full_signature s = Some full
    \<and> sgc_sent s = map (\<lambda>n. (n, full)) (concat (map (\<lambda>m. notifiers_of (fst m)) ms))"
proof -
  have all: "{} \<union> ((\<Union>m \<in> set ms. senders_of (fst m)) \<inter> H) = H" using H by blast
  obtain s where s: "signature_collector_loop env ms (collector_state_new root) = (s, Continue)"
    "collecting env root vpk shares full H H s" "sgc_registration s \<noteq> None"
    using collecting_loop [OF c collecting_new empty_subsetI ms] reg unfolding all by blast
  have inv: "collector_inv env root s" using s(2) by (simp add: collecting_def)
  have full: "sgc_full_signature s = Some full"
  proof (rule ccontr)
    assume "sgc_full_signature s \<noteq> Some full"
    then have "H \<subseteq> fst ` set (sgc_signature_share s)" "length (sgc_signature_share s) < quorum_size (length shares)"
      using s(2,3) by (simp_all add: collecting_def shares_kept_def)
    moreover from this(1) have "card H \<le> card (fst ` set (sgc_signature_share s))" by (intro card_mono) simp_all
    moreover have "card (fst ` set (sgc_signature_share s)) \<le> length (sgc_signature_share s)"
      by (metis card_length length_map list.set_map)
    ultimately show False using quorum by linarith
  qed
  have "task_order s = concat (map (\<lambda>m. notifiers_of (fst m)) ms)"
    using loop_order [OF collector_inv_new s(1)] by (simp add: task_order_def collector_state_new_def)
  moreover have "sgc_notifiers s = []" and sent: "\<forall>p \<in> set (sgc_sent s). snd p = full"
    using inv full by (simp_all add: collector_inv_def)
  ultimately have "map fst (sgc_sent s) = concat (map (\<lambda>m. notifiers_of (fst m)) ms)" by (simp add: task_order_def)
  moreover have "map (\<lambda>n. (n, full)) (map fst (sgc_sent s)) = sgc_sent s"
    unfolding map_map by (rule map_idI) (use sent in \<open>simp add: prod_eq_iff\<close>)
  ultimately have "sgc_sent s = map (\<lambda>n. (n, full)) (concat (map (\<lambda>m. notifiers_of (fst m)) ms))" by metis
  then show ?thesis using s(1) full by simp
qed

end
