(* ===== verification/Collector_System.thy ===== *)
theory Collector_System
  imports Collector_Manager Collector_Proofs "HOL-Library.Sublist"
begin

text \<open>
  The manager in its surroundings: requests hand over work at any time, the processor runs the
  pending work in any order and may drop work that a closure hands over, collectors and the
  cleaner take turns, and time passes. What the manager guarantees for all these runs: a message
  that peers accept only once is not sent twice, not even by a callback that comes after the
  cleanup of its record.
\<close>

section \<open>Runs\<close>

record 'pk collector_system =
  sy_manager :: "'pk collector_manager"
  sy_pending :: "work list"
  sy_now :: "slot option"

definition system_start :: "slot option \<Rightarrow> 'pk collector_system" where
  "system_start now = \<lparr>sy_manager = collector_manager_new, sy_pending = [], sy_now = now\<rparr>"

text \<open>The clock does not run backwards; before genesis it shows nothing.\<close>

definition later :: "slot option \<Rightarrow> slot option \<Rightarrow> bool" where
  "later now now' = (case now of None \<Rightarrow> True | Some a \<Rightarrow> (case now' of None \<Rightarrow> False | Some b \<Rightarrow> a \<le> b))"

inductive collector_reach ::
    "('f::field, 's::ab_group_add, 'pk) collector_env \<Rightarrow> slot option \<Rightarrow> 'pk collector_system \<Rightarrow> bool"
  for env now0 where
  start: "collector_reach env now0 (system_start now0)"
| submit: "collector_reach env now0 s \<Longrightarrow> collector_reach env now0 (s\<lparr>sy_pending := sy_pending s @ ws\<rparr>)"
| run: "collector_reach env now0 s \<Longrightarrow> sy_pending s = before @ w # after \<Longrightarrow> ci_now ci = sy_now s \<Longrightarrow>
    run_work env ci w (sy_manager s) = (m, ws) \<Longrightarrow> subseq ws' ws \<Longrightarrow>
    collector_reach env now0 (s\<lparr>sy_manager := m, sy_pending := before @ after @ ws'\<rparr>)"
| turn: "collector_reach env now0 s \<Longrightarrow>
    collector_reach env now0 (s\<lparr>sy_manager := run_collector env fetch key (sy_manager s)\<rparr>)"
| clean: "collector_reach env now0 s \<Longrightarrow>
    collector_reach env now0 (s\<lparr>sy_manager := cleaner_turn env (sy_now s) (sy_manager s)\<rparr>)"
| tick: "collector_reach env now0 s \<Longrightarrow> later (sy_now s) now' \<Longrightarrow> collector_reach env now0 (s\<lparr>sy_now := now'\<rparr>)"

definition slot_sub_mono :: "chain \<Rightarrow> bool" where
  "slot_sub_mono C \<longleftrightarrow> (\<forall>a b c. a \<le> b \<longrightarrow> ch_slot_saturating_sub C a c \<le> ch_slot_saturating_sub C b c)"

lemma stale_later:
  assumes "slot_sub_mono (me_chain env)" "later now now'" "is_stale_slot env now slot"
  shows "is_stale_slot env now' slot"
  using assms by (auto simp: is_stale_slot_def later_def slot_sub_mono_def split: option.splits intro: less_le_trans)

section \<open>Work leaves the batches of others alone\<close>

lemma get_or_spawn_batches [simp]:
  "scm_committee_batches (get_or_spawn ci root index slot m) = scm_committee_batches m"
  "scm_single_validator_batches (get_or_spawn ci root index slot m) = scm_single_validator_batches m"
  "scm_attempts (get_or_spawn ci root index slot m) = scm_attempts m"
  by (simp_all add: get_or_spawn_def split: option.split)

lemma send_to_collector_batches [simp]:
  "scm_committee_batches (fst (send_to_collector key msg m)) = scm_committee_batches m"
  "scm_single_validator_batches (fst (send_to_collector key msg m)) = scm_single_validator_batches m"
  "scm_attempts (fst (send_to_collector key msg m)) = scm_attempts m"
  by (simp_all add: send_to_collector_def split: option.split)

lemma run_collector_batches [simp]:
  "scm_committee_batches (run_collector env fetch key m) = scm_committee_batches m"
  "scm_single_validator_batches (run_collector env fetch key m) = scm_single_validator_batches m"
  "scm_attempts (run_collector env fetch key m) = scm_attempts m"
  by (simp_all add: run_collector_def split: option.split list.split prod.split)

lemma attempt_batches [simp]:
  "scm_committee_batches (attempt ci source md ex msg m) = scm_committee_batches m"
  "scm_single_validator_batches (attempt ci source md ex msg m) = scm_single_validator_batches m"
  "scm_attempts (attempt ci source md ex msg m) = scm_attempts m @
     [\<lparr>at_source = source, at_metadata = md, at_executor = ex, at_message = msg, at_admitted = ci_admits ci\<rparr>]"
  by (simp_all add: attempt_def)

lemma take_ready_others [simp]:
  "scm_single_validator_batches (fst (take_ready_committee_batch env ci md sz h msg m)) = scm_single_validator_batches m"
  "scm_attempts (fst (take_ready_committee_batch env ci md sz h msg m)) = scm_attempts m"
  by (simp_all add: take_ready_committee_batch_def Let_def split: option.split)

section \<open>Committee post-consensus\<close>

definition is_committee_post :: "slot \<Rightarrow> committee_id \<Rightarrow> send_attempt \<Rightarrow> bool" where
  "is_committee_post slot c a \<longleftrightarrow> at_source a = CommitteeSource \<and> md_role (at_metadata a) = Committee
     \<and> md_kind (at_metadata a) = PostConsensus \<and> md_slot (at_metadata a) = slot \<and> md_committee_id (at_metadata a) = c"

text \<open>The record of a batch that has had its attempt.\<close>

definition consumed :: "slot \<Rightarrow> committee_id \<Rightarrow> 'pk collector_manager \<Rightarrow> bool" where
  "consumed slot c m \<longleftrightarrow> (\<exists>b. scm_committee_batches m (CommitteePostConsensus slot c) = Some b \<and> cb_signatures b = None)"

definition slots_match :: "'pk collector_manager \<Rightarrow> bool" where
  "slots_match m \<longleftrightarrow> (\<forall>slot c b. scm_committee_batches m (CommitteePostConsensus slot c) = Some b \<longrightarrow> cb_for_slot b = slot)"

definition committee_once :: "('f, 's, 'pk) collector_env \<Rightarrow> slot option \<Rightarrow> 'pk collector_manager \<Rightarrow> bool" where
  "committee_once env now m \<longleftrightarrow> slots_match m
     \<and> (\<forall>slot c. filter (is_committee_post slot c) (scm_attempts m) \<noteq> [] \<longrightarrow>
          length (filter (is_committee_post slot c) (scm_attempts m)) = 1 \<and> (consumed slot c m \<or> is_stale_slot env now slot))"

lemma take_ready_slots:
  assumes "slots_match m" "take_ready_committee_batch env ci md sz h msg m = (m', r)"
  shows "slots_match m'"
  using assms unfolding take_ready_committee_batch_def slots_match_def
  by (auto simp: Let_def split: option.splits if_splits)

lemma take_ready_consumed:
  assumes "take_ready_committee_batch env ci md sz h msg m = (m', r)" "consumed slot c m"
  shows "consumed slot c m'"
  using assms unfolding take_ready_committee_batch_def consumed_def
  by (auto simp: Let_def split: option.splits if_splits)

lemma take_ready_once:
  assumes "take_ready_committee_batch env ci md sz h msg m = (m', Some sigs)"
    and "md_role md = Committee" "md_kind md = PostConsensus"
  shows "\<not> consumed (md_slot md) (md_committee_id md) m" "consumed (md_slot md) (md_committee_id md) m'"
    and "\<not> is_stale_slot env (ci_now ci) (md_slot md)"
  using assms unfolding take_ready_committee_batch_def consumed_def
  by (auto simp: Let_def split: option.splits if_splits)

text \<open>Signing is the only work that touches the outgoing batches.\<close>

definition same_outgoing :: "'pk collector_manager \<Rightarrow> 'pk collector_manager \<Rightarrow> bool" where
  "same_outgoing m m' \<longleftrightarrow> scm_committee_batches m' = scm_committee_batches m
     \<and> scm_single_validator_batches m' = scm_single_validator_batches m \<and> scm_attempts m' = scm_attempts m"

lemma run_work_outgoing:
  assumes "run_work env ci w m = (m', ws)"
  shows "same_outgoing m m' \<or> (\<exists>md rq data signer. w = SignWork md rq data signer)
    \<or> (\<exists>md ex msg. m' = attempt ci ProposerSource md ex msg m)"
proof -
  have send: "same_outgoing m m1" if "send_to_collector key msg (get_or_spawn ci root index slot m) = (m1, b)" for key msg root index slot m1 b
    using send_to_collector_batches [of key msg "get_or_spawn ci root index slot m"] that by (simp add: same_outgoing_def)
  show ?thesis
  proof (cases w)
    case (ProposerRegisterWork md pk regs block envelope signer)
    then show ?thesis using assms
      by (auto simp: run_proposer_register_work_def same_outgoing_def split: list.splits prod.splits if_splits bool.splits dest!: send)
  next
    case (ProposerSignWork md pk block envelope signer)
    then show ?thesis using assms
      by (auto simp: run_proposer_sign_work_def Let_def same_outgoing_def split: if_splits outcome.splits)
  qed (use assms in \<open>auto simp: run_register_work_def run_wait_work_def receive_partial_signature_with_companion_def
      same_outgoing_def split: if_splits option.splits\<close>)
qed

lemma committee_once_frame:
  assumes "committee_once env now m" "scm_committee_batches m' = scm_committee_batches m"
    and "\<And>slot c. filter (is_committee_post slot c) (scm_attempts m') = filter (is_committee_post slot c) (scm_attempts m)"
  shows "committee_once env now m'"
  using assms unfolding committee_once_def slots_match_def consumed_def by simp

lemma committee_once_same: "committee_once env now m \<Longrightarrow> same_outgoing m m' \<Longrightarrow> committee_once env now m'"
  by (simp add: committee_once_def same_outgoing_def slots_match_def consumed_def)

lemma committee_once_attempt:
  "committee_once env now m \<Longrightarrow> source \<noteq> CommitteeSource \<Longrightarrow> committee_once env now (attempt ci source md ex msg m)"
  by (simp add: committee_once_def slots_match_def consumed_def is_committee_post_def)

text \<open>The batches of single validators leave those of committees alone, and their attempts are their own.\<close>

lemma single_batch_effect:
  assumes "process_single_validator_batch env ci md pk descriptor data msg m = (m', injected)"
  shows "scm_committee_batches m' = scm_committee_batches m"
    and "scm_attempts m' = scm_attempts m \<or> (\<exists>out. scm_attempts m' = scm_attempts m @ [\<lparr>at_source = BatchSource, at_metadata = md,
      at_executor = ValidatorExecutor pk, at_message = out, at_admitted = ci_admits ci\<rparr>])"
  using assms unfolding process_single_validator_batch_def
  by (auto simp: Let_def split: if_splits option.splits prod.splits outcome.splits)

lemma committee_once_sign:
  assumes once: "committee_once env (ci_now ci) m" and run: "run_sign_work env ci md rq data signer m = (m', ws)"
  shows "committee_once env (ci_now ci) m'"
proof (cases rq)
  case (SingleValidator pk)
  then show ?thesis
    using run once by (auto simp: run_sign_work_def Let_def committee_once_attempt split: outcome.splits)
next
  case (SingleValidatorBatch pk subnet descriptor)
  obtain m1 injected where b: "process_single_validator_batch env ci md pk descriptor data
      (new_partial_signature_message (me_bls env) data (vs_root data) signer) m = (m1, injected)" by (metis surj_pair)
  then have "m' = m1" using run SingleValidatorBatch by (auto simp: run_sign_work_def Let_def)
  moreover have "filter (is_committee_post slot c) (scm_attempts m1) = filter (is_committee_post slot c) (scm_attempts m)" for slot c
    using single_batch_effect(2) [OF b] by (auto simp: is_committee_post_def)
  ultimately show ?thesis using committee_once_frame [OF once single_batch_effect(1) [OF b]] by simp
next
  case (CommitteeRequester sz h)
  obtain m1 r where t: "take_ready_committee_batch env ci md sz h
      (new_partial_signature_message (me_bls env) data (vs_root data) signer) m = (m1, r)" by (metis surj_pair)
  have slots: "slots_match m1" using take_ready_slots [OF _ t] once by (simp add: committee_once_def)
  have same: "scm_attempts m1 = scm_attempts m" using take_ready_others(2) t by (metis fst_conv)
  have once1: "committee_once env (ci_now ci) m1"
    using once slots take_ready_consumed [OF t] by (auto simp: committee_once_def same)
  show ?thesis
  proof (cases "\<exists>msg. m' = attempt ci CommitteeSource md (CommitteeExecutor (md_committee_id md)) msg m1 \<and> r \<noteq> None")
    case False
    then have "m' = m1" using run CommitteeRequester t
      by (auto simp: run_sign_work_def Let_def split: option.splits outcome.splits)
    then show ?thesis using once1 by simp
  next
    case True
    then obtain msg sigs where m': "m' = attempt ci CommitteeSource md (CommitteeExecutor (md_committee_id md)) msg m1"
      and r: "r = Some sigs" by blast
    let ?a = "\<lparr>at_source = CommitteeSource, at_metadata = md, at_executor = CommitteeExecutor (md_committee_id md),
      at_message = msg, at_admitted = ci_admits ci\<rparr>"
    have "filter (is_committee_post slot c) (scm_attempts m) = [] \<and> consumed slot c m1" if "is_committee_post slot c ?a" for slot c
    proof -
      have eq: "md_role md = Committee" "md_kind md = PostConsensus" "slot = md_slot md" "c = md_committee_id md"
        using that by (auto simp: is_committee_post_def)
      note o = take_ready_once [OF t [unfolded r] eq(1,2)]
      show ?thesis using once o eq(3,4) unfolding committee_once_def by blast
    qed
    then show ?thesis using once1 slots unfolding committee_once_def m'
      by (auto simp: same slots_match_def consumed_def)
  qed
qed

lemma cleaner_attempts [simp]: "scm_attempts (cleaner_turn env now m) = scm_attempts m"
  by (simp add: cleaner_turn_def remove_stale_entries_def split: option.split)

lemma committee_once_clean:
  assumes "committee_once env now m"
  shows "committee_once env now (cleaner_turn env now m)"
proof -
  have "consumed slot c (cleaner_turn env now m) \<or> is_stale_slot env now slot" if "consumed slot c m" for slot c
    using that assms by (auto simp: consumed_def committee_once_def slots_match_def cleaner_turn_def remove_stale_entries_def
        is_stale_slot_def split: option.splits)
  moreover have "slots_match (cleaner_turn env now m)"
    using assms by (auto simp: committee_once_def slots_match_def cleaner_turn_def remove_stale_entries_def split: option.splits if_splits)
  ultimately show ?thesis using assms unfolding committee_once_def by auto
qed

lemma reach_committee_once:
  assumes "collector_reach env now0 s" "slot_sub_mono (me_chain env)"
  shows "committee_once env (sy_now s) (sy_manager s)"
  using assms(1)
proof induction
  case start
  show ?case by (simp add: system_start_def collector_manager_new_def committee_once_def slots_match_def)
next
  case (run s before w after ci m ws ws')
  from run_work_outgoing [OF run.hyps(4)] consider "same_outgoing (sy_manager s) m"
    | md rq data signer where "w = SignWork md rq data signer"
    | md ex msg where "m = attempt ci ProposerSource md ex msg (sy_manager s)" by blast
  then show ?case
  proof cases
    case 1
    then show ?thesis using run.IH committee_once_same by auto
  next
    case 2
    then show ?thesis using run.IH run.hyps(3,4) committee_once_sign [of env ci "sy_manager s"] by simp
  next
    case 3
    have "committee_once env (sy_now s) m" unfolding 3 by (rule committee_once_attempt [OF run.IH]) simp
    then show ?thesis by simp
  qed
next
  case (turn s fetch key)
  then show ?case using committee_once_same [OF turn.IH] by (simp add: same_outgoing_def)
next
  case (clean s)
  then show ?case using committee_once_clean by simp
next
  case (tick s now')
  then show ?case using stale_later [OF assms(2) tick.hyps(2)] unfolding committee_once_def by auto
qed simp

lemma committee_post_at_most_once:
  assumes "collector_reach env now0 s" "slot_sub_mono (me_chain env)"
  shows "length (filter (is_committee_post slot c) (scm_attempts (sy_manager s))) \<le> 1"
  using reach_committee_once [OF assms] unfolding committee_once_def
  by (metis le_refl length_0_conv zero_le)

section \<open>Sync committee batches\<close>

definition is_admitted_batch :: "single_validator_batch_phase \<Rightarrow> slot \<Rightarrow> pubkey \<Rightarrow> send_attempt \<Rightarrow> bool" where
  "is_admitted_batch phase slot pk a \<longleftrightarrow> at_source a = BatchSource \<and> at_admitted a \<and> at_executor a = ValidatorExecutor pk
     \<and> md_slot (at_metadata a) = slot \<and> phase_from_kind (md_kind (at_metadata a)) = Some phase"

definition admitted :: "single_validator_batch_phase \<Rightarrow> slot \<Rightarrow> pubkey \<Rightarrow> 'pk collector_manager \<Rightarrow> bool" where
  "admitted phase slot pk m \<longleftrightarrow>
     (\<exists>r. scm_single_validator_batches m (phase, slot, pk) = Some r \<and> sb_state r = BatchAdmitted)"

definition batch_once :: "('f, 's, 'pk) collector_env \<Rightarrow> slot option \<Rightarrow> 'pk collector_manager \<Rightarrow> bool" where
  "batch_once env now m \<longleftrightarrow>
     (\<forall>phase slot pk. filter (is_admitted_batch phase slot pk) (scm_attempts m) \<noteq> [] \<longrightarrow>
        length (filter (is_admitted_batch phase slot pk) (scm_attempts m)) = 1
        \<and> (admitted phase slot pk m \<or> is_stale_slot env now slot))"

lemma batch_once_frame:
  assumes "batch_once env now m" "\<And>phase slot pk. admitted phase slot pk m \<Longrightarrow> admitted phase slot pk m'"
    and "\<And>phase slot pk. filter (is_admitted_batch phase slot pk) (scm_attempts m') = filter (is_admitted_batch phase slot pk) (scm_attempts m)"
  shows "batch_once env now m'"
  using assms unfolding batch_once_def by metis

text \<open>The record of the callback, new or found.\<close>

lemma single_batch_admission:
  assumes "process_single_validator_batch env ci md pk descriptor data msg m = (m', injected)"
  shows "admitted phase slot pk' m \<Longrightarrow> admitted phase slot pk' m'"
    and "scm_attempts m' \<noteq> scm_attempts m \<Longrightarrow> \<exists>p. phase_from_kind (md_kind md) = Some p \<and> \<not> admitted p (md_slot md) pk m
      \<and> \<not> is_stale_slot env (ci_now ci) (md_slot md) \<and> (ci_admits ci \<longrightarrow> admitted p (md_slot md) pk m')"
  using assms unfolding process_single_validator_batch_def admitted_def
  by (auto simp: Let_def split: if_splits option.splits prod.splits outcome.splits)

lemma batch_once_sign:
  assumes once: "batch_once env (ci_now ci) m" and run: "run_sign_work env ci md rq data signer m = (m', ws)"
  shows "batch_once env (ci_now ci) m'"
proof (cases rq)
  case (SingleValidator pk)
  have "batch_once env (ci_now ci) (attempt ci SingleSource md ex msg m)" for ex msg
    using once by (rule batch_once_frame) (simp_all add: admitted_def is_admitted_batch_def)
  then show ?thesis using SingleValidator run once by (auto simp: run_sign_work_def Let_def split: outcome.splits)
next
  case (CommitteeRequester sz h)
  obtain m1 r where t: "take_ready_committee_batch env ci md sz h
      (new_partial_signature_message (me_bls env) data (vs_root data) signer) m = (m1, r)" by (metis surj_pair)
  have "scm_attempts m1 = scm_attempts m" "scm_single_validator_batches m1 = scm_single_validator_batches m"
    using take_ready_others [of env ci md sz h _ m] t by (metis fst_conv)+
  then have "batch_once env (ci_now ci) m1" "batch_once env (ci_now ci) (attempt ci CommitteeSource md ex msg m1)" for ex msg
    using once by (auto intro!: batch_once_frame [OF once] simp: admitted_def is_admitted_batch_def)
  then show ?thesis using CommitteeRequester run t
    by (auto simp: run_sign_work_def Let_def split: option.splits outcome.splits)
next
  case (SingleValidatorBatch pk subnet descriptor)
  obtain injected where b: "process_single_validator_batch env ci md pk descriptor data
      (new_partial_signature_message (me_bls env) data (vs_root data) signer) m = (m', injected)"
    using run SingleValidatorBatch by (auto simp: run_sign_work_def Let_def split: prod.splits)
  note keep = single_batch_admission(1) [OF b]
  show ?thesis
  proof (cases "scm_attempts m' = scm_attempts m")
    case True
    then show ?thesis using keep by (intro batch_once_frame [OF once]) simp_all
  next
    case False
    obtain out where att: "scm_attempts m' = scm_attempts m @ [\<lparr>at_source = BatchSource, at_metadata = md,
        at_executor = ValidatorExecutor pk, at_message = out, at_admitted = ci_admits ci\<rparr>]"
      using single_batch_effect(2) [OF b] False by blast
    obtain p where p: "phase_from_kind (md_kind md) = Some p" "\<not> admitted p (md_slot md) pk m"
      "\<not> is_stale_slot env (ci_now ci) (md_slot md)" "ci_admits ci \<Longrightarrow> admitted p (md_slot md) pk m'"
      using single_batch_admission(2) [OF b False] by blast
    have none: "filter (is_admitted_batch p (md_slot md) pk) (scm_attempts m) = []"
      using once p(2,3) unfolding batch_once_def by blast
    show ?thesis unfolding batch_once_def
    proof (intro allI impI)
      fix phase slot pk'
      assume ne: "filter (is_admitted_batch phase slot pk') (scm_attempts m') \<noteq> []"
      show "length (filter (is_admitted_batch phase slot pk') (scm_attempts m')) = 1
          \<and> (admitted phase slot pk' m' \<or> is_stale_slot env (ci_now ci) slot)"
      proof (cases "ci_admits ci \<and> phase = p \<and> slot = md_slot md \<and> pk' = pk")
        case True
        then show ?thesis using none p by (simp add: att is_admitted_batch_def)
      next
        case False
        then have eq: "filter (is_admitted_batch phase slot pk') (scm_attempts m') = filter (is_admitted_batch phase slot pk') (scm_attempts m)"
          using p(1) by (auto simp: att is_admitted_batch_def)
        then show ?thesis using once ne keep unfolding batch_once_def eq by blast
      qed
    qed
  qed
qed

lemma reach_batch_once:
  assumes "collector_reach env now0 s" "slot_sub_mono (me_chain env)"
  shows "batch_once env (sy_now s) (sy_manager s)"
  using assms(1)
proof induction
  case start
  show ?case by (simp add: system_start_def collector_manager_new_def batch_once_def)
next
  case (run s before w after ci m ws ws')
  from run_work_outgoing [OF run.hyps(4)] consider "same_outgoing (sy_manager s) m"
    | md rq data signer where "w = SignWork md rq data signer"
    | md ex msg where "m = attempt ci ProposerSource md ex msg (sy_manager s)" by blast
  then have "batch_once env (sy_now s) m"
  proof cases
    case 1
    then show ?thesis by (intro batch_once_frame [OF run.IH]) (simp_all add: same_outgoing_def admitted_def)
  next
    case 2
    then show ?thesis using run.IH run.hyps(3,4) batch_once_sign [of env ci "sy_manager s"] by simp
  next
    case 3
    show ?thesis unfolding 3 by (rule batch_once_frame [OF run.IH]) (simp_all add: admitted_def is_admitted_batch_def)
  qed
  then show ?case by simp
next
  case (turn s fetch key)
  have "batch_once env (sy_now s) (run_collector env fetch key (sy_manager s))"
    by (rule batch_once_frame [OF turn.IH]) (simp_all add: admitted_def)
  then show ?case by simp
next
  case (clean s)
  have "admitted phase slot pk (cleaner_turn env (sy_now s) (sy_manager s)) \<or> is_stale_slot env (sy_now s) slot"
    if "admitted phase slot pk (sy_manager s)" for phase slot pk
    using that by (auto simp: admitted_def cleaner_turn_def remove_stale_entries_def is_stale_slot_def split: option.splits)
  then show ?case using clean.IH unfolding batch_once_def by simp blast
next
  case (tick s now')
  then show ?case using stale_later [OF assms(2) tick.hyps(2)] unfolding batch_once_def by simp blast
qed simp

lemma batch_admitted_at_most_once:
  assumes "collector_reach env now0 s" "slot_sub_mono (me_chain env)"
  shows "length (filter (is_admitted_batch phase slot pk) (scm_attempts (sy_manager s))) \<le> 1"
  using reach_batch_once [OF assms] unfolding batch_once_def
  by (metis le_refl length_0_conv zero_le)

end
