(* ===== verification/Collector_Demo.thy ===== *)
theory Collector_Demo
  imports Collector_System Bls_Demo Manager_Demo "HOL-Library.Countable"
begin

text \<open>
  Concrete runs of the signature collector: the threshold keys of the rational instance, where a
  signature of a root is the key itself and its encoding counts up to the number of the point, and
  a manager that gets two callbacks for the same committee and slot.
\<close>

section \<open>A committee with faulty operators\<close>

definition demo_bls :: "(rat, rat, rat) bls_env" where
  "demo_bls = \<lparr>bl_smul = bls_smul, bl_point = (\<lambda>bs. Some (from_nat (length bs))), bl_signature = (\<lambda>p. replicate (to_nat p) 0),
     bl_decompress = bls_key_validate, bl_verify = (\<lambda>sig pk root. from_nat (length sig) = pk), bl_sign = (\<lambda>share root. share),
     bl_empty = [], bl_order = rev\<rparr>"

definition demo_root :: hash256 where
  "demo_root = replicate 32 9"

definition demo_signature :: "rat \<Rightarrow> bytes" where
  "demo_signature p = replicate (to_nat p) 0"

definition demo_secret :: "u64 \<Rightarrow> rat" where
  "demo_secret i = scalar_of i * scalar_of i + 2 * scalar_of i + 5"

lemma demo_signing_committee:
  "signing_committee bls_smul bls_key_validate demo_bls demo_root [5] bls_shares (demo_signature 5)"
proof -
  have signs: "signs_as demo_bls demo_root pk p" if "bls_key_validate pk = Some p" for pk p
    using that by (auto simp: signs_as_def demo_bls_def)
  have "library_ok demo_bls" by (simp add: library_ok_def demo_bls_def)
  moreover have smul: "bl_smul demo_bls = bls_smul" by (simp add: demo_bls_def)
  moreover have "\<forall>s \<in> set bls_shares. bls_key_validate (snd s) = Some (bls_smul (demo_secret (fst s)) 1)
      \<and> signs_as demo_bls demo_root (snd s) (bls_smul (demo_secret (fst s)) 1)"
    by (auto simp: bls_shares_def bls_smul_def demo_secret_def bls_key_validate_def intro!: signs)
  moreover have "bls_key_validate [5] = Some (bls_smul 5 1)" by (simp add: bls_key_validate_def bls_smul_def)
  moreover have "signs_as demo_bls demo_root [5] (bls_smul 5 1)" by (rule signs) fact
  moreover have "demo_signature 5 = bl_signature demo_bls (bls_smul 5 1)" by (simp add: demo_signature_def demo_bls_def bls_smul_def)
  moreover have "distinct (map fst bls_shares)" by (simp add: bls_shares_def)
  ultimately show ?thesis
    unfolding signing_committee_def using bls_group bls_scalar_inj bls_valid
    by (metis zero_neq_one)
qed

text \<open>
  Operator 4 sends the signature of another key, operator 9 is not of the committee, and both come
  before the quorum of the honest ones is there.
\<close>

definition demo_collector_messages :: "(collector_message_kind \<times> (pubkey \<Rightarrow> (operator_id \<rightharpoonup> pubkey) option)) list" where
  "demo_collector_messages = map (\<lambda>m. (m, \<lambda>_. Some (map_of bls_shares)))
     [PartialSignature 2 (demo_signature 13) None, PartialSignature 4 (demo_signature 30) None,
      RegisterNotifier (Some 7) None 3 [5], PartialSignature 9 (demo_signature 1) None,
      PartialSignature 1 (demo_signature 8) None, PartialSignature 3 (demo_signature 20) None]"

lemma demo_honest:
  "\<forall>m \<in> set demo_collector_messages. honest_messages demo_bls demo_root [5] bls_shares {1, 2, 3} (fst m)
     \<and> snd m [5] = Some (map_of bls_shares)"
  by (simp add: demo_collector_messages_def honest_messages_def bls_shares_def bls_committee share_is_valid_def demo_bls_def
      bls_key_validate_def demo_signature_def)

section \<open>Two callbacks for one committee\<close>

definition demo_collector_env :: "(rat, rat, rat) collector_env" where
  "demo_collector_env = \<lparr>me_bls = demo_bls, me_fork_schedule = demo_schedule, me_chain = demo_chain, me_slots_per_epoch = 32,
     me_partial_as_ssz = (\<lambda>_. [1])\<rparr>"

definition demo_metadata :: signature_metadata where
  "demo_metadata = \<lparr>md_kind = PostConsensus, md_role = Committee, md_threshold = 3, md_slot = 5, md_committee_id = replicate 32 5\<rparr>"

definition demo_sign_work :: work where
  "demo_sign_work = SignWork demo_metadata (CommitteeRequester 1 demo_root)
     \<lparr>vs_root = demo_root, vs_index = 3, vs_validator_pubkey = [5], vs_share = None\<rparr> 1"

definition demo_circumstances :: circumstances where
  "demo_circumstances = \<lparr>ci_now = Some 5, ci_admits = True, ci_spawns = True\<rparr>"

definition demo_after :: "nat \<Rightarrow> rat collector_system" where
  "demo_after n = \<lparr>sy_manager = ((\<lambda>m. fst (run_work demo_collector_env demo_circumstances demo_sign_work m)) ^^ n) collector_manager_new,
     sy_pending = [], sy_now = Some 5\<rparr>"

lemma demo_after_reach: "collector_reach demo_collector_env (Some 5) (demo_after n)"
proof (induction n)
  case 0
  show ?case using collector_reach.start [of demo_collector_env "Some 5"] by (simp add: demo_after_def system_start_def)
next
  case (Suc n)
  obtain m ws where run: "run_work demo_collector_env demo_circumstances demo_sign_work (sy_manager (demo_after n)) = (m, ws)"
    by (metis surj_pair)
  have "collector_reach demo_collector_env (Some 5) ((demo_after n)\<lparr>sy_pending := sy_pending (demo_after n) @ [demo_sign_work]\<rparr>)"
    by (rule collector_reach.submit [OF Suc.IH])
  from collector_reach.run [OF this, of "[]" demo_sign_work "[]" demo_circumstances m ws "[]"] run
  have "collector_reach demo_collector_env (Some 5) ((demo_after n)\<lparr>sy_manager := m, sy_pending := []\<rparr>)"
    by (simp add: demo_after_def demo_circumstances_def)
  then show ?case using run by (simp add: demo_after_def)
qed

lemma demo_chain_mono: "slot_sub_mono (me_chain demo_collector_env)"
  by (auto simp: slot_sub_mono_def demo_collector_env_def demo_chain_def word_le_nat_alt unat_sub)

lemma demo_attempted: "scm_attempts (sy_manager (demo_after (Suc (Suc 0)))) \<noteq> []"
  by (simp add: demo_after_def demo_sign_work_def run_sign_work_def take_ready_committee_batch_def demo_metadata_def
      collector_manager_new_def is_stale_slot_def demo_circumstances_def demo_collector_env_def demo_chain_def
      SIGNATURE_COLLECTOR_RETAIN_SLOTS_def create_message_def domain_type_for_slot_def demo_schedule_def
      active_fork_config_def fork_config_new_def PARTIAL_SIGNATURE_MESSAGES_LEN_def ssv_message_new_def
      try_to_variable_list_def SSV_MESSAGE_DATA_LEN_def ssv_message_validate_def MAX_PARTIAL_SIGNATURE_MSGS_SIZE_def
      map_err_def expect_def attempt_def Let_def)

lemma demo_collected:
  "\<exists>s. signature_collector_loop demo_bls demo_collector_messages (collector_state_new demo_root) = (s, Continue)
    \<and> sgc_full_signature s = Some (demo_signature 5) \<and> sgc_sent s = [(7, demo_signature 5)]"
  using honest_quorum_collects [OF demo_signing_committee demo_honest]
  by (simp add: demo_collector_messages_def is_registration_def senders_of_def notifiers_of_def bls_shares_def bls_committee)

end
