(* ===== verification/Spec2Isabelle.thy ===== *)
theory Spec2Isabelle
  imports Validator_Demo Db_Demo Collector_Demo
begin

text \<open>
  \<^bold>\<open>Anchor: consensus, message validation, contract events, threshold keys and signature
  collection.\<close>

  Anchor is an SSV node: the key of an Ethereum validator is split among a committee of operators,
  who agree on every duty with QBFT and sign it together. A message from the network enters the
  message validator; an accepted one goes to the QBFT manager, which runs one task per instance, or
  to the signature collector. The contract's events go through the event processor into the
  database, from which the validator reads committees and keys.

  \<^bold>\<open>Conventions.\<close> Machine integers are \<open>64 word\<close>, \<open>16 word\<close> and \<open>8 word\<close>; bytes, hashes and keys are
  lists of bytes; times are natural numbers of nanoseconds. An operation that may fail returns
  \<open>'e + 'a\<close>; one that may also panic returns \<open>outcome\<close> (\<open>Ok\<close>, \<open>Err\<close>, \<open>Panic\<close>); one that changes
  its receiver returns the new state beside it. Logging and metrics are left out. Hashes, RSA, the
  SSZ codec, the BLS curve, the clock and the beacon node are parameters, gathered in the records
  \<open>codec\<close>, \<open>qbft_env\<close>, \<open>chain\<close>, \<open>crypto\<close>, \<open>slot_clock\<close>, \<open>duties_provider\<close>, \<open>validator_env\<close>,
  \<open>curve\<close>, \<open>eth_env\<close>, \<open>bls_env\<close> and \<open>collector_env\<close>; what a theorem needs of one is a hypothesis of it. No definition needs fuel:
  every loop of the source runs over a finite collection or is a step of a reactive task.

  \<^bold>\<open>Theories.\<close>

  \<^item> \<open>Anchor_Prelude\<close>: outcomes and their combinators, byte encodings, sorted maps, and the locales
    of invariants (\<open>step_invariant\<close>, \<open>step_monotone\<close>) that the components interpret.
  \<^item> \<open>Ssv_Types\<close> (\<open>common/ssv_types\<close>): sizes, rounds, identifiers, signed and partial signature
    messages with their validation and aggregation.
  \<^item> \<open>Qbft_Types\<close>, \<open>Msg_Container\<close>, \<open>Qbft\<close> (\<open>common/qbft\<close>): the instance as a record, one definition per
    method. \<open>Qbft_Inv\<close> and \<open>Qbft_Steps\<close>: what an instance may have sent and stored, kept by every step.
    \<open>Qbft_Agreement\<close>: a committee of instances refines voting with quorums that intersect in an honest
    operator, hence agreement. \<open>Qbft_Validity\<close>: decided values were proposed or accepted.
  \<^item> \<open>Qbft_Manager\<close> (\<open>qbft_manager\<close>): deadlines, the task that owns an instance, and the manager.
  \<^item> \<open>Fork_Schedule\<close> (\<open>common/fork\<close>): the schedule and its monitor.
  \<^item> \<open>Subnet_Routing\<close> (\<open>subnet_service\<close>): subnets, routing across forks, topics.
  \<^item> \<open>Validation_Failure\<close>, \<open>Duty_State\<close>, \<open>Message_Validator\<close>, \<open>Partial_Sig_Validator\<close>,
    \<open>Validator_Service\<close> (\<open>message_validator\<close>): the validator from the bytes of a message to its
    verdict and new state. \<open>Duty_State_Inv\<close>: counts and slots it keeps. \<open>Validator_Proofs\<close>: what an
    accepted message satisfies. \<open>Validator_Timing\<close>: its estimate of the round. \<open>Validator_Total\<close>: no
    panic.
  \<^item> \<open>Bls_Lagrange\<close> (\<open>common/bls_lagrange\<close>, \<open>ssv_types/src/share.rs\<close>): splitting, combining and checking
    keys, over any field acting on any commutative group (locale \<open>curve_group\<close>).
  \<^item> \<open>Multi_Index\<close>, \<open>Network_State\<close> (\<open>database\<close>): the map with four indexes, the in-memory state, its
    queries and pending updates. \<open>Network_Db\<close>: tables, statements, transactions and loading.
  \<^item> \<open>Event_Processor\<close> (\<open>eth\<close>): logs, handlers, one transaction per block.
  \<^item> \<open>Db_Inv\<close>, \<open>Db_State\<close>, \<open>Db_Steps\<close>: the invariant of the tables, and the relation between the tables and
    the in-memory state that the operations on a transaction keep; \<open>Db_Delete\<close>, \<open>Db_Insert\<close>: the two
    operations that move validators. \<open>Db_Blocks\<close>: the handlers and blocks keep both and never panic.
    \<open>Db_Load\<close>: loading from the tables builds a state in that relation. \<open>Db_Run\<close>: reachable
    processors, restarts, batches as sequences of blocks, and slashing registrations.
  \<^item> \<open>Signature_Collector\<close> (\<open>signature_collector\<close>): the task that collects one signature.
    \<open>Collector_Proofs\<close>: what it sends is verified, and an honest quorum is enough whatever the others
    send. \<open>Collector_Manager\<close>: the manager, its outgoing batches and its work. \<open>Collector_System\<close>: all
    interleavings of work, collectors, cleaner and clock, in which nothing is sent twice.
  \<^item> \<open>Qbft_Demo\<close>, \<open>Manager_Demo\<close>, \<open>Validator_Demo\<close>, \<open>Bls_Demo\<close>, \<open>Db_Demo\<close>,
    \<open>Collector_Demo\<close>: concrete runs, on which the theorems'
    hypotheses are shown to hold.

  \<^bold>\<open>Not modelled.\<close> Input and output: the network stack, RPC loops, command line, HTTP, logging and
  metrics. The async runtime and its queues appear as sequences of events. Beacon types and the
  duties built on them (\<open>validator_store\<close>) come from another project.
\<close>

section \<open>Consensus\<close>

text \<open>
  C1. Agreement across rounds. In a committee of 4, 7, 10 or 13 operators of which at most
  \<open>f\<close> are faulty, no two honest instances of the same height complete with different values,
  whatever the order, delay or loss of messages and however often rounds change. The hypothesis
  \<open>committee_run\<close> says that the honest operators run the instance with the same committee,
  height and leader function, that a round has at most one leader, that the message validator's
  two checks hold, and that an honest operator has itself sent, in this instance, whatever a
  received message or one of its justifications attests under its name.
\<close>

theorem qbft_agreement:
  assumes "committee_run cdc com height lf H nodes" and "a \<in> H" and "b \<in> H"
    and "qb_completed (node_state (nodes a)) = Some (Success x)"
    and "qb_completed (node_state (nodes b)) = Some (Success y)"
  shows "x = y"
  using assms by (rule completed_agree)

theorem qbft_agreement_witness:
  "committee_run demo_codec demo_committee 5 demo_leader {1, 2, 3} demo_node
   \<and> qb_completed (node_state (demo_node 1)) = Some (Success [7])
   \<and> qb_completed (node_state (demo_node 3)) = Some (Success [7])
   \<and> [7] = ([7] :: bytes)"
proof (intro conjI)
  show run: "committee_run demo_codec demo_committee 5 demo_leader {1, 2, 3} demo_node" by (rule demo_run)
  show one: "qb_completed (node_state (demo_node 1)) = Some (Success [7])" by (simp add: demo_completed)
  show three: "qb_completed (node_state (demo_node 3)) = Some (Success [7])" by (simp add: demo_completed)
  show "[7] = ([7] :: bytes)" by (rule qbft_agreement [OF run _ _ one three]) simp_all
qed

section \<open>Instance tasks and the manager\<close>

text \<open>
  C2. Agreement of what the managers hand to their callers. The honest operators of a committee
  run an instance through \<open>decide_instance\<close>, with the same fork schedule and epoch length; each
  task buffers messages until it is initialized, replays them, ends rounds on its own clock and may
  be asked by several callers. Two tasks that report a decision report values of the same hash,
  when the full data of every message hashes to its root, which the message validator checks.
\<close>

theorem manager_agreement:
  assumes "managed_run cdc com i H mgs ess" and "a \<in> H" and "b \<in> H"
    and "tk_instance (task_run (ess a)) = Decided (Success x)"
    and "tk_instance (task_run (ess b)) = Decided (Success y)"
    and "\<And>s w now. s \<in> H \<Longrightarrow> NetworkMessage w now \<in> set (ess s) \<Longrightarrow>
      full_data_bound (nd_env (task_node (ess s))) w"
  shows "qe_hash (nd_env (task_node (ess a))) x = qe_hash (nd_env (task_node (ess b))) y"
  using assms by (rule managed_agree)

theorem manager_agreement_witness:
  "managed_run demo_codec demo_committee demo_instance {1, 2, 3} demo_manager demo_task_events
   \<and> tk_instance (task_run (demo_task_events 1)) = Decided (Success [7])
   \<and> tk_instance (task_run (demo_task_events 3)) = Decided (Success [7])
   \<and> qe_hash (nd_env (task_node (demo_task_events 1))) [7] = qe_hash (nd_env (task_node (demo_task_events 3))) [7]"
proof (intro conjI)
  show run: "managed_run demo_codec demo_committee demo_instance {1, 2, 3} demo_manager demo_task_events"
    by (rule demo_managed_run)
  show one: "tk_instance (task_run (demo_task_events 1)) = Decided (Success [7])" by (rule demo_task_decided)
  show three: "tk_instance (task_run (demo_task_events 3)) = Decided (Success [7])" by (rule demo_task_decided)
  show "qe_hash (nd_env (task_node (demo_task_events 1))) [7] = qe_hash (nd_env (task_node (demo_task_events 3))) [7]"
    by (rule manager_agreement [OF run _ _ one three]) (simp_all add: demo_bound)
qed

text \<open>
  C3. Validity. What a task reports as decided is the value its first caller proposed or one
  that the caller's value check accepted against it; neither a proposal, nor a round change, nor a
  decided message of the network gets another value through.
\<close>

theorem decided_value_valid:
  assumes "tk_instance (task_run es) = Decided (Success d)"
  shows "\<exists>init now. Initialize init now \<in> set es \<and> acceptable (qi_env init) (qi_initial init) d"
  using assms by (rule task_decided_acceptable)

theorem decided_value_valid_witness:
  "tk_instance (task_run (demo_task_events 1)) = Decided (Success [7])
   \<and> (\<exists>init now. Initialize init now \<in> set (demo_task_events 1) \<and> acceptable (qi_env init) (qi_initial init) [7])"
  using decided_value_valid [OF demo_task_decided] demo_task_decided by blast

text \<open>
  C4. Every caller is served. When an instance has decided and its task still runs, each caller
  that ever asked for the result has been handed the decided value, whether it asked first, while
  the instance ran, or after it had decided.
\<close>

theorem listeners_get_decision:
  assumes "tk_instance (task_run es) = Decided v" and "tk_running (task_run es)"
    and "Initialize init now \<in> set es"
  shows "(qi_listener init, v) \<in> set (tk_notified (task_run es))"
  using assms by (rule task_decided_served)

theorem listeners_get_decision_witness:
  "tk_instance (task_run (demo_task_events 1)) = Decided (Success [7])
   \<and> tk_running (task_run (demo_task_events 1))
   \<and> (3, Success [7]) \<in> set (tk_notified (task_run (demo_task_events 1)))"
proof -
  have run: "tk_running (task_run (demo_task_events 1))"
    using demo_task_run [OF demo_start(1)] by (simp add: demo_decided_def)
  have "Initialize (demo_init 1) 0 \<in> set (demo_task_events 1)" by (simp add: demo_task_events_def)
  from listeners_get_decision [OF demo_task_decided run this] show ?thesis
    using run demo_task_decided by (simp add: demo_init_def)
qed

text \<open>
  C5. No two callers of an instance are told different things, and a caller is not told twice
  different things, on every sequence of requests, messages, timeouts and a closing queue.
\<close>

theorem listeners_agree:
  assumes "(l, c) \<in> set (tk_notified (task_run es))" and "(l', c') \<in> set (tk_notified (task_run es))"
  shows "c = c'"
  using assms by (rule task_notified_same)

theorem listeners_agree_witness:
  "(3, Success [7]) \<in> set (tk_notified (task_run (demo_task_events 1)))
   \<and> Success [7] = (Success [7] :: bytes completed)"
proof -
  have "(3, Success [7]) \<in> set (tk_notified (task_run (demo_task_events 1)))"
    using demo_task_run [OF demo_start(1)] by (simp add: demo_decided_def)
  with listeners_agree [OF this this] show ?thesis by blast
qed

text \<open>
  C6. Routing inverts naming. A message whose identifier was built for an instance, at that
  instance's height, is routed to this instance and to no other: the identifier's domain, role and
  executor, the Ethereum fork of the height and the protocol fork recover it.
\<close>

theorem routing_inverts_naming:
  assumes "instance_id_active mg i" and "length domain = 4"
    and "\<And>pk kind h. i = ProposerInstanceId pk kind h \<Longrightarrow> pk_deserialize pk = Some pk"
  shows "route_message pk_deserialize mg (instance_message_id domain i) (instance_height_of i) = Ok i"
  using assms by (rule route_instance)

theorem routing_inverts_naming_witness:
  "instance_id_active (demo_manager 1) demo_instance
   \<and> route_message Some (demo_manager 1) (instance_message_id [0, 0, 0, 1] demo_instance) 5 = Ok demo_instance"
proof -
  have a: "instance_id_active (demo_manager 1) demo_instance"
    by (simp add: demo_instance_def COMMITTEE_ID_LEN_def gloas_enabled_at_slot_def demo_manager_def demo_chain_def)
  have "instance_height_of demo_instance = 5" by (simp add: demo_instance_def)
  with routing_inverts_naming [OF a, of "[0, 0, 0, 1]" Some] a show ?thesis by (simp add: demo_instance_def)
qed

section \<open>The message validator\<close>



text \<open>
  C8. The full data of an accepted message is the data its root names: with values that hash as
  SHA-256 of their canonical encoding, an instance never stores a value under a foreign root.
\<close>

theorem accepted_full_data_bound_to_root:
  assumes "validate X va message_data context = (va', Some (ValidationSuccess vm))"
    and "vm_ssv_message vm = ValidatedQbftMessage m"
    and "\<And>bs d. qe_data_from_ssz E bs = Inr d \<Longrightarrow> bs \<noteq> [] \<and> qe_data_as_ssz E d = bs"
    and "\<And>d. qe_hash E d = cy_sha256 (ve_crypto X) (qe_data_as_ssz E d)"
  shows "full_data_bound E \<lparr>wq_signed_message = vm_signed_ssv_message vm, wq_qbft_message = m\<rparr>"
  using assms by (rule validated_bound)

theorem accepted_full_data_bound_to_root_witness:
  "full_data_bound (demo_env\<lparr>qe_hash := vd_sha256\<rparr>)
     \<lparr>wq_signed_message = vd_signed, wq_qbft_message = demo_message Proposal\<rparr>"
proof -
  let ?E = "demo_env\<lparr>qe_hash := vd_sha256\<rparr>"
  have "\<And>bs d. qe_data_from_ssz ?E bs = Inr d \<Longrightarrow> bs \<noteq> [] \<and> qe_data_as_ssz ?E d = bs"
    by (auto simp: demo_env_def split: if_splits)
  moreover have "\<And>d. qe_hash ?E d = cy_sha256 (ve_crypto vd_env) (qe_data_as_ssz ?E d)"
    by (simp add: demo_env_def vd_env_def vd_crypto_def)
  ultimately show ?thesis
    using accepted_full_data_bound_to_root [OF vd_validate, of "demo_message Proposal" ?E] by simp
qed

text \<open>
  C9. At most one message per signer, round and kind. On every sequence of messages (any bytes, on
  any topic), cleanings and changes of the network state, the counters of every signer state stay at
  most one, and the distinct signing roots of proposer preferences and request authorisations stay
  within four and eight.
\<close>

theorem message_counts_bounded:
  assumes "\<And>r. 0 < stored_slot_count C r slots_per_epoch"
    and "va_duty_state_map (foldl validator_step
      (validator_new ns slots_per_epoch epochs_per_period sync_size router schedule C) es) i = Some ds"
    and "get_signer_state (operator_or_new ds op) sl = Some ss"
  shows "counts_ok (ss_message_counts ss) \<and> budgets_ok ss"
  using validator_ok_counts [OF validator_run_ok [OF assms(1)] assms(2,3)] by (simp add: signer_state_ok_def)

theorem message_counts_bounded_witness:
  "\<exists>ss. get_signer_state (operator_or_new vd_after 2) 5 = Some ss
     \<and> ct_proposal (ss_message_counts ss) = 1 \<and> counts_ok (ss_message_counts ss) \<and> budgets_ok ss"
proof -
  have pos: "0 < stored_slot_count demo_chain r 32" for r
    by (cases r) (simp_all add: demo_chain_def LATE_SLOT_ALLOWANCE_def)
  let ?ss = "signer_state_update vd_sha256 (signer_state_new 5 1) vd_signed (demo_message Proposal)"
  have "va_duty_state_map (foldl validator_step vd_validator [Incoming vd_env [] SkipValidation]) demo_id = Some vd_after"
    by (simp add: vd_validate)
  then have "counts_ok (ss_message_counts ?ss) \<and> budgets_ok ?ss"
    using message_counts_bounded [OF pos] vd_entry unfolding vd_validator_def by metis
  moreover have "ct_proposal (ss_message_counts ?ss) = 1"
    by (simp add: demo_message_def signer_state_new_def message_counts_default_def record_consensus_message_def)
  ultimately show ?thesis
    using vd_entry by blast
qed



text \<open>
  C11. A rejected consensus message leaves no trace: whatever check it fails, every operator's
  recorded state is as before.
\<close>

theorem rejected_message_changes_nothing:
  assumes "validate_consensus_message V ds dp = (ds', r)" and "\<nexists>v. r = Ok v"
  shows "same_operators ds ds'"
  using assms by (rule validate_consensus_message_D(2))

theorem rejected_message_changes_nothing_witness:
  "same_operators vd_after (fst (validate_consensus_message vd_context vd_after vd_duties))"
proof -
  have "duty_state_ok vd_duty_state" by (simp add: vd_duty_state_def duty_state_new_ok)
  then have "snd (validate_consensus_message vd_context vd_after vd_duties) \<noteq> Ok v" for v
    by (rule replay_rejected [OF _ vd_consensus, of 2 vd_context "demo_message Proposal"])
       (simp_all add: vd_context_fields vd_signed_def vd_crypto_fields vd_codec_def)
  then show ?thesis
    by (intro rejected_message_changes_nothing
        [of vd_context vd_after vd_duties _ "snd (validate_consensus_message vd_context vd_after vd_duties)"]) auto
qed



section \<open>Where the validator and the manager meet\<close>



text \<open>
  C14. One proposer. The operator whose proposal the validator lets through in a round is exactly the
  one the instance's leader function names, for the same schedule and epoch length, although the two
  are computed by different code.
\<close>

theorem validator_and_instance_leader_agree:
  assumes "instance_leader_fn mg height = Some dl" and "mg_slots_per_epoch mg = slots" and "mg_fork_schedule mg = schedule"
    and "com \<noteq> []" and "slots \<noteq> 0" and "r \<noteq> 0" and "unat height + unat r + unat (height div slots) < 2 ^ 64"
  shows "round_robin_proposer C height r com slots schedule = Ok op \<longleftrightarrow> leader_function dl op r height com"
  using assms by (rule validator_leader_is_instance_leader)

theorem validator_and_instance_leader_agree_witness:
  "round_robin_proposer demo_chain 5 1 demo_committee 32 demo_schedule = Ok 2
   \<and> leader_function default_leader_function_default 2 1 5 demo_committee"
proof -
  have "instance_leader_fn (demo_manager 1) 5 = Some default_leader_function_default"
    by (simp add: instance_leader_fn_def demo_manager_def vd_active_fork default_leader_function_new_def
        default_leader_function_default_def)
  from validator_and_instance_leader_agree [OF this, of 32 demo_schedule demo_committee 1 demo_chain 2]
  show ?thesis by (simp add: demo_manager_def demo_committee_def vd_leader [unfolded demo_committee_def])
qed

section \<open>Threshold keys\<close>

text \<open>
  C15. Splitting and combining are inverse. If a key is split with some threshold, the signatures
  of any distinct shares that are at least the threshold combine to the signature of the key: the
  interpolation at zero of \<open>combine_signatures\<close> undoes the polynomial of \<open>split_with_rng\<close>. The group
  of signatures is a vector space over the scalars (\<open>curve_group\<close>), and \<open>h\<close> is the hashed message.
\<close>

theorem split_key_signs:
  fixes smul :: "'f::field \<Rightarrow> 'g::ab_group_add \<Rightarrow> 'g"
  assumes "curve_group smul"
    and "split_with_rng key threshold ids random = Ok shares"
    and "set chosen \<subseteq> set shares" and "ids_ok (map fst chosen)" and "unat threshold \<le> length chosen"
  shows "combine_signatures smul (map (\<lambda>s. Some (smul (snd s) h)) chosen) (map fst chosen) = Ok (smul key h)"
  using assms by (rule curve_group.split_combine)

theorem split_key_signs_witness:
  "combine_signatures bls_smul (map (\<lambda>s. Some (bls_smul (snd s) 10)) bls_chosen) (map fst bls_chosen) =
     Ok (bls_smul 5 10)"
  by (rule split_key_signs [OF bls_group bls_split]) (simp_all add: ids_ok_def bls_chosen_def)

text \<open>
  C16. Accepted shares let every quorum sign. If the check of a new validator accepts the share
  public keys, then any distinct shares that reach the quorum of the committee combine to the
  validator's signature, whoever dealt the shares: the public keys are those of the secrets
  \<open>secret i\<close> and of the validator key for a generator \<open>G\<close>, and ids below \<open>2\<^sup>6\<^sup>4\<close> are distinct scalars.
\<close>

theorem accepted_shares_quorum_signs:
  fixes smul1 :: "'f::field \<Rightarrow> 'p::ab_group_add \<Rightarrow> 'p" and smul2 :: "'f \<Rightarrow> 's::ab_group_add \<Rightarrow> 's"
  assumes "curve_group smul1" and "curve_group smul2" and "inj (scalar_of :: u64 \<Rightarrow> 'f)"
    and "validate_share_public_keys smul1 key_validate vpk shares = Ok u"
    and "set chosen \<subseteq> set shares" and "distinct (map fst chosen)"
    and "quorum_size (length shares) \<le> length chosen"
    and "key_validate vpk = Some (smul1 key G)" and "G \<noteq> 0"
    and "\<forall>s \<in> set chosen. key_validate (snd s) = Some (smul1 (secret (fst s)) G)"
  shows "combine_signatures smul2 (map (\<lambda>s. Some (smul2 (secret (fst s)) h)) chosen)
           (map (\<lambda>s. key_id_of (fst s)) chosen) = Ok (smul2 key h)"
  using assms by (rule quorum_signs)

theorem accepted_shares_quorum_signs_witness:
  "combine_signatures bls_smul
     (map (\<lambda>s. Some (bls_smul ((\<lambda>i. scalar_of i * scalar_of i + 2 * scalar_of i + 5) (fst s)) 10))
        [(2, [13]), (4, [29]), (1, [8 :: 8 word])])
     (map (\<lambda>s. key_id_of (fst s)) [(2, [13]), (4, [29]), (1, [8 :: 8 word])]) = Ok (bls_smul 5 10)"
  by (rule accepted_shares_quorum_signs [OF bls_group bls_group bls_scalar_inj bls_valid, where G = 1])
     (simp_all add: bls_shares_def bls_committee bls_key_validate_def bls_smul_def)

text \<open>
  C17. One share short of the quorum does not do. For accepted shares, the public keys of any
  distinct shares that are one fewer than the quorum interpolate to a key that is not the
  validator's.
\<close>

theorem accepted_shares_one_short:
  fixes smul :: "'f::field \<Rightarrow> 'g::ab_group_add \<Rightarrow> 'g"
  assumes "curve_group smul" and "inj (scalar_of :: u64 \<Rightarrow> 'f)"
    and "validate_share_public_keys smul key_validate vpk shares = Ok u"
    and "set chosen \<subseteq> set shares" and "distinct (map fst chosen)"
    and "Suc (length chosen) = quorum_size (length shares)"
  shows "\<exists>g. interpolate_public_key smul (map (share_point key_validate) chosen)
               (map (\<lambda>s. key_id_of (fst s)) chosen) = Ok g \<and> key_validate vpk \<noteq> Some g"
  using assms by (rule one_below_quorum)

theorem accepted_shares_one_short_witness:
  "\<exists>g. interpolate_public_key bls_smul (map (share_point bls_key_validate) [(3 :: u64, [20]), (2, [13])])
         (map (\<lambda>s. key_id_of (fst s)) [(3, [20 :: 8 word]), (2, [13])]) = Ok g \<and> bls_key_validate [5] \<noteq> Some g"
  by (rule accepted_shares_one_short [OF bls_group bls_scalar_inj bls_valid])
     (simp_all add: bls_shares_def bls_committee)


section \<open>Contract events and the database\<close>



text \<open>
  C20. The tables keep their shape. In the tables of every reachable processor a validator belongs
  to a stored cluster whose id is that of its owner and its members, the members are known
  operators in the number of a committee, and there is exactly one share for each of them.
\<close>

theorem stored_validator_well_formed:
  assumes "new_with_state (en_sha256 env) (en_curve env) order operator initial_db = Ok st"
    and "processor_reach env mode (new_node env operator st) p" and "inj (en_keccak256 env)"
    and "\<And>xs. set (order xs) = set xs"
    and "map_of (db_validators (nd_db (pr_database p))) pk = Some v"
  shows "\<exists>c. map_of (db_clusters (nd_db (pr_database p))) (vr_cluster_id v) = Some c
           \<and> names_cluster (en_keccak256 env) (vr_cluster_id v) (cr_owner c) (members_of (nd_db (pr_database p)) (vr_cluster_id v))
           \<and> (\<forall>i \<in> members_of (nd_db (pr_database p)) (vr_cluster_id v). map_of (db_operators (nd_db (pr_database p))) i \<noteq> None)
           \<and> is_valid_committee_size (card (members_of (nd_db (pr_database p)) (vr_cluster_id v)))
           \<and> fst ` set (share_pubkeys_of (nd_db (pr_database p)) pk) = members_of (nd_db (pr_database p)) (vr_cluster_id v)
           \<and> distinct (map fst (share_pubkeys_of (nd_db (pr_database p)) pk))"
proof -
  have ok: "db_ok (en_keccak256 env) (en_curve env) (nd_db (pr_database p))"
    using reach_in_step [OF assms(2) new_node_in_step [OF assms(1,4)] assms(3)] by (simp add: in_step_def)
  show ?thesis using stored_cluster [OF ok assms(5)] stored_shares(2,3) [OF ok assms(5)] by blast
qed

theorem stored_validator_well_formed_witness:
  "fst ` set (share_pubkeys_of (nd_db (pr_database demo_p2)) [5]) =
     members_of (nd_db (pr_database demo_p2)) demo_cluster_id"
proof -
  obtain v where v: "map_of (db_validators (nd_db (pr_database demo_p2))) [5] = Some v" "vr_cluster_id v = demo_cluster_id"
    by (simp add: demo_block2 validator_db_def)
  show ?thesis
    using stored_validator_well_formed [OF demo_load demo_reach [unfolded demo_p0_def] demo_inj _ v(1)] v(2) by auto
qed

text \<open>
  C21. Stored validators can sign. For a validator in the tables of a reachable processor, any
  distinct stored shares that reach the quorum of its cluster combine to the validator's signature:
  no event can bring a validator into the tables whose operators cannot sign for it.
\<close>

theorem stored_validator_signs:
  fixes smul2 :: "'f::field \<Rightarrow> 's::ab_group_add \<Rightarrow> 's"
    and env :: "('k, 'f, 'g::ab_group_add) eth_env"
  assumes "new_with_state (en_sha256 env) (en_curve env) order operator initial_db = Ok st"
    and "processor_reach env mode (new_node env operator st) p" and "inj (en_keccak256 env)"
    and "\<And>xs. set (order xs) = set xs"
    and "map_of (db_validators (nd_db (pr_database p))) pk = Some v"
    and "curve_group (cv_smul (en_curve env))" and "curve_group smul2" and "inj (scalar_of :: u64 \<Rightarrow> 'f)"
    and "cv_key_validate (en_curve env) pk = Some (cv_smul (en_curve env) key G)" and "G \<noteq> 0"
    and "set chosen \<subseteq> set (share_pubkeys_of (nd_db (pr_database p)) pk)" and "distinct (map fst chosen)"
    and "quorum_size (card (members_of (nd_db (pr_database p)) (vr_cluster_id v))) \<le> length chosen"
    and "\<forall>s \<in> set chosen. cv_key_validate (en_curve env) (snd s) = Some (cv_smul (en_curve env) (secret (fst s)) G)"
  shows "combine_signatures smul2 (map (\<lambda>s. Some (smul2 (secret (fst s)) h)) chosen)
           (map (\<lambda>s. key_id_of (fst s)) chosen) = Ok (smul2 key h)"
proof -
  have ok: "db_ok (en_keccak256 env) (en_curve env) (nd_db (pr_database p))"
    using reach_in_step [OF assms(2) new_node_in_step [OF assms(1,4)] assms(3)] by (simp add: in_step_def)
  note s = stored_shares [OF ok assms(5)]
  have "quorum_size (length (share_pubkeys_of (nd_db (pr_database p)) pk)) \<le> length chosen" using assms(13) s(4) by simp
  then show ?thesis by (rule quorum_signs [OF assms(6-8) s(1) assms(11,12) _ assms(9,10,14)])
qed

theorem stored_validator_signs_witness:
  "combine_signatures bls_smul
     (map (\<lambda>s. Some (bls_smul ((\<lambda>i. scalar_of i * scalar_of i + 2 * scalar_of i + 5) (fst s)) 10))
        [(2, [13]), (4, [29]), (1, [8 :: 8 word])])
     (map (\<lambda>s. key_id_of (fst s)) [(2, [13]), (4, [29]), (1, [8 :: 8 word])]) = Ok (bls_smul 5 10)"
proof -
  obtain v where v: "map_of (db_validators (nd_db (pr_database demo_p2))) [5] = Some v" "vr_cluster_id v = demo_cluster_id"
    by (simp add: demo_block2 validator_db_def)
  have curve: "cv_smul (en_curve events_env) = bls_smul" "cv_key_validate (en_curve events_env) = bls_key_validate"
    by (simp_all add: events_env_def)
  have rows: "share_pubkeys_of (nd_db (pr_database demo_p2)) [5] = bls_shares"
    "members_of (nd_db (pr_database demo_p2)) demo_cluster_id = {1, 2, 3, 4}"
    by (auto simp: share_pubkeys_of_def members_of_def demo_block2 validator_db_def bls_shares_def)
  show ?thesis
    by (rule stored_validator_signs [OF demo_load demo_reach [unfolded demo_p0_def] demo_inj _ v(1)
        bls_group [folded curve(1)] bls_group bls_scalar_inj, where G = 1])
       (simp_all add: curve rows v(2) bls_shares_def bls_committee bls_key_validate_def bls_smul_def)
qed

text \<open>
  C22. A batch of logs is its blocks, one after the other. The loop that buffers the logs of the
  current block and flushes it on a change of block does what cutting the batch into its runs of
  equal block numbers and processing them in turn does, with an empty block at the end when the
  last block is not the end of the range. Every log is in exactly one of the blocks, in order.
\<close>

theorem batch_is_its_blocks:
  "process_logs env mode logs live end_block p =
     for_each_s (\<lambda>p (n, block). process_block_logs env mode live block n p) p (batch_blocks end_block logs)
   \<and> concat (map snd (batch_blocks end_block logs)) = logs
   \<and> (\<forall>b \<in> set (batch_blocks end_block logs). \<forall>l \<in> set (snd b). block_of end_block l = fst b)
   \<and> (\<exists>bs block. batch_blocks end_block logs = bs @ [(end_block, block)])"
  using process_logs_batch [of env mode logs live end_block p] batch_blocks_spec [of end_block logs]
  by (simp add: run_blocks_def)

theorem batch_is_its_blocks_witness:
  "process_logs events_env Node (map operator_log [1, 2, 3, 4]) True 12 demo_p0 =
     for_each_s (\<lambda>p (n, block). process_block_logs events_env Node True block n p) demo_p0
       [(10, map operator_log [1, 2, 3, 4]), (12, [])]"
  using batch_is_its_blocks [of events_env Node "map operator_log [1, 2, 3, 4]" True 12 demo_p0]
  by (simp add: batch_blocks_def last_block_def block_of_def operator_log_def Let_def)

text \<open>
  C23. A batch never crashes the node. Processing the logs of a batch on a reachable processor ends
  with success or with an error: none of the panics the code could reach, such as the removal of a
  validator that the state does not hold, is reached.
\<close>

theorem batch_never_panics:
  assumes "new_with_state (en_sha256 env) (en_curve env) order operator initial_db = Ok st"
    and "processor_reach env mode (new_node env operator st) p" and "inj (en_keccak256 env)"
    and "\<And>xs. set (order xs) = set xs"
    and "blocks_admissible env mode live p (batch_blocks end_block logs)"
  shows "snd (process_logs env mode logs live end_block p) \<noteq> Panic"
  unfolding process_logs_batch
  by (rule run_blocks_no_panic [OF reach_in_step [OF assms(2) new_node_in_step [OF assms(1,4)] assms(3)] assms(3,5)])

theorem batch_never_panics_witness:
  "snd (process_logs events_env Node [validator_log] True 11 demo_p1) \<noteq> Panic"
proof -
  have "processor_reach events_env Node (new_node events_env (Pubkey (operator_key 1)) loaded_start) demo_p1"
    unfolding demo_p1_def demo_p0_def
    by (intro processor_reach.block processor_reach.start demo_block1_admissible [unfolded demo_p0_def])
  moreover have "blocks_admissible events_env Node True demo_p1 (batch_blocks 11 [validator_log])"
    using demo_block2_admissible by (simp add: batch_blocks_def last_block_def block_of_def validator_log_def Let_def)
  ultimately show ?thesis using batch_never_panics [OF demo_load _ demo_inj] by simp
qed

text \<open>
  C24. A batch that fails is cut at a block. If processing a batch ends in an error, the tables, the
  state in memory and the actions sent are those after some first blocks of the batch have
  succeeded: no effect of the failed block or of a later one is left but registrations with the
  slashing database.
\<close>

theorem failed_batch_is_a_prefix:
  assumes "process_logs env mode logs live end_block p = (p', Err e)"
  shows "\<exists>k p1. k < length (batch_blocks end_block logs)
    \<and> for_each_s (\<lambda>p (n, block). process_block_logs env mode live block n p) p (take k (batch_blocks end_block logs)) = (p1, Ok ())
    \<and> pr_database p' = pr_database p1 \<and> pr_sent p' = pr_sent p1"
  using run_blocks_prefix [OF assms [unfolded process_logs_batch]] by (simp add: run_blocks_def)

theorem failed_batch_is_a_prefix_witness:
  "\<exists>k p1. k < length (batch_blocks 200 [operator_log 1])
    \<and> for_each_s (\<lambda>p (n, block). process_block_logs events_env Node True block n p) demo_p0 (take k (batch_blocks 200 [operator_log 1])) = (p1, Ok ())
    \<and> pr_database (fst (process_logs events_env Node [operator_log 1] True 200 demo_p0)) = pr_database p1
    \<and> pr_sent (fst (process_logs events_env Node [operator_log 1] True 200 demo_p0)) = pr_sent p1"
proof -
  obtain p1 where "process_block_logs events_env Node True [operator_log 1] 10 demo_p0 = (p1, Ok ())"
    using demo_first_operator by blast
  moreover obtain p' where "process_block_logs events_env Node True [] 200 p1 = (p', Err (Database (SQLError ''commit'')))"
    using uncommitted_block by blast
  ultimately have "process_logs events_env Node [operator_log 1] True 200 demo_p0 = (p', Err (Database (SQLError ''commit'')))"
    by (simp add: process_logs_batch run_blocks_def batch_blocks_def last_block_def block_of_def operator_log_def Let_def)
  from failed_batch_is_a_prefix [OF this] show ?thesis
    using \<open>process_logs events_env Node [operator_log 1] True 200 demo_p0 = _\<close> by simp
qed

text \<open>
  C25. Slashing protection comes first. Whatever blocks a processor has worked through, succeeded
  or failed, every validator in its tables has been registered with the slashing database.
\<close>

theorem stored_validators_registered:
  assumes "processor_reach env mode (new_node env operator st) p"
    and "map_of (db_validators (nd_db (pr_database p))) pk = Some v"
  shows "pk \<in> set (pr_registered p)"
proof -
  have "processor_registered (new_node env operator st)"
    by (simp add: processor_registered_def new_node_def initial_db_def)
  from reach_registered [OF assms(1) this] show ?thesis
    using map_of_SomeD [OF assms(2)] unfolding processor_registered_def by force
qed

theorem stored_validators_registered_witness: "[5] \<in> set (pr_registered demo_p2)"
proof -
  obtain v where "map_of (db_validators (nd_db (pr_database demo_p2))) [5] = Some v" using demo_validator_stored by blast
  then show ?thesis by (rule stored_validators_registered [OF demo_reach [unfolded demo_p0_def]])
qed


section \<open>Collecting signatures\<close>

text \<open>
  C27. A task gets the signature it asked for. Whatever messages a collector works through, what it
  sends to a task is the full signature, which verifies for the root of the collector under the
  validator key in that very task's request; so all tasks get the same signature.
\<close>

theorem collector_sends_verified:
  assumes "signature_collector_loop env ms (collector_state_new signing_root) = (s, flow)"
    and "(n, sig) \<in> set (sgc_sent s)"
  shows "sgc_full_signature s = Some sig
    \<and> (\<exists>m \<in> set ms. \<exists>c t pk d. fst m = RegisterNotifier (Some n) c t pk
         \<and> bl_decompress env pk = Some d \<and> bl_verify env sig d signing_root)"
  using assms by (rule sent_verified)

theorem collector_sends_verified_witness:
  "\<exists>m \<in> set demo_collector_messages. \<exists>c t pk d. fst m = RegisterNotifier (Some 7) c t pk
     \<and> bl_decompress demo_bls pk = Some d \<and> bl_verify demo_bls (demo_signature 5) d demo_root"
proof -
  obtain s where "signature_collector_loop demo_bls demo_collector_messages (collector_state_new demo_root) = (s, Continue)"
    and "(7, demo_signature 5) \<in> set (sgc_sent s)" using demo_collected by force
  from collector_sends_verified [OF this] show ?thesis by blast
qed



text \<open>
  C29. One committee message for a slot. However the callbacks of a committee, the collectors, the
  cleaner and the clock are interleaved, the node tries to send at most one post-consensus message
  for a committee and slot: the record of the attempt goes only when the slot is stale, and a
  callback that comes later finds it stale.
\<close>

theorem committee_message_sent_once:
  assumes "collector_reach env now0 s" and "slot_sub_mono (me_chain env)"
  shows "length (filter (is_committee_post slot c) (scm_attempts (sy_manager s))) \<le> 1"
  using assms by (rule committee_post_at_most_once)

theorem committee_message_sent_once_witness:
  "length (filter (is_committee_post 5 (replicate 32 5)) (scm_attempts (sy_manager (demo_after (Suc (Suc 0)))))) \<le> 1
   \<and> scm_attempts (sy_manager (demo_after (Suc (Suc 0)))) \<noteq> []"
  using committee_message_sent_once [OF demo_after_reach demo_chain_mono] demo_attempted by blast



end
